(* ===== verification/Prelude.thy ===== *)
theory Prelude
  imports Main "HOL-Library.Word" "HOL-Library.AList" "HOL-Library.Char_ord"
    "HOL-Library.List_Lexorder"
begin

text \<open>
  Shared vocabulary of the development: Go maps as association lists, Go strings as byte
  lists, \<open>time.Time\<close> and \<open>time.Duration\<close> as nanosecond counts, the decimal
  conversions of package \<open>strconv\<close> and the binary search of package \<open>sort\<close>.

  A Go map is an association list whose keys are distinct. A lookup is \<open>map_of\<close>, a
  store is \<open>AList.update\<close> and a delete is \<open>AList.delete\<close>. A \<open>range\<close> loop
  visits the entries in list order: Go leaves the order open, and the components state where
  their result does not depend on it.

  A \<open>time.Time\<close> is the integer number of nanoseconds since Go's zero time (the first
  instant of year 1), so the zero time is 0,
  \<open>IsZero\<close> is \<open>t = 0\<close>, \<open>Before\<close> is \<open><\<close>, \<open>After\<close> is \<open>>\<close> and
  \<open>Add\<close> is \<open>+\<close>. Every reading of the clock is an argument of the model. A nil map
  and an empty map are the same list: no code modelled here tells them apart.

  Strings are lists of 8-bit characters compared lexicographically, as Go compares them. The
  case mapping and the trimming are those of the ASCII range, which is what identifiers,
  provider keys and model names use.
\<close>

named_theorems gomap_simps "lookups after stores and deletes of Go maps"

type_synonym ('k, 'v) gomap = "('k \<times> 'v) list"
type_synonym time = int
type_synonym duration = int
type_synonym u64 = "64 word"

abbreviation (input) zero_time :: time where "zero_time \<equiv> 0"
abbreviation (input) second_ns :: duration where "second_ns \<equiv> 1000000000"
abbreviation (input) minute_ns :: duration where "minute_ns \<equiv> 60000000000"
abbreviation (input) hour_ns :: duration where "hour_ns \<equiv> 3600000000000"

text \<open>\<open>Time.Unix\<close>: whole seconds since 1970, which lies this many seconds after the zero time.\<close>

definition unix_epoch_seconds :: int where "unix_epoch_seconds = 62135596800"

definition unix_seconds :: "time \<Rightarrow> int" where
  "unix_seconds t = t div second_ns - unix_epoch_seconds"

section \<open>Go maps\<close>

definition has_key :: "('k, 'v) gomap \<Rightarrow> 'k \<Rightarrow> bool" where
  "has_key m k \<longleftrightarrow> map_of m k \<noteq> None"

definition get_or :: "'v \<Rightarrow> ('k, 'v) gomap \<Rightarrow> 'k \<Rightarrow> 'v" where
  "get_or d m k = (case map_of m k of None \<Rightarrow> d | Some v \<Rightarrow> v)"

definition gokeys :: "('k, 'v) gomap \<Rightarrow> 'k list" where
  "gokeys m = List.map fst m"

definition wf_map :: "('k, 'v) gomap \<Rightarrow> bool" where
  "wf_map m \<longleftrightarrow> distinct (List.map fst m)"

lemma map_of_update [simp, gomap_simps]:
  "map_of (AList.update k v m) k' = (if k' = k then Some v else map_of m k')"
  by (simp add: update_conv')

lemma map_of_delete [simp, gomap_simps]:
  "map_of (AList.delete k m) k' = (if k' = k then None else map_of m k')"
  by (simp add: delete_conv')

lemma wf_map_Nil [simp]: "wf_map []"
  by (simp add: wf_map_def)

lemma wf_map_update [simp, intro]: "wf_map m \<Longrightarrow> wf_map (AList.update k v m)"
  by (simp add: wf_map_def distinct_update)

lemma wf_map_delete [simp, intro]: "wf_map m \<Longrightarrow> wf_map (AList.delete k m)"
  by (simp add: wf_map_def distinct_delete)

lemma wf_map_Cons: "wf_map ((k, v) # m) \<longleftrightarrow> k \<notin> fst ` set m \<and> wf_map m"
  by (simp add: wf_map_def)

lemma has_key_update [simp, gomap_simps]:
  "has_key (AList.update k v m) k' \<longleftrightarrow> k' = k \<or> has_key m k'"
  by (simp add: has_key_def)

lemma has_key_delete [simp, gomap_simps]:
  "has_key (AList.delete k m) k' \<longleftrightarrow> k' \<noteq> k \<and> has_key m k'"
  by (simp add: has_key_def)

lemma has_key_Nil [simp]: "\<not> has_key [] k"
  by (simp add: has_key_def)

lemma has_key_set: "has_key m k \<longleftrightarrow> k \<in> fst ` set m"
  by (simp add: has_key_def map_of_eq_None_iff)

lemma get_or_update [simp, gomap_simps]:
  "get_or d (AList.update k v m) k' = (if k' = k then v else get_or d m k')"
  by (simp add: get_or_def)

lemma get_or_delete [simp, gomap_simps]:
  "get_or d (AList.delete k m) k' = (if k' = k then d else get_or d m k')"
  by (simp add: get_or_def)

lemma get_or_Nil [simp]: "get_or d [] k = d"
  by (simp add: get_or_def)

lemma get_or_Cons [simp]: "get_or d ((k, v) # m) k' = (if k' = k then v else get_or d m k')"
  by (simp add: get_or_def)

lemma wf_map_lookup: "wf_map m \<Longrightarrow> (k, v) \<in> set m \<Longrightarrow> map_of m k = Some v"
  by (simp add: wf_map_def)

lemma wf_map_filter: "wf_map m \<Longrightarrow> wf_map (filter P m)"
  by (induction m) (auto simp: wf_map_def)

lemma wf_map_map_snd [simp]: "wf_map (List.map (\<lambda>(k, v). (k, f k v)) m) = wf_map m"
  by (simp add: wf_map_def comp_def case_prod_unfold)

lemma map_of_map_values:
  "map_of (List.map (\<lambda>(k, v). (k, f k v)) m) x = map_option (f x) (map_of m x)"
  by (induction m) auto

section \<open>Go strings\<close>

definition is_space :: "char \<Rightarrow> bool" where
  "is_space c \<longleftrightarrow> of_char c \<in> {9 :: nat, 10, 11, 12, 13, 32}"

definition lower_char :: "char \<Rightarrow> char" where
  "lower_char c = (let n = of_char c :: nat in if 65 \<le> n \<and> n \<le> 90 then char_of (n + 32) else c)"

definition to_lower :: "string \<Rightarrow> string" where
  "to_lower s = List.map lower_char s"

definition trim_left :: "string \<Rightarrow> string" where
  "trim_left s = dropWhile is_space s"

definition trim_space :: "string \<Rightarrow> string" where
  "trim_space s = rev (trim_left (rev (trim_left s)))"

definition equal_fold :: "string \<Rightarrow> string \<Rightarrow> bool" where
  "equal_fold s t \<longleftrightarrow> to_lower s = to_lower t"

fun has_prefix :: "string \<Rightarrow> string \<Rightarrow> bool" where
  "has_prefix s [] = True"
| "has_prefix [] (p # ps) = False"
| "has_prefix (c # s) (p # ps) = (c = p \<and> has_prefix s ps)"

definition has_suffix :: "string \<Rightarrow> string \<Rightarrow> bool" where
  "has_suffix s t = has_prefix (rev s) (rev t)"

fun str_contains :: "string \<Rightarrow> string \<Rightarrow> bool" where
  "str_contains [] t = (t = [])"
| "str_contains (c # s) t = (has_prefix (c # s) t \<or> str_contains s t)"

text \<open>\<open>strings.LastIndex\<close> of a single byte: the position of its last occurrence.\<close>

fun last_index :: "string \<Rightarrow> char \<Rightarrow> nat option" where
  "last_index [] c = None"
| "last_index (x # s) c =
     (case last_index s c of Some i \<Rightarrow> Some (Suc i) | None \<Rightarrow> if x = c then Some 0 else None)"

lemma has_prefix_iff: "has_prefix s p \<longleftrightarrow> (\<exists>r. s = p @ r)"
  by (induction s p rule: has_prefix.induct) auto

lemma has_prefix_append [simp]: "has_prefix (p @ r) p"
  by (auto simp: has_prefix_iff)

lemma has_suffix_append [simp]: "has_suffix (r @ p) p"
  by (simp add: has_suffix_def)

lemma last_index_None: "last_index s c = None \<longleftrightarrow> c \<notin> set s"
  by (induction s) (auto split: option.splits)

lemma last_index_append:
  "last_index (s @ t) c =
     (case last_index t c of Some i \<Rightarrow> Some (length s + i) | None \<Rightarrow> last_index s c)"
  by (induction s) (auto split: option.splits)

lemma last_index_less: "last_index s c = Some i \<Longrightarrow> i < length s"
  by (induction s arbitrary: i) (auto split: option.splits if_splits)

lemma to_lower_Nil [simp]: "to_lower [] = []"
  by (simp add: to_lower_def)

lemma lower_char_idem [simp]: "lower_char (lower_char c) = lower_char c"
proof (cases "65 \<le> (of_char c :: nat) \<and> (of_char c :: nat) \<le> 90")
  case True
  then have "(of_char (char_of ((of_char c :: nat) + 32)) :: nat) = of_char c + 32"
    by simp
  with True show ?thesis
    by (simp add: lower_char_def Let_def)
next
  case False
  then have "lower_char c = c" unfolding lower_char_def Let_def by (rule if_not_P)
  then show ?thesis by simp
qed

lemma to_lower_idem [simp]: "to_lower (to_lower s) = to_lower s"
  by (simp add: to_lower_def comp_def)

lemma equal_fold_refl [simp]: "equal_fold s s"
  by (simp add: equal_fold_def)

lemma trim_left_idem [simp]: "trim_left (trim_left s) = trim_left s"
  by (induction s) (auto simp: trim_left_def)

lemma trim_left_fix: "(s \<noteq> [] \<longrightarrow> \<not> is_space (hd s)) \<Longrightarrow> trim_left s = s"
  by (cases s) (auto simp: trim_left_def)

text \<open>A string that starts and ends with a byte other than white space is its own trim.\<close>

lemma trim_space_fix:
  assumes "s \<noteq> []" and "\<not> is_space (hd s)" and "\<not> is_space (last s)"
  shows "trim_space s = s"
  using assms by (simp add: trim_space_def trim_left_fix hd_rev)

lemma trim_space_Nil [simp]: "trim_space [] = []"
  by (simp add: trim_space_def trim_left_def)

lemma trim_space_idem [simp]: "trim_space (trim_space s) = trim_space s"
proof -
  define a where "a = trim_left s"
  have tl: "trim_left (rev (trim_left (rev a))) = rev (trim_left (rev a))"
  proof (cases "trim_left (rev a)")
    case Nil
    then show ?thesis by (simp only: rev.simps trim_left_def dropWhile.simps)
  next
    case (Cons x xs)
    define b where "b = rev (trim_left (rev a))"
    have b_ne: "b \<noteq> []" using Cons by (simp add: b_def)
    have "rev a = takeWhile is_space (rev a) @ rev b"
      by (simp add: b_def trim_left_def)
    then have "a = b @ rev (takeWhile is_space (rev a))"
      by (metis rev_append rev_rev_ident)
    with b_ne have hd_ab: "hd a = hd b" and "a \<noteq> []" by (metis hd_append2, force)
    moreover have "dropWhile is_space a = a"
      using a_def trim_left_idem [of s] by (simp add: trim_left_def)
    ultimately have "\<not> is_space (hd b)"
      by (metis hd_dropWhile)
    then have "trim_left b = b" by (intro trim_left_fix) simp
    then show ?thesis by (simp only: b_def)
  qed
  show ?thesis
    unfolding trim_space_def a_def [symmetric] by (simp only: tl rev_rev_ident trim_left_idem)
qed

section \<open>Decimal numbers\<close>

definition is_digit :: "char \<Rightarrow> bool" where
  "is_digit c \<longleftrightarrow> 48 \<le> (of_char c :: nat) \<and> (of_char c :: nat) \<le> 57"

definition digit_val :: "char \<Rightarrow> nat" where
  "digit_val c = of_char c - 48"

definition digit_char :: "nat \<Rightarrow> char" where
  "digit_char d = char_of (d + 48)"

fun digits_val :: "nat \<Rightarrow> string \<Rightarrow> nat option" where
  "digits_val acc [] = Some acc"
| "digits_val acc (c # s) = (if is_digit c then digits_val (10 * acc + digit_val c) s else None)"

fun nat_digits :: "nat \<Rightarrow> string" where
  "nat_digits n = (if n < 10 then [digit_char n] else nat_digits (n div 10) @ [digit_char (n mod 10)])"

declare nat_digits.simps [simp del]

definition itoa :: "int \<Rightarrow> string" where
  "itoa n = (if n < 0 then CHR ''-'' # nat_digits (nat (- n)) else nat_digits (nat n))"

definition min_int64 :: int where "min_int64 = - (2 ^ 63)"
definition max_int64 :: int where "max_int64 = 2 ^ 63 - 1"

text \<open>
  \<open>strconv.ParseInt(s, 10, 64)\<close>, and \<open>strconv.Atoi\<close> on a 64-bit platform: an
  optional sign, at least one digit, nothing else, and a value within the 64-bit range.
\<close>

definition parse_int :: "string \<Rightarrow> int option" where
  "parse_int s =
     (let neg = has_prefix s ''-'';
          body = (if neg \<or> has_prefix s ''+'' then tl s else s)
      in if body = [] then None
         else case digits_val 0 body of
           None \<Rightarrow> None
         | Some n \<Rightarrow>
             let v = (if neg then - int n else int n)
             in if min_int64 \<le> v \<and> v \<le> max_int64 then Some v else None)"

text \<open>Go's integer division truncates towards zero.\<close>

definition go_div :: "int \<Rightarrow> int \<Rightarrow> int" where
  "go_div a b = sgn a * sgn b * (\<bar>a\<bar> div \<bar>b\<bar>)"

lemma go_div_nonneg [simp]: "0 \<le> a \<Longrightarrow> 0 < b \<Longrightarrow> go_div a b = a div b"
  by (cases "a = 0") (auto simp: go_div_def)

lemma of_char_digit: "d < 10 \<Longrightarrow> (of_char (digit_char d) :: nat) = d + 48"
  by (simp add: digit_char_def)

lemma digit_char_facts [simp]:
  assumes "d < 10"
  shows "is_digit (digit_char d)" and "digit_val (digit_char d) = d"
  using assms by (simp_all add: is_digit_def digit_val_def of_char_digit)

lemma digits_val_append:
  "digits_val acc (s @ t) = (case digits_val acc s of None \<Rightarrow> None | Some n \<Rightarrow> digits_val n t)"
  by (induction acc s rule: digits_val.induct) auto

lemma nat_digits_ne [simp]: "nat_digits n \<noteq> []"
  by (subst nat_digits.simps) simp

lemma digits_val_nat_digits [simp]: "digits_val 0 (nat_digits n) = Some n"
proof (induction n rule: nat_digits.induct)
  case (1 n)
  show ?case
  proof (cases "n < 10")
    case True
    then show ?thesis by (simp add: nat_digits.simps [of n])
  next
    case False
    with 1 show ?thesis
      by (simp add: nat_digits.simps [of n] digits_val_append)
  qed
qed

lemma set_nat_digits: "c \<in> set (nat_digits n) \<Longrightarrow> is_digit c"
proof (induction n rule: nat_digits.induct)
  case (1 n)
  show ?case
  proof (cases "n < 10")
    case True
    with "1.prems" show ?thesis by (simp add: nat_digits.simps [of n])
  next
    case False
    with 1 show ?thesis by (auto simp: nat_digits.simps [of n])
  qed
qed

lemma digit_not_special:
  assumes "is_digit c"
  shows "c \<noteq> CHR ''-''" and "c \<noteq> CHR ''+''" and "\<not> is_space c" and "c \<noteq> CHR 0x0A"
    and "c \<noteq> CHR 0x0D"
  using assms by (auto simp: is_digit_def is_space_def)

lemma no_sign_prefix:
  "s \<noteq> [] \<Longrightarrow> is_digit (hd s) \<Longrightarrow> \<not> has_prefix s ''-'' \<and> \<not> has_prefix s ''+''"
  by (cases s) (auto dest: digit_not_special)

lemma parse_int_nat_digits:
  assumes "int n \<le> max_int64"
  shows "parse_int (nat_digits n) = Some (int n)"
proof -
  have "is_digit (hd (nat_digits n))"
    by (rule set_nat_digits [of _ n]) simp
  then have "\<not> has_prefix (nat_digits n) ''-'' \<and> \<not> has_prefix (nat_digits n) ''+''"
    by (intro no_sign_prefix) simp_all
  with assms show ?thesis
    by (simp add: parse_int_def Let_def min_int64_def)
qed

lemma parse_int_itoa:
  assumes "min_int64 \<le> n" and "n \<le> max_int64"
  shows "parse_int (itoa n) = Some n"
proof (cases "n < 0")
  case True
  with assms show ?thesis
    by (simp add: itoa_def parse_int_def Let_def)
next
  case False
  with assms show ?thesis
    by (simp add: itoa_def parse_int_nat_digits)
qed

lemma parse_int_range: "parse_int s = Some v \<Longrightarrow> min_int64 \<le> v \<and> v \<le> max_int64"
  by (auto simp: parse_int_def Let_def split: if_splits option.splits)

section \<open>The binary search of package sort\<close>

text \<open>
  \<open>sort.Search(n, f)\<close>: the loop keeps \<open>f(i-1) = false\<close> and \<open>f(j) = true\<close> and
  halves the interval.
\<close>

function search_loop :: "(nat \<Rightarrow> bool) \<Rightarrow> nat \<Rightarrow> nat \<Rightarrow> nat" where
  "search_loop f i j =
     (if i < j then
        let h = (i + j) div 2
        in if \<not> f h then search_loop f (Suc h) j else search_loop f i h
      else i)"
  by pat_completeness auto
termination
  by (relation "measure (\<lambda>(f, i, j). j - i)") auto

declare search_loop.simps [simp del]

definition sort_search :: "nat \<Rightarrow> (nat \<Rightarrow> bool) \<Rightarrow> nat" where
  "sort_search n f = search_loop f 0 n"

lemma search_loop_spec:
  assumes "\<And>a b. a \<le> b \<Longrightarrow> b < n \<Longrightarrow> f a \<Longrightarrow> f b"
    and "i \<le> j" and "j \<le> n" and "\<forall>k < i. \<not> f k" and "\<forall>k. j \<le> k \<longrightarrow> k < n \<longrightarrow> f k"
  shows "search_loop f i j \<le> j \<and> (\<forall>k < search_loop f i j. \<not> f k)
    \<and> (\<forall>k. search_loop f i j \<le> k \<longrightarrow> k < n \<longrightarrow> f k)"
  using assms
proof (induction f i j rule: search_loop.induct)
  case (1 f i j)
  note mono = "1.prems"(1)
  show ?case
  proof (cases "i < j")
    case False
    then have "search_loop f i j = i" by (simp add: search_loop.simps [of f i j])
    with False "1.prems" show ?thesis by simp
  next
    case True
    define h where "h = (i + j) div 2"
    have h: "i \<le> h" "h < j" using True by (auto simp: h_def)
    show ?thesis
    proof (cases "f h")
      case fh: True
      have "search_loop f i h \<le> h \<and> (\<forall>k < search_loop f i h. \<not> f k)
          \<and> (\<forall>k. search_loop f i h \<le> k \<longrightarrow> k < n \<longrightarrow> f k)"
        by (rule "1.IH"(2) [OF True h_def])
          (use "1.prems" h fh in \<open>auto intro: mono\<close>)
      with True fh h show ?thesis
        by (simp add: search_loop.simps [of f i j] Let_def h_def [symmetric])
    next
      case fh: False
      have "search_loop f (Suc h) j \<le> j \<and> (\<forall>k < search_loop f (Suc h) j. \<not> f k)
          \<and> (\<forall>k. search_loop f (Suc h) j \<le> k \<longrightarrow> k < n \<longrightarrow> f k)"
        by (rule "1.IH"(1) [OF True h_def])
          (use "1.prems" h fh in \<open>auto dest: mono simp: less_Suc_eq_le\<close>)
      with True fh show ?thesis
        by (simp add: search_loop.simps [of f i j] Let_def h_def [symmetric])
    qed
  qed
qed

lemma sort_search_spec:
  assumes "\<And>a b. a \<le> b \<Longrightarrow> b < n \<Longrightarrow> f a \<Longrightarrow> f b"
  shows "sort_search n f \<le> n \<and> (\<forall>k < sort_search n f. \<not> f k)
    \<and> (\<forall>k. sort_search n f \<le> k \<longrightarrow> k < n \<longrightarrow> f k)"
  unfolding sort_search_def by (rule search_loop_spec) (use assms in auto)

end
