(* ===== verification/Weights.thy ===== *)
theory Weights
  imports Complex_Main Prelude
begin

text \<open>
  Credential weights (package \<open>internal/credentialweight\<close>) and the smooth weighted
  round-robin that spends them (the \<open>smoothWeightedState\<close> of
  \<open>sdk/cliproxy/auth/selector.go\<close>). The last section proves the fairness of the
  algorithm once, in a locale over the identity and the weight of a candidate; the selectors and
  the scheduler interpret it on their own candidates.
\<close>

section \<open>Parsing a weight\<close>

datatype gofloat = NaN | PosInf | NegInf | Finite rat

text \<open>
  The dynamic values a weight can be read from, one constructor per branch of the type switch.
  The signed integer types are all converted to \<open>int64\<close> first and share one constructor.
\<close>

datatype any_value =
    ANil
  | ABool bool
  | ASigned int
  | AUint "64 word"
  | AUint8 "8 word"
  | AUint16 "16 word"
  | AUint32 "32 word"
  | AUint64 "64 word"
  | AFloat64 gofloat
  | AFloat32 gofloat
  | ANumber string
  | AString string
  | ABytes string
  | AArray "any_value list"
  | AObject "(string \<times> any_value) list"
  | AOther

datatype weight_error = WeightExceedsMax | WeightNotInteger

definition Default_weight :: int where "Default_weight = 1"
definition Max_weight :: int where "Max_weight = 1000000"

definition Normalize :: "int \<Rightarrow> weight_error + int" where
  "Normalize weight =
     (if weight \<le> 0 then Inr 0
      else if weight > Max_weight then Inl WeightExceedsMax
      else Inr weight)"

definition ParseString :: "string \<Rightarrow> weight_error + int" where
  "ParseString raw0 =
     (let raw = trim_space raw0
      in if raw = [] then Inr Default_weight
         else case parse_int raw of
           None \<Rightarrow> Inl WeightNotInteger
         | Some weight \<Rightarrow> Normalize weight)"

fun ParseFloat64 :: "gofloat \<Rightarrow> weight_error + int" where
  "ParseFloat64 (Finite q) =
     (if of_int \<lfloor>q\<rfloor> \<noteq> q then Inl WeightNotInteger
      else if q \<le> 0 then Inr 0
      else if q > of_int Max_weight then Inl WeightExceedsMax
      else Inr \<lfloor>q\<rfloor>)"
| "ParseFloat64 _ = Inl WeightNotInteger"

definition check_unsigned :: "int \<Rightarrow> weight_error + int" where
  "check_unsigned v = (if v > Max_weight then Inl WeightExceedsMax else Inr v)"

fun ParseValue :: "any_value \<Rightarrow> weight_error + int" where
  "ParseValue (ASigned v) = Normalize v"
| "ParseValue (AUint w) = check_unsigned (uint w)"
| "ParseValue (AUint8 w) = Inr (uint w)"
| "ParseValue (AUint16 w) = Inr (uint w)"
| "ParseValue (AUint32 w) = check_unsigned (uint w)"
| "ParseValue (AUint64 w) = check_unsigned (uint w)"
| "ParseValue (AFloat64 f) = ParseFloat64 f"
| "ParseValue (AFloat32 f) = ParseFloat64 f"
| "ParseValue (ANumber s) =
     (case parse_int s of None \<Rightarrow> Inl WeightNotInteger | Some weight \<Rightarrow> Normalize weight)"
| "ParseValue (AString s) = ParseString s"
| "ParseValue _ = Inl WeightNotInteger"

lemma Normalize_range: "Normalize v = Inr w \<Longrightarrow> 0 \<le> w \<and> w \<le> Max_weight"
  by (auto simp: Normalize_def Max_weight_def split: if_splits)

lemma ParseString_range: "ParseString s = Inr w \<Longrightarrow> 0 \<le> w \<and> w \<le> Max_weight"
  by (auto simp: ParseString_def Let_def Default_weight_def Max_weight_def
      dest: Normalize_range split: if_splits option.splits)

lemma ParseFloat64_range: "ParseFloat64 f = Inr w \<Longrightarrow> 0 \<le> w \<and> w \<le> Max_weight"
  by (cases f) (auto simp: Max_weight_def floor_le_iff split: if_splits)

lemma uint8_le_max: "uint (w :: 8 word) \<le> Max_weight"
  using uint_lt2p [of w] by (simp add: Max_weight_def)

lemma uint16_le_max: "uint (w :: 16 word) \<le> Max_weight"
  using uint_lt2p [of w] by (simp add: Max_weight_def)

lemma check_unsigned_range: "check_unsigned v = Inr w \<Longrightarrow> w = v \<and> v \<le> Max_weight"
  by (simp add: check_unsigned_def split: if_splits)

lemma ParseValue_bounds:
  assumes "ParseValue v = Inr w"
  shows "0 \<le> w \<and> w \<le> Max_weight"
proof (cases v)
  case (ANumber s)
  with assms show ?thesis
    by (auto dest: Normalize_range split: option.splits)
qed (use assms in \<open>auto dest: Normalize_range ParseString_range ParseFloat64_range
    check_unsigned_range simp: uint8_le_max uint16_le_max\<close>)

text \<open>
  Whatever value a credential file gives for its weight, a successful parse yields a weight
  between 0 and the maximum, so the scheduler's 64-bit arithmetic stays in range.
\<close>

theorem ParseValue_range:
  assumes "ParseValue v = Inr w"
  shows "0 \<le> w \<and> w \<le> Max_weight"
  using assms by (rule ParseValue_bounds)

theorem ParseValue_range_witness:
  "ParseValue (AString '' 250 '') = Inr 250 \<and> (0::int) \<le> 250 \<and> 250 \<le> Max_weight"
proof -
  have v: "ParseValue (AString '' 250 '') = Inr 250"
    by (simp add: ParseString_def trim_space_def trim_left_def is_space_def parse_int_def
        is_digit_def digit_val_def Normalize_def Max_weight_def max_int64_def min_int64_def Let_def)
  with ParseValue_range [OF v] show ?thesis by simp
qed

text \<open>
  Round trip: the decimal text of every admissible positive weight parses back to that
  weight, both as a plain attribute and as a JSON number.
\<close>

theorem ParseString_itoa:
  assumes "0 < w" and "w \<le> Max_weight"
  shows "ParseString (itoa w) = Inr w \<and> ParseValue (ANumber (itoa w)) = Inr w"
proof -
  have digits: "itoa w = nat_digits (nat w)" using assms by (simp add: itoa_def)
  have "\<And>c. c \<in> set (itoa w) \<Longrightarrow> \<not> is_space c"
    unfolding digits by (auto dest: set_nat_digits digit_not_special)
  then have trim: "trim_space (itoa w) = itoa w"
    by (intro trim_space_fix) (simp_all add: digits)
  have "parse_int (itoa w) = Some w"
    by (rule parse_int_itoa) (use assms in \<open>simp_all add: Max_weight_def max_int64_def min_int64_def\<close>)
  then show ?thesis
    using assms by (simp add: ParseString_def Let_def trim [unfolded digits] Normalize_def digits)
qed

theorem ParseString_itoa_witness:
  "ParseString (itoa 42) = Inr 42 \<and> ParseValue (ANumber (itoa 42)) = Inr 42"
  by (rule ParseString_itoa) (simp_all add: Max_weight_def)

section \<open>Saturating credits\<close>

definition saturatingAddInt64 :: "int \<Rightarrow> int \<Rightarrow> int" where
  "saturatingAddInt64 value delta =
     (if delta > 0 \<and> value > max_int64 - delta then max_int64
      else if delta < 0 \<and> value < min_int64 - delta then min_int64
      else value + delta)"

lemma saturating_range:
  assumes "min_int64 \<le> v" and "v \<le> max_int64" and "min_int64 \<le> d" and "d \<le> max_int64"
  shows "min_int64 \<le> saturatingAddInt64 v d \<and> saturatingAddInt64 v d \<le> max_int64"
  using assms by (auto simp: saturatingAddInt64_def max_int64_def min_int64_def)

lemma saturating_exact:
  "min_int64 \<le> v + d \<Longrightarrow> v + d \<le> max_int64 \<Longrightarrow> saturatingAddInt64 v d = v + d"
  by (auto simp: saturatingAddInt64_def)

section \<open>The smooth weighted state\<close>

record smooth_state =
  sw_current :: "(string, int) gomap"
  sw_weights :: "(string, int) gomap"

definition empty_smooth :: smooth_state where
  "empty_smooth = \<lparr>sw_current = [], sw_weights = []\<rparr>"

definition maxSmoothWeightedStateEntries :: nat where
  "maxSmoothWeightedStateEntries = 1024"

text \<open>Whether a credential present in both vectors has a different configured weight.\<close>

definition weightsConfigChanged :: "(string, int) gomap \<Rightarrow> (string, int) gomap \<Rightarrow> bool" where
  "weightsConfigChanged left right =
     (left \<noteq> [] \<and>
      list_ex (\<lambda>(authID, weight).
        case map_of left authID of Some previous \<Rightarrow> previous \<noteq> weight | None \<Rightarrow> False) right)"

definition pruneStale :: "smooth_state \<Rightarrow> (string, int) gomap \<Rightarrow> smooth_state" where
  "pruneStale s weights =
     (if length (sw_current s) \<le> maxSmoothWeightedStateEntries
         \<and> length (sw_weights s) \<le> maxSmoothWeightedStateEntries then s
      else s\<lparr>sw_current := filter (\<lambda>(authID, _). has_key weights authID) (sw_current s),
             sw_weights := filter (\<lambda>(authID, _). has_key weights authID) (sw_weights s)\<rparr>)"

definition store_all :: "(string, int) gomap \<Rightarrow> (string, int) gomap \<Rightarrow> (string, int) gomap" where
  "store_all m weights = fold (\<lambda>(authID, weight). AList.update authID weight) weights m"

definition prepare :: "smooth_state \<Rightarrow> (string, int) gomap \<Rightarrow> smooth_state" where
  "prepare s weights =
     (let s1 = (if weightsConfigChanged (sw_weights s) weights then s\<lparr>sw_current := []\<rparr> else s);
          s2 = s1\<lparr>sw_weights := store_all (sw_weights s1) weights\<rparr>
      in pruneStale s2 weights)"

section \<open>One smooth pick\<close>

text \<open>
  The loop of \<open>pickSmoothWeightedAuth\<close> and \<open>pickSmoothWeightedScheduled\<close>: every
  admitted candidate is credited with its weight; the first one with the largest credit is
  kept. The state is the credits, the total weight and the candidate picked so far with its
  credit. Both functions are this loop over their own candidates.
\<close>

fun smooth_loop ::
  "('e \<Rightarrow> string) \<Rightarrow> ('e \<Rightarrow> int) \<Rightarrow> ('e \<Rightarrow> bool) \<Rightarrow> 'e list \<Rightarrow> (string, int) gomap
   \<Rightarrow> int \<Rightarrow> ('e \<times> int) option \<Rightarrow> (string, int) gomap \<times> int \<times> ('e \<times> int) option"
where
  "smooth_loop ident weight admit [] current totalWeight picked = (current, totalWeight, picked)"
| "smooth_loop ident weight admit (e # es) current totalWeight picked =
     (if weight e \<le> 0 \<or> \<not> admit e then smooth_loop ident weight admit es current totalWeight picked
      else
        let credit = saturatingAddInt64 (get_or 0 current (ident e)) (weight e);
            current' = AList.update (ident e) credit current;
            totalWeight' = saturatingAddInt64 totalWeight (weight e);
            picked' = (case picked of
                None \<Rightarrow> Some (e, credit)
              | Some (p, best) \<Rightarrow> if credit > best then Some (e, credit) else picked)
        in smooth_loop ident weight admit es current' totalWeight' picked')"

definition smooth_pick ::
  "('e \<Rightarrow> string) \<Rightarrow> ('e \<Rightarrow> int) \<Rightarrow> ('e \<Rightarrow> bool) \<Rightarrow> 'e list \<Rightarrow> (string, int) gomap
   \<Rightarrow> (string, int) gomap \<times> 'e option"
where
  "smooth_pick ident weight admit es current =
     (case smooth_loop ident weight admit es current 0 None of
        (current', totalWeight, None) \<Rightarrow> (current', None)
      | (current', totalWeight, Some (p, _)) \<Rightarrow>
          (AList.update (ident p) (saturatingAddInt64 (get_or 0 current' (ident p)) (- totalWeight)) current',
           Some p))"

definition weight_vector ::
  "('e \<Rightarrow> string) \<Rightarrow> ('e \<Rightarrow> int) \<Rightarrow> ('e \<Rightarrow> bool) \<Rightarrow> 'e list \<Rightarrow> (string, int) gomap"
where
  "weight_vector ident weight admit es =
     fold (\<lambda>e. AList.update (ident e) (weight e)) (filter (\<lambda>e. \<not> (weight e \<le> 0) \<and> admit e) es) []"

text \<open>\<open>prepare\<close> followed by a pick, as every caller runs them under its lock.\<close>

definition weighted_step ::
  "('e \<Rightarrow> string) \<Rightarrow> ('e \<Rightarrow> int) \<Rightarrow> ('e \<Rightarrow> bool) \<Rightarrow> 'e list \<Rightarrow> smooth_state
   \<Rightarrow> smooth_state \<times> 'e option"
where
  "weighted_step ident weight admit es s =
     (let s1 = prepare s (weight_vector ident weight admit es);
          (current, picked) = smooth_pick ident weight admit es (sw_current s1)
      in (s1\<lparr>sw_current := current\<rparr>, picked))"

fun weighted_run ::
  "('e \<Rightarrow> string) \<Rightarrow> ('e \<Rightarrow> int) \<Rightarrow> ('e \<Rightarrow> bool) \<Rightarrow> 'e list \<Rightarrow> nat \<Rightarrow> smooth_state
   \<Rightarrow> smooth_state \<times> 'e option list"
where
  "weighted_run ident weight admit es 0 s = (s, [])"
| "weighted_run ident weight admit es (Suc n) s =
     (let (s1, p) = weighted_step ident weight admit es s;
          (s2, ps) = weighted_run ident weight admit es n s1
      in (s2, p # ps))"

subsection \<open>What prepare keeps\<close>

lemma map_of_store_all:
  "wf_map ws \<Longrightarrow>
   map_of (store_all m ws) x = (case map_of ws x of Some w \<Rightarrow> Some w | None \<Rightarrow> map_of m x)"
  unfolding store_all_def
proof (induction ws arbitrary: m)
  case (Cons kv ws)
  obtain k v where kv: "kv = (k, v)" by force
  from Cons.prems have k: "map_of ws k = None" and wf: "wf_map ws"
    by (auto simp: kv wf_map_Cons map_of_eq_None_iff)
  show ?case using Cons.IH [OF wf] k by (auto simp: kv split: option.splits)
qed simp

definition admitted :: "('e \<Rightarrow> int) \<Rightarrow> ('e \<Rightarrow> bool) \<Rightarrow> 'e list \<Rightarrow> 'e list" where
  "admitted weight admit es = filter (\<lambda>e. \<not> (weight e \<le> 0) \<and> admit e) es"

definition pool_weight :: "('e \<Rightarrow> int) \<Rightarrow> ('e \<Rightarrow> bool) \<Rightarrow> 'e list \<Rightarrow> int" where
  "pool_weight weight admit es = sum_list (List.map weight (admitted weight admit es))"

lemma admitted_simps [simp]:
  "admitted weight admit [] = []"
  "admitted weight admit (e # es) =
     (if weight e \<le> 0 \<or> \<not> admit e then admitted weight admit es
      else e # admitted weight admit es)"
  by (simp_all add: admitted_def)

lemma admitted_subset: "set (admitted weight admit es) \<subseteq> set es"
  by (auto simp: admitted_def)

lemma admitted_positive: "e \<in> set (admitted weight admit es) \<Longrightarrow> 0 < weight e \<and> admit e"
  by (auto simp: admitted_def)

lemma distinct_admitted:
  "distinct (List.map ident es) \<Longrightarrow> distinct (List.map ident (admitted weight admit es))"
  by (simp add: admitted_def distinct_map_filter)

lemma pool_weight_simps [simp]:
  "pool_weight weight admit [] = 0"
  "pool_weight weight admit (e # es) =
     (if weight e \<le> 0 \<or> \<not> admit e then pool_weight weight admit es
      else weight e + pool_weight weight admit es)"
  by (simp_all add: pool_weight_def)

lemma pool_weight_nonneg: "0 \<le> pool_weight weight admit es"
  by (induction es) auto

lemma wf_weight_vector: "wf_map (weight_vector ident weight admit es)"
proof -
  have "wf_map m \<Longrightarrow> wf_map (fold (\<lambda>e. AList.update (ident e) (weight e)) xs m)" for xs m
    by (induction xs arbitrary: m) auto
  then show ?thesis by (simp add: weight_vector_def)
qed

lemma map_of_weight_vector:
  assumes "distinct (List.map ident es)"
  shows "map_of (weight_vector ident weight admit es) x =
    map_option weight (List.find (\<lambda>e. ident e = x) (admitted weight admit es))"
proof -
  have "distinct (List.map ident xs) \<Longrightarrow>
    map_of (fold (\<lambda>e. AList.update (ident e) (weight e)) xs m) x =
      (case List.find (\<lambda>e. ident e = x) xs of Some e \<Rightarrow> Some (weight e) | None \<Rightarrow> map_of m x)" for xs m
  proof (induction xs arbitrary: m)
    case (Cons e xs)
    have "ident e \<notin> ident ` set xs" using Cons.prems by simp
    then have "ident e = x \<Longrightarrow> List.find (\<lambda>e. ident e = x) xs = None"
      by (metis (mono_tags, lifting) find_None_iff image_eqI)
    with Cons show ?case by (auto split: option.splits)
  qed simp
  from this [OF distinct_admitted [OF assms]] show ?thesis
    by (simp add: weight_vector_def admitted_def [symmetric] split: option.splits)
qed

lemma find_distinct:
  "distinct (List.map ident xs) \<Longrightarrow> e \<in> set xs \<Longrightarrow> List.find (\<lambda>e'. ident e' = ident e) xs = Some e"
proof (induction xs)
  case (Cons y ys)
  show ?case
  proof (cases "y = e")
    case False
    with Cons.prems have e: "e \<in> set ys" by simp
    with Cons.prems have "ident y \<noteq> ident e" by (metis distinct.simps(2) image_eqI image_set list.simps(9))
    with Cons e show ?thesis by simp
  qed simp
qed simp

lemma weight_vector_member:
  "distinct (List.map ident es) \<Longrightarrow> e \<in> set (admitted weight admit es) \<Longrightarrow>
   map_of (weight_vector ident weight admit es) (ident e) = Some (weight e)"
  by (simp add: map_of_weight_vector find_distinct distinct_admitted)

text \<open>
  The loop credits every admitted candidate with its weight, adds the weights up and finds a
  candidate of the largest credit, as long as no sum leaves the 64-bit range.
\<close>

definition credited ::
  "('e \<Rightarrow> string) \<Rightarrow> ('e \<Rightarrow> int) \<Rightarrow> 'e list \<Rightarrow> (string, int) gomap \<Rightarrow> (string, int) gomap \<Rightarrow> bool"
where
  "credited ident weight act cur cur' \<longleftrightarrow>
     (\<forall>e \<in> set act. get_or 0 cur' (ident e) = get_or 0 cur (ident e) + weight e)
     \<and> (\<forall>x. x \<notin> ident ` set act \<longrightarrow> get_or 0 cur' x = get_or 0 cur x)"

definition best_of ::
  "('e \<Rightarrow> int) \<Rightarrow> 'e list \<Rightarrow> ('e \<times> int) option \<Rightarrow> ('e \<times> int) option \<Rightarrow> bool"
where
  "best_of credit act pk pk' \<longleftrightarrow>
     (case pk' of None \<Rightarrow> pk = None \<and> act = []
      | Some (p, b) \<Rightarrow> (pk = Some (p, b) \<or> p \<in> set act \<and> b = credit p)
          \<and> (\<forall>e \<in> set act. credit e \<le> b) \<and> (\<forall>p0 b0. pk = Some (p0, b0) \<longrightarrow> b0 \<le> b))"

lemma smooth_loop_spec:
  assumes "distinct (List.map ident es)"
    and "\<forall>e \<in> set (admitted weight admit es).
      min_int64 \<le> get_or 0 cur (ident e) + weight e \<and> get_or 0 cur (ident e) + weight e \<le> max_int64"
    and "0 \<le> tw" and "tw + pool_weight weight admit es \<le> max_int64"
    and "smooth_loop ident weight admit es cur tw pk = (cur', tw', pk')"
  shows "tw' = tw + pool_weight weight admit es
    \<and> credited ident weight (admitted weight admit es) cur cur'
    \<and> best_of (\<lambda>e. get_or 0 cur (ident e) + weight e) (admitted weight admit es) pk pk'"
  using assms
proof (induction es arbitrary: cur tw pk)
  case Nil
  then show ?case by (auto simp: credited_def best_of_def split: option.splits)
next
  case (Cons e es)
  let ?A = "admitted weight admit es"
  have dist: "distinct (List.map ident es)" using Cons.prems(1) by simp
  show ?case
  proof (cases "weight e \<le> 0 \<or> \<not> admit e")
    case True
    with Cons.prems have "smooth_loop ident weight admit es cur tw pk = (cur', tw', pk')" by simp
    with True Cons.prems dist Cons.IH [of cur tw pk] show ?thesis by simp
  next
    case False
    define c where "c = get_or 0 cur (ident e) + weight e"
    define pk1 where "pk1 = (case pk of None \<Rightarrow> Some (e, c)
        | Some (p, best) \<Rightarrow> if c > best then Some (e, c) else pk)"
    have fresh: "ident e \<notin> ident ` set ?A"
      using Cons.prems(1) admitted_subset [of weight admit es] by auto
    then have keep: "get_or 0 (AList.update (ident e) c cur) (ident a) = get_or 0 cur (ident a)"
      if "a \<in> set ?A" for a
      using fresh that by (metis get_or_update image_eqI)
    have nn: "0 \<le> pool_weight weight admit es" by (rule pool_weight_nonneg)
    have c: "saturatingAddInt64 (get_or 0 cur (ident e)) (weight e) = c"
      unfolding c_def by (rule saturating_exact) (use False Cons.prems(2) in auto)
    have t: "saturatingAddInt64 tw (weight e) = tw + weight e"
      by (rule saturating_exact) (use False Cons.prems(3,4) nn in \<open>auto simp: min_int64_def\<close>)
    have "smooth_loop ident weight admit es (AList.update (ident e) c cur) (tw + weight e) pk1
        = (cur', tw', pk')"
      using Cons.prems(5) False by (simp add: Let_def c t pk1_def)
    from Cons.IH [OF dist _ _ _ this] have IH: "tw' = tw + weight e + pool_weight weight admit es"
        "credited ident weight ?A (AList.update (ident e) c cur) cur'"
        "best_of (\<lambda>a. get_or 0 (AList.update (ident e) c cur) (ident a) + weight a) ?A pk1 pk'"
      using Cons.prems False keep by auto
    have best: "best_of (\<lambda>a. get_or 0 cur (ident a) + weight a) ?A pk1 pk'"
      using IH(3) keep unfolding best_of_def by (auto split: option.splits)
    have "credited ident weight (e # ?A) cur cur'"
      using IH(2) keep fresh c_def unfolding credited_def by auto
    moreover have "best_of (\<lambda>a. get_or 0 cur (ident a) + weight a) (e # ?A) pk pk'"
      using best unfolding best_of_def pk1_def
      by (auto simp: c_def [symmetric] split: option.splits if_splits prod.splits)
    ultimately show ?thesis using IH(1) False by simp
  qed
qed

text \<open>Without any assumption on the numbers: a pick is an admitted candidate, and there is one if any is.\<close>

lemma smooth_loop_picked:
  "smooth_loop ident weight admit es cur tw pk = (cur', tw', pk') \<Longrightarrow>
   (pk' = None \<longleftrightarrow> pk = None \<and> admitted weight admit es = []) \<and>
   (\<forall>p b. pk' = Some (p, b) \<longrightarrow> p \<in> set (admitted weight admit es) \<or> (\<exists>b0. pk = Some (p, b0)))"
proof (induction es arbitrary: cur tw pk)
  case (Cons e es)
  show ?case
  proof (cases "weight e \<le> 0 \<or> \<not> admit e")
    case True
    with Cons show ?thesis by simp
  next
    case False
    with Cons.prems obtain cur1 tw1 pk1 where
      loop: "smooth_loop ident weight admit es cur1 tw1 pk1 = (cur', tw', pk')"
      and pk1: "pk1 \<noteq> None" "\<forall>p b. pk1 = Some (p, b) \<longrightarrow> p = e \<or> (\<exists>b0. pk = Some (p, b0))"
      by (force simp: Let_def split: option.splits prod.splits if_splits)
    from Cons.IH [OF loop] pk1 False show ?thesis by auto
  qed
qed simp

lemma smooth_pick_mem:
  assumes "smooth_pick ident weight admit es cur = (cur', r)"
  shows "(r = None \<longleftrightarrow> admitted weight admit es = []) \<and>
    (\<forall>p. r = Some p \<longrightarrow> p \<in> set (admitted weight admit es))"
proof -
  obtain c1 tw pk where loop: "smooth_loop ident weight admit es cur 0 None = (c1, tw, pk)"
    by (metis prod_cases3)
  from smooth_loop_picked [OF loop] assms show ?thesis
    by (auto simp: smooth_pick_def loop split: option.splits prod.splits)
qed

lemma map_of_filter_key:
  "map_of (filter (\<lambda>(k, _). P k) m) x = (if P x then map_of m x else None)"
  by (induction m) auto

text \<open>
  As long as no configured weight changed, \<open>prepare\<close> keeps the credits of every credential
  it is asked about, and records the weights it was given.
\<close>

lemma prepare_same:
  assumes "\<not> weightsConfigChanged (sw_weights s) ws" and "wf_map ws"
  shows "has_key ws x \<Longrightarrow> get_or 0 (sw_current (prepare s ws)) x = get_or 0 (sw_current s) x"
    and "\<not> weightsConfigChanged (sw_weights (prepare s ws)) ws"
proof -
  show "has_key ws x \<Longrightarrow> get_or 0 (sw_current (prepare s ws)) x = get_or 0 (sw_current s) x"
    using assms(1) by (simp add: prepare_def Let_def pruneStale_def get_or_def map_of_filter_key)
  have "map_of (sw_weights (prepare s ws)) k = Some w" if "(k, w) \<in> set ws" for k w
  proof -
    have "map_of ws k = Some w" using wf_map_lookup [OF assms(2) that] .
    then show ?thesis
      using assms by (simp add: prepare_def Let_def pruneStale_def map_of_filter_key
          map_of_store_all has_key_def)
  qed
  then show "\<not> weightsConfigChanged (sw_weights (prepare s ws)) ws"
    by (fastforce simp: weightsConfigChanged_def list_ex_iff split: option.splits)
qed

section \<open>Fairness\<close>

text \<open>
  A state is balanced for a candidate list when the credits add up to 0 and none is as low as
  minus the total weight. Any state without credits is.
\<close>

definition credit_sum :: "('e \<Rightarrow> string) \<Rightarrow> 'e list \<Rightarrow> (string, int) gomap \<Rightarrow> int" where
  "credit_sum ident act cur = sum_list (List.map (\<lambda>e. get_or 0 cur (ident e)) act)"

definition balanced ::
  "('e \<Rightarrow> string) \<Rightarrow> ('e \<Rightarrow> int) \<Rightarrow> ('e \<Rightarrow> bool) \<Rightarrow> 'e list \<Rightarrow> (string, int) gomap \<Rightarrow> bool"
where
  "balanced ident weight admit es cur \<longleftrightarrow>
     credit_sum ident (admitted weight admit es) cur = 0 \<and>
     (\<forall>e \<in> set (admitted weight admit es). - pool_weight weight admit es < get_or 0 cur (ident e))"

lemma sum_list_lower:
  fixes f :: "'e \<Rightarrow> int"
  assumes "\<forall>e \<in> set xs. - w \<le> f e" and "0 \<le> w"
  shows "- (int (length xs) * w) \<le> sum_list (List.map f xs)"
  using assms by (induction xs) (auto simp: algebra_simps)

text \<open>With a zero sum, a lower bound on all values bounds each of them from above.\<close>

lemma zero_sum_upper:
  fixes f :: "'e \<Rightarrow> int"
  assumes "sum_list (List.map f xs) = 0" and "\<forall>e \<in> set xs. - w \<le> f e" and "0 \<le> w" and "a \<in> set xs"
  shows "f a \<le> int (length xs) * w"
proof -
  obtain ys zs where xs: "xs = ys @ a # zs" using \<open>a \<in> set xs\<close> by (meson split_list)
  have "- (int (length ys) * w) \<le> sum_list (List.map f ys)"
    and "- (int (length zs) * w) \<le> sum_list (List.map f zs)"
    by (rule sum_list_lower; use assms xs in auto)+
  moreover have "f a = - (sum_list (List.map f ys) + sum_list (List.map f zs))"
    using assms(1) by (simp add: xs)
  ultimately show ?thesis using \<open>0 \<le> w\<close> by (simp add: xs algebra_simps)
qed

lemma sum_list_update_one:
  fixes f :: "'e \<Rightarrow> int"
  assumes "distinct xs" and "p \<in> set xs"
  shows "sum_list (List.map (\<lambda>e. f e - (if e = p then w else 0)) xs) = sum_list (List.map f xs) - w"
  using assms
proof (induction xs)
  case (Cons x xs)
  show ?case
  proof (cases "x = p")
    case True
    with Cons.prems have "p \<notin> set xs" by simp
    then have "sum_list (List.map (\<lambda>e. f e - (if e = p then w else 0)) xs) = sum_list (List.map f xs)"
      by (intro arg_cong [where f = sum_list] map_cong) auto
    with True show ?thesis by simp
  qed (use Cons in auto)
qed simp

lemma pos_sum_elem:
  fixes f :: "'e \<Rightarrow> int"
  shows "0 < sum_list (List.map f xs) \<Longrightarrow> \<exists>e \<in> set xs. 0 < f e"
proof (induction xs)
  case (Cons x xs)
  then show ?case by (cases "0 < f x") auto
qed simp

lemma pool_weight_le:
  "\<forall>e \<in> set (admitted weight admit es). weight e \<le> m \<Longrightarrow>
   pool_weight weight admit es \<le> int (length (admitted weight admit es)) * m"
  by (induction es) (auto simp: algebra_simps)

lemma pool_weight_pos:
  "admitted weight admit es \<noteq> [] \<Longrightarrow> 0 < pool_weight weight admit es"
proof (induction es)
  case (Cons e es)
  then show ?case using pool_weight_nonneg [of weight admit es] by (auto split: if_splits)
qed simp

locale weighted_candidates =
  fixes ident :: "'e \<Rightarrow> string" and weight :: "'e \<Rightarrow> int" and valid :: "'e \<Rightarrow> bool"
  assumes weight_le_max: "valid e \<Longrightarrow> weight e \<le> Max_weight"
begin

text \<open>
  One pick from a balanced state: the credits of all candidates grow by their weight, the
  picked one pays the total, and the state stays balanced.
\<close>

lemma smooth_pick_balanced:
  assumes dist: "distinct (List.map ident es)" and val: "\<forall>e \<in> set es. valid e"
    and len: "length es \<le> 1000000" and ne: "admitted weight admit es \<noteq> []"
    and bal: "balanced ident weight admit es cur"
  obtains p cur' where "smooth_pick ident weight admit es cur = (cur', Some p)"
    and "p \<in> set (admitted weight admit es)"
    and "\<forall>e \<in> set (admitted weight admit es). get_or 0 cur' (ident e) = get_or 0 cur (ident e) + weight e
      - (if e = p then pool_weight weight admit es else 0)"
    and "balanced ident weight admit es cur'"
proof -
  let ?A = "admitted weight admit es" and ?W = "pool_weight weight admit es"
  let ?f = "\<lambda>e. get_or 0 cur (ident e)"
  have distA: "distinct (List.map ident ?A)" using dist by (rule distinct_admitted)
  have Wpos: "0 < ?W" using ne by (rule pool_weight_pos)
  have "length ?A \<le> length es" by (simp add: admitted_def)
  then have lenA: "int (length ?A) \<le> 1000000" using len by simp
  have wle: "\<forall>e \<in> set ?A. weight e \<le> Max_weight"
    using val weight_le_max admitted_subset [of weight admit es] by blast
  have "?W \<le> int (length ?A) * Max_weight" by (rule pool_weight_le [OF wle])
  also have "\<dots> \<le> 1000000 * 1000000" unfolding Max_weight_def using lenA by simp
  finally have Wle: "?W \<le> 1000000 * 1000000" .
  have sum0: "sum_list (List.map ?f ?A) = 0" and low: "\<forall>e \<in> set ?A. - ?W < ?f e"
    using bal by (simp_all add: balanced_def credit_sum_def)
  have up: "?f e \<le> 1000000 * (1000000 * 1000000)" if "e \<in> set ?A" for e
  proof -
    have "?f e \<le> int (length ?A) * ?W"
      by (rule zero_sum_upper [OF sum0 _ _ that]) (use low Wpos in auto)
    also have "\<dots> \<le> 1000000 * (1000000 * 1000000)"
      by (rule mult_mono) (use lenA Wle Wpos in auto)
    finally show ?thesis .
  qed
  obtain cur1 tw pk where loop: "smooth_loop ident weight admit es cur 0 None = (cur1, tw, pk)"
    by (metis prod_cases3)
  have spec: "tw = ?W \<and> credited ident weight ?A cur cur1 \<and> best_of (\<lambda>e. ?f e + weight e) ?A None pk"
  proof -
    have "min_int64 \<le> ?f e + weight e \<and> ?f e + weight e \<le> max_int64" if "e \<in> set ?A" for e
    proof -
      have "- ?W < ?f e" "0 < weight e" "weight e \<le> Max_weight"
        using low wle that admitted_positive by fastforce+
      with up [OF that] Wle show ?thesis
        by (simp add: min_int64_def max_int64_def Max_weight_def)
    qed
    then show ?thesis
      using smooth_loop_spec [OF dist _ _ _ loop] Wle by (simp add: max_int64_def)
  qed
  then obtain p b where pk: "pk = Some (p, b)" and p: "p \<in> set ?A" and b: "b = ?f p + weight p"
    and max: "\<forall>e \<in> set ?A. ?f e + weight e \<le> b"
    using ne by (auto simp: best_of_def split: option.splits)
  have cred: "get_or 0 cur1 (ident e) = ?f e + weight e" if "e \<in> set ?A" for e
    using spec that by (auto simp: credited_def)
  define cur' where "cur' = AList.update (ident p) (b - ?W) cur1"
  have "0 < sum_list (List.map (\<lambda>e. ?f e + weight e) ?A)"
    using sum0 Wpos by (simp add: sum_list_addf pool_weight_def)
  then have bpos: "0 < b" using pos_sum_elem max by fastforce
  have b_up: "b \<le> max_int64" using up [OF p] wle p b by (fastforce simp: max_int64_def Max_weight_def)
  have sat: "saturatingAddInt64 (get_or 0 cur1 (ident p)) (- ?W) = b - ?W"
    using saturating_exact [of b "- ?W"] bpos b_up Wle Wpos
    by (simp add: cred [OF p] b [symmetric] min_int64_def max_int64_def)
  have pick: "smooth_pick ident weight admit es cur = (cur', Some p)"
    using loop spec by (simp add: smooth_pick_def pk sat cur'_def)
  have inj: "ident e = ident p \<longleftrightarrow> e = p" if "e \<in> set ?A" for e
    using distA that p by (meson distinct_map inj_on_eq_iff)
  have vals: "get_or 0 cur' (ident e) = ?f e + weight e - (if e = p then ?W else 0)"
    if "e \<in> set ?A" for e
    using cred [OF that] inj [OF that] b by (auto simp: cur'_def)
  have distinctA: "distinct ?A" using distA by (simp add: distinct_map)
  have "credit_sum ident ?A cur' = sum_list (List.map (\<lambda>e. ?f e + weight e - (if e = p then ?W else 0)) ?A)"
    unfolding credit_sum_def by (intro arg_cong [where f = sum_list] map_cong) (simp_all add: vals)
  also have "\<dots> = sum_list (List.map (\<lambda>e. ?f e + weight e) ?A) - ?W"
    by (rule sum_list_update_one [OF distinctA p])
  also have "\<dots> = 0" using sum0 by (simp add: sum_list_addf pool_weight_def)
  finally have "credit_sum ident ?A cur' = 0" .
  moreover have "- ?W < get_or 0 cur' (ident e)" if "e \<in> set ?A" for e
    using vals [OF that] low that admitted_positive [OF that] bpos b by fastforce
  ultimately have "balanced ident weight admit es cur'" by (simp add: balanced_def)
  then show ?thesis using that pick p vals by blast
qed

text \<open>
  The same for a full step, \<open>prepare\<close> included, from a state whose recorded weights agree
  with the configured ones.
\<close>

lemma weighted_step_balanced:
  assumes dist: "distinct (List.map ident es)" and val: "\<forall>e \<in> set es. valid e"
    and len: "length es \<le> 1000000" and ne: "admitted weight admit es \<noteq> []"
    and bal: "balanced ident weight admit es (sw_current s)"
    and same: "\<not> weightsConfigChanged (sw_weights s) (weight_vector ident weight admit es)"
  obtains p s' where "weighted_step ident weight admit es s = (s', Some p)"
    and "p \<in> set (admitted weight admit es)"
    and "\<forall>e \<in> set (admitted weight admit es). get_or 0 (sw_current s') (ident e) =
      get_or 0 (sw_current s) (ident e) + weight e - (if e = p then pool_weight weight admit es else 0)"
    and "balanced ident weight admit es (sw_current s')"
    and "\<not> weightsConfigChanged (sw_weights s') (weight_vector ident weight admit es)"
proof -
  define ws where "ws = weight_vector ident weight admit es"
  have wf: "wf_map ws" by (simp add: ws_def wf_weight_vector)
  have key: "has_key ws (ident e)" if "e \<in> set (admitted weight admit es)" for e
    using weight_vector_member [OF dist that] by (simp add: ws_def has_key_def)
  have cur: "get_or 0 (sw_current (prepare s ws)) (ident e) = get_or 0 (sw_current s) (ident e)"
    if "e \<in> set (admitted weight admit es)" for e
    using prepare_same(1) [OF same [folded ws_def] wf key [OF that]] .
  then have "balanced ident weight admit es (sw_current (prepare s ws))"
    using bal by (simp add: balanced_def credit_sum_def cong: map_cong)
  from smooth_pick_balanced [OF dist val len ne this] obtain p cur'
    where pick: "smooth_pick ident weight admit es (sw_current (prepare s ws)) = (cur', Some p)"
      and p: "p \<in> set (admitted weight admit es)"
      and vals: "\<forall>e \<in> set (admitted weight admit es). get_or 0 cur' (ident e) =
        get_or 0 (sw_current (prepare s ws)) (ident e) + weight e
          - (if e = p then pool_weight weight admit es else 0)"
      and bal': "balanced ident weight admit es cur'" .
  define s' where "s' = (prepare s ws)\<lparr>sw_current := cur'\<rparr>"
  have "weighted_step ident weight admit es s = (s', Some p)"
    by (simp add: weighted_step_def Let_def ws_def [symmetric] pick s'_def)
  moreover have "\<not> weightsConfigChanged (sw_weights s') ws"
    using prepare_same(2) [OF same [folded ws_def] wf] by (simp add: s'_def)
  moreover have "balanced ident weight admit es (sw_current s')" using bal' by (simp add: s'_def)
  moreover have "\<forall>e \<in> set (admitted weight admit es). get_or 0 (sw_current s') (ident e) =
      get_or 0 (sw_current s) (ident e) + weight e - (if e = p then pool_weight weight admit es else 0)"
    using vals cur by (simp add: s'_def)
  ultimately show ?thesis using that p by (simp add: ws_def)
qed

text \<open>
  Any number of steps: the credit of a candidate is what it earned minus the total weight for
  each time it was picked.
\<close>

lemma weighted_run_balanced:
  assumes dist: "distinct (List.map ident es)" and val: "\<forall>e \<in> set es. valid e"
    and len: "length es \<le> 1000000" and ne: "admitted weight admit es \<noteq> []"
    and bal: "balanced ident weight admit es (sw_current s)"
    and same: "\<not> weightsConfigChanged (sw_weights s) (weight_vector ident weight admit es)"
    and run: "weighted_run ident weight admit es n s = (s', ps)"
  shows "length ps = n \<and> set ps \<subseteq> Some ` set (admitted weight admit es)
    \<and> balanced ident weight admit es (sw_current s')
    \<and> (\<forall>e \<in> set (admitted weight admit es). get_or 0 (sw_current s') (ident e) =
        get_or 0 (sw_current s) (ident e) + int n * weight e
          - pool_weight weight admit es * int (count_list ps (Some e)))"
  using bal same run
proof (induction n arbitrary: s s' ps)
  case (Suc n)
  from weighted_step_balanced [OF dist val len ne Suc.prems(1,2)] obtain p s1
    where step: "weighted_step ident weight admit es s = (s1, Some p)"
      and p: "p \<in> set (admitted weight admit es)"
      and vals: "\<forall>e \<in> set (admitted weight admit es). get_or 0 (sw_current s1) (ident e) =
        get_or 0 (sw_current s) (ident e) + weight e - (if e = p then pool_weight weight admit es else 0)"
      and s1: "balanced ident weight admit es (sw_current s1)"
        "\<not> weightsConfigChanged (sw_weights s1) (weight_vector ident weight admit es)" .
  obtain s2 qs where rest: "weighted_run ident weight admit es n s1 = (s2, qs)" by force
  with Suc.prems(3) step have "s' = s2" and "ps = Some p # qs" by auto
  with Suc.IH [OF s1 rest] p vals show ?case by (auto simp: algebra_simps)
qed simp

lemma count_le_length_sum:
  assumes "distinct act" and "set ps \<subseteq> Some ` set act"
  shows "sum_list (List.map (\<lambda>e. int (count_list ps (Some e))) act) = int (length ps)"
  using assms(2)
proof (induction ps)
  case (Cons p ps)
  then obtain e where e: "p = Some e" "e \<in> set act" by auto
  have "sum_list (List.map (\<lambda>x. int (count_list (p # ps) (Some x))) act)
      = sum_list (List.map (\<lambda>x. int (count_list ps (Some x)) - (if x = e then - 1 else 0)) act)"
    by (intro arg_cong [where f = sum_list] map_cong) (auto simp: e)
  also have "\<dots> = sum_list (List.map (\<lambda>x. int (count_list ps (Some x))) act) + 1"
    using sum_list_update_one [OF assms(1) e(2), of "\<lambda>x. int (count_list ps (Some x))" "- 1"] by simp
  finally show ?case using Cons by simp
qed simp

lemma le_sum_eq:
  fixes f g :: "'e \<Rightarrow> int"
  assumes "\<forall>e \<in> set xs. f e \<le> g e" and "sum_list (List.map f xs) = sum_list (List.map g xs)"
  shows "\<forall>e \<in> set xs. f e = g e"
  using assms
proof (induction xs)
  case (Cons x xs)
  have "sum_list (List.map f xs) \<le> sum_list (List.map g xs)"
    using Cons.prems(1) by (intro sum_list_mono) auto
  with Cons show ?case by fastforce
qed simp

text \<open>Over as many steps as the total weight, every candidate is picked exactly its weight.\<close>

lemma weighted_run_picks:
  assumes dist: "distinct (List.map ident es)" and val: "\<forall>e \<in> set es. valid e"
    and len: "length es \<le> 1000000" and ne: "admitted weight admit es \<noteq> []"
  shows "set (snd (weighted_run ident weight admit es n empty_smooth)) \<subseteq> Some ` set (admitted weight admit es)"
proof -
  obtain s' ps where run: "weighted_run ident weight admit es n empty_smooth = (s', ps)" by force
  have bal: "balanced ident weight admit es (sw_current empty_smooth)"
    using pool_weight_pos [OF ne] by (simp add: balanced_def credit_sum_def empty_smooth_def sum_list_0)
  have "\<not> weightsConfigChanged (sw_weights empty_smooth) (weight_vector ident weight admit es)"
    by (simp add: weightsConfigChanged_def empty_smooth_def)
  from weighted_run_balanced [OF dist val len ne bal this run] show ?thesis by (simp add: run)
qed

lemma weighted_run_fair:
  assumes dist: "distinct (List.map ident es)" and val: "\<forall>e \<in> set es. valid e"
    and len: "length es \<le> 1000000" and e: "e \<in> set (admitted weight admit es)"
  shows "count_list (snd (weighted_run ident weight admit es (nat (pool_weight weight admit es)) empty_smooth))
      (Some e) = nat (weight e)"
proof -
  let ?A = "admitted weight admit es" and ?W = "pool_weight weight admit es"
  have ne: "?A \<noteq> []" using e by auto
  then have W: "0 < ?W" by (rule pool_weight_pos)
  have bal: "balanced ident weight admit es (sw_current empty_smooth)"
    using W by (simp add: balanced_def credit_sum_def empty_smooth_def sum_list_0)
  obtain s' ps where run: "weighted_run ident weight admit es (nat ?W) empty_smooth = (s', ps)" by force
  have "\<not> weightsConfigChanged (sw_weights empty_smooth) (weight_vector ident weight admit es)"
    by (simp add: weightsConfigChanged_def empty_smooth_def)
  from weighted_run_balanced [OF dist val len ne bal this run]
  have R: "length ps = nat ?W" "set ps \<subseteq> Some ` set ?A" "balanced ident weight admit es (sw_current s')"
    "\<forall>a \<in> set ?A. get_or 0 (sw_current s') (ident a) = ?W * weight a - ?W * int (count_list ps (Some a))"
    using W by (simp_all add: empty_smooth_def)
  have "int (count_list ps (Some a)) \<le> weight a" if "a \<in> set ?A" for a
  proof -
    have "- ?W < ?W * (weight a - int (count_list ps (Some a)))"
      using R(3,4) that by (auto simp: balanced_def algebra_simps)
    then have "0 < ?W * (weight a - int (count_list ps (Some a)) + 1)" by (simp add: algebra_simps)
    then show ?thesis using W by (simp add: zero_less_mult_iff)
  qed
  moreover have "sum_list (List.map (\<lambda>a. int (count_list ps (Some a))) ?A) = sum_list (List.map weight ?A)"
    using count_le_length_sum [OF _ R(2)] distinct_admitted [OF dist, of weight admit] R(1) W
    by (simp add: distinct_map pool_weight_def)
  ultimately have "int (count_list ps (Some e)) = weight e"
    using le_sum_eq [of ?A "\<lambda>a. int (count_list ps (Some a))" weight] e by blast
  then show ?thesis by (simp add: run)
qed

end

end
