(* ===== verification/ModelInfo.thy ===== *)
theory ModelInfo
  imports Prelude
begin

text \<open>
  The model metadata of \<open>internal/registry/model_registry.go\<close>: \<open>ModelInfo\<close>,
  \<open>ThinkingSupport\<close> and \<open>NativeCapabilities\<close>. A pointer that may be nil is an
  option. The values are immutable here, so the deep copy \<open>cloneModelInfo\<close> is the value
  itself.
\<close>

record ThinkingSupport =
  ts_Min :: int
  ts_Max :: int
  ts_ZeroAllowed :: bool
  ts_DynamicAllowed :: bool
  ts_Levels :: "string list"

record NativeCapabilities =
  nc_WebSearch :: "bool option"

record ModelConfig =
  mc_OverrideHeader :: "(string, string) gomap"

record ModelInfo =
  mi_ID :: string
  mi_MetadataModelID :: string
  mi_ExplicitThinking :: bool
  mi_ExplicitInputModalities :: bool
  mi_Object :: string
  mi_Created :: int
  mi_OwnedBy :: string
  mi_Type :: string
  mi_DisplayName :: string
  mi_Name :: string
  mi_Version :: string
  mi_Description :: string
  mi_InputTokenLimit :: int
  mi_OutputTokenLimit :: int
  mi_SupportedGenerationMethods :: "string list"
  mi_ContextLength :: int
  mi_MaxContextLength :: int
  mi_MaxCompletionTokens :: int
  mi_SupportedParameters :: "string list"
  mi_SupportedInputModalities :: "string list"
  mi_SupportedOutputModalities :: "string list"
  mi_SupportsWebSearch :: bool
  mi_NativeCapabilities :: "NativeCapabilities option"
  mi_Thinking :: "ThinkingSupport option"
  mi_Config :: "ModelConfig option"
  mi_UserDefined :: bool
  mi_IsCompat :: bool

definition blank_model :: "string \<Rightarrow> ModelInfo" where
  "blank_model model_id = \<lparr>
     mi_ID = model_id, mi_MetadataModelID = [], mi_ExplicitThinking = False,
     mi_ExplicitInputModalities = False, mi_Object = [], mi_Created = 0, mi_OwnedBy = [],
     mi_Type = [], mi_DisplayName = [], mi_Name = [], mi_Version = [], mi_Description = [],
     mi_InputTokenLimit = 0, mi_OutputTokenLimit = 0, mi_SupportedGenerationMethods = [],
     mi_ContextLength = 0, mi_MaxContextLength = 0, mi_MaxCompletionTokens = 0,
     mi_SupportedParameters = [], mi_SupportedInputModalities = [],
     mi_SupportedOutputModalities = [], mi_SupportsWebSearch = False,
     mi_NativeCapabilities = None, mi_Thinking = None, mi_Config = None,
     mi_UserDefined = False, mi_IsCompat = False\<rparr>"

definition cloneModelInfo :: "ModelInfo \<Rightarrow> ModelInfo" where
  "cloneModelInfo model = model"

end
