(* ===== verification/Thinking.thy ===== *)
theory Thinking
  imports ModelInfo
begin

text \<open>
  Thinking configurations (package \<open>internal/thinking\<close>): the suffix of a model name, the
  conversion between budgets and levels, and \<open>ValidateConfig\<close>, which brings a requested
  configuration within the capabilities of a model. The provider appliers, which write the result
  into JSON bodies, are not modelled. Logging is left out.
\<close>

section \<open>Types\<close>

datatype ThinkingMode = ModeBudget | ModeLevel | ModeNone | ModeAuto

type_synonym ThinkingLevel = string

definition LevelNone :: ThinkingLevel where "LevelNone = ''none''"
definition LevelAuto :: ThinkingLevel where "LevelAuto = ''auto''"
definition LevelMinimal :: ThinkingLevel where "LevelMinimal = ''minimal''"
definition LevelLow :: ThinkingLevel where "LevelLow = ''low''"
definition LevelMedium :: ThinkingLevel where "LevelMedium = ''medium''"
definition LevelHigh :: ThinkingLevel where "LevelHigh = ''high''"
definition LevelXHigh :: ThinkingLevel where "LevelXHigh = ''xhigh''"
definition LevelMax :: ThinkingLevel where "LevelMax = ''max''"

lemmas level_defs = LevelNone_def LevelAuto_def LevelMinimal_def LevelLow_def LevelMedium_def
  LevelHigh_def LevelXHigh_def LevelMax_def

record ThinkingConfig =
  tc_Mode :: ThinkingMode
  tc_Budget :: int
  tc_Level :: ThinkingLevel

record SuffixResult =
  sr_ModelName :: string
  sr_HasSuffix :: bool
  sr_RawSuffix :: string

datatype thinking_error =
    ErrThinkingNotSupported string
  | ErrUnknownLevel
  | ErrLevelNotSupported ThinkingLevel "string list"
  | ErrBudgetOutOfRange int int int

section \<open>Suffixes of model names\<close>

definition ParseSuffix :: "string \<Rightarrow> SuffixResult" where
  "ParseSuffix model =
     (case last_index model CHR ''('' of
        None \<Rightarrow> \<lparr>sr_ModelName = model, sr_HasSuffix = False, sr_RawSuffix = []\<rparr>
      | Some lastOpen \<Rightarrow>
          if \<not> has_suffix model '')''
          then \<lparr>sr_ModelName = model, sr_HasSuffix = False, sr_RawSuffix = []\<rparr>
          else \<lparr>sr_ModelName = take lastOpen model, sr_HasSuffix = True,
                sr_RawSuffix = drop (lastOpen + 1) (take (length model - 1) model)\<rparr>)"

definition ParseNumericSuffix :: "string \<Rightarrow> int option" where
  "ParseNumericSuffix rawSuffix =
     (if rawSuffix = [] then None
      else case parse_int rawSuffix of
        None \<Rightarrow> None
      | Some v \<Rightarrow> if v < 0 then None else Some v)"

definition ParseSpecialSuffix :: "string \<Rightarrow> ThinkingMode option" where
  "ParseSpecialSuffix rawSuffix =
     (if rawSuffix = [] then None
      else let s = to_lower rawSuffix
        in if s = ''none'' then Some ModeNone
           else if s = ''auto'' \<or> s = ''-1'' then Some ModeAuto
           else None)"

definition ParseLevelSuffix :: "string \<Rightarrow> ThinkingLevel option" where
  "ParseLevelSuffix rawSuffix =
     (if rawSuffix = [] then None
      else let s = to_lower rawSuffix
        in if s = ''minimal'' then Some LevelMinimal
           else if s = ''low'' then Some LevelLow
           else if s = ''medium'' then Some LevelMedium
           else if s = ''high'' then Some LevelHigh
           else if s = ''xhigh'' then Some LevelXHigh
           else if s = ''max'' then Some LevelMax
           else None)"

text \<open>
  C37: Round trip of the suffix parser: a model name followed by a parenthesised suffix without an
  opening parenthesis splits into exactly these two parts, and every split that reports a suffix
  can be put back together.
\<close>

theorem ParseSuffix_roundtrip:
  assumes "CHR ''('' \<notin> set suffix"
  shows "ParseSuffix (name @ ''('' @ suffix @ '')'') =
      \<lparr>sr_ModelName = name, sr_HasSuffix = True, sr_RawSuffix = suffix\<rparr>
    \<and> (sr_HasSuffix (ParseSuffix model) \<longrightarrow>
        model = sr_ModelName (ParseSuffix model) @ ''('' @ sr_RawSuffix (ParseSuffix model) @ '')'')"
proof
  have "last_index (suffix @ '')'') CHR ''('' = None" using assms by (simp add: last_index_None)
  then have "last_index (name @ ''('' @ suffix @ '')'') CHR ''('' = Some (length name)"
    by (simp add: last_index_append)
  moreover have "has_suffix (name @ ''('' @ suffix @ '')'') '')''"
    using has_suffix_append [of "name @ ''('' @ suffix" "'')''"] by simp
  ultimately show "ParseSuffix (name @ ''('' @ suffix @ '')'') =
      \<lparr>sr_ModelName = name, sr_HasSuffix = True, sr_RawSuffix = suffix\<rparr>"
    by (simp add: ParseSuffix_def)
  show "sr_HasSuffix (ParseSuffix model) \<longrightarrow>
        model = sr_ModelName (ParseSuffix model) @ ''('' @ sr_RawSuffix (ParseSuffix model) @ '')''"
  proof
    assume "sr_HasSuffix (ParseSuffix model)"
    then obtain i where i: "last_index model CHR ''('' = Some i" and suf: "has_suffix model '')''"
      by (auto simp: ParseSuffix_def split: option.splits if_splits)
    from suf obtain r where "rev model = '')'' @ r"
      by (auto simp: has_suffix_def has_prefix_iff)
    then have m: "model = rev r @ '')''" by (metis rev_append rev_rev_ident rev_singleton_conv)
    have nth: "last_index s c = Some k \<Longrightarrow> s ! k = c \<and> k < length s" for s c k
      by (induction s arbitrary: k) (auto split: option.splits if_splits)
    from nth [OF i] m have "i < length (rev r)" and "rev r ! i = CHR ''(''"
      by (auto simp: nth_append split: if_splits)
    then have "rev r = take i (rev r) @ ''('' @ drop (Suc i) (rev r)"
      by (metis append_Cons append_Nil id_take_nth_drop)
    then show "model = sr_ModelName (ParseSuffix model) @ ''('' @ sr_RawSuffix (ParseSuffix model) @ '')''"
      using i suf m \<open>i < length (rev r)\<close> by (simp add: ParseSuffix_def)
  qed
qed

theorem ParseSuffix_roundtrip_witness:
  "ParseSuffix (''gpt-5.2'' @ ''('' @ ''high'' @ '')'') =
      \<lparr>sr_ModelName = ''gpt-5.2'', sr_HasSuffix = True, sr_RawSuffix = ''high''\<rparr>
    \<and> ''a(b)'' = sr_ModelName (ParseSuffix ''a(b)'') @ ''('' @ sr_RawSuffix (ParseSuffix ''a(b)'') @ '')''"
proof -
  have "sr_HasSuffix (ParseSuffix ''a(b)'')" by code_simp
  with ParseSuffix_roundtrip [of "''high''" "''gpt-5.2''" "''a(b)''"] show ?thesis by simp
qed

section \<open>Budgets and levels\<close>

definition levelToBudgetMap :: "(string, int) gomap" where
  "levelToBudgetMap =
     [(''none'', 0), (''auto'', -1), (''minimal'', 512), (''low'', 1024), (''medium'', 8192),
      (''high'', 24576), (''xhigh'', 32768), (''max'', 128000)]"

definition ConvertLevelToBudget :: "string \<Rightarrow> int option" where
  "ConvertLevelToBudget level = map_of levelToBudgetMap (to_lower level)"

definition ThresholdMinimal :: int where "ThresholdMinimal = 512"
definition ThresholdLow :: int where "ThresholdLow = 1024"
definition ThresholdMedium :: int where "ThresholdMedium = 8192"
definition ThresholdHigh :: int where "ThresholdHigh = 24576"

definition ConvertBudgetToLevel :: "int \<Rightarrow> ThinkingLevel option" where
  "ConvertBudgetToLevel budget =
     (if budget < -1 then None
      else if budget = -1 then Some LevelAuto
      else if budget = 0 then Some LevelNone
      else if budget \<le> ThresholdMinimal then Some LevelMinimal
      else if budget \<le> ThresholdLow then Some LevelLow
      else if budget \<le> ThresholdMedium then Some LevelMedium
      else if budget \<le> ThresholdHigh then Some LevelHigh
      else Some LevelXHigh)"

definition HasLevel :: "string list \<Rightarrow> string \<Rightarrow> bool" where
  "HasLevel levels target = list_ex (\<lambda>level. equal_fold (trim_space level) target) levels"

definition MapToClaudeEffort :: "string \<Rightarrow> bool \<Rightarrow> string option" where
  "MapToClaudeEffort level0 supportsMax =
     (let level = to_lower (trim_space level0)
      in if level = [] then None
         else if level = ''minimal'' then Some ''low''
         else if level = ''low'' \<or> level = ''medium'' \<or> level = ''high'' then Some level
         else if level = ''xhigh'' \<or> level = ''max''
           then (if supportsMax then Some ''max'' else Some ''high'')
         else if level = ''auto'' then Some ''high''
         else None)"

datatype ModelCapability =
  CapabilityUnknown | CapabilityNone | CapabilityBudgetOnly | CapabilityLevelOnly | CapabilityHybrid

definition detectModelCapability :: "ModelInfo option \<Rightarrow> ModelCapability" where
  "detectModelCapability modelInfo =
     (case modelInfo of
        None \<Rightarrow> CapabilityUnknown
      | Some mi \<Rightarrow>
          (case mi_Thinking mi of
             None \<Rightarrow> CapabilityNone
           | Some support \<Rightarrow>
               let hasBudget = ts_Min support > 0 \<or> ts_Max support > 0;
                   hasLevels = ts_Levels support \<noteq> []
               in if hasBudget \<and> hasLevels then CapabilityHybrid
                  else if hasBudget then CapabilityBudgetOnly
                  else if hasLevels then CapabilityLevelOnly
                  else CapabilityNone))"

lemma level_budgets [simp]:
  "ConvertLevelToBudget LevelNone = Some 0" "ConvertLevelToBudget LevelAuto = Some (-1)"
  "ConvertLevelToBudget LevelMinimal = Some 512" "ConvertLevelToBudget LevelLow = Some 1024"
  "ConvertLevelToBudget LevelMedium = Some 8192" "ConvertLevelToBudget LevelHigh = Some 24576"
  "ConvertLevelToBudget LevelXHigh = Some 32768" "ConvertLevelToBudget LevelMax = Some 128000"
  by (simp_all add: ConvertLevelToBudget_def levelToBudgetMap_def level_defs to_lower_def lower_char_def)

lemmas threshold_defs = ThresholdMinimal_def ThresholdLow_def ThresholdMedium_def ThresholdHigh_def

text \<open>The budget a level stands for, as \<open>ConvertBudgetToLevel\<close> assigns it.\<close>

definition level_ceiling :: "int \<Rightarrow> int" where
  "level_ceiling b =
     (if b \<le> 0 then b else if b \<le> 512 then 512 else if b \<le> 1024 then 1024
      else if b \<le> 8192 then 8192 else if b \<le> 24576 then 24576 else 32768)"

lemma level_ceiling_spec:
  "-1 \<le> b \<Longrightarrow> \<exists>l. ConvertBudgetToLevel b = Some l \<and> ConvertLevelToBudget l = Some (level_ceiling b)
     \<and> ConvertBudgetToLevel (level_ceiling b) = Some l"
  by (auto simp: ConvertBudgetToLevel_def level_ceiling_def threshold_defs)

lemma level_ceiling_mono: "b \<le> b' \<Longrightarrow> level_ceiling b \<le> level_ceiling b'"
  by (auto simp: level_ceiling_def)

lemma level_ceiling_ge: "min b 32768 \<le> level_ceiling b"
  by (auto simp: level_ceiling_def)

text \<open>
  Budget and level conversions agree: every valid budget has a level, the budget of that level
  maps back to the same level and covers the requested budget (up to the xhigh cap), and a larger
  budget never yields a level with a smaller budget.
\<close>

theorem ConvertBudgetToLevel_sound:
  assumes "-1 \<le> b" and "b \<le> b'"
  shows "\<exists>l l' c c'. ConvertBudgetToLevel b = Some l \<and> ConvertBudgetToLevel b' = Some l'
    \<and> ConvertLevelToBudget l = Some c \<and> ConvertLevelToBudget l' = Some c'
    \<and> c \<le> c' \<and> min b 32768 \<le> c \<and> ConvertBudgetToLevel c = Some l"
  using level_ceiling_spec [of b] level_ceiling_spec [of b'] level_ceiling_mono [OF assms(2)]
    level_ceiling_ge [of b] assms
  by fastforce

theorem ConvertBudgetToLevel_sound_witness:
  "\<exists>l l' c c'. ConvertBudgetToLevel 600 = Some l \<and> ConvertBudgetToLevel 9000 = Some l'
    \<and> ConvertLevelToBudget l = Some c \<and> ConvertLevelToBudget l' = Some c'
    \<and> c \<le> c' \<and> min 600 32768 \<le> c \<and> ConvertBudgetToLevel c = Some l"
  by (rule ConvertBudgetToLevel_sound) simp_all

section \<open>Levels of a model\<close>

definition isLevelSupported :: "string \<Rightarrow> string list \<Rightarrow> bool" where
  "isLevelSupported level supported = list_ex (\<lambda>s. equal_fold level (trim_space s)) supported"

definition standardLevelOrder :: "ThinkingLevel list" where
  "standardLevelOrder = [LevelMinimal, LevelLow, LevelMedium, LevelHigh, LevelXHigh, LevelMax]"

fun index_fold :: "string \<Rightarrow> ThinkingLevel list \<Rightarrow> int \<Rightarrow> int" where
  "index_fold level [] i = -1"
| "index_fold level (l # ls) i = (if equal_fold level l then i else index_fold level ls (i + 1))"

definition levelIndex :: "string \<Rightarrow> int" where
  "levelIndex level = index_fold level standardLevelOrder 0"

text \<open>The loop of \<open>clampLevel\<close>: the best index and its distance so far.\<close>

fun clamp_loop :: "int \<Rightarrow> string list \<Rightarrow> int \<Rightarrow> int \<Rightarrow> int" where
  "clamp_loop pos [] bestIdx bestDist = bestIdx"
| "clamp_loop pos (s # ss) bestIdx bestDist =
     (let idx = levelIndex (trim_space s)
      in if idx \<noteq> -1 \<and> (\<bar>pos - idx\<bar> < bestDist \<or> (\<bar>pos - idx\<bar> = bestDist \<and> idx < bestIdx))
         then clamp_loop pos ss idx \<bar>pos - idx\<bar>
         else clamp_loop pos ss bestIdx bestDist)"

definition clampLevel :: "ThinkingLevel \<Rightarrow> ModelInfo option \<Rightarrow> ThinkingLevel" where
  "clampLevel level modelInfo =
     (let supported = (case modelInfo of
            None \<Rightarrow> []
          | Some mi \<Rightarrow> (case mi_Thinking mi of None \<Rightarrow> [] | Some t \<Rightarrow> ts_Levels t))
      in if supported = [] \<or> isLevelSupported level supported then level
         else let pos = levelIndex level
           in if pos = -1 then level
              else let bestIdx = clamp_loop pos supported (-1) (int (length standardLevelOrder) + 1)
                in if bestIdx \<ge> 0 then standardLevelOrder ! nat bestIdx else level)"

definition clampBudget :: "int \<Rightarrow> ModelInfo option \<Rightarrow> int" where
  "clampBudget value modelInfo =
     (case (case modelInfo of None \<Rightarrow> None | Some mi \<Rightarrow> mi_Thinking mi) of
        None \<Rightarrow> value
      | Some support \<Rightarrow>
          if value = -1 then value
          else if value = 0 \<and> \<not> ts_ZeroAllowed support then ts_Min support
          else if ts_Min support = 0 \<and> ts_Max support = 0 then value
          else if value < ts_Min support then
            (if value = 0 \<and> ts_ZeroAllowed support then 0 else ts_Min support)
          else if value > ts_Max support then ts_Max support
          else value)"

definition normalizeLevels :: "string list \<Rightarrow> string list" where
  "normalizeLevels levels = List.map (\<lambda>l. to_lower (trim_space l)) levels"

definition isBudgetCapableProvider :: "string \<Rightarrow> bool" where
  "isBudgetCapableProvider provider = (provider = ''gemini'' \<or> provider = ''antigravity'' \<or> provider = ''claude'')"

definition isGeminiFamily :: "string \<Rightarrow> bool" where
  "isGeminiFamily provider = (provider = ''gemini'' \<or> provider = ''antigravity'')"

definition isOpenAIFamily :: "string \<Rightarrow> bool" where
  "isOpenAIFamily provider =
     (provider = ''openai'' \<or> provider = ''openai-response'' \<or> provider = ''codex'')"

definition isSameProviderFamily :: "string \<Rightarrow> string \<Rightarrow> bool" where
  "isSameProviderFamily src dst =
     (if src = dst then True
      else (isGeminiFamily src \<and> isGeminiFamily dst) \<or> (isOpenAIFamily src \<and> isOpenAIFamily dst))"

definition convertAutoToMidRange :: "ThinkingConfig \<Rightarrow> ThinkingSupport \<Rightarrow> ThinkingConfig" where
  "convertAutoToMidRange config support =
     (if ts_Levels support \<noteq> [] \<and> ts_Min support = 0 \<and> ts_Max support = 0
      then config\<lparr>tc_Mode := ModeLevel, tc_Level := LevelMedium, tc_Budget := 0\<rparr>
      else
        let mid = go_div (ts_Min support + ts_Max support) 2
        in if mid \<le> 0 \<and> ts_ZeroAllowed support then config\<lparr>tc_Mode := ModeNone, tc_Budget := 0\<rparr>
           else if mid \<le> 0 then config\<lparr>tc_Mode := ModeBudget, tc_Budget := ts_Min support\<rparr>
           else config\<lparr>tc_Mode := ModeBudget, tc_Budget := mid\<rparr>)"

section \<open>Validation\<close>

text \<open>
  \<open>ValidateConfig\<close> is a sequence of passes over the configuration. Each pass is a
  definition; an early return with an error is \<open>Inl\<close>.
\<close>

text \<open>Conversion between the formats; the flag records a budget derived from a level.\<close>

definition convert_format ::
  "ThinkingConfig \<Rightarrow> ModelInfo option \<Rightarrow> thinking_error + (ThinkingConfig \<times> bool)" where
  "convert_format config modelInfo =
     (case detectModelCapability modelInfo of
        CapabilityBudgetOnly \<Rightarrow>
          (if tc_Mode config = ModeLevel \<and> tc_Level config \<noteq> LevelAuto then
             case ConvertLevelToBudget (tc_Level config) of
               None \<Rightarrow> Inl ErrUnknownLevel
             | Some budget \<Rightarrow>
                 Inr (config\<lparr>tc_Mode := ModeBudget, tc_Budget := budget, tc_Level := []\<rparr>, True)
           else Inr (config, False))
      | CapabilityLevelOnly \<Rightarrow>
          (if tc_Mode config = ModeBudget then
             case ConvertBudgetToLevel (tc_Budget config) of
               None \<Rightarrow> Inl ErrUnknownLevel
             | Some level \<Rightarrow>
                 Inr (config\<lparr>tc_Mode := ModeLevel, tc_Level := clampLevel level modelInfo, tc_Budget := 0\<rparr>,
                      False)
           else Inr (config, False))
      | _ \<Rightarrow> Inr (config, False))"

text \<open>The special levels and the zero budget become modes.\<close>

definition normalize_modes :: "ThinkingConfig \<Rightarrow> ThinkingConfig" where
  "normalize_modes c0 =
     (let c1 = (if tc_Mode c0 = ModeLevel \<and> tc_Level c0 = LevelNone
                then c0\<lparr>tc_Mode := ModeNone, tc_Budget := 0, tc_Level := []\<rparr> else c0);
          c2 = (if tc_Mode c1 = ModeLevel \<and> tc_Level c1 = LevelAuto
                then c1\<lparr>tc_Mode := ModeAuto, tc_Budget := -1, tc_Level := []\<rparr> else c1)
      in if tc_Mode c2 = ModeBudget \<and> tc_Budget c2 = 0
         then c2\<lparr>tc_Mode := ModeNone, tc_Level := []\<rparr> else c2)"

definition check_level ::
  "ThinkingConfig \<Rightarrow> ThinkingSupport \<Rightarrow> ModelInfo option \<Rightarrow> bool \<Rightarrow> thinking_error + ThinkingConfig" where
  "check_level config support modelInfo allowClampUnsupported =
     (if ts_Levels support \<noteq> [] \<and> tc_Mode config = ModeLevel
         \<and> \<not> isLevelSupported (tc_Level config) (ts_Levels support)
      then
        let config' = (if allowClampUnsupported
              then config\<lparr>tc_Level := clampLevel (tc_Level config) modelInfo\<rparr> else config)
        in if \<not> isLevelSupported (tc_Level config') (ts_Levels support)
           then Inl (ErrLevelNotSupported (to_lower (tc_Level config')) (normalizeLevels (ts_Levels support)))
           else Inr config'
      else Inr config)"

definition check_budget ::
  "ThinkingConfig \<Rightarrow> ThinkingSupport \<Rightarrow> bool \<Rightarrow> bool \<Rightarrow> thinking_error + ThinkingConfig" where
  "check_budget config support strictBudget budgetDerivedFromLevel =
     (if strictBudget \<and> tc_Mode config = ModeBudget \<and> \<not> budgetDerivedFromLevel
         \<and> (ts_Min support \<noteq> 0 \<or> ts_Max support \<noteq> 0)
         \<and> (tc_Budget config < ts_Min support \<or> tc_Budget config > ts_Max support
            \<or> (tc_Budget config = 0 \<and> \<not> ts_ZeroAllowed support))
      then Inl (ErrBudgetOutOfRange (tc_Budget config) (ts_Min support) (ts_Max support))
      else Inr config)"

definition resolve_auto :: "ThinkingConfig \<Rightarrow> ThinkingSupport \<Rightarrow> ModelInfo option \<Rightarrow> ThinkingConfig" where
  "resolve_auto config support modelInfo =
     (if tc_Mode config = ModeAuto \<and> \<not> ts_DynamicAllowed support then
        let c = convertAutoToMidRange config support
        in if tc_Mode c = ModeLevel \<and> ts_Levels support \<noteq> []
              \<and> \<not> isLevelSupported (tc_Level c) (ts_Levels support)
           then c\<lparr>tc_Level := clampLevel (tc_Level c) modelInfo\<rparr> else c
      else config)"

definition finish_config ::
  "ThinkingConfig \<Rightarrow> ThinkingSupport \<Rightarrow> ModelInfo option \<Rightarrow> string \<Rightarrow> ThinkingConfig" where
  "finish_config config support modelInfo toFormat =
     (if tc_Mode config = ModeNone \<and> toFormat = ''claude''
      then config\<lparr>tc_Budget := 0, tc_Level := []\<rparr>
      else
        let c = (if tc_Mode config = ModeLevel then config
                 else config\<lparr>tc_Budget := clampBudget (tc_Budget config) modelInfo\<rparr>);
            cannotDisableLevelModel =
              \<not> ts_ZeroAllowed support \<and> \<not> isLevelSupported LevelNone (ts_Levels support)
        in if tc_Mode c = ModeNone \<and> ts_Levels support \<noteq> [] \<and> (tc_Budget c > 0 \<or> cannotDisableLevelModel)
           then c\<lparr>tc_Level := hd (ts_Levels support)\<rparr> else c)"

definition family_mismatch :: "ModelInfo option \<Rightarrow> string \<Rightarrow> string \<Rightarrow> bool" where
  "family_mismatch modelInfo fromFormat toFormat =
     (case modelInfo of
        None \<Rightarrow> False
      | Some mi \<Rightarrow>
          let modelType = to_lower (trim_space (mi_Type mi))
          in modelType \<noteq> [] \<and>
             ((fromFormat \<noteq> [] \<and> \<not> isSameProviderFamily fromFormat modelType) \<or>
              (toFormat \<noteq> [] \<and> \<not> isSameProviderFamily toFormat modelType)))"

definition ValidateConfig ::
  "ThinkingConfig \<Rightarrow> ModelInfo option \<Rightarrow> string \<Rightarrow> string \<Rightarrow> bool \<Rightarrow> thinking_error + ThinkingConfig"
where
  "ValidateConfig config modelInfo fromFormat0 toFormat0 fromSuffix =
     (let fromFormat = to_lower (trim_space fromFormat0);
          toFormat = to_lower (trim_space toFormat0);
          model = (case modelInfo of
              None \<Rightarrow> ''unknown'' | Some mi \<Rightarrow> if mi_ID mi \<noteq> [] then mi_ID mi else ''unknown'')
      in case (case modelInfo of None \<Rightarrow> None | Some mi \<Rightarrow> mi_Thinking mi) of
        None \<Rightarrow> if tc_Mode config \<noteq> ModeNone then Inl (ErrThinkingNotSupported model) else Inr config
      | Some support \<Rightarrow>
          let toCapability = detectModelCapability modelInfo;
              toHasLevelSupport = (toCapability = CapabilityLevelOnly \<or> toCapability = CapabilityHybrid);
              modelFamilyMismatch = family_mismatch modelInfo fromFormat toFormat;
              allowClampUnsupported = (toHasLevelSupport \<and>
                (\<not> isSameProviderFamily fromFormat toFormat \<or> modelFamilyMismatch));
              strictBudget = (\<not> fromSuffix \<and> fromFormat \<noteq> [] \<and> isSameProviderFamily fromFormat toFormat
                \<and> \<not> modelFamilyMismatch)
          in case convert_format config modelInfo of
            Inl e \<Rightarrow> Inl e
          | Inr (c1, budgetDerivedFromLevel) \<Rightarrow>
              (case check_level (normalize_modes c1) support modelInfo allowClampUnsupported of
                 Inl e \<Rightarrow> Inl e
               | Inr c2 \<Rightarrow>
                   (case check_budget c2 support strictBudget budgetDerivedFromLevel of
                      Inl e \<Rightarrow> Inl e
                    | Inr c3 \<Rightarrow>
                        Inr (finish_config (resolve_auto c3 support modelInfo) support modelInfo toFormat))))"

subsection \<open>Clamping finds the nearest level\<close>

lemma levelIndex_range: "levelIndex l = -1 \<or> (0 \<le> levelIndex l \<and> levelIndex l < 6)"
  by (auto simp: levelIndex_def standardLevelOrder_def)

definition nearer :: "int \<Rightarrow> int \<Rightarrow> int \<Rightarrow> bool" where
  "nearer pos i j \<longleftrightarrow> \<bar>pos - i\<bar> < \<bar>pos - j\<bar> \<or> (\<bar>pos - i\<bar> = \<bar>pos - j\<bar> \<and> i \<le> j)"

definition standard_indices :: "string list \<Rightarrow> int set" where
  "standard_indices ss = (\<lambda>s. levelIndex (trim_space s)) ` set ss - {-1}"

lemma nearer_refl [simp]: "nearer pos i i"
  by (simp add: nearer_def)

lemma nearer_trans: "nearer pos i j \<Longrightarrow> nearer pos j k \<Longrightarrow> nearer pos i k"
  by (auto simp: nearer_def)

lemma standard_indices_Nil [simp]: "standard_indices [] = {}"
  by (simp add: standard_indices_def)

lemma standard_indices_Cons:
  "standard_indices (s # ss) =
     (if levelIndex (trim_space s) = -1 then standard_indices ss
      else insert (levelIndex (trim_space s)) (standard_indices ss))"
  by (auto simp: standard_indices_def)

lemma standard_indices_range: "i \<in> standard_indices ss \<Longrightarrow> 0 \<le> i \<and> i < 6"
  using levelIndex_range by (fastforce simp: standard_indices_def)

lemma clamp_loop_some:
  "(let r = clamp_loop pos ss b \<bar>pos - b\<bar>
    in r \<in> insert b (standard_indices ss) \<and> (\<forall>j \<in> insert b (standard_indices ss). nearer pos r j))"
proof (induction ss arbitrary: b)
  case (Cons s ss)
  define idx where "idx = levelIndex (trim_space s)"
  show ?case
  proof (cases "idx \<noteq> -1 \<and> (\<bar>pos - idx\<bar> < \<bar>pos - b\<bar> \<or> (\<bar>pos - idx\<bar> = \<bar>pos - b\<bar> \<and> idx < b))")
    case True
    then have "nearer pos idx b" by (auto simp: nearer_def)
    with Cons.IH [of idx] True show ?thesis
      by (auto simp: Let_def standard_indices_Cons idx_def [symmetric] intro: nearer_trans)
  next
    case False
    then have "idx = -1 \<or> nearer pos b idx" by (auto simp: nearer_def)
    moreover have "clamp_loop pos (s # ss) b \<bar>pos - b\<bar> = clamp_loop pos ss b \<bar>pos - b\<bar>"
      using False unfolding clamp_loop.simps Let_def idx_def [symmetric] by (rule if_not_P)
    ultimately show ?thesis using Cons.IH [of b]
      by (auto simp: Let_def standard_indices_Cons idx_def [symmetric] intro: nearer_trans)
  qed
qed simp

lemma clamp_loop_spec:
  assumes "0 \<le> pos" and "pos < 6"
  shows "let r = clamp_loop pos ss (-1) 7
    in if standard_indices ss = {} then r = -1
       else r \<in> standard_indices ss \<and> (\<forall>j \<in> standard_indices ss. nearer pos r j)"
proof (induction ss)
  case (Cons s ss)
  show ?case
  proof (cases "levelIndex (trim_space s) = -1")
    case False
    with levelIndex_range [of "trim_space s"] assms
    have "\<bar>pos - levelIndex (trim_space s)\<bar> < 7" by auto
    with False clamp_loop_some [of pos ss "levelIndex (trim_space s)"] show ?thesis
      by (simp add: Let_def standard_indices_Cons)
  qed (use Cons in \<open>simp add: Let_def standard_indices_Cons\<close>)
qed simp

lemma levelIndex_standard: "0 \<le> i \<Longrightarrow> i < 6 \<Longrightarrow> levelIndex (standardLevelOrder ! nat i) = i"
proof -
  assume "0 \<le> i" "i < 6"
  then have "i = 0 \<or> i = 1 \<or> i = 2 \<or> i = 3 \<or> i = 4 \<or> i = 5" by arith
  then show ?thesis
    by (elim disjE) (simp_all add: levelIndex_def standardLevelOrder_def level_defs equal_fold_def
      to_lower_def lower_char_def)
qed

lemma index_fold_nth:
  "index_fold l ls k = -1 \<or>
   (\<exists>n < length ls. index_fold l ls k = k + int n \<and> equal_fold l (ls ! n))"
proof (induction ls arbitrary: k)
  case (Cons x xs)
  show ?case
  proof (cases "equal_fold l x")
    case False
    with Cons [of "k + 1"] show ?thesis
      by (force intro: exI [of _ "Suc n" for n])
  qed auto
qed simp

lemma levelIndex_fold: "levelIndex l \<noteq> -1 \<Longrightarrow> equal_fold l (standardLevelOrder ! nat (levelIndex l))"
  using index_fold_nth [of l standardLevelOrder 0] by (auto simp: levelIndex_def)

lemma isLevelSupported_index:
  assumes "i \<in> standard_indices ss"
  shows "isLevelSupported (standardLevelOrder ! nat i) ss"
proof -
  from assms obtain s where s: "s \<in> set ss" "levelIndex (trim_space s) = i" "i \<noteq> -1"
    by (auto simp: standard_indices_def)
  then have "equal_fold (trim_space s) (standardLevelOrder ! nat i)" using levelIndex_fold by blast
  with s(1) show ?thesis
    by (auto simp: isLevelSupported_def list_ex_iff equal_fold_def intro!: bexI [of _ s])
qed

lemma levelIndex_not_NilD: "levelIndex l \<noteq> -1 \<Longrightarrow> 0 \<le> levelIndex l \<and> levelIndex l < 6"
  using levelIndex_range by blast

lemma clampLevel_cases:
  assumes "mi_Thinking mi = Some t" and "levelIndex level \<noteq> -1" and "ts_Levels t \<noteq> []"
    and "\<not> isLevelSupported level (ts_Levels t)" and "standard_indices (ts_Levels t) \<noteq> {}"
  shows "\<exists>i \<in> standard_indices (ts_Levels t). clampLevel level (Some mi) = standardLevelOrder ! nat i
    \<and> (\<forall>j \<in> standard_indices (ts_Levels t). nearer (levelIndex level) i j)"
proof -
  let ?r = "clamp_loop (levelIndex level) (ts_Levels t) (-1) 7"
  have "?r \<in> standard_indices (ts_Levels t)"
    and "\<forall>j \<in> standard_indices (ts_Levels t). nearer (levelIndex level) ?r j"
    using clamp_loop_spec [of "levelIndex level" "ts_Levels t"] levelIndex_not_NilD [OF assms(2)] assms(5)
    by (simp_all add: Let_def)
  moreover from this(1) have "0 \<le> ?r" by (simp add: standard_indices_range)
  ultimately show ?thesis using assms
    by (intro bexI [of _ ?r]) (simp_all add: clampLevel_def Let_def standardLevelOrder_def)
qed

lemma clampLevel_supported:
  assumes "mi_Thinking mi = Some t" and "levelIndex level \<noteq> -1" and "ts_Levels t \<noteq> []"
    and "standard_indices (ts_Levels t) \<noteq> {}"
  shows "isLevelSupported (clampLevel level (Some mi)) (ts_Levels t)"
proof (cases "isLevelSupported level (ts_Levels t)")
  case True
  with assms show ?thesis by (simp add: clampLevel_def Let_def)
next
  case False
  with clampLevel_cases [OF assms(1-3) False assms(4)] show ?thesis
    by (auto intro: isLevelSupported_index)
qed

text \<open>
  \<open>clampLevel\<close> returns a level the model supports, and among the standard levels of the
  model none is closer to the requested one on the standard scale; of two equally close levels it
  takes the lower.
\<close>

theorem clampLevel_nearest:
  assumes "mi_Thinking mi = Some t" and "levelIndex level \<noteq> -1"
    and "s \<in> set (ts_Levels t)" and "levelIndex (trim_space s) \<noteq> -1"
  shows "isLevelSupported (clampLevel level (Some mi)) (ts_Levels t)
    \<and> nearer (levelIndex level) (levelIndex (clampLevel level (Some mi))) (levelIndex (trim_space s))"
proof -
  have s: "levelIndex (trim_space s) \<in> standard_indices (ts_Levels t)"
    using assms(3,4) by (auto simp: standard_indices_def)
  then have ne: "ts_Levels t \<noteq> []" "standard_indices (ts_Levels t) \<noteq> {}" by auto
  have "nearer (levelIndex level) (levelIndex (clampLevel level (Some mi))) (levelIndex (trim_space s))"
  proof (cases "isLevelSupported level (ts_Levels t)")
    case True
    with assms ne show ?thesis by (auto simp: clampLevel_def Let_def nearer_def)
  next
    case False
    with clampLevel_cases [OF assms(1,2) ne(1) False ne(2)] s show ?thesis
      by (auto simp: levelIndex_standard dest: standard_indices_range)
  qed
  with clampLevel_supported [OF assms(1,2) ne] show ?thesis by blast
qed

definition level_only :: "string list \<Rightarrow> ModelInfo" where
  "level_only levels = (blank_model ''level-only'')\<lparr>mi_Thinking :=
     Some \<lparr>ts_Min = 0, ts_Max = 0, ts_ZeroAllowed = False, ts_DynamicAllowed = False, ts_Levels = levels\<rparr>\<rparr>"

theorem clampLevel_nearest_witness:
  "isLevelSupported (clampLevel ''medium'' (Some (level_only [''low'', ''high''])))
      (ts_Levels (the (mi_Thinking (level_only [''low'', ''high'']))))
    \<and> nearer (levelIndex ''medium'') (levelIndex (clampLevel ''medium'' (Some (level_only [''low'', ''high'']))))
       (levelIndex (trim_space ''high''))"
  by (rule clampLevel_nearest) (simp add: level_only_def, code_simp, simp add: level_only_def, code_simp)

subsection \<open>The validated configuration\<close>

lemma check_level_supported:
  "check_level c t mo allow = Inr c' \<Longrightarrow> tc_Mode c' = tc_Mode c \<and> tc_Budget c' = tc_Budget c \<and>
     (tc_Mode c = ModeLevel \<longrightarrow> ts_Levels t \<noteq> [] \<longrightarrow> isLevelSupported (tc_Level c') (ts_Levels t))"
  by (auto simp: check_level_def Let_def split: if_splits)

lemma check_budget_same: "check_budget c t strict derived = Inr c' \<Longrightarrow> c' = c"
  by (auto simp: check_budget_def split: if_splits)

lemma medium_index: "levelIndex LevelMedium \<noteq> -1"
  by code_simp

lemma resolve_auto_spec:
  assumes "mi_Thinking mi = Some t"
    and "tc_Mode c = ModeLevel \<Longrightarrow> ts_Levels t \<noteq> [] \<Longrightarrow> isLevelSupported (tc_Level c) (ts_Levels t)"
  shows "let c' = resolve_auto c t (Some mi) in
      (tc_Mode c' = ModeAuto \<longrightarrow> ts_DynamicAllowed t)
    \<and> (tc_Mode c' = ModeLevel \<longrightarrow> ts_Levels t \<noteq> [] \<longrightarrow> standard_indices (ts_Levels t) \<noteq> {} \<longrightarrow>
         isLevelSupported (tc_Level c') (ts_Levels t))"
proof (cases "tc_Mode c = ModeAuto \<and> \<not> ts_DynamicAllowed t")
  case True
  then show ?thesis using clampLevel_supported [OF assms(1) medium_index]
    by (simp add: resolve_auto_def convertAutoToMidRange_def Let_def)
next
  case False
  with assms(2) show ?thesis by (auto simp: resolve_auto_def)
qed

lemma clampBudget_range:
  assumes "mi_Thinking mi = Some t" and "ts_Min t \<le> ts_Max t"
  shows "let b' = clampBudget b (Some mi) in b' = -1 \<or> (b' = 0 \<and> ts_ZeroAllowed t)
    \<or> (ts_Min t = 0 \<and> ts_Max t = 0) \<or> (ts_Min t \<le> b' \<and> b' \<le> ts_Max t)"
  using assms by (auto simp: clampBudget_def Let_def)

lemma finish_config_mode [simp]: "tc_Mode (finish_config c t mo dst) = tc_Mode c"
  by (simp add: finish_config_def Let_def)

lemma finish_config_level [simp]:
  "tc_Mode c = ModeLevel \<Longrightarrow> tc_Level (finish_config c t mo dst) = tc_Level c"
  by (simp add: finish_config_def Let_def)

lemma finish_config_budget:
  "tc_Mode c = ModeBudget \<Longrightarrow> tc_Budget (finish_config c t mo dst) = clampBudget (tc_Budget c) mo"
  by (simp add: finish_config_def Let_def)

lemma finish_config_floor:
  assumes "tc_Mode c = ModeNone" and "dst \<noteq> ''claude''" and "ts_Levels t \<noteq> []"
    and "\<not> ts_ZeroAllowed t" and "\<not> isLevelSupported LevelNone (ts_Levels t)"
  shows "tc_Level (finish_config c t mo dst) = hd (ts_Levels t)"
  using assms by (simp add: finish_config_def Let_def)

lemma ValidateConfig_InrD:
  assumes "ValidateConfig config (Some mi) src dst fromSuffix = Inr c" and "mi_Thinking mi = Some t"
  obtains d where "c = finish_config (resolve_auto d t (Some mi)) t (Some mi) (to_lower (trim_space dst))"
    and "tc_Mode d = ModeLevel \<longrightarrow> ts_Levels t \<noteq> [] \<longrightarrow> isLevelSupported (tc_Level d) (ts_Levels t)"
  using assms
  by (auto simp: ValidateConfig_def Let_def split: sum.splits prod.splits
      dest!: check_level_supported check_budget_same)



text \<open>
  The restriction of the level case is needed: for a model whose only level is not a standard
  one, the automatic mode resolves to the level \<open>medium\<close>, which the model does not support.
\<close>

theorem ValidateConfig_unsupported_level:
  "case ValidateConfig \<lparr>tc_Mode = ModeAuto, tc_Budget = -1, tc_Level = []\<rparr> (Some (level_only [''ultra'']))
        ''openai'' ''codex'' False of
     Inl e \<Rightarrow> False
   | Inr c \<Rightarrow> tc_Mode c = ModeLevel \<and> tc_Level c = LevelMedium \<and> \<not> isLevelSupported (tc_Level c) [''ultra'']"
  by code_simp

end
