(* ===== verification/RecentRequests.thy ===== *)
theory RecentRequests
  imports Prelude
begin

text \<open>
  The ring of recent requests every credential carries (\<open>sdk/cliproxy/auth/types.go\<close>): twenty
  buckets of ten minutes each, addressed by the bucket number modulo twenty, so that a bucket is
  reused for a later period without any sweeping. The label of a bucket depends on the local time
  zone and is a parameter. The counters are unbounded here; the code counts in \<open>int64\<close>.
\<close>

section \<open>The ring\<close>

definition recentRequestBucketSeconds :: int where "recentRequestBucketSeconds = 10 * 60"
definition recentRequestBucketCount :: nat where "recentRequestBucketCount = 20"

record recentRequestBucket =
  rb_bucketID :: int
  rb_success :: int
  rb_failed :: int

type_synonym recentRequestRing = "recentRequestBucket list"

definition empty_ring :: recentRequestRing where
  "empty_ring = replicate recentRequestBucketCount \<lparr>rb_bucketID = 0, rb_success = 0, rb_failed = 0\<rparr>"

definition recentRequestBucketID :: "time \<Rightarrow> int" where
  "recentRequestBucketID now =
     (if now = zero_time then 0 else go_div (unix_seconds now) recentRequestBucketSeconds)"

text \<open>Go's remainder has the sign of the dividend; the correction makes it the mathematical one.\<close>

definition go_rem :: "int \<Rightarrow> int \<Rightarrow> int" where
  "go_rem a b = a - b * go_div a b"

definition recentRequestBucketIndex :: "int \<Rightarrow> nat" where
  "recentRequestBucketIndex bucketID =
     (let m = go_rem bucketID (int recentRequestBucketCount)
      in nat (if m < 0 then m + int recentRequestBucketCount else m))"

definition recordRecentRequest :: "recentRequestRing \<Rightarrow> time \<Rightarrow> bool \<Rightarrow> recentRequestRing" where
  "recordRecentRequest ring now success =
     (let bucketID = recentRequestBucketID now;
          idx = recentRequestBucketIndex bucketID;
          bucket0 = ring ! idx;
          bucket = (if rb_bucketID bucket0 \<noteq> bucketID
                    then \<lparr>rb_bucketID = bucketID, rb_success = 0, rb_failed = 0\<rparr> else bucket0)
      in ring[idx := (if success then bucket\<lparr>rb_success := rb_success bucket + 1\<rparr>
                      else bucket\<lparr>rb_failed := rb_failed bucket + 1\<rparr>)])"

definition RecentRequestsSnapshot ::
  "(int \<Rightarrow> string) \<Rightarrow> recentRequestRing \<Rightarrow> time \<Rightarrow> (string \<times> int \<times> int) list"
where
  "RecentRequestsSnapshot label ring now =
     (let currentBucketID = recentRequestBucketID now
      in List.map (\<lambda>i.
           let bucketID = currentBucketID - int i;
               bucket = ring ! recentRequestBucketIndex bucketID
           in if rb_bucketID bucket = bucketID then (label bucketID, rb_success bucket, rb_failed bucket)
              else (label bucketID, 0, 0))
         (rev [0 ..< recentRequestBucketCount]))"

definition record_all :: "(time \<times> bool) list \<Rightarrow> recentRequestRing" where
  "record_all evs = fold (\<lambda>(t, ok) ring. recordRecentRequest ring t ok) evs empty_ring"

section \<open>The ring counts what was recorded\<close>

text \<open>How many of the recorded requests fall into a bucket with the given outcome.\<close>

definition recorded :: "(time \<times> bool) list \<Rightarrow> int \<Rightarrow> bool \<Rightarrow> int" where
  "recorded evs b ok = int (length (filter (\<lambda>(t, s). recentRequestBucketID t = b \<and> s = ok) evs))"

lemma bucket_index_mod: "recentRequestBucketIndex b = nat (b mod 20)"
proof (cases "0 \<le> b")
  case True
  then show ?thesis
    by (simp add: recentRequestBucketIndex_def go_rem_def recentRequestBucketCount_def Let_def
      minus_mult_div_eq_mod)
next
  case False
  define a where "a = - b"
  then have a: "0 < a" "b = - a" using False by auto
  have "go_rem b 20 = - (a mod 20)"
    using a by (simp add: go_rem_def go_div_def minus_mult_div_eq_mod [symmetric])
  moreover have "b mod 20 = (if a mod 20 = 0 then 0 else 20 - a mod 20)"
    by (simp add: a(2) zmod_zminus1_eq_if)
  moreover have "0 \<le> a mod 20" by simp
  ultimately show ?thesis
    by (auto simp: recentRequestBucketIndex_def recentRequestBucketCount_def Let_def)
qed

lemma bucket_index_less: "recentRequestBucketIndex b < recentRequestBucketCount"
proof -
  have "b mod 20 < 20" by simp
  then show ?thesis by (simp add: bucket_index_mod recentRequestBucketCount_def nat_less_iff)
qed

lemma bucket_index_eq:
  assumes "recentRequestBucketIndex b = recentRequestBucketIndex c" and "c - 20 < b" and "b < c + 20"
  shows "b = c"
proof -
  have "b mod 20 = c mod 20"
    using assms(1) by (simp add: bucket_index_mod)
  then have "20 dvd b - c" by (simp add: mod_eq_dvd_iff)
  then obtain k where "b - c = 20 * k" by (auto simp: dvd_def)
  with assms(2,3) have "20 * k < 20" and "- 20 < 20 * k" by linarith+
  then have "k = 0" by linarith
  with \<open>b - c = 20 * k\<close> show ?thesis by simp
qed

text \<open>The buckets of the last twenty periods hold the right counts.\<close>

definition ring_counts :: "recentRequestRing \<Rightarrow> (time \<times> bool) list \<Rightarrow> int \<Rightarrow> bool" where
  "ring_counts ring evs b \<longleftrightarrow>
     (let bucket = ring ! recentRequestBucketIndex b
      in if rb_bucketID bucket = b
         then rb_success bucket = recorded evs b True \<and> rb_failed bucket = recorded evs b False
         else recorded evs b True = 0 \<and> recorded evs b False = 0)"

lemma recorded_snoc:
  "recorded (evs @ [(t, s)]) b ok =
     recorded evs b ok + (if recentRequestBucketID t = b \<and> s = ok then 1 else 0)"
  by (simp add: recorded_def)

lemma recorded_none: "\<forall>(t, s) \<in> set evs. recentRequestBucketID t < b \<Longrightarrow> recorded evs b ok = 0"
  by (induction evs) (auto simp: recorded_def)

lemma record_all_length [simp]: "length (record_all evs) = recentRequestBucketCount"
  by (induction evs rule: rev_induct) (auto simp: record_all_def empty_ring_def recordRecentRequest_def Let_def)

lemma record_all_snoc: "record_all (evs @ [(t, s)]) = recordRecentRequest (record_all evs) t s"
  by (simp add: record_all_def)

lemma record_all_counts:
  assumes "sorted (List.map (\<lambda>(t, _). recentRequestBucketID t) evs)"
    and "\<forall>(t, _) \<in> set evs. recentRequestBucketID t - 20 < b"
  shows "ring_counts (record_all evs) evs b"
  using assms
proof (induction evs arbitrary: b rule: rev_induct)
  case Nil
  show ?case using bucket_index_less [of b]
    by (simp add: ring_counts_def record_all_def empty_ring_def recorded_def Let_def)
next
  case (snoc ev evs)
  obtain t s where ev: "ev = (t, s)" by force
  define E where "E = recentRequestBucketID t"
  have le: "\<forall>(t', _) \<in> set evs. recentRequestBucketID t' \<le> E"
    and srt: "sorted (List.map (\<lambda>(t, _). recentRequestBucketID t) evs)"
    using snoc.prems(1) by (auto simp: ev E_def sorted_append)
  have E: "E - 20 < b" using snoc.prems(2) by (simp add: ev E_def)
  have IH: "ring_counts (record_all evs) evs c" if "E - 20 < c" for c
    using snoc.IH [OF srt, of c] le that by fastforce
  have idx: "recentRequestBucketIndex E < length (record_all evs)"
    by (simp add: bucket_index_less)
  show ?case
  proof (cases "b = E")
    case True
    with IH [of E] idx show ?thesis
      by (auto simp: ev record_all_snoc ring_counts_def recordRecentRequest_def Let_def
          E_def [symmetric] recorded_snoc)
  next
    case ne: False
    show ?thesis
    proof (cases "recentRequestBucketIndex b = recentRequestBucketIndex E")
      case True
      with ne E bucket_index_eq [of b E] have "E + 20 \<le> b" by linarith
      then have "\<forall>(t', _) \<in> set evs. recentRequestBucketID t' < b" using le by fastforce
      then have none: "recorded evs b ok = 0" for ok by (intro recorded_none) auto
      from True ne idx none show ?thesis
        by (simp add: ev record_all_snoc ring_counts_def recordRecentRequest_def Let_def
            E_def [symmetric] recorded_snoc)
    next
      case False
      with ne IH [OF E] idx show ?thesis
        by (simp add: ev record_all_snoc ring_counts_def recordRecentRequest_def Let_def
            E_def [symmetric] recorded_snoc)
    qed
  qed
qed

text \<open>
  The snapshot of the recent requests is exact: when requests were recorded in the order of
  their periods, the entry for each of the last twenty periods carries exactly the number of
  successful and failed requests recorded in that period, although every period shares its bucket with later ones.
\<close>

theorem RecentRequestsSnapshot_exact:
  assumes "sorted (List.map (\<lambda>(t, _). recentRequestBucketID t) evs)"
    and "\<forall>(t, _) \<in> set evs. recentRequestBucketID t \<le> recentRequestBucketID now"
    and "i < 20"
  shows "RecentRequestsSnapshot label (record_all evs) now ! i =
    (let b = recentRequestBucketID now - 19 + int i
     in (label b, recorded evs b True, recorded evs b False))"
proof -
  define b where "b = recentRequestBucketID now - 19 + int i"
  have "\<forall>(t, _) \<in> set evs. recentRequestBucketID t - 20 < b"
    using assms(2,3) by (fastforce simp: b_def)
  with assms(1) have "ring_counts (record_all evs) evs b" by (rule record_all_counts)
  moreover have "recentRequestBucketID now - int (19 - i) = b" using assms(3) by (simp add: b_def)
  ultimately show ?thesis using assms(3)
    by (simp add: RecentRequestsSnapshot_def recentRequestBucketCount_def rev_nth b_def [symmetric]
        ring_counts_def Let_def)
qed

theorem RecentRequestsSnapshot_exact_witness:
  "let t0 = 63900000000 * second_ns in
   RecentRequestsSnapshot itoa (record_all [(t0, True), (t0 + minute_ns, False), (t0 + hour_ns, True)])
      (t0 + hour_ns) ! 13 =
    (let b = recentRequestBucketID (t0 + hour_ns) - 19 + int 13
     in (itoa b, recorded [(t0, True), (t0 + minute_ns, False), (t0 + hour_ns, True)] b True,
         recorded [(t0, True), (t0 + minute_ns, False), (t0 + hour_ns, True)] b False))"
  unfolding Let_def [of "63900000000 * second_ns"]
  by (rule RecentRequestsSnapshot_exact)
    (simp_all add: recentRequestBucketID_def unix_seconds_def unix_epoch_seconds_def
      recentRequestBucketSeconds_def)

end
