(* ===== verification/Credentials.thy ===== *)
theory Credentials
  imports Weights Thinking RecentRequests
begin

text \<open>
  Credentials (\<open>sdk/cliproxy/auth/types.go\<close>, \<open>status.go\<close>, \<open>errors.go\<close>,
  \<open>classification.go\<close>) and what selection reads from their attributes and metadata.
  A pointer \<open>*Auth\<close> that is not nil is an \<open>Auth\<close>; the nil guards of the helpers, which
  return the empty value, are left out because a value of the record is never nil. The token
  storage, the runtime object and the fields no modelled code reads are left out. The field
  \<open>auth_tokenExpiry\<close> is the result of \<open>AccessTokenExpirationTime\<close>, whose parsing of tokens
  and dates is not modelled.
\<close>

section \<open>Data\<close>

datatype Status =
  StatusUnset | StatusUnknown | StatusActive | StatusPending | StatusRefreshing | StatusError | StatusDisabled

record AuthError =
  er_Code :: string
  er_Message :: string
  er_Retryable :: bool
  er_HTTPStatus :: int

record QuotaState =
  qs_Exceeded :: bool
  qs_Reason :: string
  qs_NextRecoverAt :: time
  qs_BackoffLevel :: int
  qs_ObservedAt :: time
  qs_Signals :: "(string, string) gomap"

definition no_quota :: QuotaState where
  "no_quota = \<lparr>qs_Exceeded = False, qs_Reason = [], qs_NextRecoverAt = zero_time, qs_BackoffLevel = 0,
     qs_ObservedAt = zero_time, qs_Signals = []\<rparr>"

record ModelState =
  ms_Status :: Status
  ms_StatusMessage :: string
  ms_Unavailable :: bool
  ms_NextRetryAfter :: time
  ms_LastError :: "AuthError option"
  ms_Quota :: QuotaState
  ms_UpdatedAt :: time

record Auth =
  auth_ID :: string
  auth_RegistrationEpoch :: u64
  auth_Generation :: u64
  auth_Provider :: string
  auth_Prefix :: string
  auth_Label :: string
  auth_FileName :: string
  auth_Status :: Status
  auth_StatusMessage :: string
  auth_Disabled :: bool
  auth_Unavailable :: bool
  auth_ProxyURL :: string
  auth_Attributes :: "(string, string) gomap"
  auth_Metadata :: "(string, any_value) gomap"
  auth_Quota :: QuotaState
  auth_LastError :: "AuthError option"
  auth_UpdatedAt :: time
  auth_NextRefreshAfter :: time
  auth_NextRetryAfter :: time
  auth_ModelStates :: "(string, ModelState) gomap"
  auth_Success :: int
  auth_Failed :: int
  auth_recentRequests :: recentRequestRing
  auth_tokenExpiry :: "time option"

text \<open>A fresh active credential of a provider.\<close>

definition new_auth :: "string \<Rightarrow> string \<Rightarrow> Auth" where
  "new_auth auth_id provider = \<lparr>
     auth_ID = auth_id, auth_RegistrationEpoch = 0, auth_Generation = 0, auth_Provider = provider, auth_Prefix = [],
     auth_Label = [], auth_FileName = [], auth_Status = StatusActive, auth_StatusMessage = [],
     auth_Disabled = False, auth_Unavailable = False, auth_ProxyURL = [], auth_Attributes = [],
     auth_Metadata = [], auth_Quota = no_quota, auth_LastError = None, auth_UpdatedAt = zero_time,
     auth_NextRefreshAfter = zero_time, auth_NextRetryAfter = zero_time, auth_ModelStates = [],
     auth_Success = 0, auth_Failed = 0, auth_recentRequests = empty_ring, auth_tokenExpiry = None\<rparr>"

section \<open>Attributes and metadata\<close>

definition authAttribute :: "Auth \<Rightarrow> string \<Rightarrow> string" where
  "authAttribute auth key = trim_space (get_or [] (auth_Attributes auth) key)"

definition authMetadataString :: "Auth \<Rightarrow> string \<Rightarrow> string" where
  "authMetadataString auth key =
     (case map_of (auth_Metadata auth) key of Some (AString value) \<Rightarrow> trim_space value | _ \<Rightarrow> [])"

definition normalizeAuthKind :: "string \<Rightarrow> string" where
  "normalizeAuthKind kind =
     (let k = to_lower (trim_space kind)
      in if k = ''apikey'' \<or> k = ''api_key'' \<or> k = ''api-key'' then ''apikey''
         else if k = ''oauth'' \<or> k = ''oauth2'' then ''oauth''
         else [])"

definition authHasOAuthMetadata :: "Auth \<Rightarrow> bool" where
  "authHasOAuthMetadata auth =
     (auth_Metadata auth \<noteq> [] \<and>
      (list_ex (\<lambda>key. authMetadataString auth key \<noteq> [])
         [''access_token'', ''refresh_token'', ''id_token'', ''email'', ''token_type'', ''expires_at'',
          ''expired'']
       \<or> (case map_of (auth_Metadata auth) ''token'' of Some (AObject token) \<Rightarrow> token \<noteq> [] | _ \<Rightarrow> False)))"

definition AuthKind :: "Auth \<Rightarrow> string" where
  "AuthKind a =
     (if normalizeAuthKind (authAttribute a ''auth_kind'') \<noteq> []
        then normalizeAuthKind (authAttribute a ''auth_kind'')
      else if normalizeAuthKind (authMetadataString a ''auth_kind'') \<noteq> []
        then normalizeAuthKind (authMetadataString a ''auth_kind'')
      else if authAttribute a ''api_key'' \<noteq> [] then ''apikey''
      else if authHasOAuthMetadata a then ''oauth''
      else [])"

definition normalizeAuthSourceKind :: "string \<Rightarrow> string" where
  "normalizeAuthSourceKind source =
     (let s = to_lower (trim_space source)
      in if s = ''config'' then ''config''
         else if s = ''file'' \<or> s = ''filesystem'' then ''file''
         else if s = ''git'' then ''git''
         else if s = ''memory'' \<or> s = ''runtime'' \<or> s = ''runtime_only'' then ''memory''
         else if s = ''objectstore'' \<or> s = ''object-store'' then ''objectstore''
         else if s = ''postgres'' \<or> s = ''postgresql'' \<or> s = ''database'' \<or> s = ''db'' then ''postgres''
         else [])"

definition AuthSourceKind :: "Auth \<Rightarrow> string" where
  "AuthSourceKind a =
     (if equal_fold (authAttribute a ''runtime_only'') ''true'' then ''memory''
      else if normalizeAuthSourceKind (authAttribute a ''source_backend'') \<noteq> []
        then normalizeAuthSourceKind (authAttribute a ''source_backend'')
      else let source = authAttribute a ''source''
        in if source \<noteq> [] then
             (if has_prefix (to_lower source) ''config:'' then ''config''
              else if normalizeAuthSourceKind source \<noteq> [] then normalizeAuthSourceKind source
              else ''file'')
           else if authAttribute a ''path'' \<noteq> [] then ''file''
           else if trim_space (auth_FileName a) \<noteq> [] then ''file''
           else [])"

text \<open>\<open>strconv.ParseBool\<close>.\<close>

definition parse_bool :: "string \<Rightarrow> bool option" where
  "parse_bool s =
     (if s \<in> set [''1'', ''t'', ''T'', ''TRUE'', ''true'', ''True''] then Some True
      else if s \<in> set [''0'', ''f'', ''F'', ''FALSE'', ''false'', ''False''] then Some False
      else None)"

fun parseBoolAny :: "any_value \<Rightarrow> bool option" where
  "parseBoolAny (ABool b) = Some b"
| "parseBoolAny (AString s) = (if trim_space s = [] then None else parse_bool (trim_space s))"
| "parseBoolAny (AFloat64 f) = Some (f \<noteq> Finite 0)"
| "parseBoolAny (ANumber s) = map_option (\<lambda>n. n \<noteq> 0) (parse_int s)"
| "parseBoolAny _ = None"

text \<open>\<open>DisableCoolingOverride\<close>: None when the override is absent.\<close>

definition metadata_bool :: "Auth \<Rightarrow> string \<Rightarrow> bool option" where
  "metadata_bool a key = Option.bind (map_of (auth_Metadata a) key) parseBoolAny"

definition DisableCoolingOverride :: "Auth \<Rightarrow> bool option" where
  "DisableCoolingOverride a =
     (case metadata_bool a ''disable_cooling'' of
        Some b \<Rightarrow> Some b
      | None \<Rightarrow> metadata_bool a ''disable-cooling'')"

definition ToolPrefixDisabled :: "Auth \<Rightarrow> bool" where
  "ToolPrefixDisabled a =
     (case metadata_bool a ''tool_prefix_disabled'' of
        Some b \<Rightarrow> b
      | None \<Rightarrow> (case metadata_bool a ''tool-prefix-disabled'' of Some b \<Rightarrow> b | None \<Rightarrow> False))"

definition AccountInfo :: "Auth \<Rightarrow> string \<times> string" where
  "AccountInfo a =
     (if AuthKind a = ''oauth'' then (''oauth'', authMetadataString a ''email'')
      else if AuthKind a = ''apikey'' then (''api_key'', authAttribute a ''api_key'')
      else ([], []))"

fun index_of :: "string \<Rightarrow> string \<Rightarrow> nat option" where
  "index_of [] t = (if t = [] then Some 0 else None)"
| "index_of (c # s) t = (if has_prefix (c # s) t then Some 0 else map_option Suc (index_of s t))"

definition ProxyInfo :: "Auth \<Rightarrow> string" where
  "ProxyInfo a =
     (let proxyStr = trim_space (auth_ProxyURL a)
      in if proxyStr = [] then []
         else case index_of proxyStr ''://'' of
           Some idx \<Rightarrow> if idx > 0 then ''via '' @ take idx proxyStr @ '' proxy'' else ''via proxy''
         | None \<Rightarrow> ''via proxy'')"

definition authAccessToken :: "Auth \<Rightarrow> string" where
  "authAccessToken auth =
     (let token = authMetadataString auth ''access_token''
      in if token \<noteq> [] then token else authMetadataString auth ''accessToken'')"

definition HasValidAccessToken :: "Auth \<Rightarrow> time \<Rightarrow> bool" where
  "HasValidAccessToken a now =
     (authAccessToken a \<noteq> [] \<and>
      (case auth_tokenExpiry a of Some expires \<Rightarrow> now < expires | None \<Rightarrow> True))"

section \<open>What selection reads\<close>

definition authPriority :: "Auth \<Rightarrow> int" where
  "authPriority auth =
     (let raw = trim_space (get_or [] (auth_Attributes auth) ''priority'')
      in if raw = [] then 0 else case parse_int raw of None \<Rightarrow> 0 | Some parsed \<Rightarrow> parsed)"

definition authWeight :: "Auth \<Rightarrow> int" where
  "authWeight auth =
     (let attribute = get_or [] (auth_Attributes auth) ''weight''
      in if trim_space attribute \<noteq> [] then
           (case ParseString attribute of Inl _ \<Rightarrow> 0 | Inr weight \<Rightarrow> weight)
         else case map_of (auth_Metadata auth) ''weight'' of
           Some raw \<Rightarrow> (case ParseValue raw of Inl _ \<Rightarrow> 0 | Inr weight \<Rightarrow> weight)
         | None \<Rightarrow> Default_weight)"

definition canonicalModelKey :: "string \<Rightarrow> string" where
  "canonicalModelKey model0 =
     (let model = trim_space model0
      in if model = [] then []
         else let modelName = trim_space (sr_ModelName (ParseSuffix model))
           in if modelName = [] then model else modelName)"

definition authWebsocketsEnabled :: "Auth \<Rightarrow> bool" where
  "authWebsocketsEnabled auth =
     (let raw = trim_space (get_or [] (auth_Attributes auth) ''websockets'')
      in case (if raw = [] then None else parse_bool raw) of
           Some parsed \<Rightarrow> parsed
         | None \<Rightarrow>
             (case map_of (auth_Metadata auth) ''websockets'' of
                Some (ABool v) \<Rightarrow> v
              | Some (AString v) \<Rightarrow> (case parse_bool (trim_space v) of Some parsed \<Rightarrow> parsed | None \<Rightarrow> False)
              | _ \<Rightarrow> False))"

definition OpenAICompatibleProviderKey :: "string \<Rightarrow> string" where
  "OpenAICompatibleProviderKey name0 =
     (let name = to_lower (trim_space name0)
      in if name = [] \<or> name = ''openai-compatibility'' \<or> has_prefix name ''openai-compatible-''
         then (if name = [] then ''openai-compatibility'' else name)
         else ''openai-compatible-'' @ name)"

definition executorKeyFromAuth :: "Auth \<Rightarrow> string" where
  "executorKeyFromAuth auth =
     (let providerKey = trim_space (get_or [] (auth_Attributes auth) ''provider_key'');
          compatName = trim_space (get_or [] (auth_Attributes auth) ''compat_name'')
      in if compatName \<noteq> [] then
           OpenAICompatibleProviderKey (if providerKey = [] then compatName else providerKey)
         else if equal_fold (trim_space (auth_Provider auth)) ''openai-compatibility'' then
           OpenAICompatibleProviderKey
             (if trim_space (auth_Label auth) = [] then ''openai-compatibility'' else trim_space (auth_Label auth))
         else to_lower (trim_space (auth_Provider auth)))"

definition isFreeCodexAuth :: "Auth \<Rightarrow> bool" where
  "isFreeCodexAuth auth =
     (equal_fold (trim_space (auth_Provider auth)) ''codex'' \<and>
      equal_fold (trim_space (get_or [] (auth_Attributes auth) ''plan_type'')) ''free'')"

definition credentialPolicyAllows :: "string \<Rightarrow> Auth \<Rightarrow> bool" where
  "credentialPolicyAllows policy auth =
     (if policy = ''codex_alpha_search_v1'' then
        equal_fold (trim_space (auth_Provider auth)) ''codex'' \<and>
        (if AuthKind auth = ''oauth'' then True
         else if AuthKind auth = ''apikey'' then equal_fold (authAttribute auth ''codex_alpha_search'') ''true''
         else False)
      else False)"

record authSelectionEligibility =
  el_requiredKind :: string
  el_credentialPolicy :: string
  el_disallowFreeAuth :: bool

definition allows :: "authSelectionEligibility \<Rightarrow> Auth \<Rightarrow> bool" where
  "allows e auth =
     (if el_requiredKind e \<noteq> [] \<and> AuthKind auth \<noteq> el_requiredKind e then False
      else if el_credentialPolicy e \<noteq> [] \<and> \<not> credentialPolicyAllows (el_credentialPolicy e) auth then False
      else \<not> el_disallowFreeAuth e \<or> \<not> isFreeCodexAuth auth)"

definition pinnedAuthIDFromMetadata :: "(string, any_value) gomap \<Rightarrow> string" where
  "pinnedAuthIDFromMetadata meta =
     (case map_of meta ''pinned_auth_id'' of
        Some (AString val) \<Rightarrow> trim_space val
      | Some (ABytes val) \<Rightarrow> trim_space val
      | _ \<Rightarrow> [])"

definition disallowFreeAuthFromMetadata :: "(string, any_value) gomap \<Rightarrow> bool" where
  "disallowFreeAuthFromMetadata meta =
     (case map_of meta ''disallow_free_auth'' of
        Some (ABool val) \<Rightarrow> val
      | Some (AString val) \<Rightarrow> parse_bool (trim_space val) = Some True
      | Some (ABytes val) \<Rightarrow> parse_bool (trim_space val) = Some True
      | _ \<Rightarrow> False)"

definition hasUnauthorizedAuthFailure :: "Auth \<Rightarrow> bool" where
  "hasUnauthorizedAuthFailure auth =
     (case auth_LastError auth of
        None \<Rightarrow> False
      | Some e \<Rightarrow> auth_Unavailable auth \<and> auth_Status auth = StatusError
          \<and> auth_NextRefreshAfter auth = zero_time
          \<and> (er_HTTPStatus e = 401 \<or> equal_fold (er_Code e) ''unauthorized''))"

lemma authWeight_range: "0 \<le> authWeight a \<and> authWeight a \<le> Max_weight"
  by (auto simp: authWeight_def Let_def Default_weight_def Max_weight_def
      dest: ParseString_range ParseValue_bounds split: option.splits sum.splits)

text \<open>The canonical key of a model never ends in white space or starts with it.\<close>

lemma canonicalModelKey_trim [simp]: "trim_space (canonicalModelKey m) = canonicalModelKey m"
  by (simp add: canonicalModelKey_def Let_def)

lemma canonicalModelKey_Nil [simp]: "canonicalModelKey [] = []"
  by (simp add: canonicalModelKey_def)

end
