(* ===== verification/Availability.thy ===== *)
theory Availability
  imports Credentials
begin

text \<open>
  When a credential may serve a model (\<open>isAuthBlockedForModel\<close> of
  \<open>sdk/cliproxy/auth/selector.go\<close>). The section on time shows how the answer changes as
  the clock moves on, which the incremental scheduler relies on.
\<close>

section \<open>Definitions\<close>

datatype blockReason = blockReasonNone | blockReasonCooldown | blockReasonDisabled | blockReasonOther

type_synonym block = "bool \<times> blockReason \<times> time"

text \<open>The later of the recovery times that lie in the future, zero if none does.\<close>

fun latest_future :: "time \<Rightarrow> time list \<Rightarrow> time \<Rightarrow> time" where
  "latest_future now [] next = next"
| "latest_future now (candidate # candidates) next =
     latest_future now candidates
       (if candidate > now \<and> (next = zero_time \<or> candidate > next) then candidate else next)"

definition availabilityBlock :: "bool \<Rightarrow> bool \<Rightarrow> time \<Rightarrow> time \<Rightarrow> time \<Rightarrow> block" where
  "availabilityBlock unavailable quotaExceeded nextRetryAfter nextRecoverAt now =
     (if \<not> unavailable \<and> \<not> quotaExceeded then (False, blockReasonNone, zero_time)
      else
        let hasRecoveryTime = (nextRetryAfter \<noteq> zero_time \<or> nextRecoverAt \<noteq> zero_time);
            next = latest_future now [nextRetryAfter, nextRecoverAt] zero_time
        in if next \<noteq> zero_time then
             (if quotaExceeded then (True, blockReasonCooldown, next) else (True, blockReasonOther, next))
           else if hasRecoveryTime then (False, blockReasonNone, zero_time)
           else (True, blockReasonOther, zero_time))"

text \<open>
  The loop over the model states of the requested model. The accumulator is the state of the
  Go variables \<open>matched\<close>, \<open>blocked\<close>, \<open>blockedReason\<close> and \<open>nextRetry\<close>.
\<close>

fun model_states_loop ::
  "string \<Rightarrow> time \<Rightarrow> (string, ModelState) gomap \<Rightarrow> bool \<Rightarrow> bool \<Rightarrow> blockReason \<Rightarrow> time \<Rightarrow> block"
where
  "model_states_loop modelKey now [] matched blocked blockedReason nextRetry =
     (if matched then (blocked, blockedReason, nextRetry) else (False, blockReasonNone, zero_time))"
| "model_states_loop modelKey now ((stateModel, state) # states) matched blocked blockedReason nextRetry =
     (if canonicalModelKey stateModel \<noteq> modelKey
      then model_states_loop modelKey now states matched blocked blockedReason nextRetry
      else if ms_Status state = StatusDisabled then (True, blockReasonDisabled, zero_time)
      else case availabilityBlock (ms_Unavailable state) (qs_Exceeded (ms_Quota state))
             (ms_NextRetryAfter state) (qs_NextRecoverAt (ms_Quota state)) now of
        (stateBlocked, reason, next) \<Rightarrow>
          if \<not> stateBlocked
          then model_states_loop modelKey now states True blocked blockedReason nextRetry
          else if next = zero_time then (True, reason, zero_time)
          else if \<not> blocked \<or> next > nextRetry \<or> (next = nextRetry \<and> reason = blockReasonCooldown)
          then model_states_loop modelKey now states True True reason next
          else model_states_loop modelKey now states True blocked blockedReason nextRetry)"

definition token_expired :: "Auth \<Rightarrow> time \<Rightarrow> bool" where
  "token_expired auth now =
     (case auth_tokenExpiry auth of Some expires \<Rightarrow> expires \<noteq> zero_time \<and> \<not> expires > now | None \<Rightarrow> False)"

definition isAuthBlockedForModel :: "Auth \<Rightarrow> string \<Rightarrow> time \<Rightarrow> block" where
  "isAuthBlockedForModel auth model now =
     (if auth_Disabled auth \<or> auth_Status auth = StatusDisabled then (True, blockReasonDisabled, zero_time)
      else if hasUnauthorizedAuthFailure auth then (True, blockReasonOther, zero_time)
      else if token_expired auth now then (True, blockReasonOther, zero_time)
      else if qs_Exceeded (auth_Quota auth) \<and> qs_Reason (auth_Quota auth) = ''credential_quota''
              \<and> qs_NextRecoverAt (auth_Quota auth) > now
        then (True, blockReasonCooldown, qs_NextRecoverAt (auth_Quota auth))
      else if model \<noteq> [] then
        (if auth_ModelStates auth \<noteq> [] then
           model_states_loop (canonicalModelKey model) now (auth_ModelStates auth) False False
             blockReasonNone zero_time
         else availabilityBlock (auth_Unavailable auth) (qs_Exceeded (auth_Quota auth))
                (auth_NextRetryAfter auth) (qs_NextRecoverAt (auth_Quota auth)) now)
      else
        let quotaExceeded =
              (if auth_ModelStates auth \<noteq> [] \<and> qs_Reason (auth_Quota auth) \<noteq> ''credential_quota''
                  \<and> \<not> auth_Unavailable auth then False
               else qs_Exceeded (auth_Quota auth))
        in availabilityBlock (auth_Unavailable auth) quotaExceeded (auth_NextRetryAfter auth)
             (qs_NextRecoverAt (auth_Quota auth)) now)"

definition is_blocked :: "block \<Rightarrow> bool" where "is_blocked b = fst b"
definition block_reason :: "block \<Rightarrow> blockReason" where "block_reason b = fst (snd b)"
definition block_until :: "block \<Rightarrow> time" where "block_until b = snd (snd b)"

lemmas block_sel = is_blocked_def block_reason_def block_until_def

section \<open>What blocks\<close>

definition holds :: "bool \<Rightarrow> bool \<Rightarrow> time \<Rightarrow> time \<Rightarrow> time \<Rightarrow> bool" where
  "holds unavailable quotaExceeded a b now \<longleftrightarrow>
     (unavailable \<or> quotaExceeded) \<and> (a > now \<or> b > now \<or> (a = zero_time \<and> b = zero_time))"

lemma availabilityBlock_cases:
  assumes "0 \<le> now"
  shows "is_blocked (availabilityBlock u q a b now) \<longleftrightarrow> holds u q a b now"
    and "holds u q a b now \<Longrightarrow> block_until (availabilityBlock u q a b now) =
      (if a > now \<or> b > now then max (if a > now then a else 0) (if b > now then b else 0) else 0)"
    and "holds u q a b now \<Longrightarrow> block_reason (availabilityBlock u q a b now) =
      (if q \<and> (a > now \<or> b > now) then blockReasonCooldown else blockReasonOther)"
  using assms by (auto simp: availabilityBlock_def holds_def block_sel Let_def max_def)

definition state_block :: "time \<Rightarrow> ModelState \<Rightarrow> block" where
  "state_block now st =
     (if ms_Status st = StatusDisabled then (True, blockReasonDisabled, zero_time)
      else availabilityBlock (ms_Unavailable st) (qs_Exceeded (ms_Quota st))
             (ms_NextRetryAfter st) (qs_NextRecoverAt (ms_Quota st)) now)"

definition relevant :: "string \<Rightarrow> (string, ModelState) gomap \<Rightarrow> ModelState set" where
  "relevant modelKey sts = {st. \<exists>m. (m, st) \<in> set sts \<and> canonicalModelKey m = modelKey}"

definition blocking :: "string \<Rightarrow> time \<Rightarrow> (string, ModelState) gomap \<Rightarrow> block set" where
  "blocking modelKey now sts = {b \<in> state_block now ` relevant modelKey sts. is_blocked b}"

lemma relevant_Cons:
  "relevant k ((m, st) # sts) =
     (if canonicalModelKey m = k then insert st (relevant k sts) else relevant k sts)"
  by (auto simp: relevant_def)

lemma blocking_Cons:
  "blocking k now ((m, st) # sts) =
     (if canonicalModelKey m = k \<and> is_blocked (state_block now st)
      then insert (state_block now st) (blocking k now sts) else blocking k now sts)"
  by (auto simp: blocking_def relevant_Cons)

lemma blocking_Nil [simp]: "blocking k now [] = {}"
  by (simp add: blocking_def relevant_def)

lemma finite_blocking [simp]: "finite (blocking k now sts)"
  by (induction sts) (auto simp: blocking_Cons)

lemma blocking_blocked: "b \<in> blocking k now sts \<Longrightarrow> is_blocked b"
  by (simp add: blocking_def)

text \<open>
  The result of the loop, without reference to the order of the states: some state blocks for an
  unknown time, or the latest recovery time among the blocking states counts.
\<close>

definition summary :: "block set \<Rightarrow> block \<Rightarrow> bool" where
  "summary B r \<longleftrightarrow>
     (is_blocked r \<longleftrightarrow> B \<noteq> {})
     \<and> (B = {} \<longrightarrow> block_until r = zero_time \<and> block_reason r \<noteq> blockReasonCooldown)
     \<and> ((\<exists>b \<in> B. block_until b = zero_time) \<longrightarrow> block_until r = zero_time \<and> r \<in> B)
     \<and> (B \<noteq> {} \<and> (\<forall>b \<in> B. block_until b \<noteq> zero_time) \<longrightarrow>
          block_until r = Max (block_until ` B) \<and> r \<in> B \<and>
          (block_reason r = blockReasonCooldown \<longleftrightarrow>
             (\<exists>b \<in> B. block_until b = Max (block_until ` B) \<and> block_reason b = blockReasonCooldown)))"

lemma summary_forever:
  "b \<in> B \<Longrightarrow> is_blocked b \<Longrightarrow> block_until b = zero_time \<Longrightarrow> summary B b"
  by (auto simp: summary_def)

lemma summary_single: "is_blocked b \<Longrightarrow> summary {b} b"
  by (auto simp: summary_def)

text \<open>Adding the next state to the states seen so far.\<close>

lemma summary_step:
  assumes "summary B r" and "finite B" and "is_blocked b" and "block_until b \<noteq> zero_time"
    and "\<forall>b \<in> B. block_until b \<noteq> zero_time"
  shows "summary (insert b B)
    (if B = {} \<or> block_until b > block_until r \<or> (block_until b = block_until r \<and> block_reason b = blockReasonCooldown)
     then b else r)"
proof (cases "B = {}")
  case True
  with assms(3) show ?thesis by (simp add: summary_single)
next
  case False
  define M where "M = Max (block_until ` B)"
  have r: "is_blocked r" "r \<in> B" "block_until r = M"
    "block_reason r = blockReasonCooldown \<longleftrightarrow>
       (\<exists>b \<in> B. block_until b = M \<and> block_reason b = blockReasonCooldown)"
    using assms(1,5) False by (auto simp: summary_def M_def)
  have le: "c \<in> B \<Longrightarrow> block_until c \<le> M" for c
    using assms(2) by (simp add: M_def)
  have mx: "Max (block_until ` insert b B) = max (block_until b) M"
    using False assms(2) by (simp add: M_def)
  have notzero: "\<not> (\<exists>c \<in> insert b B. block_until c = zero_time)" using assms(4,5) by auto
  consider (gt) "block_until b > M" | (same) "block_until b = M" | (lt) "block_until b < M" by linarith
  then show ?thesis
  proof cases
    case gt
    then have "\<forall>c \<in> B. block_until c \<noteq> block_until b" using le by fastforce
    with gt notzero assms(3) r(3) False show ?thesis unfolding summary_def mx by auto
  next
    case same
    with notzero assms(3) r False show ?thesis unfolding summary_def mx by auto
  next
    case lt
    with notzero r False show ?thesis unfolding summary_def mx by auto
  qed
qed

lemma model_states_loop_spec:
  assumes "summary B (blocked, reason, next)" and "finite B" and "\<forall>b \<in> B. is_blocked b \<and> block_until b \<noteq> zero_time"
    and "matched \<or> B = {}"
  shows "summary (B \<union> blocking k now sts) (model_states_loop k now sts matched blocked reason next)"
  using assms
proof (induction sts arbitrary: B matched blocked reason "next")
  case Nil
  then show ?case by (auto simp: summary_def block_sel)
next
  case (Cons ms sts)
  obtain m st where ms: "ms = (m, st)" by force
  show ?case
  proof (cases "canonicalModelKey m = k")
    case False
    with Cons show ?thesis by (simp add: ms blocking_Cons)
  next
    case key: True
    show ?thesis
    proof (cases "ms_Status st = StatusDisabled")
      case True
      then have sb: "state_block now st = (True, blockReasonDisabled, zero_time)"
        by (simp add: state_block_def)
      have "summary (B \<union> blocking k now (ms # sts)) (True, blockReasonDisabled, zero_time)"
        by (rule summary_forever) (auto simp: ms blocking_Cons key sb block_sel)
      with True key show ?thesis by (simp add: ms)
    next
      case False
      obtain sb r n where blk: "state_block now st = (sb, r, n)" by (cases "state_block now st") auto
      then have avail: "availabilityBlock (ms_Unavailable st) (qs_Exceeded (ms_Quota st))
          (ms_NextRetryAfter st) (qs_NextRecoverAt (ms_Quota st)) now = (sb, r, n)"
        using False by (simp add: state_block_def)
      consider "\<not> sb" | "sb" "n = zero_time" | "sb" "n \<noteq> zero_time" by blast
      then show ?thesis
      proof cases
        case 1
        with Cons key False avail blk show ?thesis
          by (simp add: ms blocking_Cons block_sel)
      next
        case 2
        have "summary (B \<union> blocking k now (ms # sts)) (True, r, zero_time)"
          by (rule summary_forever) (use 2 in \<open>auto simp: ms blocking_Cons key blk block_sel\<close>)
        with 2 key False avail show ?thesis by (simp add: ms)
      next
        case 3
        have blocked_iff: "blocked \<longleftrightarrow> B \<noteq> {}"
          using Cons.prems(1) by (simp add: summary_def block_sel)
        define pick where "pick = (if B = {} \<or> n > next \<or> (n = next \<and> r = blockReasonCooldown)
            then (True, r, n) else (blocked, reason, next))"
        have s: "summary (insert (True, r, n) B) pick"
          using summary_step [OF Cons.prems(1,2), of "(True, r, n)"] 3 Cons.prems(3)
          by (simp add: block_sel pick_def)
        obtain b' r' n' where pick: "pick = (b', r', n')" by (cases pick) auto
        have "summary (insert (True, r, n) B \<union> blocking k now sts)
            (model_states_loop k now sts True b' r' n')"
          by (rule Cons.IH) (use s pick Cons.prems 3 in \<open>auto simp: block_sel\<close>)
        moreover have "model_states_loop k now (ms # sts) matched blocked reason next =
            model_states_loop k now sts True b' r' n'"
        proof (cases "B = {} \<or> n > next \<or> (n = next \<and> r = blockReasonCooldown)")
          case True
          then have "b' = True \<and> r' = r \<and> n' = n" using pick unfolding pick_def by (simp only: if_True prod.inject simp_thms)
          with True key False avail 3 blocked_iff show ?thesis by (simp add: ms)
        next
          case neg: False
          then have "b' = blocked \<and> r' = reason \<and> n' = next" using pick unfolding pick_def
            by (simp only: if_False prod.inject simp_thms)
          with neg key False avail 3 blocked_iff show ?thesis by (auto simp: ms)
        qed
        ultimately show ?thesis using key blk 3 by (simp add: ms blocking_Cons block_sel)
      qed
    qed
  qed
qed

lemma model_states_summary:
  "summary (blocking k now sts) (model_states_loop k now sts False False blockReasonNone zero_time)"
  using model_states_loop_spec [of "{}" False blockReasonNone zero_time False k now sts]
  by (simp add: summary_def block_sel)

lemma summary_unique:
  assumes "summary B r" and "summary B r'" and "\<forall>b \<in> B. block_until b = zero_time \<longrightarrow> block_reason b \<noteq> blockReasonCooldown"
  shows "is_blocked r = is_blocked r' \<and> block_until r = block_until r'
    \<and> (block_reason r = blockReasonCooldown \<longleftrightarrow> block_reason r' = blockReasonCooldown)"
proof (cases "\<exists>b \<in> B. block_until b = zero_time")
  case True
  with assms(1,2) have "r \<in> B \<and> block_until r = zero_time" "r' \<in> B \<and> block_until r' = zero_time"
    by (auto simp: summary_def)
  with assms show ?thesis by (auto simp: summary_def)
next
  case False
  with assms(1,2) show ?thesis by (cases "B = {}") (auto simp: summary_def)
qed

lemma blocking_forever_reason:
  assumes "0 \<le> now" and "b \<in> blocking k now sts" and "block_until b = zero_time"
  shows "block_reason b \<noteq> blockReasonCooldown"
proof -
  from assms(2) obtain st where b: "b = state_block now st" "is_blocked b" by (auto simp: blocking_def)
  show ?thesis
  proof (cases "ms_Status st = StatusDisabled")
    case True
    then show ?thesis by (simp add: b state_block_def block_sel)
  next
    case False
    with b assms(1,3) show ?thesis
      using availabilityBlock_cases [OF assms(1), of "ms_Unavailable st" "qs_Exceeded (ms_Quota st)"
          "ms_NextRetryAfter st" "qs_NextRecoverAt (ms_Quota st)"]
      by (auto simp: state_block_def max_def split: if_splits)
  qed
qed

text \<open>
  The availability of a credential does not depend on the order in which Go visits its model
  states: for every reordering of the states the credential is blocked or not alike, until the same
  time, and counts as cooling down alike. Only between the reasons disabled and other, which callers
  treat alike when no time is given, may the order decide.
\<close>

theorem isAuthBlockedForModel_order:
  assumes "set sts = set sts'" and "0 \<le> now"
  shows "let b = isAuthBlockedForModel (auth\<lparr>auth_ModelStates := sts\<rparr>) model now;
             b' = isAuthBlockedForModel (auth\<lparr>auth_ModelStates := sts'\<rparr>) model now
         in is_blocked b = is_blocked b' \<and> block_until b = block_until b'
            \<and> (block_reason b = blockReasonCooldown \<longleftrightarrow> block_reason b' = blockReasonCooldown)"
proof -
  let ?k = "canonicalModelKey model"
  have rel: "blocking ?k now sts = blocking ?k now sts'"
    by (simp add: blocking_def relevant_def assms(1))
  have nil: "sts = [] \<longleftrightarrow> sts' = []" using assms(1) by auto
  have "is_blocked r = is_blocked r' \<and> block_until r = block_until r'
      \<and> (block_reason r = blockReasonCooldown \<longleftrightarrow> block_reason r' = blockReasonCooldown)"
    if "r = model_states_loop ?k now sts False False blockReasonNone zero_time"
      and "r' = model_states_loop ?k now sts' False False blockReasonNone zero_time" for r r'
    unfolding that using model_states_summary [of ?k now sts] model_states_summary [of ?k now sts']
    by (intro summary_unique [of "blocking ?k now sts"])
      (auto simp: rel dest: blocking_forever_reason [OF assms(2)])
  note loop = this [OF refl refl]
  have tok: "token_expired (auth\<lparr>auth_ModelStates := x\<rparr>) now = token_expired auth now"
    and una: "hasUnauthorizedAuthFailure (auth\<lparr>auth_ModelStates := x\<rparr>) = hasUnauthorizedAuthFailure auth" for x
    by (simp_all add: token_expired_def hasUnauthorizedAuthFailure_def split: option.splits)
  show ?thesis using loop nil
    by (simp add: isAuthBlockedForModel_def tok una Let_def)
qed

theorem isAuthBlockedForModel_order_witness:
  "let a = new_auth ''a1'' ''codex'';
       st = \<lparr>ms_Status = StatusError, ms_StatusMessage = [], ms_Unavailable = True, ms_NextRetryAfter = 200,
             ms_LastError = None, ms_Quota = no_quota, ms_UpdatedAt = 0\<rparr>;
       b = isAuthBlockedForModel (a\<lparr>auth_ModelStates := [(''m'', st), (''n'', st)]\<rparr>) ''m'' 100;
       b' = isAuthBlockedForModel (a\<lparr>auth_ModelStates := [(''n'', st), (''m'', st)]\<rparr>) ''m'' 100
   in is_blocked b = is_blocked b' \<and> block_until b = block_until b'
      \<and> (block_reason b = blockReasonCooldown \<longleftrightarrow> block_reason b' = blockReasonCooldown)"
  using isAuthBlockedForModel_order [of
      "let st = \<lparr>ms_Status = StatusError, ms_StatusMessage = [], ms_Unavailable = True, ms_NextRetryAfter = 200,
             ms_LastError = None, ms_Quota = no_quota, ms_UpdatedAt = 0\<rparr> in [(''m'', st), (''n'', st)]"
      "let st = \<lparr>ms_Status = StatusError, ms_StatusMessage = [], ms_Unavailable = True, ms_NextRetryAfter = 200,
             ms_LastError = None, ms_Quota = no_quota, ms_UpdatedAt = 0\<rparr> in [(''n'', st), (''m'', st)]"
      100 "new_auth ''a1'' ''codex''" "''m''"]
  by (simp add: Let_def insert_commute)

section \<open>How the answer changes with time\<close>

lemma block_flags [simp]:
  "is_blocked (True, x)" "\<not> is_blocked (False, x)"
  "block_until (b, r, t) = t" "block_reason (b, r, t) = r"
  by (simp_all add: block_sel)

lemma blocking_ne: "blocking k now sts \<noteq> {} \<longleftrightarrow> (\<exists>st \<in> relevant k sts. is_blocked (state_block now st))"
  unfolding blocking_def by blast

lemma holds_later:
  "holds u q a b t0 \<Longrightarrow> t0 \<le> t \<Longrightarrow> 0 \<le> t0 \<Longrightarrow>
   block_until (availabilityBlock u q a b t0) = zero_time \<or> t < block_until (availabilityBlock u q a b t0) \<Longrightarrow>
   holds u q a b t"
  using availabilityBlock_cases(2) [of t0 u q a b]
  by (auto simp: holds_def max_def split: if_splits)

lemma not_holds_later: "\<not> holds u q a b t0 \<Longrightarrow> t0 \<le> t \<Longrightarrow> \<not> holds u q a b t"
  by (auto simp: holds_def)

lemma block_until_future:
  "0 \<le> t0 \<Longrightarrow> is_blocked (availabilityBlock u q a b t0) \<Longrightarrow>
   block_until (availabilityBlock u q a b t0) = zero_time \<or> t0 < block_until (availabilityBlock u q a b t0)"
  using availabilityBlock_cases(1,2) [of t0 u q a b] by (auto simp: max_def split: if_splits)

lemma state_block_later:
  assumes "is_blocked (state_block t0 st)" and "t0 \<le> t" and "0 \<le> t0"
    and "block_until (state_block t0 st) = zero_time \<or> t < block_until (state_block t0 st)"
  shows "is_blocked (state_block t st)"
  using assms holds_later [OF _ assms(2,3)]
  by (auto simp: state_block_def availabilityBlock_cases(1) split: if_splits)

lemma state_block_not_later:
  "\<not> is_blocked (state_block t0 st) \<Longrightarrow> t0 \<le> t \<Longrightarrow> 0 \<le> t0 \<Longrightarrow> \<not> is_blocked (state_block t st)"
  using not_holds_later [of "ms_Unavailable st" "qs_Exceeded (ms_Quota st)" "ms_NextRetryAfter st"
      "qs_NextRecoverAt (ms_Quota st)" t0 t]
  by (auto simp: state_block_def availabilityBlock_cases(1) split: if_splits)

lemma loop_blocked_iff:
  "is_blocked (model_states_loop k now sts False False blockReasonNone zero_time) \<longleftrightarrow>
   blocking k now sts \<noteq> {}"
  using model_states_summary [of k now sts] by (simp add: summary_def)

lemma loop_until:
  assumes "is_blocked (model_states_loop k now sts False False blockReasonNone zero_time)"
  shows "\<exists>b \<in> blocking k now sts. block_until b =
     block_until (model_states_loop k now sts False False blockReasonNone zero_time)"
proof -
  let ?r = "model_states_loop k now sts False False blockReasonNone zero_time"
  have "summary (blocking k now sts) ?r" by (rule model_states_summary)
  with assms have "?r \<in> blocking k now sts" by (auto simp: summary_def)
  then show ?thesis by blast
qed

lemma blocking_memberE:
  assumes "b \<in> blocking k now sts"
  obtains st where "st \<in> relevant k sts" "b = state_block now st" "is_blocked (state_block now st)"
  using assms by (auto simp: blocking_def)

lemma state_block_future:
  "0 \<le> t0 \<Longrightarrow> is_blocked (state_block t0 st) \<Longrightarrow>
   block_until (state_block t0 st) = zero_time \<or> t0 < block_until (state_block t0 st)"
  using block_until_future by (auto simp: state_block_def block_sel split: if_splits)

lemma loop_later:
  assumes r: "r = model_states_loop k t0 sts False False blockReasonNone zero_time" and "is_blocked r"
    and "t0 \<le> t" and "0 \<le> t0" and "block_until r = zero_time \<or> t < block_until r"
  shows "is_blocked (model_states_loop k t sts False False blockReasonNone zero_time)"
proof -
  obtain b where b: "b \<in> blocking k t0 sts" "block_until b = block_until r"
    using loop_until [of k t0 sts] assms(2) r by blast
  then obtain st where st: "st \<in> relevant k sts" "b = state_block t0 st" "is_blocked (state_block t0 st)"
    by (auto elim: blocking_memberE)
  have "is_blocked (state_block t st)"
    by (rule state_block_later [OF st(3) assms(3,4)]) (use b st assms(5) in auto)
  with st(1) show ?thesis by (auto simp: loop_blocked_iff blocking_ne)
qed

lemma loop_not_later:
  assumes "\<not> is_blocked (model_states_loop k t0 sts False False blockReasonNone zero_time)"
    and "t0 \<le> t" and "0 \<le> t0"
  shows "\<not> is_blocked (model_states_loop k t sts False False blockReasonNone zero_time)"
  using assms state_block_not_later [OF _ assms(2,3)] by (auto simp: loop_blocked_iff blocking_ne)

lemma loop_until_future:
  assumes r: "r = model_states_loop k t0 sts False False blockReasonNone zero_time" and "is_blocked r"
    and "0 \<le> t0"
  shows "block_until r = zero_time \<or> t0 < block_until r"
  using loop_until [of k t0 sts] assms state_block_future [OF assms(3)] by (metis blocking_memberE)

text \<open>
  Three facts for the scheduler: a credential that is not blocked stays so unless its token
  expires; a blocked one stays blocked until the reported time, forever if there is none; and the
  reported time lies in the future.
\<close>

text \<open>The guards before the model states, and the block that remains when they pass.\<close>

definition credential_hold :: "Auth \<Rightarrow> time \<Rightarrow> bool" where
  "credential_hold a now \<longleftrightarrow> qs_Exceeded (auth_Quota a) \<and> qs_Reason (auth_Quota a) = ''credential_quota''
     \<and> qs_NextRecoverAt (auth_Quota a) > now"

definition permanent :: "Auth \<Rightarrow> bool" where
  "permanent a \<longleftrightarrow> auth_Disabled a \<or> auth_Status a = StatusDisabled \<or> hasUnauthorizedAuthFailure a"

definition inner_block :: "Auth \<Rightarrow> string \<Rightarrow> time \<Rightarrow> block" where
  "inner_block a m now =
     (if m \<noteq> [] \<and> auth_ModelStates a \<noteq> [] then
        model_states_loop (canonicalModelKey m) now (auth_ModelStates a) False False blockReasonNone zero_time
      else availabilityBlock (auth_Unavailable a)
             (if m = [] \<and> auth_ModelStates a \<noteq> [] \<and> qs_Reason (auth_Quota a) \<noteq> ''credential_quota''
                 \<and> \<not> auth_Unavailable a then False else qs_Exceeded (auth_Quota a))
             (auth_NextRetryAfter a) (qs_NextRecoverAt (auth_Quota a)) now)"

lemma isAuthBlocked_structure:
  "is_blocked (isAuthBlockedForModel a m now) \<longleftrightarrow>
     permanent a \<or> token_expired a now \<or> credential_hold a now \<or> is_blocked (inner_block a m now)"
  "\<not> permanent a \<Longrightarrow> \<not> token_expired a now \<Longrightarrow>
     block_until (isAuthBlockedForModel a m now) =
       (if credential_hold a now then qs_NextRecoverAt (auth_Quota a) else block_until (inner_block a m now))"
  "permanent a \<or> token_expired a now \<Longrightarrow> block_until (isAuthBlockedForModel a m now) = zero_time"
  by (auto simp: isAuthBlockedForModel_def permanent_def credential_hold_def inner_block_def Let_def)

lemma inner_block_later:
  assumes "is_blocked (inner_block a m t0)" and "t0 \<le> t" and "0 \<le> t0"
    and "block_until (inner_block a m t0) = zero_time \<or> t < block_until (inner_block a m t0)"
  shows "is_blocked (inner_block a m t)"
  using assms holds_later [OF _ assms(2,3)] loop_later [OF refl _ assms(2,3)]
  by (auto simp: inner_block_def availabilityBlock_cases(1) split: if_splits)

lemma inner_block_not_later:
  assumes "\<not> is_blocked (inner_block a m t0)" and "t0 \<le> t" and "0 \<le> t0"
  shows "\<not> is_blocked (inner_block a m t)"
  using assms not_holds_later [OF _ assms(2)] loop_not_later [OF _ assms(2,3)]
  by (auto simp: inner_block_def availabilityBlock_cases(1) split: if_splits)

lemma inner_block_future:
  assumes "is_blocked (inner_block a m t0)" and "0 \<le> t0"
  shows "block_until (inner_block a m t0) = zero_time \<or> t0 < block_until (inner_block a m t0)"
  using assms block_until_future [OF assms(2)] loop_until_future [OF refl _ assms(2)]
  unfolding inner_block_def by presburger

lemma unblocked_later:
  assumes "\<not> is_blocked (isAuthBlockedForModel a m t0)" and "t0 \<le> t" and "0 \<le> t0" and "\<not> token_expired a t"
  shows "\<not> is_blocked (isAuthBlockedForModel a m t)"
  using assms inner_block_not_later [OF _ assms(2,3)]
  by (auto simp: isAuthBlocked_structure(1) credential_hold_def)

lemma token_expired_later: "token_expired a t0 \<Longrightarrow> t0 \<le> t \<Longrightarrow> token_expired a t"
  by (auto simp: token_expired_def split: option.splits)

lemma blocked_later:
  assumes "is_blocked (isAuthBlockedForModel a m t0)" and "t0 \<le> t" and "0 \<le> t0"
    and "block_until (isAuthBlockedForModel a m t0) = zero_time \<or> t < block_until (isAuthBlockedForModel a m t0)"
  shows "is_blocked (isAuthBlockedForModel a m t)"
proof (cases "permanent a \<or> token_expired a t0")
  case True
  with assms(2) show ?thesis by (auto simp: isAuthBlocked_structure(1) dest: token_expired_later)
next
  case False
  show ?thesis
  proof (cases "credential_hold a t0")
    case True
    with False assms(3,4) isAuthBlocked_structure(2) [of a t0 m] show ?thesis
      by (auto simp: isAuthBlocked_structure(1) credential_hold_def)
  next
    case hold: False
    with False assms isAuthBlocked_structure(2) [of a t0 m] inner_block_later [OF _ assms(2,3)]
    show ?thesis by (auto simp: isAuthBlocked_structure(1))
  qed
qed

lemma blocked_until_future:
  assumes "is_blocked (isAuthBlockedForModel a m t0)" and "0 \<le> t0"
  shows "block_until (isAuthBlockedForModel a m t0) = zero_time
    \<or> t0 < block_until (isAuthBlockedForModel a m t0)"
proof (cases "permanent a \<or> token_expired a t0")
  case True
  then show ?thesis by (simp add: isAuthBlocked_structure(3))
next
  case False
  with assms inner_block_future [OF _ assms(2)] show ?thesis
    by (auto simp: isAuthBlocked_structure(1,2) credential_hold_def)
qed

text \<open>A credential that counts as cooling down has a recovery time ahead of it.\<close>

lemma availability_cooldown:
  "0 \<le> now \<Longrightarrow> block_reason (availabilityBlock u q a b now) = blockReasonCooldown \<Longrightarrow>
   is_blocked (availabilityBlock u q a b now) \<and> now < block_until (availabilityBlock u q a b now)"
  by (auto simp: availabilityBlock_def Let_def split: if_splits)

lemma loop_cooldown:
  assumes "0 \<le> now"
    and "block_reason (model_states_loop k now sts False False blockReasonNone zero_time) = blockReasonCooldown"
  shows "is_blocked (model_states_loop k now sts False False blockReasonNone zero_time)
    \<and> now < block_until (model_states_loop k now sts False False blockReasonNone zero_time)"
proof -
  define r where "r = model_states_loop k now sts False False blockReasonNone zero_time"
  have s: "summary (blocking k now sts) r" unfolding r_def by (rule model_states_summary)
  with assms(2) have b: "is_blocked r" "r \<in> blocking k now sts"
    by (auto simp: summary_def r_def [symmetric])
  then have "block_until r \<noteq> zero_time"
    using blocking_forever_reason [OF assms(1) b(2)] assms(2) by (auto simp: r_def)
  with loop_until_future [OF r_def b(1) assms(1)] b(1) show ?thesis by (simp add: r_def)
qed

lemma cooldown_future:
  assumes "0 \<le> now" and "block_reason (isAuthBlockedForModel a m now) = blockReasonCooldown"
  shows "is_blocked (isAuthBlockedForModel a m now) \<and> now < block_until (isAuthBlockedForModel a m now)"
  using assms(2) availability_cooldown [OF assms(1)] loop_cooldown [OF assms(1)]
  by (auto simp: isAuthBlockedForModel_def Let_def split: if_splits)

end
