(* ===== verification/Rotation.thy ===== *)
theory Rotation
  imports Prelude
begin

text \<open>
  Rotation over a ring of candidates sorted by identity. The round-robin selector and the ready
  views of the scheduler both resume after the identity they picked last, each with its own
  successor function; the locale states what such a function promises and proves once that the
  rotation serves every eligible candidate exactly once per round.
\<close>

section \<open>Picking and running\<close>

definition ring_pick ::
  "('e list \<Rightarrow> string \<Rightarrow> nat) \<Rightarrow> ('e \<Rightarrow> bool) \<Rightarrow> 'e list \<Rightarrow> string \<Rightarrow> 'e option"
where
  "ring_pick successor eligible xs lastID =
     (if xs = [] then None else List.find eligible (rotate (successor xs lastID) xs))"

text \<open>Consecutive picks, each one remembering the identity it picked.\<close>

fun ring_run ::
  "('e \<Rightarrow> string) \<Rightarrow> ('e list \<Rightarrow> string \<Rightarrow> nat) \<Rightarrow> ('e \<Rightarrow> bool) \<Rightarrow> 'e list \<Rightarrow> nat \<Rightarrow> string
   \<Rightarrow> 'e option list"
where
  "ring_run ident successor eligible xs 0 lastID = []"
| "ring_run ident successor eligible xs (Suc n) lastID =
     (let p = ring_pick successor eligible xs lastID
      in p # ring_run ident successor eligible xs n (case p of None \<Rightarrow> lastID | Some e \<Rightarrow> ident e))"

definition ring_sorted :: "('e \<Rightarrow> string) \<Rightarrow> 'e list \<Rightarrow> bool" where
  "ring_sorted ident xs \<longleftrightarrow> sorted_wrt (<) (List.map ident xs) \<and> (\<forall>x \<in> set xs. ident x \<noteq> [])"

definition passed :: "('e \<Rightarrow> string) \<Rightarrow> 'e list \<Rightarrow> string \<Rightarrow> nat" where
  "passed ident xs lastID = length (filter (\<lambda>x. ident x \<le> lastID) xs)"

section \<open>Sorted rings\<close>

lemma ring_sorted_Cons:
  "ring_sorted ident (x # xs) \<longleftrightarrow>
     ident x \<noteq> [] \<and> (\<forall>y \<in> set xs. ident x < ident y) \<and> ring_sorted ident xs"
  by (auto simp: ring_sorted_def)

lemma ring_sorted_filter: "ring_sorted ident xs \<Longrightarrow> ring_sorted ident (filter P xs)"
  by (induction xs) (auto simp: ring_sorted_Cons)

text \<open>In a sorted ring the identities up to a given one are a prefix.\<close>

lemma passed_take:
  "ring_sorted ident xs \<Longrightarrow> filter (\<lambda>x. ident x \<le> l) xs = take (passed ident xs l) xs"
proof (induction xs)
  case (Cons x xs)
  show ?case
  proof (cases "ident x \<le> l")
    case False
    with Cons.prems have "\<forall>y \<in> set xs. \<not> ident y \<le> l"
      by (auto simp: ring_sorted_Cons intro: order.strict_trans2 dest: order.strict_implies_not_eq)
    with False show ?thesis by (simp add: passed_def)
  qed (use Cons in \<open>simp add: passed_def ring_sorted_Cons\<close>)
qed (simp add: passed_def)

lemma passed_le [simp]: "passed ident xs l \<le> length xs"
  by (simp add: passed_def)

lemma passed_drop:
  assumes "ring_sorted ident xs"
  shows "filter (\<lambda>x. \<not> ident x \<le> l) xs = drop (passed ident xs l) xs"
  using assms
proof (induction xs)
  case (Cons x xs)
  show ?case
  proof (cases "ident x \<le> l")
    case False
    with Cons.prems have "\<forall>y \<in> set xs. \<not> ident y \<le> l"
      by (auto simp: ring_sorted_Cons intro: order.strict_trans2 dest: order.strict_implies_not_eq)
    then have "filter (\<lambda>x. ident x \<le> l) xs = []" "filter (\<lambda>x. \<not> ident x \<le> l) xs = xs"
      by (simp_all add: filter_empty_conv)
    with False show ?thesis by (simp add: passed_def)
  qed (use Cons in \<open>simp add: passed_def ring_sorted_Cons\<close>)
qed (simp add: passed_def)

lemma filter_take_passed:
  assumes "ring_sorted ident xs"
  shows "filter P (take (passed ident xs l) xs) = take (passed ident (filter P xs) l) (filter P xs)"
    and "filter P (drop (passed ident xs l) xs) = drop (passed ident (filter P xs) l) (filter P xs)"
  unfolding passed_take [OF assms, symmetric] passed_drop [OF assms, symmetric]
    passed_take [OF ring_sorted_filter [OF assms], symmetric]
    passed_drop [OF ring_sorted_filter [OF assms], symmetric]
  by (simp_all add: conj_commute)

lemma passed_nth:
  assumes "ring_sorted ident xs" and "i < length xs"
  shows "passed ident xs (ident (xs ! i)) = Suc i"
  using assms
proof (induction xs arbitrary: i)
  case (Cons x xs)
  show ?case
  proof (cases i)
    case 0
    from Cons.prems(1) have "filter (\<lambda>y. ident y \<le> ident x) xs = []"
      by (auto simp: ring_sorted_Cons filter_empty_conv)
    with 0 show ?thesis by (simp add: passed_def)
  next
    case (Suc j)
    with Cons.prems have "ident x \<le> ident (xs ! j)" by (auto simp: ring_sorted_Cons order.strict_implies_order)
    with Cons Suc show ?thesis by (simp add: passed_def ring_sorted_Cons)
  qed
qed simp

lemma find_filter: "List.find P xs = (if filter P xs = [] then None else Some (hd (filter P xs)))"
  by (induction xs) auto

lemma find_SomeD: "List.find P xs = Some x \<Longrightarrow> x \<in> set xs \<and> P x"
  by (induction xs) (auto split: if_splits)

lemma count_distinct: "distinct ys \<Longrightarrow> y \<in> set ys \<Longrightarrow> count_list ys y = 1"
  by (induction ys) (auto simp: count_list_0_iff)

lemma hd_drop_take:
  "ys \<noteq> [] \<Longrightarrow> k \<le> length ys \<Longrightarrow> hd (drop k ys @ take k ys) = ys ! (k mod length ys)"
  by (cases "k = length ys") (auto simp: hd_append hd_drop_conv_nth hd_conv_nth)

text \<open>A binary search for the first identity after the last one satisfies the interface below.\<close>

lemma strict_le_nth:
  "sorted_wrt (<) (ns :: string list) \<Longrightarrow> a \<le> b \<Longrightarrow> b < length ns \<Longrightarrow> ns ! a \<le> ns ! b"
  by (cases "a = b") (auto simp: sorted_wrt_iff_nth_less intro: order.strict_implies_order)

lemma split_passed:
  assumes "r \<le> length xs" and "\<forall>k < r. ident (xs ! k) \<le> l" and "\<forall>k. r \<le> k \<longrightarrow> k < length xs \<longrightarrow> l < ident (xs ! k)"
  shows "passed ident xs l = r"
proof -
  have "ident x \<le> l" if x: "x \<in> set (take r xs)" for x
    using assms(1,2) x by (metis in_set_conv_nth length_take min.absorb2 nth_take)
  then have t: "filter (\<lambda>x. ident x \<le> l) (take r xs) = take r xs" by (simp add: filter_id_conv)
  have "\<not> ident x \<le> l" if x: "x \<in> set (drop r xs)" for x
  proof -
    obtain i where "i < length (drop r xs)" "x = drop r xs ! i" using x by (metis in_set_conv_nth)
    then have "x = xs ! (r + i)" "r + i < length xs" using assms(1) by simp_all
    with assms(3) show ?thesis by (simp add: not_le)
  qed
  then have "filter (\<lambda>x. ident x \<le> l) (drop r xs) = []" by (simp add: filter_empty_conv)
  with t have "filter (\<lambda>x. ident x \<le> l) (take r xs @ drop r xs) = take r xs"
    by (simp only: filter_append append_Nil2)
  then show ?thesis using assms(1) by (simp add: passed_def)
qed

lemma search_passed:
  assumes "ring_sorted ident xs"
  shows "sort_search (length xs) (\<lambda>i. ident (xs ! i) > lastID) = passed ident xs lastID"
proof -
  let ?f = "\<lambda>i. ident (xs ! i) > lastID"
  define r where "r = sort_search (length xs) ?f"
  have "r \<le> length xs \<and> (\<forall>k < r. \<not> ?f k) \<and> (\<forall>k. r \<le> k \<longrightarrow> k < length xs \<longrightarrow> ?f k)"
    unfolding r_def
  proof (rule sort_search_spec)
    fix a b
    assume ab: "a \<le> b" "b < length xs" "?f a"
    then have "ident (xs ! a) \<le> ident (xs ! b)"
      using strict_le_nth [of "List.map ident xs" a b] assms by (simp add: ring_sorted_def)
    with ab(3) show "?f b" by simp
  qed
  then have "passed ident xs lastID = r" by (intro split_passed) (simp_all add: not_less)
  then show ?thesis by (simp add: r_def)
qed

lemma search_successor:
  assumes "ring_sorted ident xs" and "xs \<noteq> []"
  shows "(if lastID = [] then 0
      else let index = sort_search (length xs) (\<lambda>i. ident (xs ! i) > lastID)
        in if index \<ge> length xs then 0 else index) = passed ident xs lastID mod length xs"
proof (cases "lastID = []")
  case True
  then have "filter (\<lambda>x. ident x \<le> lastID) xs = []"
    using assms(1) by (auto simp: filter_empty_conv ring_sorted_def)
  with True show ?thesis by (simp add: passed_def)
next
  case False
  with passed_le [of ident xs lastID] show ?thesis
    by (cases "passed ident xs lastID = length xs")
      (simp_all add: search_passed [OF assms(1)] Let_def le_less)
qed

section \<open>The interface of a successor function\<close>

locale rotation =
  fixes ident :: "'e \<Rightarrow> string" and successor :: "'e list \<Rightarrow> string \<Rightarrow> nat"
  assumes successor_law: "ring_sorted ident xs \<Longrightarrow> xs \<noteq> [] \<Longrightarrow>
    successor xs lastID = passed ident xs lastID mod length xs"
begin

lemma ring_pick_nth:
  assumes "ring_sorted ident xs" and "filter P xs \<noteq> []"
  shows "ring_pick successor P xs lastID =
    Some (filter P xs ! (passed ident (filter P xs) lastID mod length (filter P xs)))"
proof -
  let ?ys = "filter P xs" and ?s = "passed ident xs lastID" and ?k = "passed ident (filter P xs) lastID"
  have xs: "xs \<noteq> []" using assms(2) by auto
  have "rotate (successor xs lastID) xs = drop ?s xs @ take ?s xs"
    unfolding successor_law [OF assms(1) xs]
    using passed_le [of ident xs lastID]
    by (cases "?s = length xs") (simp_all add: rotate_drop_take order_le_less)
  then have "filter P (rotate (successor xs lastID) xs) = drop ?k ?ys @ take ?k ?ys"
    by (simp add: filter_take_passed [OF assms(1)])
  moreover have "drop ?k ?ys @ take ?k ?ys \<noteq> []" using assms(2) by (metis append_take_drop_id append_is_Nil_conv)
  ultimately show ?thesis
    using assms(2) xs hd_drop_take [OF assms(2), of ?k]
    by (simp add: ring_pick_def find_filter)
qed

lemma ring_run_nth:
  assumes "ring_sorted ident xs" and "filter P xs \<noteq> []"
  shows "ring_run ident successor P xs n lastID =
    List.map (\<lambda>j. Some (filter P xs ! ((passed ident (filter P xs) lastID + j) mod length (filter P xs)))) [0..<n]"
proof (induction n arbitrary: lastID)
  case (Suc n)
  let ?ys = "filter P xs" and ?k = "passed ident (filter P xs) lastID"
  let ?i = "?k mod length ?ys"
  have i: "?i < length ?ys" using assms(2) by simp
  have next_id: "passed ident ?ys (ident (?ys ! ?i)) = Suc ?i"
    by (rule passed_nth [OF ring_sorted_filter [OF assms(1)] i])
  have "(Suc ?i + j) mod length ?ys = (?k + Suc j) mod length ?ys" for j
    by (metis add_Suc add_Suc_right mod_add_left_eq)
  with Suc.IH [of "ident (?ys ! ?i)"] show ?case
    by (simp add: ring_pick_nth [OF assms] Let_def next_id upt_conv_Cons map_Suc_upt [symmetric]
        comp_def del: upt_Suc)
qed simp

text \<open>One full round is a rotation of the eligible candidates, wherever it starts.\<close>

lemma ring_round:
  assumes "ring_sorted ident xs"
  shows "ring_run ident successor P xs (length (filter P xs)) lastID =
    List.map Some (rotate (passed ident (filter P xs) lastID) (filter P xs))"
proof (cases "filter P xs = []")
  case False
  show ?thesis
    by (rule nth_equalityI)
      (simp_all add: ring_run_nth [OF assms False] nth_rotate add.commute)
qed simp

lemma ring_fair:
  assumes "ring_sorted ident xs" and "x \<in> set xs" and "P x"
  shows "count_list (ring_run ident successor P xs (length (filter P xs)) lastID) (Some x) = 1"
proof -
  have dist: "distinct (filter P xs)"
  proof -
    have "distinct (List.map ident xs)" using assms(1) by (auto simp: ring_sorted_def strict_sorted_iff)
    then show ?thesis by (simp add: distinct_map)
  qed
  have cm: "count_list (List.map Some ys) (Some x) = count_list ys x" for ys
    by (induction ys) auto
  show ?thesis unfolding ring_round [OF assms(1)] cm
    by (rule count_distinct) (use dist assms(2,3) in auto)
qed

lemma ring_pick_eligible:
  "ring_pick successor P xs lastID = Some x \<Longrightarrow> x \<in> set xs \<and> P x"
  by (auto simp: ring_pick_def dest: find_SomeD split: if_splits)

lemma ring_pick_None: "ring_pick successor P xs lastID = None \<longleftrightarrow> (\<forall>x \<in> set xs. \<not> P x)"
  by (auto simp: ring_pick_def find_None_iff)

end

end
