(* ===== verification/Selectors.thy ===== *)
theory Selectors
  imports Availability Rotation "HOL-Library.Multiset"
begin

text \<open>
  The built-in selectors (\<open>sdk/cliproxy/auth/selector.go\<close>): candidates of the highest
  available priority, then round-robin, smooth weighted round-robin or the first candidate. The
  session affinity selector is not modelled. A context is the record of the values the selectors
  read from it; the clock is an argument; the candidates are not nil and have distinct IDs, so the
  unstable sort by ID is determined.
\<close>

section \<open>Candidates\<close>

record pick_context =
  cx_prevalidated :: bool
  cx_downstreamWebsocket :: bool
  cx_routeModel :: string

datatype pick_error =
    AuthNotFound
  | ModelCooldown string string duration
  | AuthUnavailable "duration option"
  | NoPositiveWeight

definition newModelCooldownError :: "string \<Rightarrow> string \<Rightarrow> duration \<Rightarrow> pick_error" where
  "newModelCooldownError model provider resetIn =
     ModelCooldown model provider (if resetIn < 0 then 0 else resetIn)"

definition newAuthUnavailableError :: "time \<Rightarrow> time \<Rightarrow> pick_error" where
  "newAuthUnavailableError next now = AuthUnavailable (if next > now then Some (next - now) else None)"

text \<open>The accumulator: the buckets by priority, the number of cooldowns and the earliest retry.\<close>

fun collect_loop ::
  "Auth list \<Rightarrow> string \<Rightarrow> time \<Rightarrow> (int, Auth list) gomap \<Rightarrow> nat \<Rightarrow> time
   \<Rightarrow> (int, Auth list) gomap \<times> nat \<times> time"
where
  "collect_loop [] model now available cooldownCount earliest = (available, cooldownCount, earliest)"
| "collect_loop (candidate # auths) model now available cooldownCount earliest =
     (case isAuthBlockedForModel candidate model now of
        (blocked, reason, next) \<Rightarrow>
          if \<not> blocked then
            let priority = authPriority candidate
            in collect_loop auths model now
                 (AList.update priority (get_or [] available priority @ [candidate]) available)
                 cooldownCount earliest
          else
            collect_loop auths model now available
              (if reason = blockReasonCooldown then cooldownCount + 1 else cooldownCount)
              (if reason \<noteq> blockReasonDisabled \<and> next > now \<and> (earliest = zero_time \<or> next < earliest)
               then next else earliest))"

definition collectAvailableByPriority ::
  "Auth list \<Rightarrow> string \<Rightarrow> time \<Rightarrow> (int, Auth list) gomap \<times> nat \<times> time"
where
  "collectAvailableByPriority auths model now = collect_loop auths model now [] 0 zero_time"

definition best_priority :: "int list \<Rightarrow> int" where
  "best_priority priorities =
     fst (fold (\<lambda>priority (best, found). if \<not> found \<or> priority > best then (priority, True) else (best, found))
            priorities (0, False))"

definition availableAuthsFromPriorityBuckets :: "(int, Auth list) gomap \<Rightarrow> bool \<Rightarrow> Auth list" where
  "availableAuthsFromPriorityBuckets availableByPriority allPriorities =
     (let candidates =
            (if allPriorities then concat (List.map snd availableByPriority)
             else get_or [] availableByPriority (best_priority (gokeys availableByPriority)))
      in if length candidates > 1 then sort_key auth_ID candidates else candidates)"

definition getAvailableAuthsWithPriorityMode ::
  "Auth list \<Rightarrow> string \<Rightarrow> string \<Rightarrow> time \<Rightarrow> bool \<Rightarrow> pick_error + Auth list"
where
  "getAvailableAuthsWithPriorityMode auths provider model now allPriorities =
     (if auths = [] then Inl AuthNotFound
      else case collectAvailableByPriority auths model now of
        (availableByPriority, cooldownCount, earliest) \<Rightarrow>
          if availableByPriority = [] then
            (if cooldownCount = length auths \<and> earliest \<noteq> zero_time then
               let providerForError = (if provider = ''mixed'' then [] else provider);
                   resetIn = earliest - now
               in Inl (newModelCooldownError model providerForError (if resetIn < 0 then 0 else resetIn))
             else Inl (newAuthUnavailableError earliest now))
          else Inr (availableAuthsFromPriorityBuckets availableByPriority allPriorities))"

definition highestPriorityAuths :: "Auth list \<Rightarrow> Auth list" where
  "highestPriorityAuths auths =
     (if length auths \<le> 1 then auths
      else let (bestPriority, bestCount) =
             fold (\<lambda>auth (best, count).
                 let priority = authPriority auth
                 in if count = 0 \<or> priority > best then (priority, 1)
                    else if priority = best then (best, count + 1)
                    else (best, count)) auths (0, 0 :: nat)
        in if bestCount = length auths then auths
           else filter (\<lambda>auth. authPriority auth = bestPriority) auths)"

definition getSelectorAvailableAuthsWithPriorityMode ::
  "pick_context \<Rightarrow> Auth list \<Rightarrow> string \<Rightarrow> string \<Rightarrow> time \<Rightarrow> bool \<Rightarrow> pick_error + Auth list"
where
  "getSelectorAvailableAuthsWithPriorityMode ctx auths provider model now allPriorities =
     (if cx_prevalidated ctx \<and> auths \<noteq> []
      then (if \<not> allPriorities then Inr (highestPriorityAuths auths) else Inr auths)
      else getAvailableAuthsWithPriorityMode auths provider model now allPriorities)"

definition preferCodexWebsocketAuths :: "pick_context \<Rightarrow> string \<Rightarrow> Auth list \<Rightarrow> Auth list" where
  "preferCodexWebsocketAuths ctx provider available =
     (if available = [] then available
      else if \<not> cx_downstreamWebsocket ctx then available
      else if \<not> equal_fold (trim_space provider) ''codex'' then available
      else let wsEnabled = filter authWebsocketsEnabled available
        in if wsEnabled \<noteq> [] then wsEnabled else available)"

section \<open>The selectors\<close>

definition successorIndex :: "Auth list \<Rightarrow> string \<Rightarrow> nat" where
  "successorIndex available lastID =
     (if lastID = [] then 0
      else let index = sort_search (length available) (\<lambda>i. auth_ID (available ! i) > lastID)
        in if index \<ge> length available then 0 else index)"

record round_robin_state =
  rr_lastPicked :: "(string, string) gomap"
  rr_maxKeys :: int

definition key_limit :: "int \<Rightarrow> int" where
  "key_limit maxKeys = (if maxKeys \<le> 0 then 4096 else maxKeys)"

definition ensureRotationKey :: "round_robin_state \<Rightarrow> string \<Rightarrow> int \<Rightarrow> round_robin_state" where
  "ensureRotationKey s key limit =
     (if \<not> has_key (rr_lastPicked s) key \<and> int (length (rr_lastPicked s)) \<ge> limit
      then s\<lparr>rr_lastPicked := []\<rparr> else s)"

definition RoundRobin_Pick ::
  "round_robin_state \<Rightarrow> pick_context \<Rightarrow> string \<Rightarrow> string \<Rightarrow> time \<Rightarrow> Auth list
   \<Rightarrow> round_robin_state \<times> (pick_error + Auth)"
where
  "RoundRobin_Pick s ctx provider model now auths =
     (case getSelectorAvailableAuthsWithPriorityMode ctx auths provider model now False of
        Inl err \<Rightarrow> (s, Inl err)
      | Inr available0 \<Rightarrow>
          let available = preferCodexWebsocketAuths ctx provider available0;
              key = provider @ '':'' @ canonicalModelKey model;
              s1 = ensureRotationKey s key (key_limit (rr_maxKeys s));
              picked = available ! successorIndex available (get_or [] (rr_lastPicked s1) key)
          in (s1\<lparr>rr_lastPicked := AList.update key (auth_ID picked) (rr_lastPicked s1)\<rparr>, Inr picked))"

record weighted_selector_state =
  wr_states :: "(string, smooth_state) gomap"
  wr_maxKeys :: int

definition positiveWeightAuths :: "Auth list \<Rightarrow> Auth list" where
  "positiveWeightAuths auths = filter (\<lambda>auth. authWeight auth > 0) auths"

definition weightedSelectorStateModel :: "pick_context \<Rightarrow> string \<Rightarrow> string" where
  "weightedSelectorStateModel ctx availabilityModel =
     (if trim_space (cx_routeModel ctx) \<noteq> [] then cx_routeModel ctx else availabilityModel)"

definition authWeightVector :: "Auth list \<Rightarrow> (string, int) gomap" where
  "authWeightVector auths = weight_vector auth_ID authWeight (\<lambda>_. True) auths"

definition pickSmoothWeightedAuth :: "Auth list \<Rightarrow> (string, int) gomap \<Rightarrow> (string, int) gomap \<times> Auth option" where
  "pickSmoothWeightedAuth auths current = smooth_pick auth_ID authWeight (\<lambda>_. True) auths current"

definition WeightedRoundRobin_Pick ::
  "weighted_selector_state \<Rightarrow> pick_context \<Rightarrow> string \<Rightarrow> string \<Rightarrow> time \<Rightarrow> Auth list
   \<Rightarrow> weighted_selector_state \<times> (pick_error + Auth)"
where
  "WeightedRoundRobin_Pick s ctx provider model now auths =
     (case getSelectorAvailableAuthsWithPriorityMode ctx (positiveWeightAuths auths) provider model now False of
        Inl err \<Rightarrow> (s, Inl err)
      | Inr available0 \<Rightarrow>
          let available = preferCodexWebsocketAuths ctx provider available0;
              key = provider @ '':'' @ canonicalModelKey (weightedSelectorStateModel ctx model);
              states0 = (if \<not> has_key (wr_states s) key \<and> int (length (wr_states s)) \<ge> key_limit (wr_maxKeys s)
                         then [] else wr_states s);
              state = prepare (get_or empty_smooth states0 key) (authWeightVector available);
              (current, picked) = pickSmoothWeightedAuth available (sw_current state);
              s' = s\<lparr>wr_states := AList.update key (state\<lparr>sw_current := current\<rparr>) states0\<rparr>
          in (s', case picked of None \<Rightarrow> Inl NoPositiveWeight | Some p \<Rightarrow> Inr p))"

definition FillFirst_Pick ::
  "pick_context \<Rightarrow> string \<Rightarrow> string \<Rightarrow> time \<Rightarrow> Auth list \<Rightarrow> pick_error + Auth"
where
  "FillFirst_Pick ctx provider model now auths =
     (case getSelectorAvailableAuthsWithPriorityMode ctx auths provider model now False of
        Inl err \<Rightarrow> Inl err
      | Inr available \<Rightarrow> Inr (preferCodexWebsocketAuths ctx provider available ! 0))"

section \<open>Availability by priority\<close>

definition ready_auths :: "Auth list \<Rightarrow> string \<Rightarrow> time \<Rightarrow> Auth list" where
  "ready_auths auths model now = filter (\<lambda>a. \<not> is_blocked (isAuthBlockedForModel a model now)) auths"

definition retry_times :: "Auth list \<Rightarrow> string \<Rightarrow> time \<Rightarrow> time list" where
  "retry_times auths model now =
     List.map (\<lambda>a. block_until (isAuthBlockedForModel a model now))
       (filter (\<lambda>a. let b = isAuthBlockedForModel a model now
                   in is_blocked b \<and> block_reason b \<noteq> blockReasonDisabled \<and> block_until b > now) auths)"

definition cooldown_count :: "Auth list \<Rightarrow> string \<Rightarrow> time \<Rightarrow> nat" where
  "cooldown_count auths model now =
     length (filter (\<lambda>a. let b = isAuthBlockedForModel a model now
                   in is_blocked b \<and> block_reason b = blockReasonCooldown) auths)"

fun earliest_of :: "time \<Rightarrow> time list \<Rightarrow> time" where
  "earliest_of e [] = e"
| "earliest_of e (t # ts) = earliest_of (if e = zero_time \<or> t < e then t else e) ts"

lemma earliest_of_pos:
  "\<forall>t \<in> set ts. zero_time < t \<Longrightarrow> zero_time < e \<Longrightarrow> earliest_of e ts = Min (insert e (set ts))"
proof (induction ts arbitrary: e)
  case (Cons t ts)
  have "(if e = zero_time \<or> t < e then t else e) = min t e" using Cons.prems by auto
  with Cons.IH [of "min t e"] Cons.prems have "earliest_of e (t # ts) = Min (insert (min t e) (set ts))"
    by simp
  also have "\<dots> = Min (insert e (insert t (set ts)))"
    by (cases "ts = []") (simp_all add: min.assoc min.left_commute min.commute)
  finally show ?case by simp
qed simp

lemma earliest_of_min:
  "\<forall>t \<in> set ts. zero_time < t \<Longrightarrow>
   earliest_of zero_time ts = (if ts = [] then zero_time else Min (set ts))"
  by (cases ts) (simp_all add: earliest_of_pos)

text \<open>What the loop collects, as a function of the candidates.\<close>

definition buckets_of :: "(int, Auth list) gomap \<Rightarrow> Auth list \<Rightarrow> bool" where
  "buckets_of m as \<longleftrightarrow> wf_map m
     \<and> (\<forall>p. get_or [] m p = filter (\<lambda>a. authPriority a = p) as)
     \<and> (\<forall>p. has_key m p \<longleftrightarrow> (\<exists>a \<in> set as. authPriority a = p))"

lemma buckets_of_snoc:
  assumes "buckets_of m as"
  shows "buckets_of (AList.update (authPriority a) (get_or [] m (authPriority a) @ [a]) m) (as @ [a])"
  using assms by (auto simp: buckets_of_def)

lemma collect_loop_spec:
  assumes "buckets_of available done"
    and "collect_loop auths model now available c e = (available', c', e')"
  shows "buckets_of available' (done @ ready_auths auths model now)
    \<and> c' = c + cooldown_count auths model now \<and> e' = earliest_of e (retry_times auths model now)"
  using assms
proof (induction auths arbitrary: "available" "done" c e)
  case Nil
  then show ?case by (simp add: ready_auths_def cooldown_count_def retry_times_def)
next
  case (Cons a auths)
  obtain b r n where blk: "isAuthBlockedForModel a model now = (b, r, n)" by (metis prod_cases3)
  show ?case
  proof (cases b)
    case False
    with Cons.prems blk
    have "collect_loop auths model now
        (AList.update (authPriority a) (get_or [] available (authPriority a) @ [a]) available) c e
        = (available', c', e')" by (simp add: Let_def)
    from Cons.IH [OF buckets_of_snoc [OF Cons.prems(1)] this] False blk show ?thesis
      by (simp add: ready_auths_def cooldown_count_def retry_times_def)
  next
    case True
    with Cons.prems blk
    have "collect_loop auths model now available
        (if r = blockReasonCooldown then c + 1 else c)
        (if r \<noteq> blockReasonDisabled \<and> n > now \<and> (e = zero_time \<or> n < e) then n else e)
        = (available', c', e')" by simp
    from Cons.IH [OF Cons.prems(1) this] True blk show ?thesis
      by (auto simp: ready_auths_def cooldown_count_def retry_times_def Let_def)
  qed
qed

lemma collect_spec:
  assumes "collectAvailableByPriority auths model now = (available, c, e)"
  shows "buckets_of available (ready_auths auths model now)"
    and "c = cooldown_count auths model now" and "e = earliest_of zero_time (retry_times auths model now)"
  using collect_loop_spec [of "[]" "[]" auths model now 0 zero_time "available" c e] assms
  by (simp_all add: collectAvailableByPriority_def buckets_of_def)

lemma best_priority_fold:
  "fold (\<lambda>priority (best, found). if \<not> found \<or> priority > best then (priority, True) else (best, found)) ps (b, True)
     = (Max (insert b (set ps)), True)"
proof (induction ps arbitrary: b)
  case (Cons p ps)
  then show ?case
    by (cases "ps = []") (auto simp: max_def not_less)
qed simp

lemma best_priority_Max: "ps \<noteq> [] \<Longrightarrow> best_priority ps = Max (set ps)"
  by (cases ps) (simp_all add: best_priority_def best_priority_fold [simplified])

lemma sort_key_small: "length xs \<le> 1 \<Longrightarrow> sort_key f xs = xs"
  by (cases xs) auto

lemma available_spec: "availableAuthsFromPriorityBuckets m all =
    sort_key auth_ID (if all then concat (List.map snd m) else get_or [] m (best_priority (gokeys m)))"
  by (auto simp: availableAuthsFromPriorityBuckets_def Let_def sort_key_small)

definition top_tier :: "Auth list \<Rightarrow> Auth list" where
  "top_tier as = filter (\<lambda>a. authPriority a = Max (authPriority ` set as)) as"

lemma bucket_keys:
  assumes "buckets_of m as"
  shows "set (gokeys m) = authPriority ` set as"
proof (rule set_eqI)
  fix p
  have "p \<in> fst ` set m \<longleftrightarrow> (\<exists>a \<in> set as. authPriority a = p)"
    using assms by (simp add: buckets_of_def has_key_set)
  then show "p \<in> set (gokeys m) \<longleftrightarrow> p \<in> authPriority ` set as"
    unfolding gokeys_def set_map by (metis image_iff)
qed

lemma available_top:
  assumes "buckets_of m as" and "m \<noteq> []"
  shows "availableAuthsFromPriorityBuckets m False = sort_key auth_ID (top_tier as)"
proof -
  have "gokeys m \<noteq> []" using assms(2) by (simp add: gokeys_def)
  then show ?thesis
    using assms(1) by (simp add: available_spec best_priority_Max bucket_keys [OF assms(1)] top_tier_def buckets_of_def)
qed

lemma buckets_empty: "buckets_of m as \<Longrightarrow> m = [] \<longleftrightarrow> as = []"
proof -
  assume b: "buckets_of m as"
  have "set (gokeys m) = {} \<longleftrightarrow> m = []" by (simp add: gokeys_def)
  with bucket_keys [OF b] show ?thesis by simp
qed

lemma getAvailable_cases:
  assumes "0 \<le> now" and "auths \<noteq> []"
  shows "getAvailableAuthsWithPriorityMode auths provider model now False =
    (if ready_auths auths model now \<noteq> [] then Inr (sort_key auth_ID (top_tier (ready_auths auths model now)))
     else let ts = retry_times auths model now
       in if cooldown_count auths model now = length auths \<and> ts \<noteq> []
          then Inl (ModelCooldown model (if provider = ''mixed'' then [] else provider) (Min (set ts) - now))
          else Inl (AuthUnavailable (if ts = [] then None else Some (Min (set ts) - now))))"
proof -
  obtain m c e where col: "collectAvailableByPriority auths model now = (m, c, e)" by (metis prod_cases3)
  note spec = collect_spec [OF col]
  let ?ts = "retry_times auths model now"
  have future: "\<forall>t \<in> set ?ts. now < t" by (auto simp: retry_times_def Let_def)
  then have pos: "\<forall>t \<in> set ?ts. zero_time < t" using assms(1) by auto
  define M where "M = Min (set ?ts)"
  have e: "e = (if ?ts = [] then zero_time else M)"
    unfolding spec(3) M_def using earliest_of_min [OF pos] by simp
  have "?ts \<noteq> [] \<longrightarrow> M \<in> set ?ts" by (simp add: M_def)
  then have "?ts \<noteq> [] \<longrightarrow> now < M \<and> M \<noteq> zero_time" using future pos by fastforce
  with assms(2) col spec(1,2) e buckets_empty [OF spec(1)] available_top [OF spec(1)] assms(1)
  show ?thesis unfolding M_def [symmetric] Let_def
    by (auto simp: getAvailableAuthsWithPriorityMode_def newModelCooldownError_def
        newAuthUnavailableError_def Let_def)
qed

lemma length_filter_all: "length (filter P xs) = length xs \<longleftrightarrow> (\<forall>x \<in> set xs. P x)"
  by (metis filter_True length_filter_less less_irrefl_nat)

text \<open>
  C19: The candidates of a request are exactly the unblocked credentials of the highest priority
  that has any, ordered by ID.
\<close>

theorem getAvailableAuths_top_tier:
  assumes "0 \<le> now" and "getAvailableAuthsWithPriorityMode auths provider model now False = Inr xs"
  shows "xs \<noteq> [] \<and> sorted (List.map auth_ID xs) \<and> mset xs = mset (filter (\<lambda>a.
      \<not> is_blocked (isAuthBlockedForModel a model now) \<and>
      (\<forall>b \<in> set auths. \<not> is_blocked (isAuthBlockedForModel b model now) \<longrightarrow> authPriority b \<le> authPriority a)) auths)"
proof -
  let ?R = "ready_auths auths model now"
  have ne: "auths \<noteq> []" using assms(2) by (auto simp: getAvailableAuthsWithPriorityMode_def)
  have R: "?R \<noteq> []" and xs: "xs = sort_key auth_ID (top_tier ?R)"
    using assms(2) unfolding getAvailable_cases [OF assms(1) ne] by (auto simp: Let_def split: if_splits)
  have "Max (authPriority ` set ?R) \<in> authPriority ` set ?R" using R by simp
  then obtain a where "a \<in> set ?R" "authPriority a = Max (authPriority ` set ?R)" by auto
  then have "top_tier ?R \<noteq> []" by (auto simp: top_tier_def filter_empty_conv)
  moreover have "top_tier ?R = filter (\<lambda>a. \<not> is_blocked (isAuthBlockedForModel a model now) \<and>
      (\<forall>b \<in> set auths. \<not> is_blocked (isAuthBlockedForModel b model now) \<longrightarrow> authPriority b \<le> authPriority a)) auths"
    unfolding top_tier_def ready_auths_def filter_filter
    by (intro filter_cong) (auto intro!: Max_eqI [symmetric])
  ultimately show ?thesis using xs by (metis mset_sort mset_zero_iff_right sorted_sort_key)
qed

theorem getAvailableAuths_top_tier_witness:
  "\<exists>xs. getAvailableAuthsWithPriorityMode [new_auth ''b'' ''codex'', new_auth ''a'' ''codex''] ''codex'' ''m'' 5 False
      = Inr xs \<and> xs \<noteq> []"
proof -
  have "getAvailableAuthsWithPriorityMode [new_auth ''b'' ''codex'', new_auth ''a'' ''codex''] ''codex'' ''m'' 5 False
      = Inr [new_auth ''a'' ''codex'', new_auth ''b'' ''codex'']"
    by code_simp
  moreover have "(0::int) \<le> 5" by simp
  ultimately show ?thesis
    using conjunct1 [OF getAvailableAuths_top_tier [of 5 "[new_auth ''b'' ''codex'', new_auth ''a'' ''codex'']"
      "''codex''" "''m''"]] by blast
qed

text \<open>
  When no credential is available the error is precise: a cooldown error only if every
  candidate is cooling down, carrying the time until the first of them recovers; an unavailability
  error otherwise, with a retry hint exactly if some candidate recovers at a known time.
\<close>

theorem getAvailableAuths_errors:
  assumes "0 \<le> now" and "auths \<noteq> []"
    and "getAvailableAuthsWithPriorityMode auths provider model now False = Inl err"
  shows "(\<forall>a \<in> set auths. is_blocked (isAuthBlockedForModel a model now)) \<and>
    (case err of
       ModelCooldown m p d \<Rightarrow> m = model \<and> 0 < d
         \<and> (\<forall>a \<in> set auths. block_reason (isAuthBlockedForModel a model now) = blockReasonCooldown
              \<and> now + d \<le> block_until (isAuthBlockedForModel a model now))
         \<and> (\<exists>a \<in> set auths. block_until (isAuthBlockedForModel a model now) = now + d)
     | AuthUnavailable (Some d) \<Rightarrow> 0 < d
         \<and> (\<exists>a \<in> set auths. block_until (isAuthBlockedForModel a model now) = now + d)
     | AuthUnavailable None \<Rightarrow> (\<forall>a \<in> set auths. block_until (isAuthBlockedForModel a model now) = zero_time
         \<or> block_reason (isAuthBlockedForModel a model now) = blockReasonDisabled)
     | _ \<Rightarrow> False)"
proof -
  let ?b = "\<lambda>a. isAuthBlockedForModel a model now" and ?ts = "retry_times auths model now"
  define M where "M = Min (set ?ts)"
  have R: "ready_auths auths model now = []"
    and err: "err = (if cooldown_count auths model now = length auths \<and> ?ts \<noteq> []
        then ModelCooldown model (if provider = ''mixed'' then [] else provider) (M - now)
        else AuthUnavailable (if ?ts = [] then None else Some (M - now)))"
    using assms(3) unfolding getAvailable_cases [OF assms(1,2)] M_def
    by (auto simp: Let_def split: if_splits)
  have blocked: "\<forall>a \<in> set auths. is_blocked (?b a)"
    using R by (auto simp: ready_auths_def filter_empty_conv)
  have fut: "\<forall>a \<in> set auths. block_until (?b a) = zero_time \<or> now < block_until (?b a)"
    using blocked blocked_until_future [OF _ assms(1)] by blast
  have M: "M \<in> set ?ts \<and> (\<forall>t \<in> set ?ts. M \<le> t)" if "?ts \<noteq> []" using that by (simp add: M_def)
  have ts: "t \<in> set ?ts \<longleftrightarrow> (\<exists>a \<in> set auths. t = block_until (?b a) \<and> block_reason (?b a) \<noteq> blockReasonDisabled
      \<and> now < t)" for t
    using blocked by (auto simp: retry_times_def Let_def)
  have cool: "cooldown_count auths model now = length auths \<longleftrightarrow>
      (\<forall>a \<in> set auths. block_reason (?b a) = blockReasonCooldown)"
    using blocked by (auto simp: cooldown_count_def Let_def length_filter_all)
  show ?thesis
  proof (cases "?ts = []")
    case True
    with ts fut err blocked show ?thesis by fastforce
  next
    case False
    then obtain a where a: "a \<in> set auths" "M = block_until (?b a)" "now < M" using M ts by blast
    show ?thesis
    proof (cases "cooldown_count auths model now = length auths")
      case True
      then have all: "\<forall>a \<in> set auths. block_reason (?b a) = blockReasonCooldown" using cool by simp
      have "M \<le> block_until (?b c)" if c: "c \<in> set auths" for c
        using M [OF False] ts cooldown_future [OF assms(1)] all c by fastforce
      with True False a all blocked show ?thesis by (auto simp: err)
    next
      case neg: False
      with False a blocked show ?thesis by (auto simp: err)
    qed
  qed
qed

definition cooling :: "string \<Rightarrow> time \<Rightarrow> Auth" where
  "cooling auth_id until = (new_auth auth_id ''codex'')\<lparr>auth_Unavailable := True, auth_NextRetryAfter := until,
     auth_Quota := no_quota\<lparr>qs_Exceeded := True, qs_NextRecoverAt := until\<rparr>\<rparr>"

theorem getAvailableAuths_errors_witness:
  "getAvailableAuthsWithPriorityMode [cooling ''a'' 30, cooling ''b'' 20] ''mixed'' ''m'' 5 False
      = Inl (ModelCooldown ''m'' [] 15)
    \<and> (\<exists>a \<in> set [cooling ''a'' 30, cooling ''b'' 20]. block_until (isAuthBlockedForModel a ''m'' 5) = 5 + 15)"
proof -
  have v: "getAvailableAuthsWithPriorityMode [cooling ''a'' 30, cooling ''b'' 20] ''mixed'' ''m'' 5 False
      = Inl (ModelCooldown ''m'' [] 15)" by code_simp
  from getAvailableAuths_errors [OF _ _ v] v show ?thesis by simp
qed

section \<open>Every selector picks a candidate\<close>

definition top_step :: "Auth \<Rightarrow> int \<times> nat \<Rightarrow> int \<times> nat" where
  "top_step auth = (\<lambda>(best, count).
     let priority = authPriority auth
     in if count = 0 \<or> priority > best then (priority, 1)
        else if priority = best then (best, count + 1) else (best, count))"

lemma top_fold:
  "0 < c \<Longrightarrow> fold top_step as (b, c) =
     (let m = Max (insert b (authPriority ` set as))
      in (m, (if m = b then c else 0) + length (filter (\<lambda>a. authPriority a = m) as)))"
proof (induction as arbitrary: b c)
  case (Cons a as)
  let ?p = "authPriority a" and ?m = "Max (insert (max b (authPriority a)) (authPriority ` set as))"
  have m: "Max (insert b (authPriority ` set (a # as))) = ?m"
    by (cases "as = []") (simp_all add: max.assoc max.left_commute max.commute)
  have le: "max b ?p \<le> ?m" by (rule Max_ge) simp_all
  consider "?p > b" | "?p = b" | "?p < b" by linarith
  then show ?case
  proof cases
    case 1
    then have "?m \<noteq> b" using le by linarith
    with 1 Cons show ?thesis unfolding m by (simp add: top_step_def Let_def max_def)
  next
    case 2
    with Cons show ?thesis unfolding m by (simp add: top_step_def Let_def)
  next
    case 3
    then have "?m \<noteq> ?p" using le by linarith
    with 3 Cons show ?thesis unfolding m by (simp add: top_step_def Let_def max_def)
  qed
qed simp

lemma highestPriority_top: "highestPriorityAuths auths = top_tier auths"
proof (cases auths)
  case Nil
  then show ?thesis by (simp add: highestPriorityAuths_def top_tier_def)
next
  case (Cons a as)
  let ?m = "Max (authPriority ` set auths)"
  have step: "(\<lambda>auth (best, count).
        let priority = authPriority auth
        in if count = 0 \<or> priority > best then (priority, 1)
           else if priority = best then (best, count + 1) else (best, count)) = top_step"
    by (intro ext) (simp add: top_step_def)
  define F where "F = filter (\<lambda>a. authPriority a = ?m) auths"
  have "fold top_step auths (0, 0) = (?m, length F)"
    unfolding F_def by (simp add: Cons top_fold top_step_def [of a] Let_def)
  moreover have "F = auths" if "length F = length auths"
    using that unfolding F_def by (simp only: length_filter_all filter_id_conv)
  moreover have "F = auths" if "length auths \<le> 1"
    using that by (simp add: F_def Cons)
  ultimately show ?thesis
    unfolding highestPriorityAuths_def step top_tier_def F_def [symmetric]
    by (auto simp: Let_def F_def [symmetric])
qed

text \<open>What a selector chooses from.\<close>

definition selectable :: "pick_context \<Rightarrow> string \<Rightarrow> time \<Rightarrow> Auth list \<Rightarrow> Auth list" where
  "selectable ctx model now auths =
     top_tier (if cx_prevalidated ctx then auths else ready_auths auths model now)"

lemma selector_available:
  assumes "getSelectorAvailableAuthsWithPriorityMode ctx auths provider model now False = Inr xs" and "0 \<le> now"
  shows "xs \<noteq> [] \<and> set xs = set (selectable ctx model now auths)"
    and "distinct (List.map auth_ID auths) \<Longrightarrow> \<forall>a \<in> set auths. auth_ID a \<noteq> [] \<Longrightarrow>
      cx_prevalidated ctx \<longrightarrow> sorted (List.map auth_ID auths) \<Longrightarrow> ring_sorted auth_ID xs"
proof -
  have ne: "auths \<noteq> []"
    using assms(1) by (auto simp: getSelectorAvailableAuthsWithPriorityMode_def getAvailableAuthsWithPriorityMode_def)
  have xs: "xs = (if cx_prevalidated ctx then top_tier auths
      else sort_key auth_ID (top_tier (ready_auths auths model now)))"
    and r: "\<not> cx_prevalidated ctx \<longrightarrow> ready_auths auths model now \<noteq> []"
    using assms(1) ne getAvailable_cases [OF assms(2) ne, of provider model]
    by (auto simp: getSelectorAvailableAuthsWithPriorityMode_def highestPriority_top Let_def split: if_splits)
  have tt: "as \<noteq> [] \<Longrightarrow> top_tier as \<noteq> []" for as
  proof -
    assume "as \<noteq> []"
    then have "Max (authPriority ` set as) \<in> authPriority ` set as" by simp
    then show "top_tier as \<noteq> []" by (auto simp: top_tier_def filter_empty_conv)
  qed
  have "set xs = set (selectable ctx model now auths)"
    by (simp add: xs selectable_def)
  with tt [OF ne] tt [of "ready_auths auths model now"] r
  show "xs \<noteq> [] \<and> set xs = set (selectable ctx model now auths)"
    by (auto simp: selectable_def split: if_splits)
  assume d: "distinct (List.map auth_ID auths)" and n: "\<forall>a \<in> set auths. auth_ID a \<noteq> []"
    and s: "cx_prevalidated ctx \<longrightarrow> sorted (List.map auth_ID auths)"
  have "distinct (List.map auth_ID (top_tier as))" if "distinct (List.map auth_ID as)" for as
    using that by (simp add: top_tier_def distinct_map_filter)
  moreover have "distinct (List.map auth_ID (ready_auths auths model now))"
    using d by (simp add: ready_auths_def distinct_map_filter)
  ultimately have "distinct (List.map auth_ID xs)" using d xs by (auto simp: distinct_map)
  moreover have "sorted (List.map auth_ID xs)"
    using s xs by (auto simp: top_tier_def sorted_filter)
  moreover have "set xs \<subseteq> set auths" by (auto simp: xs top_tier_def ready_auths_def)
  ultimately show "ring_sorted auth_ID xs"
    using n by (auto simp: ring_sorted_def strict_sorted_iff)
qed

lemma prefer_subset:
  "xs \<noteq> [] \<Longrightarrow> preferCodexWebsocketAuths ctx provider xs \<noteq> []
    \<and> set (preferCodexWebsocketAuths ctx provider xs) \<subseteq> set xs"
  by (auto simp: preferCodexWebsocketAuths_def Let_def)

lemma prefer_filter: "\<exists>P. preferCodexWebsocketAuths ctx provider xs = filter P xs"
  by (auto simp: preferCodexWebsocketAuths_def Let_def intro: exI [of _ "\<lambda>_. True"])

lemma prefer_sorted: "ring_sorted auth_ID xs \<Longrightarrow> ring_sorted auth_ID (preferCodexWebsocketAuths ctx provider xs)"
  using prefer_filter ring_sorted_filter by metis

interpretation rr: rotation auth_ID successorIndex
  by unfold_locales (simp add: successorIndex_def search_successor)

interpretation wr: weighted_candidates auth_ID authWeight "\<lambda>_. True"
  by unfold_locales (simp add: authWeight_range)

lemma successorIndex_less: "xs \<noteq> [] \<Longrightarrow> successorIndex xs l < length xs"
  by (auto simp: successorIndex_def Let_def)

text \<open>
  Whatever its state, the round-robin selector and the fill-first selector only return a
  credential of the highest priority among those that are available for the model.
\<close>

theorem selectors_pick_available:
  assumes "0 \<le> now"
  shows "(snd (RoundRobin_Pick s ctx provider model now auths) = Inr a \<longrightarrow>
            a \<in> set (selectable ctx model now auths))
    \<and> (FillFirst_Pick ctx provider model now auths = Inr a \<longrightarrow> a \<in> set (selectable ctx model now auths))"
proof -
  have "getSelectorAvailableAuthsWithPriorityMode ctx auths provider model now False = Inr xs \<Longrightarrow>
      i < length (preferCodexWebsocketAuths ctx provider xs) \<Longrightarrow>
      preferCodexWebsocketAuths ctx provider xs ! i \<in> set (selectable ctx model now auths)" for xs i
    using selector_available(1) [OF _ assms] prefer_subset nth_mem by blast
  moreover have "getSelectorAvailableAuthsWithPriorityMode ctx auths provider model now False = Inr xs \<Longrightarrow>
      0 < length (preferCodexWebsocketAuths ctx provider xs)" for xs
    using selector_available(1) [OF _ assms] prefer_subset by blast
  ultimately show ?thesis
    by (auto simp: RoundRobin_Pick_def FillFirst_Pick_def Let_def successorIndex_less split: sum.splits)
qed

theorem selectors_pick_available_witness:
  "let ctx = \<lparr>cx_prevalidated = False, cx_downstreamWebsocket = False, cx_routeModel = []\<rparr>
   in FillFirst_Pick ctx ''codex'' ''m'' 5 [new_auth ''b'' ''codex'', new_auth ''a'' ''codex'']
        = Inr (new_auth ''a'' ''codex'')
      \<and> new_auth ''a'' ''codex'' \<in> set (selectable ctx ''m'' 5 [new_auth ''b'' ''codex'', new_auth ''a'' ''codex''])"
proof -
  let ?ctx = "\<lparr>cx_prevalidated = False, cx_downstreamWebsocket = False, cx_routeModel = []\<rparr>"
  have v: "FillFirst_Pick ?ctx ''codex'' ''m'' 5 [new_auth ''b'' ''codex'', new_auth ''a'' ''codex'']
      = Inr (new_auth ''a'' ''codex'')" by code_simp
  with selectors_pick_available [of 5 _ ?ctx "''codex''" "''m''"
      "[new_auth ''b'' ''codex'', new_auth ''a'' ''codex'']" "new_auth ''a'' ''codex''"]
  show ?thesis by (simp add: Let_def)
qed

section \<open>Rotation and fairness\<close>

text \<open>Consecutive picks with the readings of the clock given.\<close>

fun RoundRobin_run ::
  "round_robin_state \<Rightarrow> pick_context \<Rightarrow> string \<Rightarrow> string \<Rightarrow> Auth list \<Rightarrow> time list \<Rightarrow> (pick_error + Auth) list"
where
  "RoundRobin_run s ctx provider model auths [] = []"
| "RoundRobin_run s ctx provider model auths (now # nows) =
     (let (s', r) = RoundRobin_Pick s ctx provider model now auths
      in r # RoundRobin_run s' ctx provider model auths nows)"

fun WeightedRoundRobin_run ::
  "weighted_selector_state \<Rightarrow> pick_context \<Rightarrow> string \<Rightarrow> string \<Rightarrow> Auth list \<Rightarrow> time list
   \<Rightarrow> (pick_error + Auth) list"
where
  "WeightedRoundRobin_run s ctx provider model auths [] = []"
| "WeightedRoundRobin_run s ctx provider model auths (now # nows) =
     (let (s', r) = WeightedRoundRobin_Pick s ctx provider model now auths
      in r # WeightedRoundRobin_run s' ctx provider model auths nows)"

lemma RoundRobin_Pick_ring:
  assumes "getSelectorAvailableAuthsWithPriorityMode ctx auths provider model now False = Inr xs0"
    and "ys = preferCodexWebsocketAuths ctx provider xs0" and "ys \<noteq> []"
    and "s1 = ensureRotationKey s (provider @ '':'' @ canonicalModelKey model) (key_limit (rr_maxKeys s))"
    and "l = get_or [] (rr_lastPicked s1) (provider @ '':'' @ canonicalModelKey model)"
  shows "\<exists>a. ring_pick successorIndex (\<lambda>_. True) ys l = Some a
    \<and> RoundRobin_Pick s ctx provider model now auths =
        (s1\<lparr>rr_lastPicked := AList.update (provider @ '':'' @ canonicalModelKey model) (auth_ID a)
           (rr_lastPicked s1)\<rparr>, Inr a)"
proof -
  have "ring_pick successorIndex (\<lambda>_. True) ys l = Some (ys ! successorIndex ys l)"
    using assms(3) successorIndex_less [OF assms(3), of l]
    by (simp add: ring_pick_def find_filter hd_rotate_conv_nth)
  then show ?thesis using assms by (simp add: RoundRobin_Pick_def Let_def)
qed

lemma ensure_present: "has_key (rr_lastPicked s) key \<Longrightarrow> ensureRotationKey s key limit = s"
  by (simp add: ensureRotationKey_def)

lemma RoundRobin_run_ring:
  assumes "\<forall>now \<in> set nows. getSelectorAvailableAuthsWithPriorityMode ctx auths provider model now False = Inr xs0"
    and "ys = preferCodexWebsocketAuths ctx provider xs0" and "ys \<noteq> []"
    and "s1 = ensureRotationKey s (provider @ '':'' @ canonicalModelKey model) (key_limit (rr_maxKeys s))"
    and "l = get_or [] (rr_lastPicked s1) (provider @ '':'' @ canonicalModelKey model)"
  shows "RoundRobin_run s ctx provider model auths nows =
    List.map (\<lambda>p. Inr (the p)) (ring_run auth_ID successorIndex (\<lambda>_. True) ys (length nows) l)"
  using assms(1,4,5)
proof (induction nows arbitrary: s s1 l)
  case (Cons now nows)
  let ?key = "provider @ '':'' @ canonicalModelKey model"
  have now: "getSelectorAvailableAuthsWithPriorityMode ctx auths provider model now False = Inr xs0"
    using Cons.prems(1) by simp
  obtain a where a: "ring_pick successorIndex (\<lambda>_. True) ys l = Some a"
    and pick: "RoundRobin_Pick s ctx provider model now auths =
        (s1\<lparr>rr_lastPicked := AList.update ?key (auth_ID a) (rr_lastPicked s1)\<rparr>, Inr a)"
    using RoundRobin_Pick_ring [OF now assms(2,3) Cons.prems(2,3)] by blast
  let ?s' = "s1\<lparr>rr_lastPicked := AList.update ?key (auth_ID a) (rr_lastPicked s1)\<rparr>"
  have "ensureRotationKey ?s' ?key (key_limit (rr_maxKeys ?s')) = ?s'"
    by (rule ensure_present) simp
  with Cons.IH [of ?s' ?s' "auth_ID a"] Cons.prems(1) show ?case
    by (simp add: pick a)
qed simp

text \<open>
  C26: Round-robin starves nobody: while the available candidates stay the same, as many consecutive
  picks as there are candidates serve each of them exactly once, whatever was picked before and even
  when the rotation memory is reset in between.
\<close>

theorem RoundRobin_fair:
  assumes "distinct (List.map auth_ID auths)" and "\<forall>a \<in> set auths. auth_ID a \<noteq> []"
    and "cx_prevalidated ctx \<longrightarrow> sorted (List.map auth_ID auths)" and "\<forall>now \<in> set nows. 0 \<le> now"
    and "\<forall>now \<in> set nows. getSelectorAvailableAuthsWithPriorityMode ctx auths provider model now False = Inr xs"
    and "length nows = length (preferCodexWebsocketAuths ctx provider xs)"
    and "a \<in> set (preferCodexWebsocketAuths ctx provider xs)"
  shows "count_list (RoundRobin_run s ctx provider model auths nows) (Inr a) = 1"
proof -
  define ys where "ys = preferCodexWebsocketAuths ctx provider xs"
  have ne: "ys \<noteq> []" using assms(7) by (auto simp: ys_def)
  then obtain now where now: "now \<in> set nows" using assms(6) by (cases nows) (auto simp: ys_def)
  then have "ring_sorted auth_ID xs"
    using selector_available(2) [of ctx auths provider model now xs] assms(1-5) by blast
  then have srt: "ring_sorted auth_ID ys" unfolding ys_def by (rule prefer_sorted)
  define l where "l = get_or [] (rr_lastPicked (ensureRotationKey s (provider @ '':'' @ canonicalModelKey model)
      (key_limit (rr_maxKeys s)))) (provider @ '':'' @ canonicalModelKey model)"
  have "RoundRobin_run s ctx provider model auths nows =
      List.map (\<lambda>p. Inr (the p)) (ring_run auth_ID successorIndex (\<lambda>_. True) ys (length ys) l)"
    using RoundRobin_run_ring [OF assms(5) ys_def ne refl l_def] assms(6) by (simp add: ys_def)
  also have "\<dots> = List.map Inr (rotate (passed auth_ID ys l) ys)"
    using rr.ring_round [OF srt, of "\<lambda>_. True" l] by (simp add: comp_def)
  finally have run: "RoundRobin_run s ctx provider model auths nows =
      List.map Inr (rotate (passed auth_ID ys l) ys)" .
  have "distinct ys" using srt by (auto simp: ring_sorted_def strict_sorted_iff distinct_map)
  then show ?thesis using assms(7)
    by (simp add: run ys_def [symmetric] count_distinct inj_def distinct_map)
qed

definition plain_context :: pick_context where
  "plain_context = \<lparr>cx_prevalidated = False, cx_downstreamWebsocket = False, cx_routeModel = []\<rparr>"

theorem RoundRobin_fair_witness:
  "count_list (RoundRobin_run \<lparr>rr_lastPicked = [(''codex:m'', ''a'')], rr_maxKeys = 0\<rparr> plain_context ''codex'' ''m''
      [new_auth ''b'' ''codex'', new_auth ''a'' ''codex''] [5, 6]) (Inr (new_auth ''b'' ''codex'')) = 1"
  by (rule RoundRobin_fair [where xs = "[new_auth ''a'' ''codex'', new_auth ''b'' ''codex'']"])
    code_simp+

lemma positive_admitted:
  assumes "set xs \<subseteq> set (positiveWeightAuths auths)"
  shows "admitted authWeight (\<lambda>_. True) xs = xs"
  using assms by (auto simp: admitted_def positiveWeightAuths_def filter_id_conv)

lemma selectable_subset: "set (selectable ctx model now auths) \<subseteq> set auths"
  by (auto simp: selectable_def top_tier_def ready_auths_def)

lemma Weighted_Pick_step:
  assumes "getSelectorAvailableAuthsWithPriorityMode ctx (positiveWeightAuths auths) provider model now False = Inr xs0"
    and "ys = preferCodexWebsocketAuths ctx provider xs0"
    and "key = provider @ '':'' @ canonicalModelKey (weightedSelectorStateModel ctx model)"
    and "weighted_step auth_ID authWeight (\<lambda>_. True) ys st = (st', Some a)"
    and "get_or empty_smooth (if \<not> has_key (wr_states s) key \<and> int (length (wr_states s)) \<ge> key_limit (wr_maxKeys s)
      then [] else wr_states s) key = st"
  shows "snd (WeightedRoundRobin_Pick s ctx provider model now auths) = Inr a
    \<and> map_of (wr_states (fst (WeightedRoundRobin_Pick s ctx provider model now auths))) key = Some st'"
  using assms
  by (auto simp: WeightedRoundRobin_Pick_def weighted_step_def authWeightVector_def pickSmoothWeightedAuth_def
      Let_def split: prod.splits)

lemma WeightedRoundRobin_run_weighted:
  assumes "\<forall>now \<in> set nows.
      getSelectorAvailableAuthsWithPriorityMode ctx (positiveWeightAuths auths) provider model now False = Inr xs0"
    and "ys = preferCodexWebsocketAuths ctx provider xs0"
    and "key = provider @ '':'' @ canonicalModelKey (weightedSelectorStateModel ctx model)"
    and "None \<notin> set (snd (weighted_run auth_ID authWeight (\<lambda>_. True) ys (length nows) st))"
    and "get_or empty_smooth (if \<not> has_key (wr_states s) key \<and> int (length (wr_states s)) \<ge> key_limit (wr_maxKeys s)
      then [] else wr_states s) key = st"
  shows "WeightedRoundRobin_run s ctx provider model auths nows =
    List.map (\<lambda>p. Inr (the p)) (snd (weighted_run auth_ID authWeight (\<lambda>_. True) ys (length nows) st))"
  using assms(1,4,5)
proof (induction nows arbitrary: s st)
  case (Cons now nows)
  obtain st' p where step: "weighted_step auth_ID authWeight (\<lambda>_. True) ys st = (st', p)" by force
  obtain a where p: "p = Some a" using Cons.prems(2) step by (cases p) (auto split: prod.splits)
  obtain s' r where pick: "WeightedRoundRobin_Pick s ctx provider model now auths = (s', r)" by force
  have now: "getSelectorAvailableAuthsWithPriorityMode ctx (positiveWeightAuths auths) provider model now False = Inr xs0"
    using Cons.prems(1) by simp
  from Weighted_Pick_step [OF now assms(2,3) step [unfolded p] Cons.prems(3)]
  have r: "r = Inr a" and st': "map_of (wr_states s') key = Some st'" by (simp_all add: pick)
  have "WeightedRoundRobin_run s' ctx provider model auths nows =
      List.map (\<lambda>p. Inr (the p)) (snd (weighted_run auth_ID authWeight (\<lambda>_. True) ys (length nows) st'))"
    by (rule Cons.IH)
      (use Cons.prems step st' in \<open>auto simp: has_key_def get_or_def split: prod.splits\<close>)
  then show ?case by (simp add: pick r step p split: prod.splits)
qed simp

text \<open>
  C25: Weighted round-robin is exactly fair: from a fresh state, while the available candidates stay
  the same, as many consecutive picks as the weights add up to serve every candidate exactly as often
  as its weight says.
\<close>

theorem WeightedRoundRobin_fair:
  assumes "distinct (List.map auth_ID auths)" and "\<forall>a \<in> set auths. auth_ID a \<noteq> []"
    and "cx_prevalidated ctx \<longrightarrow> sorted (List.map auth_ID auths)" and "\<forall>now \<in> set nows. 0 \<le> now"
    and "\<forall>now \<in> set nows.
      getSelectorAvailableAuthsWithPriorityMode ctx (positiveWeightAuths auths) provider model now False = Inr xs"
    and "ys = preferCodexWebsocketAuths ctx provider xs" and "a \<in> set ys" and "length ys \<le> 1000000"
    and "length nows = nat (sum_list (List.map authWeight ys))"
    and "\<not> has_key (wr_states s) (provider @ '':'' @ canonicalModelKey (weightedSelectorStateModel ctx model))"
    and "nows \<noteq> []"
  shows "count_list (WeightedRoundRobin_run s ctx provider model auths nows) (Inr a) = nat (authWeight a)"
proof -
  let ?P = "positiveWeightAuths auths"
  obtain now where now: "now \<in> set nows" using assms(11) by (cases nows) auto
  have sel: "getSelectorAvailableAuthsWithPriorityMode ctx ?P provider model now False = Inr xs" "0 \<le> now"
    using now assms(4,5) by auto
  have "ring_sorted auth_ID xs"
    using selector_available(2) [OF sel] assms(1-3)
    by (auto simp: positiveWeightAuths_def distinct_map_filter sorted_filter)
  then have "ring_sorted auth_ID ys" unfolding assms(6) by (rule prefer_sorted)
  then have dist: "distinct (List.map auth_ID ys)" by (auto simp: ring_sorted_def strict_sorted_iff)
  have "set ys \<subseteq> set xs" unfolding assms(6) using selector_available(1) [OF sel] prefer_subset by blast
  also have "set xs \<subseteq> set ?P" using selector_available(1) [OF sel] selectable_subset by blast
  finally have adm: "admitted authWeight (\<lambda>_. True) ys = ys" by (rule positive_admitted)
  have W: "pool_weight authWeight (\<lambda>_. True) ys = sum_list (List.map authWeight ys)"
    by (simp add: pool_weight_def adm)
  have "ys \<noteq> []" using assms(7) by auto
  then have "set (snd (weighted_run auth_ID authWeight (\<lambda>_. True) ys (length nows) empty_smooth)) \<subseteq> Some ` set ys"
    using wr.weighted_run_picks [OF dist _ assms(8), of "\<lambda>_. True" "length nows"] adm by simp
  then have run: "None \<notin> set (snd (weighted_run auth_ID authWeight (\<lambda>_. True) ys (length nows) empty_smooth))"
    by blast
  define ps where "ps = snd (weighted_run auth_ID authWeight (\<lambda>_. True) ys (length nows) empty_smooth)"
  have "WeightedRoundRobin_run s ctx provider model auths nows = List.map (\<lambda>p. Inr (the p)) ps"
    unfolding ps_def
    by (rule WeightedRoundRobin_run_weighted [OF assms(5,6) refl run])
      (use assms(10) in \<open>simp add: get_or_def has_key_def\<close>)
  moreover have "count_list (List.map (\<lambda>p. Inr (the p) :: pick_error + Auth) ps) (Inr a) = count_list ps (Some a)"
    if "None \<notin> set ps" for ps
    using that by (induction ps) auto
  moreover have "count_list ps (Some a) = nat (authWeight a)"
    unfolding ps_def assms(9) W [symmetric]
    by (rule wr.weighted_run_fair [OF dist _ assms(8)]) (use assms(7) adm in auto)
  ultimately show ?thesis using run by (simp add: ps_def)
qed

theorem WeightedRoundRobin_fair_witness:
  "let h = (new_auth ''h'' ''codex'')\<lparr>auth_Attributes := [(''weight'', ''2'')]\<rparr>
   in count_list (WeightedRoundRobin_run \<lparr>wr_states = [], wr_maxKeys = 0\<rparr> plain_context ''codex'' ''m''
        [h, new_auth ''a'' ''codex''] [5, 6, 7]) (Inr h) = nat (authWeight h) \<and> authWeight h = 2"
  unfolding Let_def
proof
  show "count_list (WeightedRoundRobin_run \<lparr>wr_states = [], wr_maxKeys = 0\<rparr> plain_context ''codex'' ''m''
        [(new_auth ''h'' ''codex'')\<lparr>auth_Attributes := [(''weight'', ''2'')]\<rparr>, new_auth ''a'' ''codex''] [5, 6, 7])
        (Inr ((new_auth ''h'' ''codex'')\<lparr>auth_Attributes := [(''weight'', ''2'')]\<rparr>))
      = nat (authWeight ((new_auth ''h'' ''codex'')\<lparr>auth_Attributes := [(''weight'', ''2'')]\<rparr>))"
    by (rule WeightedRoundRobin_fair [where
          xs = "[new_auth ''a'' ''codex'', (new_auth ''h'' ''codex'')\<lparr>auth_Attributes := [(''weight'', ''2'')]\<rparr>]"
          and ys = "[new_auth ''a'' ''codex'', (new_auth ''h'' ''codex'')\<lparr>auth_Attributes := [(''weight'', ''2'')]\<rparr>]"])
      (code_simp, code_simp, code_simp, code_simp, code_simp, code_simp, code_simp, simp, code_simp+)
qed code_simp

end
