(* ===== verification/Shard.thy ===== *)
theory Shard
  imports Selectors
begin

text \<open>
  The model shards of the scheduler (\<open>modelScheduler\<close> of \<open>sdk/cliproxy/auth/scheduler.go\<close>):
  the entries of one provider and model, the ready views by priority with their rotation cursors, and
  the queue of blocked entries. A pointer to a scheduled entry is the ID under which the entry map holds
  it: views and queue list IDs, and updating an entry is visible through all of them, as in the code.
  An entry's \<open>auth\<close> is always its metadata's, so it is read from there.
\<close>

section \<open>Data\<close>

datatype schedulerStrategy =
  schedulerStrategyCustom | schedulerStrategyRoundRobin | schedulerStrategyFillFirst
  | schedulerStrategyWeightedRoundRobin

datatype scheduledState =
  scheduledStateReady | scheduledStateCooldown | scheduledStateBlocked | scheduledStateDisabled

record scheduledAuthMeta =
  sm_auth :: Auth
  sm_providerKey :: string
  sm_priority :: int
  sm_weight :: int
  sm_websocketEnabled :: bool
  sm_supportedModelSet :: "string list option"
  sm_registryEpoch :: u64

record scheduledAuth =
  sa_meta :: scheduledAuthMeta
  sa_state :: scheduledState
  sa_nextRetryAt :: time

record readyView =
  rv_flat :: "string list"
  rv_lastPicked :: string
  rv_weightedState :: smooth_state

record readyBucket =
  rk_all :: readyView
  rk_ws :: readyView

record modelScheduler =
  mo_modelKey :: string
  mo_entries :: "(string, scheduledAuth) gomap"
  mo_priorityOrder :: "int list"
  mo_readyByPriority :: "(int, readyBucket) gomap"
  mo_blocked :: "string list"

definition sa_auth :: "scheduledAuth \<Rightarrow> Auth" where "sa_auth e = sm_auth (sa_meta e)"
definition entry_id :: "scheduledAuth \<Rightarrow> string" where "entry_id e = auth_ID (sa_auth e)"
definition entry_weight :: "scheduledAuth \<Rightarrow> int" where "entry_weight e = sm_weight (sa_meta e)"

definition resolve :: "(string, scheduledAuth) gomap \<Rightarrow> string list \<Rightarrow> scheduledAuth list" where
  "resolve entries ids = List.map_filter (map_of entries) ids"

text \<open>
  The order of the blocked queue: entries without a retry time come last, equal times by ID. It is
  the order of a type of its own, so that the sorting functions of the library apply.
\<close>

datatype retry_key = RetryKey time string

instantiation retry_key :: linorder
begin

fun less_eq_retry_key :: "retry_key \<Rightarrow> retry_key \<Rightarrow> bool" where
  "less_eq_retry_key (RetryKey t a) (RetryKey u b) =
     (if t = u then a \<le> b else if t = zero_time then False else if u = zero_time then True else t < u)"

definition less_retry_key :: "retry_key \<Rightarrow> retry_key \<Rightarrow> bool" where
  "less_retry_key x y = (x \<le> y \<and> \<not> y \<le> (x :: retry_key))"

instance
proof
  fix x y z :: retry_key
  show "x < y \<longleftrightarrow> x \<le> y \<and> \<not> y \<le> x" by (rule less_retry_key_def)
  show "x \<le> x" by (cases x) simp
  show "x \<le> y \<Longrightarrow> y \<le> z \<Longrightarrow> x \<le> z"
    by (cases x; cases y; cases z) (auto split: if_splits)
  show "x \<le> y \<Longrightarrow> y \<le> x \<Longrightarrow> x = y" by (cases x; cases y) (auto split: if_splits)
  show "x \<le> y \<or> y \<le> x" by (cases x; cases y) auto
qed

end

section \<open>Views\<close>

definition scheduledWeightVectorMatching ::
  "(scheduledAuth \<Rightarrow> bool) \<Rightarrow> scheduledAuth list \<Rightarrow> (string, int) gomap"
where
  "scheduledWeightVectorMatching predicate es = weight_vector entry_id entry_weight predicate es"

definition pickSmoothWeightedScheduled ::
  "(scheduledAuth \<Rightarrow> bool) \<Rightarrow> scheduledAuth list \<Rightarrow> (string, int) gomap
   \<Rightarrow> (string, int) gomap \<times> scheduledAuth option"
where
  "pickSmoothWeightedScheduled predicate es current = smooth_pick entry_id entry_weight predicate es current"

definition buildReadyView :: "string list \<Rightarrow> readyView" where
  "buildReadyView ids = \<lparr>rv_flat = ids, rv_lastPicked = [], rv_weightedState = empty_smooth\<rparr>"

definition buildReadyBucket :: "(string, scheduledAuth) gomap \<Rightarrow> string list \<Rightarrow> readyBucket" where
  "buildReadyBucket entries ids =
     \<lparr>rk_all = buildReadyView ids,
      rk_ws = buildReadyView (filter (\<lambda>i. case map_of entries i of
          Some e \<Rightarrow> sm_websocketEnabled (sa_meta e) | None \<Rightarrow> False) ids)\<rparr>"

text \<open>The cursors of a view survive a rebuild as far as the candidates and their weights do.\<close>

definition restoreReadyViewCursors ::
  "(string, scheduledAuth) gomap \<Rightarrow> readyView \<Rightarrow> readyView \<Rightarrow> readyView"
where
  "restoreReadyViewCursors entries view old =
     (let view1 = view\<lparr>rv_lastPicked := rv_lastPicked old\<rparr>;
          weights = scheduledWeightVectorMatching (\<lambda>_. True) (resolve entries (rv_flat view));
          state = rv_weightedState old
      in if sw_current state = [] \<or> weightsConfigChanged (sw_weights state) weights then view1
         else view1\<lparr>rv_weightedState :=
           \<lparr>sw_current = fold (\<lambda>i m. case map_of (sw_current state) i of
                Some v \<Rightarrow> AList.update i v m | None \<Rightarrow> m) (rv_flat view) [],
            sw_weights = weights\<rparr>\<rparr>)"

definition pickFirst :: "(scheduledAuth \<Rightarrow> bool) \<Rightarrow> scheduledAuth list \<Rightarrow> scheduledAuth option" where
  "pickFirst predicate es = List.find predicate es"

definition scheduledSuccessorIndex :: "scheduledAuth list \<Rightarrow> string \<Rightarrow> nat" where
  "scheduledSuccessorIndex es lastID =
     (if lastID = [] then 0
      else let index = sort_search (length es) (\<lambda>i. entry_id (es ! i) > lastID)
        in if index \<ge> length es then 0 else index)"

definition pickRoundRobin ::
  "(scheduledAuth \<Rightarrow> bool) \<Rightarrow> scheduledAuth list \<Rightarrow> readyView \<Rightarrow> readyView \<times> scheduledAuth option"
where
  "pickRoundRobin predicate es view =
     (case ring_pick scheduledSuccessorIndex predicate es (rv_lastPicked view) of
        None \<Rightarrow> (view, None)
      | Some e \<Rightarrow> (view\<lparr>rv_lastPicked := entry_id e\<rparr>, Some e))"

definition pickWeighted ::
  "(scheduledAuth \<Rightarrow> bool) \<Rightarrow> scheduledAuth list \<Rightarrow> readyView \<Rightarrow> readyView \<times> scheduledAuth option"
where
  "pickWeighted predicate es view =
     (if es = [] then (view, None)
      else let st = prepare (rv_weightedState view) (scheduledWeightVectorMatching predicate es);
               (current, picked) = pickSmoothWeightedScheduled predicate es (sw_current st)
        in (view\<lparr>rv_weightedState := st\<lparr>sw_current := current\<rparr>\<rparr>, picked))"

section \<open>Rebuilding the indexes\<close>

definition retry_key_of :: "(string, scheduledAuth) gomap \<Rightarrow> string \<Rightarrow> retry_key" where
  "retry_key_of entries i = RetryKey (case map_of entries i of Some e \<Rightarrow> sa_nextRetryAt e | None \<Rightarrow> zero_time) i"

definition ready_ids :: "(string, scheduledAuth) gomap \<Rightarrow> int \<Rightarrow> string list" where
  "ready_ids entries priority = List.map fst (filter (\<lambda>(_, e).
     sa_state e = scheduledStateReady \<and> sm_priority (sa_meta e) = priority) entries)"

definition ready_priorities :: "(string, scheduledAuth) gomap \<Rightarrow> int list" where
  "ready_priorities entries = remdups (List.map (\<lambda>(_, e). sm_priority (sa_meta e))
     (filter (\<lambda>(_, e). sa_state e = scheduledStateReady) entries))"

definition waiting_ids :: "(string, scheduledAuth) gomap \<Rightarrow> string list" where
  "waiting_ids entries = List.map fst (filter (\<lambda>(_, e).
     sa_state e = scheduledStateCooldown \<or> sa_state e = scheduledStateBlocked) entries)"

definition rebuild_bucket ::
  "(string, scheduledAuth) gomap \<Rightarrow> (int, readyBucket) gomap \<Rightarrow> int \<Rightarrow> readyBucket"
where
  "rebuild_bucket entries old priority =
     (let bucket = buildReadyBucket entries (sort (ready_ids entries priority))
      in case map_of old priority of
           None \<Rightarrow> bucket
         | Some cursors \<Rightarrow>
             bucket\<lparr>rk_all := restoreReadyViewCursors entries (rk_all bucket) (rk_all cursors),
                    rk_ws := restoreReadyViewCursors entries (rk_ws bucket) (rk_ws cursors)\<rparr>)"

definition rebuildIndexesLocked :: "modelScheduler \<Rightarrow> modelScheduler" where
  "rebuildIndexesLocked m =
     (let entries = mo_entries m
      in m\<lparr>mo_readyByPriority := List.map (\<lambda>p. (p, rebuild_bucket entries (mo_readyByPriority m) p))
             (ready_priorities entries),
           mo_priorityOrder := rev (sort (ready_priorities entries)),
           mo_blocked := sort_key (retry_key_of entries) (waiting_ids entries)\<rparr>)"

section \<open>Entries\<close>

text \<open>The state an entry gets from the answer of \<open>isAuthBlockedForModel\<close>.\<close>

definition classify :: "block \<Rightarrow> scheduledState \<times> time" where
  "classify b =
     (case b of (blocked, reason, next) \<Rightarrow>
        if \<not> blocked then (scheduledStateReady, zero_time)
        else if reason = blockReasonCooldown then (scheduledStateCooldown, next)
        else if reason = blockReasonDisabled then (scheduledStateDisabled, zero_time)
        else (scheduledStateBlocked, next))"

definition reevaluate :: "string \<Rightarrow> time \<Rightarrow> scheduledAuth \<Rightarrow> scheduledAuth" where
  "reevaluate modelKey now e =
     (case classify (isAuthBlockedForModel (sa_auth e) modelKey now) of
        (state, next) \<Rightarrow> e\<lparr>sa_state := state, sa_nextRetryAt := next\<rparr>)"

definition upsertEntryLocked :: "modelScheduler \<Rightarrow> scheduledAuthMeta \<Rightarrow> time \<Rightarrow> modelScheduler" where
  "upsertEntryLocked m meta now =
     (let authID = auth_ID (sm_auth meta);
          previous = map_of (mo_entries m) authID;
          entry = reevaluate (mo_modelKey m) now
            \<lparr>sa_meta = meta, sa_state = scheduledStateReady, sa_nextRetryAt = zero_time\<rparr>;
          m' = m\<lparr>mo_entries := AList.update authID entry (mo_entries m)\<rparr>
      in case previous of
           Some old \<Rightarrow>
             if sa_state old = sa_state entry \<and> sa_nextRetryAt old = sa_nextRetryAt entry
                \<and> sm_priority (sa_meta old) = sm_priority meta
                \<and> sm_websocketEnabled (sa_meta old) = sm_websocketEnabled meta
             then m' else rebuildIndexesLocked m'
         | None \<Rightarrow> rebuildIndexesLocked m')"

definition removeEntryLocked :: "modelScheduler \<Rightarrow> string \<Rightarrow> modelScheduler" where
  "removeEntryLocked m authID =
     (if authID = [] \<or> \<not> has_key (mo_entries m) authID then m
      else rebuildIndexesLocked (m\<lparr>mo_entries := AList.delete authID (mo_entries m)\<rparr>))"

text \<open>Ready entries whose access token has expired are evaluated again.\<close>

definition demotable :: "string \<Rightarrow> time \<Rightarrow> scheduledAuth \<Rightarrow> bool" where
  "demotable modelKey now e \<longleftrightarrow> sa_state e = scheduledStateReady \<and> token_expired (sa_auth e) now
     \<and> is_blocked (isAuthBlockedForModel (sa_auth e) modelKey now)"

definition demoteExpiredTokensLocked :: "modelScheduler \<Rightarrow> time \<Rightarrow> modelScheduler \<times> bool" where
  "demoteExpiredTokensLocked m now =
     (m\<lparr>mo_entries := List.map (\<lambda>(i, e).
          (i, if demotable (mo_modelKey m) now e then reevaluate (mo_modelKey m) now e else e)) (mo_entries m)\<rparr>,
      list_ex (\<lambda>(i, e). demotable (mo_modelKey m) now e) (mo_entries m))"

text \<open>Entries of the blocked queue whose retry time has come are evaluated again.\<close>

fun promote_loop ::
  "string \<Rightarrow> time \<Rightarrow> string list \<Rightarrow> (string, scheduledAuth) gomap \<times> bool \<Rightarrow> (string, scheduledAuth) gomap \<times> bool"
where
  "promote_loop modelKey now [] acc = acc"
| "promote_loop modelKey now (i # ids) (entries, changed) =
     (case map_of entries i of
        None \<Rightarrow> promote_loop modelKey now ids (entries, changed)
      | Some e \<Rightarrow>
          if sa_nextRetryAt e = zero_time \<or> sa_nextRetryAt e > now
          then promote_loop modelKey now ids (entries, changed)
          else promote_loop modelKey now ids (AList.update i (reevaluate modelKey now e) entries, True))"

definition promoteExpiredLocked :: "modelScheduler \<Rightarrow> time \<Rightarrow> modelScheduler" where
  "promoteExpiredLocked m now =
     (let (m1, demoted) = demoteExpiredTokensLocked m now;
          (entries, changed) = promote_loop (mo_modelKey m) now (mo_blocked m) (mo_entries m1, demoted);
          m2 = m1\<lparr>mo_entries := entries\<rparr>
      in if changed then rebuildIndexesLocked m2 else m2)"

section \<open>Picking\<close>

definition view_entries :: "modelScheduler \<Rightarrow> readyView \<Rightarrow> scheduledAuth list" where
  "view_entries m view = resolve (mo_entries m) (rv_flat view)"

fun first_priority :: "(int \<Rightarrow> bool) \<Rightarrow> int list \<Rightarrow> int option" where
  "first_priority ok [] = None"
| "first_priority ok (p # ps) = (if ok p then Some p else first_priority ok ps)"

definition highestReadyPriorityLocked ::
  "modelScheduler \<Rightarrow> bool \<Rightarrow> (scheduledAuth \<Rightarrow> bool) \<Rightarrow> int option"
where
  "highestReadyPriorityLocked m preferWebsocket predicate =
     (let matching = (\<lambda>sel p. case map_of (mo_readyByPriority m) p of
            None \<Rightarrow> False
          | Some bucket \<Rightarrow> pickFirst predicate (view_entries m (sel bucket)) \<noteq> None);
          ws = (if preferWebsocket then first_priority (matching rk_ws) (mo_priorityOrder m) else None)
      in case ws of
           Some p \<Rightarrow> Some p
         | None \<Rightarrow> first_priority (matching rk_all) (mo_priorityOrder m))"

definition pick_from_view ::
  "modelScheduler \<Rightarrow> schedulerStrategy \<Rightarrow> (scheduledAuth \<Rightarrow> bool) \<Rightarrow> readyView
   \<Rightarrow> readyView \<times> scheduledAuth option"
where
  "pick_from_view m strategy predicate view =
     (case strategy of
        schedulerStrategyFillFirst \<Rightarrow> (view, pickFirst predicate (view_entries m view))
      | schedulerStrategyWeightedRoundRobin \<Rightarrow> pickWeighted predicate (view_entries m view) view
      | _ \<Rightarrow> pickRoundRobin predicate (view_entries m view) view)"

definition pickReadyAtPriorityLocked ::
  "modelScheduler \<Rightarrow> bool \<Rightarrow> int \<Rightarrow> schedulerStrategy \<Rightarrow> (scheduledAuth \<Rightarrow> bool)
   \<Rightarrow> modelScheduler \<times> scheduledAuth option"
where
  "pickReadyAtPriorityLocked m preferWebsocket priority strategy predicate =
     (case map_of (mo_readyByPriority m) priority of
        None \<Rightarrow> (m, None)
      | Some bucket \<Rightarrow>
          if preferWebsocket \<and> pickFirst predicate (view_entries m (rk_ws bucket)) \<noteq> None
          then (case pick_from_view m strategy predicate (rk_ws bucket) of
                  (view, picked) \<Rightarrow>
                    (m\<lparr>mo_readyByPriority := AList.update priority (bucket\<lparr>rk_ws := view\<rparr>) (mo_readyByPriority m)\<rparr>,
                     picked))
          else (case pick_from_view m strategy predicate (rk_all bucket) of
                  (view, picked) \<Rightarrow>
                    (m\<lparr>mo_readyByPriority := AList.update priority (bucket\<lparr>rk_all := view\<rparr>) (mo_readyByPriority m)\<rparr>,
                     picked)))"

definition pickReadyLocked ::
  "modelScheduler \<Rightarrow> bool \<Rightarrow> schedulerStrategy \<Rightarrow> (scheduledAuth \<Rightarrow> bool) \<Rightarrow> time
   \<Rightarrow> modelScheduler \<times> scheduledAuth option"
where
  "pickReadyLocked m0 preferWebsocket strategy predicate now =
     (let m = promoteExpiredLocked m0 now
      in case highestReadyPriorityLocked m preferWebsocket predicate of
           None \<Rightarrow> (m, None)
         | Some p \<Rightarrow> pickReadyAtPriorityLocked m preferWebsocket p strategy predicate)"

definition readyCountAtPriorityLocked ::
  "modelScheduler \<Rightarrow> bool \<Rightarrow> int \<Rightarrow> (scheduledAuth \<Rightarrow> bool) \<Rightarrow> nat"
where
  "readyCountAtPriorityLocked m preferWebsocket priority predicate =
     (case map_of (mo_readyByPriority m) priority of
        None \<Rightarrow> 0
      | Some bucket \<Rightarrow>
          let view = (if preferWebsocket \<and> pickFirst predicate (view_entries m (rk_ws bucket)) \<noteq> None
                      then rk_ws bucket else rk_all bucket)
          in length (filter predicate (view_entries m view)))"

section \<open>The index invariant\<close>

definition ready_at :: "(string, scheduledAuth) gomap \<Rightarrow> int \<Rightarrow> string set" where
  "ready_at entries p = {i. \<exists>e. map_of entries i = Some e \<and> sa_state e = scheduledStateReady
     \<and> sm_priority (sa_meta e) = p}"

definition waiting :: "(string, scheduledAuth) gomap \<Rightarrow> string set" where
  "waiting entries = {i. \<exists>e. map_of entries i = Some e \<and>
     (sa_state e = scheduledStateCooldown \<or> sa_state e = scheduledStateBlocked)}"

definition has_ws :: "(string, scheduledAuth) gomap \<Rightarrow> string \<Rightarrow> bool" where
  "has_ws entries i = (case map_of entries i of Some e \<Rightarrow> sm_websocketEnabled (sa_meta e) | None \<Rightarrow> False)"

definition indexed :: "modelScheduler \<Rightarrow> bool" where
  "indexed m \<longleftrightarrow>
     (let entries = mo_entries m in
      (\<forall>p. map_of (mo_readyByPriority m) p = None \<longleftrightarrow> ready_at entries p = {})
      \<and> (\<forall>p bucket. map_of (mo_readyByPriority m) p = Some bucket \<longrightarrow>
           rv_flat (rk_all bucket) = sorted_list_of_set (ready_at entries p)
           \<and> rv_flat (rk_ws bucket) = filter (has_ws entries) (sorted_list_of_set (ready_at entries p)))
      \<and> sorted_wrt (>) (mo_priorityOrder m)
      \<and> (\<forall>p. p \<in> set (mo_priorityOrder m) \<longleftrightarrow> ready_at entries p \<noteq> {})
      \<and> distinct (mo_blocked m) \<and> set (mo_blocked m) = waiting entries
      \<and> sorted (List.map (retry_key_of entries) (mo_blocked m)))"

lemma map_of_mem: "wf_map m \<Longrightarrow> map_of m k = Some v \<longleftrightarrow> (k, v) \<in> set m"
  by (simp add: wf_map_def)

lemma finite_dom_subset: "finite {i. \<exists>e. map_of m i = Some e \<and> P i e}"
  by (rule finite_subset [OF _ finite_dom_map_of [of m]]) auto

lemma finite_ready [simp]: "finite (ready_at entries p)"
  unfolding ready_at_def by (rule finite_dom_subset)

lemma set_ready_ids: "wf_map entries \<Longrightarrow> set (ready_ids entries p) = ready_at entries p"
  by (force simp: ready_ids_def ready_at_def map_of_mem)

lemma wf_distinct_keys: "wf_map m \<Longrightarrow> distinct (List.map fst (filter P m))"
  by (simp add: wf_map_def distinct_map_filter)

lemma sort_ready_ids:
  assumes "wf_map entries"
  shows "sort (ready_ids entries p) = sorted_list_of_set (ready_at entries p)"
proof -
  have "distinct (ready_ids entries p)" unfolding ready_ids_def by (rule wf_distinct_keys [OF assms])
  then show ?thesis
    by (simp add: set_ready_ids [OF assms, symmetric] sorted_list_of_set_sort_remdups distinct_remdups_id)
qed

lemma set_ready_priorities:
  "wf_map entries \<Longrightarrow> p \<in> set (ready_priorities entries) \<longleftrightarrow> ready_at entries p \<noteq> {}"
  by (force simp: ready_priorities_def ready_at_def map_of_mem)

lemma set_waiting_ids: "wf_map entries \<Longrightarrow> set (waiting_ids entries) = waiting entries"
  by (force simp: waiting_ids_def waiting_def map_of_mem)

lemma restore_flat [simp]: "rv_flat (restoreReadyViewCursors entries view old) = rv_flat view"
  by (simp add: restoreReadyViewCursors_def Let_def)

lemma rebuild_bucket_flat:
  assumes "wf_map entries"
  shows "rv_flat (rk_all (rebuild_bucket entries old p)) = sorted_list_of_set (ready_at entries p)"
    and "rv_flat (rk_ws (rebuild_bucket entries old p))
      = filter (has_ws entries) (sorted_list_of_set (ready_at entries p))"
  by (simp_all add: rebuild_bucket_def Let_def buildReadyBucket_def buildReadyView_def sort_ready_ids [OF assms]
      has_ws_def [abs_def] split: option.split)

lemma map_of_tabulate: "map_of (List.map (\<lambda>p. (p, f p)) ps) p = (if p \<in> set ps then Some (f p) else None)"
  by (induction ps) auto

lemma sorted_desc: "distinct ps \<Longrightarrow> sorted_wrt (>) (rev (sort (ps :: int list)))"
  by (simp add: sorted_wrt_rev strict_sorted_iff)

lemma rebuild_entries [simp]:
  "mo_entries (rebuildIndexesLocked m) = mo_entries m" "mo_modelKey (rebuildIndexesLocked m) = mo_modelKey m"
  by (simp_all add: rebuildIndexesLocked_def Let_def)

lemma rebuild_fields:
  "mo_readyByPriority (rebuildIndexesLocked m) =
     List.map (\<lambda>p. (p, rebuild_bucket (mo_entries m) (mo_readyByPriority m) p)) (ready_priorities (mo_entries m))"
  "mo_priorityOrder (rebuildIndexesLocked m) = rev (sort (ready_priorities (mo_entries m)))"
  "mo_blocked (rebuildIndexesLocked m) = sort_key (retry_key_of (mo_entries m)) (waiting_ids (mo_entries m))"
  by (simp_all add: rebuildIndexesLocked_def Let_def)

lemma rebuild_indexed:
  assumes "wf_map (mo_entries m)"
  shows "indexed (rebuildIndexesLocked m)"
proof -
  have "distinct (ready_priorities (mo_entries m))" by (simp add: ready_priorities_def)
  moreover have "distinct (waiting_ids (mo_entries m))"
    unfolding waiting_ids_def by (rule wf_distinct_keys [OF assms])
  ultimately show ?thesis
    unfolding indexed_def rebuild_entries Let_def rebuild_fields map_of_tabulate
    by (simp add: set_ready_priorities [OF assms] rebuild_bucket_flat [OF assms] sorted_desc
        set_waiting_ids [OF assms])
qed

text \<open>The indexes only depend on the state, the retry time, the priority and the transport.\<close>

definition shape :: "scheduledAuth \<Rightarrow> scheduledState \<times> time \<times> int \<times> bool" where
  "shape e = (sa_state e, sa_nextRetryAt e, sm_priority (sa_meta e), sm_websocketEnabled (sa_meta e))"

lemma shape_views:
  "ready_at entries p = {i. \<exists>n w. map_option shape (map_of entries i) = Some (scheduledStateReady, n, p, w)}"
  "waiting entries = {i. \<exists>s n p w. map_option shape (map_of entries i) = Some (s, n, p, w)
     \<and> (s = scheduledStateCooldown \<or> s = scheduledStateBlocked)}"
  "has_ws entries i = (case map_option shape (map_of entries i) of Some (s, n, p, w) \<Rightarrow> w | None \<Rightarrow> False)"
  "retry_key_of entries i = RetryKey
     (case map_option shape (map_of entries i) of Some (s, n, p, w) \<Rightarrow> n | None \<Rightarrow> zero_time) i"
  by (auto simp: ready_at_def waiting_def has_ws_def retry_key_of_def shape_def split: option.split)

lemma indexed_shape:
  assumes "indexed m" and shapes: "\<And>i. map_option shape (map_of entries i) = map_option shape (map_of (mo_entries m) i)"
  shows "indexed (m\<lparr>mo_entries := entries\<rparr>)"
proof -
  have "ready_at entries = ready_at (mo_entries m)" "waiting entries = waiting (mo_entries m)"
    "has_ws entries = has_ws (mo_entries m)" "retry_key_of entries = retry_key_of (mo_entries m)"
    by (simp_all add: fun_eq_iff shape_views shapes)
  then show ?thesis using assms(1) by (simp add: indexed_def Let_def)
qed

section \<open>Entries stay up to date\<close>

text \<open>An entry carries the answer of some earlier instant, and its state is the one of this instant.\<close>

definition timely :: "string \<Rightarrow> time \<Rightarrow> scheduledAuth \<Rightarrow> bool" where
  "timely key t e \<longleftrightarrow> (\<exists>t0. 0 \<le> t0 \<and> t0 \<le> t \<and>
     (sa_state e, sa_nextRetryAt e) = classify (isAuthBlockedForModel (sa_auth e) key t0))"

definition settled :: "string \<Rightarrow> time \<Rightarrow> scheduledAuth \<Rightarrow> bool" where
  "settled key t e \<longleftrightarrow>
     (sa_state e = scheduledStateReady \<longleftrightarrow> \<not> is_blocked (isAuthBlockedForModel (sa_auth e) key t))"

lemma reevaluate_simps [simp]:
  "sa_meta (reevaluate key now e) = sa_meta e" "sa_auth (reevaluate key now e) = sa_auth e"
  "entry_id (reevaluate key now e) = entry_id e"
  by (simp_all add: reevaluate_def sa_auth_def entry_id_def split: prod.split)

lemma classify_ready: "fst (classify b) = scheduledStateReady \<longleftrightarrow> \<not> is_blocked b"
  by (auto simp: classify_def is_blocked_def split: prod.splits)

lemma classify_disabled: "classify b = (scheduledStateDisabled, n) \<Longrightarrow> n = zero_time"
  by (cases b) (auto simp: classify_def split: if_splits)

lemma reevaluate_state:
  "(sa_state (reevaluate key now e), sa_nextRetryAt (reevaluate key now e)) =
     classify (isAuthBlockedForModel (sa_auth e) key now)"
  by (simp add: reevaluate_def split: prod.split)

lemma reevaluate_settled: "settled key now (reevaluate key now e)"
  using classify_ready reevaluate_state [of key now e] unfolding settled_def reevaluate_simps
  by (metis fst_conv)

lemma reevaluate_timely: "0 \<le> now \<Longrightarrow> timely key now (reevaluate key now e)"
  unfolding timely_def reevaluate_simps using reevaluate_state by blast

lemma timely_mono: "timely key t e \<Longrightarrow> t \<le> t' \<Longrightarrow> timely key t' e"
  by (auto simp: timely_def)

lemma disabled_until:
  "block_reason (isAuthBlockedForModel a m now) = blockReasonDisabled \<Longrightarrow>
   block_until (isAuthBlockedForModel a m now) = zero_time"
proof -
  have av: "block_reason (availabilityBlock u q x y now) \<noteq> blockReasonDisabled" for u q x y
    by (simp add: availabilityBlock_def Let_def)
  have "block_reason (model_states_loop k now sts mt bl r n) = blockReasonDisabled \<Longrightarrow>
      r \<noteq> blockReasonDisabled \<Longrightarrow> block_until (model_states_loop k now sts mt bl r n) = zero_time"
    for k sts mt bl r n
    using av by (induction k now sts mt bl r n rule: model_states_loop.induct)
      (auto simp: block_sel split: if_splits prod.splits, (metis fst_conv snd_conv)+)
  then show "block_reason (isAuthBlockedForModel a m now) = blockReasonDisabled \<Longrightarrow>
      block_until (isAuthBlockedForModel a m now) = zero_time"
    using av by (auto simp: isAuthBlockedForModel_def Let_def split: if_splits)
qed

text \<open>What the retry time of a timely entry says about the present.\<close>

lemma timely_blocked:
  assumes "timely key t e" and "t \<le> now" and "sa_state e \<noteq> scheduledStateReady"
    and "sa_nextRetryAt e = zero_time \<or> now < sa_nextRetryAt e"
  shows "is_blocked (isAuthBlockedForModel (sa_auth e) key now)"
proof -
  obtain t0 where t0: "0 \<le> t0" "t0 \<le> t"
    and c: "(sa_state e, sa_nextRetryAt e) = classify (isAuthBlockedForModel (sa_auth e) key t0)"
    using assms(1) by (auto simp: timely_def)
  let ?b = "isAuthBlockedForModel (sa_auth e) key t0"
  have blk: "is_blocked ?b" using classify_ready [of ?b] c assms(3) by (metis fst_conv)
  have "sa_nextRetryAt e = block_until ?b"
    using c blk disabled_until [of "sa_auth e" key t0]
    by (auto simp: classify_def block_sel split: prod.splits if_splits)
  with blocked_later [OF blk _ t0(1)] t0 assms(2,4) show ?thesis by auto
qed

lemma timely_ready:
  assumes "timely key t e" and "t \<le> now" and "sa_state e = scheduledStateReady"
    and "\<not> token_expired (sa_auth e) now"
  shows "\<not> is_blocked (isAuthBlockedForModel (sa_auth e) key now)"
proof -
  obtain t0 where t0: "0 \<le> t0" "t0 \<le> t"
    and c: "(sa_state e, sa_nextRetryAt e) = classify (isAuthBlockedForModel (sa_auth e) key t0)"
    using assms(1) by (auto simp: timely_def)
  have "\<not> is_blocked (isAuthBlockedForModel (sa_auth e) key t0)"
    using classify_ready c assms(3) by (metis fst_conv)
  then show ?thesis using unblocked_later t0 assms(2,4) by (meson order_trans)
qed

lemma token_expired_blocks: "token_expired a now \<Longrightarrow> is_blocked (isAuthBlockedForModel a m now)"
  by (simp add: isAuthBlocked_structure(1))

section \<open>The operations keep the invariant\<close>

definition shard_inv :: "string \<Rightarrow> time \<Rightarrow> modelScheduler \<Rightarrow> bool" where
  "shard_inv key t m \<longleftrightarrow> mo_modelKey m = key \<and> wf_map (mo_entries m) \<and> indexed m
     \<and> (\<forall>i e. map_of (mo_entries m) i = Some e \<longrightarrow> entry_id e = i \<and> i \<noteq> [] \<and> timely key t e)"

definition empty_shard :: "string \<Rightarrow> modelScheduler" where
  "empty_shard key = \<lparr>mo_modelKey = key, mo_entries = [], mo_priorityOrder = [], mo_readyByPriority = [],
     mo_blocked = []\<rparr>"

lemma shard_inv_empty: "shard_inv key t (empty_shard key)"
  by (simp add: shard_inv_def empty_shard_def indexed_def ready_at_def waiting_def)

lemma shard_inv_mono: "shard_inv key t m \<Longrightarrow> t \<le> t' \<Longrightarrow> shard_inv key t' m"
  unfolding shard_inv_def using timely_mono by blast

lemma shard_inv_upsert:
  assumes "shard_inv key t m" and "t \<le> now" and "0 \<le> now" and "auth_ID (sm_auth meta) \<noteq> []"
  shows "shard_inv key now (upsertEntryLocked m meta now)"
proof -
  let ?i = "auth_ID (sm_auth meta)"
  define e where "e = reevaluate key now \<lparr>sa_meta = meta, sa_state = scheduledStateReady, sa_nextRetryAt = zero_time\<rparr>"
  define m' where "m' = m\<lparr>mo_entries := AList.update ?i e (mo_entries m)\<rparr>"
  have e: "sa_meta e = meta" "entry_id e = ?i" "timely key now e"
    using assms(3) by (simp_all add: e_def reevaluate_timely) (simp add: entry_id_def sa_auth_def)
  have key: "mo_modelKey m = key" and wf: "wf_map (mo_entries m)" and ix: "indexed m"
    using assms(1) by (simp_all add: shard_inv_def)
  have entries: "map_of (mo_entries m') i = Some x \<Longrightarrow> entry_id x = i \<and> i \<noteq> [] \<and> timely key now x" for i x
    using assms(1,2,4) e by (auto simp: m'_def shard_inv_def intro: timely_mono split: if_splits)
  have wf': "wf_map (mo_entries m')" using wf by (simp add: m'_def)
  have up: "upsertEntryLocked m meta now = (case map_of (mo_entries m) ?i of
      Some old \<Rightarrow> if shape old = shape e then m' else rebuildIndexesLocked m' | None \<Rightarrow> rebuildIndexesLocked m')"
    by (simp add: upsertEntryLocked_def Let_def key e_def [symmetric] m'_def shape_def e(1) split: option.split)
  have "shard_inv key now (rebuildIndexesLocked m')"
    using key entries wf' rebuild_indexed [OF wf'] by (auto simp: shard_inv_def m'_def)
  moreover have "shard_inv key now m'" if old: "map_of (mo_entries m) ?i = Some old" "shape old = shape e" for old
  proof -
    have "indexed m'" unfolding m'_def
      by (rule indexed_shape [OF ix]) (use old in auto)
    then show ?thesis using key entries wf' by (auto simp: shard_inv_def m'_def)
  qed
  ultimately show ?thesis unfolding up by (simp split: option.split)
qed

lemma shard_inv_remove:
  assumes "shard_inv key t m"
  shows "shard_inv key t (removeEntryLocked m authID)"
proof -
  let ?m = "m\<lparr>mo_entries := AList.delete authID (mo_entries m)\<rparr>"
  have "shard_inv key t (rebuildIndexesLocked ?m)"
    using assms rebuild_indexed [of ?m] by (auto simp: shard_inv_def split: if_splits)
  with assms show ?thesis by (simp add: removeEntryLocked_def)
qed

definition renewed :: "string \<Rightarrow> time \<Rightarrow> scheduledAuth \<Rightarrow> scheduledAuth" where
  "renewed key now e =
     (if sa_nextRetryAt e = zero_time \<or> sa_nextRetryAt e > now then e else reevaluate key now e)"

lemma promote_loop_spec:
  assumes "promote_loop key now ids (entries, changed) = (entries', changed')" and "distinct ids" and "wf_map entries"
  shows "wf_map entries' \<and> (\<not> changed' \<longrightarrow> entries' = entries \<and> \<not> changed)
    \<and> (\<forall>i. map_of entries' i = (if i \<in> set ids then map_option (renewed key now) (map_of entries i) else map_of entries i))"
  using assms
proof (induction ids arbitrary: entries changed)
  case (Cons i ids)
  show ?case
  proof (cases "map_of entries i")
    case None
    with Cons show ?thesis by fastforce
  next
    case (Some e)
    show ?thesis
    proof (cases "sa_nextRetryAt e = zero_time \<or> sa_nextRetryAt e > now")
      case True
      have "promote_loop key now ids (entries, changed) = (entries', changed')"
        using Cons.prems(1) Some True by auto
      from Cons.IH [OF this] Cons.prems(2,3) Some True show ?thesis by (auto simp: renewed_def)
    next
      case False
      have "promote_loop key now ids (AList.update i (reevaluate key now e) entries, True) = (entries', changed')"
        using Cons.prems(1) Some False by simp
      from Cons.IH [OF this] Cons.prems(2,3) Some False show ?thesis
        by (auto simp: renewed_def)
    qed
  qed
qed simp

definition promoted :: "string \<Rightarrow> time \<Rightarrow> scheduledAuth \<Rightarrow> scheduledAuth" where
  "promoted key now e =
     (if sa_state e = scheduledStateReady then (if demotable key now e then reevaluate key now e else e)
      else if sa_state e = scheduledStateDisabled then e
      else renewed key now e)"

text \<open>
  Promotion renews exactly the entries that need it, and afterwards every entry says what a fresh
  evaluation would say.
\<close>

lemma promote_entries:
  assumes "shard_inv key t m"
  shows "map_of (mo_entries (promoteExpiredLocked m now)) i = map_option (promoted key now) (map_of (mo_entries m) i)"
    and "wf_map (mo_entries (promoteExpiredLocked m now))" and "mo_modelKey (promoteExpiredLocked m now) = key"
    and "indexed (promoteExpiredLocked m now)"
proof -
  have key: "mo_modelKey m = key" and wf: "wf_map (mo_entries m)" and ix: "indexed m"
    using assms by (simp_all add: shard_inv_def)
  define f where "f = (\<lambda>i::string. \<lambda>e. if demotable key now e then reevaluate key now e else e)"
  define entries1 where "entries1 = List.map (\<lambda>(i, e). (i, f i e)) (mo_entries m)"
  define demoted where "demoted = list_ex (\<lambda>(i, e). demotable key now e) (mo_entries m)"
  obtain entries2 changed where loop: "promote_loop key now (mo_blocked m) (entries1, demoted) = (entries2, changed)"
    by force
  have wf1: "wf_map entries1" unfolding entries1_def using wf by simp
  have d: "demoteExpiredTokensLocked m now = (m\<lparr>mo_entries := entries1\<rparr>, demoted)"
    unfolding demoteExpiredTokensLocked_def key entries1_def demoted_def f_def by (rule refl)
  have prom: "promoteExpiredLocked m now = (if changed then rebuildIndexesLocked (m\<lparr>mo_entries := entries2\<rparr>)
      else m\<lparr>mo_entries := entries2\<rparr>)"
    by (simp add: promoteExpiredLocked_def d key loop Let_def)
  have blk: "distinct (mo_blocked m)" "set (mo_blocked m) = waiting (mo_entries m)"
    using ix by (simp_all add: indexed_def Let_def)
  note spec = promote_loop_spec [OF loop blk(1) wf1]
  have one: "map_of entries1 i = map_option (f i) (map_of (mo_entries m) i)" for i
    unfolding entries1_def by (rule map_of_map_values)
  show "map_of (mo_entries (promoteExpiredLocked m now)) i = map_option (promoted key now) (map_of (mo_entries m) i)"
  proof (cases "map_of (mo_entries m) i")
    case None
    with spec one prom show ?thesis by simp
  next
    case (Some e)
    have "i \<in> waiting (mo_entries m) \<longleftrightarrow> sa_state e \<noteq> scheduledStateReady \<and> sa_state e \<noteq> scheduledStateDisabled"
      using Some by (cases "sa_state e") (auto simp: waiting_def)
    moreover have "f i e = e" if "sa_state e \<noteq> scheduledStateReady" using that by (simp add: f_def demotable_def)
    moreover have "map_of (mo_entries (promoteExpiredLocked m now)) i = map_of entries2 i" using prom by simp
    moreover have "map_of entries2 i = (if i \<in> waiting (mo_entries m) then Some (renewed key now (f i e)) else Some (f i e))"
      using spec one [of i] Some blk(2) by simp
    ultimately show ?thesis by (auto simp: Some promoted_def f_def)
  qed
  show "wf_map (mo_entries (promoteExpiredLocked m now))" using prom spec wf1 by auto
  show "mo_modelKey (promoteExpiredLocked m now) = key" using prom key by simp
  show "indexed (promoteExpiredLocked m now)"
  proof (cases changed)
    case True
    with prom spec rebuild_indexed [of "m\<lparr>mo_entries := entries2\<rparr>"] show ?thesis by simp
  next
    case False
    with spec have "entries2 = entries1" "\<not> demoted" by auto
    then have "entries2 = mo_entries m"
      unfolding entries1_def demoted_def by (auto simp: f_def list_ex_iff intro!: map_idI split: prod.splits)
    with ix False prom show ?thesis by simp
  qed
qed

lemma promoted_simps [simp]:
  "sa_meta (promoted key now e) = sa_meta e" "sa_auth (promoted key now e) = sa_auth e"
  "entry_id (promoted key now e) = entry_id e"
  by (simp_all add: promoted_def renewed_def)

lemma promoted_current:
  assumes "timely key t e" and "t \<le> now" and "0 \<le> now"
  shows "timely key now (promoted key now e) \<and> settled key now (promoted key now e)"
proof -
  have re: "timely key now (reevaluate key now e) \<and> settled key now (reevaluate key now e)"
    using reevaluate_timely [OF assms(3)] reevaluate_settled by blast
  have mono: "timely key now e" using assms(1,2) by (rule timely_mono)
  show ?thesis
  proof (cases "sa_state e = scheduledStateReady")
    case True
    show ?thesis
    proof (cases "demotable key now e")
      case False
      then have "\<not> token_expired (sa_auth e) now" using True token_expired_blocks by (auto simp: demotable_def)
      with timely_ready [OF assms(1,2) True] True False mono show ?thesis
        by (simp add: promoted_def settled_def)
    qed (use re True in \<open>simp add: promoted_def\<close>)
  next
    case False
    show ?thesis
    proof (cases "sa_state e = scheduledStateDisabled")
      case True
      have "sa_nextRetryAt e = zero_time"
        using assms(1) True classify_disabled unfolding timely_def by metis
      with timely_blocked [OF assms(1,2) False] True mono show ?thesis
        by (simp add: promoted_def settled_def)
    next
      case nd: False
      with timely_blocked [OF assms(1,2) False] False mono re show ?thesis
        by (auto simp: promoted_def renewed_def settled_def)
    qed
  qed
qed

lemma shard_inv_promote:
  assumes "shard_inv key t m" and "t \<le> now" and "0 \<le> now"
  shows "shard_inv key now (promoteExpiredLocked m now)
    \<and> (\<forall>i e. map_of (mo_entries (promoteExpiredLocked m now)) i = Some e \<longrightarrow> settled key now e)"
proof -
  have "entry_id (promoted key now e) = i \<and> i \<noteq> [] \<and> timely key now (promoted key now e) \<and> settled key now (promoted key now e)"
    if "map_of (mo_entries m) i = Some e" for i e
    using assms(1) that promoted_current [OF _ assms(2,3)] by (auto simp: shard_inv_def)
  then show ?thesis
    using promote_entries [OF assms(1), of now] by (fastforce simp: shard_inv_def)
qed

section \<open>Picks\<close>

interpretation sched: rotation entry_id scheduledSuccessorIndex
  by unfold_locales (simp add: scheduledSuccessorIndex_def search_successor)

interpretation schedw: weighted_candidates entry_id entry_weight "\<lambda>e. entry_weight e \<le> Max_weight"
  by unfold_locales simp

text \<open>The predicates of weighted picks only admit entries with a positive weight.\<close>

definition suits :: "schedulerStrategy \<Rightarrow> (scheduledAuth \<Rightarrow> bool) \<Rightarrow> bool" where
  "suits strategy predicate \<longleftrightarrow>
     (strategy = schedulerStrategyWeightedRoundRobin \<longrightarrow> (\<forall>e. predicate e \<longrightarrow> 0 < entry_weight e))"

lemma pick_from_view_spec:
  assumes "pick_from_view m strategy predicate view = (view', picked)" and "suits strategy predicate"
  shows "rv_flat view' = rv_flat view
    \<and> (picked = None \<longleftrightarrow> (\<forall>e \<in> set (view_entries m view). \<not> predicate e))
    \<and> (\<forall>e. picked = Some e \<longrightarrow> e \<in> set (view_entries m view) \<and> predicate e)"
proof -
  have ff: "List.find predicate es = None \<longleftrightarrow> (\<forall>e \<in> set es. \<not> predicate e)" for es
    by (auto simp: find_None_iff)
  have rr: "pickRoundRobin predicate es view = (view', picked) \<Longrightarrow> rv_flat view' = rv_flat view
      \<and> (picked = None \<longleftrightarrow> (\<forall>e \<in> set es. \<not> predicate e)) \<and> (\<forall>e. picked = Some e \<longrightarrow> e \<in> set es \<and> predicate e)" for es
    using sched.ring_pick_None [of predicate es "rv_lastPicked view"]
      sched.ring_pick_eligible [of predicate es "rv_lastPicked view"]
    by (auto simp: pickRoundRobin_def split: option.splits)
  have wrr: "rv_flat view' = rv_flat view
      \<and> (picked = None \<longleftrightarrow> (\<forall>e \<in> set es. \<not> predicate e)) \<and> (\<forall>e. picked = Some e \<longrightarrow> e \<in> set es \<and> predicate e)"
    if w: "pickWeighted predicate es view = (view', picked)" and pos: "\<forall>e. predicate e \<longrightarrow> 0 < entry_weight e" for es
  proof (cases "es = []")
    case False
    define st where "st = prepare (rv_weightedState view) (scheduledWeightVectorMatching predicate es)"
    obtain c r where pk: "smooth_pick entry_id entry_weight predicate es (sw_current st) = (c, r)" by force
    have v: "view' = view\<lparr>rv_weightedState := st\<lparr>sw_current := c\<rparr>\<rparr>" "picked = r"
      using w False pk by (simp_all add: pickWeighted_def pickSmoothWeightedScheduled_def st_def Let_def)
    have "set (admitted entry_weight predicate es) = {e \<in> set es. predicate e}"
      using pos by (auto simp: admitted_def not_le)
    with smooth_pick_mem [OF pk] v show ?thesis by (auto simp: set_empty [symmetric] simp del: set_empty)
  qed (use w in \<open>simp add: pickWeighted_def\<close>)
  show ?thesis
    using assms ff rr wrr
    by (cases strategy) (auto simp: pick_from_view_def pickFirst_def suits_def dest: find_SomeD)
qed

lemma first_priority_spec:
  "first_priority ok ps = None \<longleftrightarrow> (\<forall>p \<in> set ps. \<not> ok p)"
  "first_priority ok ps = Some p \<Longrightarrow> p \<in> set ps \<and> ok p"
  "sorted_wrt (>) ps \<Longrightarrow> first_priority ok ps = Some p \<Longrightarrow> q \<in> set ps \<Longrightarrow> ok q \<Longrightarrow> q \<le> (p :: int)"
  by (induction ps) (auto split: if_splits)

lemma set_resolve: "e \<in> set (resolve entries ids) \<longleftrightarrow> (\<exists>i \<in> set ids. map_of entries i = Some e)"
  by (auto simp: resolve_def List.map_filter_def image_iff)

lemma bucket_entries:
  assumes "indexed m" and "map_of (mo_readyByPriority m) p = Some bucket"
  shows "e \<in> set (view_entries m (rk_all bucket)) \<longleftrightarrow>
      (\<exists>i. map_of (mo_entries m) i = Some e) \<and> sa_state e = scheduledStateReady \<and> sm_priority (sa_meta e) = p"
    and "e \<in> set (view_entries m (rk_ws bucket)) \<longleftrightarrow>
      (\<exists>i. map_of (mo_entries m) i = Some e) \<and> sa_state e = scheduledStateReady \<and> sm_priority (sa_meta e) = p
      \<and> sm_websocketEnabled (sa_meta e)"
proof -
  have f: "rv_flat (rk_all bucket) = sorted_list_of_set (ready_at (mo_entries m) p)"
    "rv_flat (rk_ws bucket) = filter (has_ws (mo_entries m)) (sorted_list_of_set (ready_at (mo_entries m) p))"
    using assms by (simp_all add: indexed_def Let_def)
  show "e \<in> set (view_entries m (rk_all bucket)) \<longleftrightarrow>
      (\<exists>i. map_of (mo_entries m) i = Some e) \<and> sa_state e = scheduledStateReady \<and> sm_priority (sa_meta e) = p"
    by (simp add: view_entries_def set_resolve f) (auto simp: ready_at_def)
  show "e \<in> set (view_entries m (rk_ws bucket)) \<longleftrightarrow>
      (\<exists>i. map_of (mo_entries m) i = Some e) \<and> sa_state e = scheduledStateReady \<and> sm_priority (sa_meta e) = p
      \<and> sm_websocketEnabled (sa_meta e)"
    by (simp add: view_entries_def set_resolve f) (auto simp: ready_at_def has_ws_def)
qed

lemma indexed_cursor:
  assumes "indexed m" and "map_of (mo_readyByPriority m) p = Some bucket"
    and "rv_flat (rk_all bucket') = rv_flat (rk_all bucket)" and "rv_flat (rk_ws bucket') = rv_flat (rk_ws bucket)"
  shows "indexed (m\<lparr>mo_readyByPriority := AList.update p bucket' (mo_readyByPriority m)\<rparr>)"
proof -
  have "map_of (mo_readyByPriority m) p = None \<longleftrightarrow> ready_at (mo_entries m) p = {}"
    using assms(1) by (simp add: indexed_def Let_def)
  then have "ready_at (mo_entries m) p \<noteq> {}" using assms(2) by simp
  with assms show ?thesis by (auto simp: indexed_def Let_def)
qed

lemma pickReadyAtPriority_frame:
  assumes "pickReadyAtPriorityLocked m pw p strategy predicate = (m', picked)" and "suits strategy predicate"
  shows "mo_entries m' = mo_entries m \<and> mo_modelKey m' = mo_modelKey m \<and> (indexed m \<longrightarrow> indexed m')"
  using assms pick_from_view_spec [OF _ assms(2)]
  by (auto simp: pickReadyAtPriorityLocked_def split: option.splits if_splits prod.splits intro!: indexed_cursor)

lemma shard_inv_pick:
  assumes "shard_inv key t m" and "t \<le> now" and "0 \<le> now" and "suits strategy predicate"
    and "pickReadyLocked m pw strategy predicate now = (m', picked)"
  shows "shard_inv key now m' \<and> mo_entries m' = mo_entries (promoteExpiredLocked m now)"
proof -
  have inv: "shard_inv key now (promoteExpiredLocked m now)"
    using shard_inv_promote [OF assms(1-3)] by blast
  have "mo_entries m' = mo_entries (promoteExpiredLocked m now) \<and> mo_modelKey m' = mo_modelKey (promoteExpiredLocked m now)
      \<and> indexed m'"
    using assms(5) pickReadyAtPriority_frame [OF _ assms(4)] inv
    by (auto simp: pickReadyLocked_def Let_def shard_inv_def split: option.splits)
  with inv show ?thesis by (simp add: shard_inv_def)
qed

lemma pickReadyLocked_spec:
  assumes inv: "shard_inv key t m" and time: "t \<le> now" "0 \<le> now" and su: "suits strategy predicate"
    and pick: "pickReadyLocked m False strategy predicate now = (m', picked)"
  shows "case picked of
      None \<Rightarrow> \<forall>i e. map_of (mo_entries m') i = Some e \<longrightarrow> predicate e \<longrightarrow>
        is_blocked (isAuthBlockedForModel (sa_auth e) key now)
    | Some e \<Rightarrow> map_of (mo_entries m') (entry_id e) = Some e \<and> predicate e
        \<and> \<not> is_blocked (isAuthBlockedForModel (sa_auth e) key now)
        \<and> (\<forall>i e'. map_of (mo_entries m') i = Some e' \<longrightarrow> predicate e' \<longrightarrow>
             \<not> is_blocked (isAuthBlockedForModel (sa_auth e') key now) \<longrightarrow>
             sm_priority (sa_meta e') \<le> sm_priority (sa_meta e))"
proof -
  define m1 where "m1 = promoteExpiredLocked m now"
  have inv1: "shard_inv key now m1" and set1: "\<And>i e. map_of (mo_entries m1) i = Some e \<Longrightarrow> settled key now e"
    using shard_inv_promote [OF inv time] by (auto simp: m1_def)
  have ix: "indexed m1" and srt: "sorted_wrt (>) (mo_priorityOrder m1)"
    using inv1 by (auto simp: shard_inv_def indexed_def Let_def)
  have ents: "mo_entries m' = mo_entries m1" using shard_inv_pick [OF inv time su pick] by (simp add: m1_def)
  define ok where "ok = (\<lambda>p. case map_of (mo_readyByPriority m1) p of
      None \<Rightarrow> False | Some bucket \<Rightarrow> pickFirst predicate (view_entries m1 (rk_all bucket)) \<noteq> None)"
  have ok: "ok p \<longleftrightarrow> (\<exists>i e. map_of (mo_entries m1) i = Some e \<and> sa_state e = scheduledStateReady
      \<and> sm_priority (sa_meta e) = p \<and> predicate e)" for p
  proof (cases "map_of (mo_readyByPriority m1) p")
    case None
    then have "ready_at (mo_entries m1) p = {}" using ix by (simp add: indexed_def Let_def)
    with None show ?thesis by (auto simp: ok_def ready_at_def)
  next
    case (Some bucket)
    then show ?thesis
      using bucket_entries(1) [OF ix Some] by (auto simp: ok_def pickFirst_def find_None_iff)
  qed
  have order: "p \<in> set (mo_priorityOrder m1)" if "ok p" for p
    using that ix by (fastforce simp: ok indexed_def Let_def ready_at_def)
  have pick1: "(m', picked) = (case first_priority ok (mo_priorityOrder m1) of
      None \<Rightarrow> (m1, None) | Some p \<Rightarrow> pickReadyAtPriorityLocked m1 False p strategy predicate)"
    using pick by (simp add: pickReadyLocked_def highestReadyPriorityLocked_def m1_def [symmetric] Let_def ok_def)
  show ?thesis
  proof (cases "first_priority ok (mo_priorityOrder m1)")
    case None
    then have nok: "\<not> ok p" for p using order first_priority_spec(1) by blast
    have "is_blocked (isAuthBlockedForModel (sa_auth e) key now)"
      if "map_of (mo_entries m1) i = Some e" "predicate e" for i e
      using nok [of "sm_priority (sa_meta e)"] set1 [OF that(1)] that by (auto simp: ok settled_def)
    then show ?thesis using None pick1 ents by auto
  next
    case (Some p)
    then have okp: "ok p" and top: "\<And>q. ok q \<Longrightarrow> q \<le> p"
      using first_priority_spec(2,3) srt order by blast+
    then obtain bucket where b: "map_of (mo_readyByPriority m1) p = Some bucket"
      by (auto simp: ok_def split: option.splits)
    obtain view where v: "pick_from_view m1 strategy predicate (rk_all bucket) = (view, picked)"
      using pick1 Some b by (auto simp: pickReadyAtPriorityLocked_def split: prod.splits)
    note spec = pick_from_view_spec [OF v su]
    have "picked \<noteq> None" using okp spec bucket_entries(1) [OF ix b] by (auto simp: ok)
    then obtain e where e: "picked = Some e" by blast
    with spec bucket_entries(1) [OF ix b] obtain i where i: "map_of (mo_entries m1) i = Some e"
      "sa_state e = scheduledStateReady" "sm_priority (sa_meta e) = p" "predicate e" by auto
    with inv1 have "entry_id e = i" by (simp add: shard_inv_def)
    moreover have "sm_priority (sa_meta e') \<le> p"
      if "map_of (mo_entries m1) i = Some e'" "predicate e'"
        "\<not> is_blocked (isAuthBlockedForModel (sa_auth e') key now)" for i e'
      using top [of "sm_priority (sa_meta e')"] set1 [OF that(1)] that by (auto simp: ok settled_def)
    ultimately show ?thesis using i e set1 [OF i(1)] ents by (auto simp: settled_def)
  qed
qed

text \<open>With a preference for websocket credentials the priority may be lower, the rest holds alike.\<close>

lemma pickReadyLocked_sound:
  assumes inv: "shard_inv key t m" and time: "t \<le> now" "0 \<le> now" and su: "suits strategy predicate"
    and pick: "pickReadyLocked m pw strategy predicate now = (m', Some e)"
  shows "map_of (mo_entries m') (entry_id e) = Some e \<and> predicate e
    \<and> \<not> is_blocked (isAuthBlockedForModel (sa_auth e) key now)"
proof -
  define m1 where "m1 = promoteExpiredLocked m now"
  have inv1: "shard_inv key now m1" and set1: "\<And>i e. map_of (mo_entries m1) i = Some e \<Longrightarrow> settled key now e"
    using shard_inv_promote [OF inv time] by (auto simp: m1_def)
  have ix: "indexed m1" using inv1 by (simp add: shard_inv_def)
  have ents: "mo_entries m' = mo_entries m1" using shard_inv_pick [OF inv time su pick] by (simp add: m1_def)
  obtain p where p: "pickReadyAtPriorityLocked m1 pw p strategy predicate = (m', Some e)"
    using pick by (auto simp: pickReadyLocked_def m1_def [symmetric] Let_def split: option.splits)
  then obtain bucket where b: "map_of (mo_readyByPriority m1) p = Some bucket"
    by (auto simp: pickReadyAtPriorityLocked_def split: option.splits)
  obtain view view' where v: "pick_from_view m1 strategy predicate view = (view', Some e)"
    and "view = rk_all bucket \<or> view = rk_ws bucket"
    using p b by (auto simp: pickReadyAtPriorityLocked_def split: prod.splits if_splits)
  then have "e \<in> set (view_entries m1 (rk_all bucket)) \<or> e \<in> set (view_entries m1 (rk_ws bucket))" and "predicate e"
    using pick_from_view_spec [OF v su] by auto
  then obtain i where "map_of (mo_entries m1) i = Some e" "sa_state e = scheduledStateReady"
    using bucket_entries [OF ix b] by blast
  with inv1 set1 ents \<open>predicate e\<close> show ?thesis by (auto simp: shard_inv_def settled_def)
qed

section \<open>Reachable shards\<close>

text \<open>The life of a shard: operations at instants that never go back.\<close>

inductive shard_reach :: "string \<Rightarrow> time \<Rightarrow> modelScheduler \<Rightarrow> bool" for key where
  fresh: "0 \<le> t \<Longrightarrow> shard_reach key t (empty_shard key)"
| upsert: "shard_reach key t m \<Longrightarrow> t \<le> now \<Longrightarrow> auth_ID (sm_auth meta) \<noteq> [] \<Longrightarrow>
    shard_reach key now (upsertEntryLocked m meta now)"
| remove: "shard_reach key t m \<Longrightarrow> shard_reach key t (removeEntryLocked m authID)"
| promote: "shard_reach key t m \<Longrightarrow> t \<le> now \<Longrightarrow> shard_reach key now (promoteExpiredLocked m now)"
| pick: "shard_reach key t m \<Longrightarrow> t \<le> now \<Longrightarrow> suits strategy predicate \<Longrightarrow>
    pickReadyLocked m pw strategy predicate now = (m', picked) \<Longrightarrow> shard_reach key now m'"

inductive_cases shard_reachE: "shard_reach key t m"

lemma shard_reach_inv: "shard_reach key t m \<Longrightarrow> 0 \<le> t \<and> shard_inv key t m"
proof (induction rule: shard_reach.induct)
  case (pick t m now strategy predicate pw m' picked)
  then show ?case using shard_inv_pick [of key t m now strategy predicate pw m' picked] by auto
qed (auto simp: shard_inv_empty shard_inv_upsert shard_inv_remove shard_inv_promote)


definition meta_of :: "Auth \<Rightarrow> scheduledAuthMeta" where
  "meta_of a = \<lparr>sm_auth = a, sm_providerKey = executorKeyFromAuth a, sm_priority = authPriority a,
     sm_weight = authWeight a, sm_websocketEnabled = authWebsocketsEnabled a, sm_supportedModelSet = None,
     sm_registryEpoch = 0\<rparr>"

definition example_shard :: modelScheduler where
  "example_shard = upsertEntryLocked (upsertEntryLocked (empty_shard ''m'') (meta_of (cooling ''a'' 30)) 10)
     (meta_of (new_auth ''b'' ''codex'')) 12"

lemma example_reach: "shard_reach ''m'' 12 example_shard"
  unfolding example_shard_def
  by (intro shard_reach.upsert [where t = 10] shard_reach.upsert [where t = 0] shard_reach.fresh)
    (simp_all add: meta_of_def cooling_def new_auth_def)




section \<open>Fairness of the ready views\<close>

fun view_run ::
  "(readyView \<Rightarrow> readyView \<times> scheduledAuth option) \<Rightarrow> nat \<Rightarrow> readyView \<Rightarrow> scheduledAuth option list"
where
  "view_run pick 0 view = []"
| "view_run pick (Suc n) view = (let (view', p) = pick view in p # view_run pick n view')"

lemma view_run_ring:
  "view_run (pickRoundRobin predicate es) n view =
     ring_run entry_id scheduledSuccessorIndex predicate es n (rv_lastPicked view)"
  by (induction n arbitrary: view) (auto simp: pickRoundRobin_def Let_def split: option.split)

lemma view_run_weighted:
  "es \<noteq> [] \<Longrightarrow> view_run (pickWeighted predicate es) n view =
     snd (weighted_run entry_id entry_weight predicate es n (rv_weightedState view))"
  by (induction n arbitrary: view)
    (auto simp: pickWeighted_def weighted_step_def scheduledWeightVectorMatching_def
      pickSmoothWeightedScheduled_def Let_def split: prod.split)

lemma view_entries_sorted:
  assumes "shard_inv key t m" and "map_of (mo_readyByPriority m) p = Some bucket"
  shows "ring_sorted entry_id (view_entries m (rk_all bucket))"
proof -
  let ?ids = "rv_flat (rk_all bucket)"
  have ids: "?ids = sorted_list_of_set (ready_at (mo_entries m) p)"
    using assms by (auto simp: shard_inv_def indexed_def Let_def)
  have each: "\<exists>e. map_of (mo_entries m) i = Some e \<and> entry_id e = i \<and> i \<noteq> []" if "i \<in> set ?ids" for i
  proof -
    have "i \<in> ready_at (mo_entries m) p" using that by (simp add: ids)
    then obtain e where "map_of (mo_entries m) i = Some e" by (auto simp: ready_at_def)
    with assms(1) show ?thesis by (auto simp: shard_inv_def)
  qed
  have "\<forall>i \<in> set is'. \<exists>e. map_of (mo_entries m) i = Some e \<and> entry_id e = i \<Longrightarrow>
      List.map entry_id (resolve (mo_entries m) is') = is'" for is'
    by (induction is') (auto simp: resolve_def List.map_filter_def)
  then have eq: "List.map entry_id (view_entries m (rk_all bucket)) = ?ids"
    using each by (auto simp: view_entries_def)
  have "sorted_wrt (<) ?ids" unfolding ids by (rule strict_sorted_list_of_set)
  moreover have "entry_id e \<noteq> []" if "e \<in> set (view_entries m (rk_all bucket))" for e
  proof -
    have "entry_id e \<in> set ?ids" using that by (metis eq image_eqI list.set_map)
    with each show ?thesis by blast
  qed
  ultimately show ?thesis by (simp add: ring_sorted_def eq)
qed

text \<open>
  In a reachable shard the ready credentials of a priority are served in turn: as many
  consecutive round-robin picks as there are entries that pass the predicate serve each of them
  exactly once, wherever the cursor stands.
\<close>

theorem pickRoundRobin_fair:
  assumes "shard_reach key t m" and "map_of (mo_readyByPriority m) p = Some bucket"
    and "e \<in> set (view_entries m (rk_all bucket))" and "predicate e"
  shows "count_list (view_run (pickRoundRobin predicate (view_entries m (rk_all bucket)))
      (length (filter predicate (view_entries m (rk_all bucket)))) (rk_all bucket)) (Some e) = 1"
  unfolding view_run_ring
  by (rule sched.ring_fair [OF view_entries_sorted [OF _ assms(2)]])
    (use shard_reach_inv [OF assms(1)] assms(3,4) in blast)+

definition two_ready :: modelScheduler where
  "two_ready = upsertEntryLocked (upsertEntryLocked (empty_shard ''m'') (meta_of (new_auth ''a'' ''codex'')) 10)
     (meta_of (new_auth ''b'' ''codex'')) 12"

lemma two_ready_reach: "shard_reach ''m'' 12 two_ready"
  unfolding two_ready_def
  by (intro shard_reach.upsert [where t = 10] shard_reach.upsert [where t = 0] shard_reach.fresh)
    (simp_all add: meta_of_def new_auth_def)

theorem pickRoundRobin_fair_witness:
  "let bucket = the (map_of (mo_readyByPriority two_ready) 0);
       e = \<lparr>sa_meta = meta_of (new_auth ''b'' ''codex''), sa_state = scheduledStateReady, sa_nextRetryAt = 0\<rparr>
   in count_list (view_run (pickRoundRobin (\<lambda>_. True) (view_entries two_ready (rk_all bucket)))
      (length (filter (\<lambda>_. True) (view_entries two_ready (rk_all bucket)))) (rk_all bucket)) (Some e) = 1"
proof -
  let ?bucket = "the (map_of (mo_readyByPriority two_ready) 0)"
  let ?e = "\<lparr>sa_meta = meta_of (new_auth ''b'' ''codex''), sa_state = scheduledStateReady, sa_nextRetryAt = 0\<rparr>"
  have "map_of (mo_readyByPriority two_ready) 0 \<noteq> None" by code_simp
  then have b: "map_of (mo_readyByPriority two_ready) 0 = Some ?bucket" by auto
  have "list_ex (\<lambda>x. x = ?e) (view_entries two_ready (rk_all ?bucket))" by code_simp
  then have e: "?e \<in> set (view_entries two_ready (rk_all ?bucket))" by (simp add: list_ex_iff)
  show ?thesis using pickRoundRobin_fair [OF two_ready_reach b e, of "\<lambda>_. True"] by (simp add: Let_def)
qed

text \<open>
  From a view without credits, weighted picks serve every ready credential that passes the
  predicate exactly as often as its weight, over as many picks as the weights add up to.
\<close>

theorem pickWeighted_fair:
  assumes "shard_reach key t m" and "map_of (mo_readyByPriority m) p = Some bucket"
    and "rv_weightedState (rk_all bucket) = empty_smooth"
    and "es = view_entries m (rk_all bucket)" and "\<forall>e \<in> set es. entry_weight e \<le> Max_weight"
    and "length es \<le> 1000000" and "e \<in> set es" and "predicate e" and "0 < entry_weight e"
  shows "count_list (view_run (pickWeighted predicate es) (nat (pool_weight entry_weight predicate es)) (rk_all bucket))
      (Some e) = nat (entry_weight e)"
proof -
  have "ring_sorted entry_id es"
    unfolding assms(4) using view_entries_sorted [OF _ assms(2)] shard_reach_inv [OF assms(1)] by blast
  then have "distinct (List.map entry_id es)" by (auto simp: ring_sorted_def strict_sorted_iff)
  moreover have "es \<noteq> []" using assms(7) by auto
  moreover have "e \<in> set (admitted entry_weight predicate es)" using assms(7-9) by (simp add: admitted_def)
  ultimately show ?thesis
    using schedw.weighted_run_fair [of es e predicate] assms(3,5,6) by (simp add: view_run_weighted)
qed

theorem pickWeighted_fair_witness:
  "let bucket = the (map_of (mo_readyByPriority two_ready) 0);
       e = \<lparr>sa_meta = meta_of (new_auth ''b'' ''codex''), sa_state = scheduledStateReady, sa_nextRetryAt = 0\<rparr>;
       es = view_entries two_ready (rk_all bucket)
   in count_list (view_run (pickWeighted (\<lambda>_. True) es) (nat (pool_weight entry_weight (\<lambda>_. True) es)) (rk_all bucket))
      (Some e) = nat (entry_weight e) \<and> entry_weight e = 1"
proof -
  let ?bucket = "the (map_of (mo_readyByPriority two_ready) 0)"
  let ?e = "\<lparr>sa_meta = meta_of (new_auth ''b'' ''codex''), sa_state = scheduledStateReady, sa_nextRetryAt = 0\<rparr>"
  let ?es = "view_entries two_ready (rk_all ?bucket)"
  have "map_of (mo_readyByPriority two_ready) 0 \<noteq> None" by code_simp
  then have b: "map_of (mo_readyByPriority two_ready) 0 = Some ?bucket" by auto
  have "list_ex (\<lambda>x. x = ?e) ?es" by code_simp
  then have e: "?e \<in> set ?es" by (simp add: list_ex_iff)
  have w: "rv_weightedState (rk_all ?bucket) = empty_smooth" by code_simp
  have l: "list_all (\<lambda>e. entry_weight e \<le> Max_weight) ?es" by code_simp
  have len: "length ?es = 2" by code_simp
  have we: "entry_weight ?e = 1" by code_simp
  show ?thesis
    using pickWeighted_fair [OF two_ready_reach b w refl _ _ e, of "\<lambda>_. True"] l len we
    by (simp add: Let_def list_all_iff)
qed

end
