(* ===== verification/Scheduler.thy ===== *)
theory Scheduler
  imports Shard
begin

text \<open>
  The scheduler (\<open>authScheduler\<close> and \<open>providerScheduler\<close> of
  \<open>sdk/cliproxy/auth/scheduler.go\<close>): credentials by provider, their model shards, the
  generation records that keep late snapshots out, and the picks for one or several providers. What
  the scheduler reads from the model registry is the argument \<open>registry\<close>; each reading of the
  clock is an argument. The mutex makes every operation atomic.
\<close>

section \<open>State\<close>

record registry_view =
  rg_models :: "string \<Rightarrow> string list"
  rg_epoch :: "string \<Rightarrow> u64"

record scheduledGenerationMeta =
  sg_epoch :: u64
  sg_generation :: u64
  sg_updatedAt :: time

record providerScheduler =
  ps_providerKey :: string
  ps_auths :: "(string, scheduledAuthMeta) gomap"
  ps_modelShards :: "(string, modelScheduler) gomap"

record authScheduler =
  as_strategy :: schedulerStrategy
  as_providers :: "(string, providerScheduler) gomap"
  as_authProviders :: "(string, string) gomap"
  as_authGenerations :: "(string, scheduledGenerationMeta) gomap"
  as_mixedCursors :: "(string, int) gomap"
  as_mixedWeightedStates :: "(string, smooth_state) gomap"

datatype selector_kind = NoSelector | RoundRobinSelector | FillFirstSelector | WeightedSelector | OtherSelector

fun selectorStrategy :: "selector_kind \<Rightarrow> schedulerStrategy" where
  "selectorStrategy FillFirstSelector = schedulerStrategyFillFirst"
| "selectorStrategy WeightedSelector = schedulerStrategyWeightedRoundRobin"
| "selectorStrategy NoSelector = schedulerStrategyRoundRobin"
| "selectorStrategy RoundRobinSelector = schedulerStrategyRoundRobin"
| "selectorStrategy OtherSelector = schedulerStrategyCustom"

definition newAuthScheduler :: "selector_kind \<Rightarrow> authScheduler" where
  "newAuthScheduler selector = \<lparr>as_strategy = selectorStrategy selector, as_providers = [],
     as_authProviders = [], as_authGenerations = [], as_mixedCursors = [], as_mixedWeightedStates = []\<rparr>"

definition setSelector :: "authScheduler \<Rightarrow> selector_kind \<Rightarrow> authScheduler" where
  "setSelector s selector = s\<lparr>as_strategy := selectorStrategy selector, as_mixedCursors := [],
     as_mixedWeightedStates := []\<rparr>"

section \<open>One provider\<close>

definition supportsModel :: "scheduledAuthMeta \<Rightarrow> string \<Rightarrow> bool" where
  "supportsModel m modelKey0 =
     (let modelKey = canonicalModelKey modelKey0
      in if modelKey = [] then True
         else case sm_supportedModelSet m of
           None \<Rightarrow> False
         | Some supported \<Rightarrow> modelKey \<in> set supported)"

definition syncShard :: "scheduledAuthMeta \<Rightarrow> time \<Rightarrow> string \<Rightarrow> modelScheduler \<Rightarrow> modelScheduler" where
  "syncShard meta now modelKey shard =
     (if \<not> supportsModel meta modelKey then removeEntryLocked shard (auth_ID (sm_auth meta))
      else upsertEntryLocked shard meta now)"

fun sync_targets ::
  "scheduledAuthMeta \<Rightarrow> time \<Rightarrow> string list \<Rightarrow> string list \<Rightarrow> (string, modelScheduler) gomap
   \<Rightarrow> (string, modelScheduler) gomap"
where
  "sync_targets meta now seen [] shards = shards"
| "sync_targets meta now seen (m # ms) shards =
     (let modelKey = canonicalModelKey m
      in if modelKey \<in> set seen then sync_targets meta now seen ms shards
         else sync_targets meta now (modelKey # seen) ms
           (case map_of shards modelKey of
              None \<Rightarrow> shards
            | Some shard \<Rightarrow> AList.update modelKey (syncShard meta now modelKey shard) shards))"

definition updateTargetShardsLocked ::
  "providerScheduler \<Rightarrow> scheduledAuthMeta \<Rightarrow> string list \<Rightarrow> time \<Rightarrow> providerScheduler"
where
  "updateTargetShardsLocked p meta targetModels now =
     (let shards = (case map_of (ps_modelShards p) [] of
            None \<Rightarrow> ps_modelShards p
          | Some shard \<Rightarrow> AList.update [] (syncShard meta now [] shard) (ps_modelShards p))
      in p\<lparr>ps_modelShards := sync_targets meta now [] targetModels shards\<rparr>)"

definition upsertAuthForModelsLocked ::
  "providerScheduler \<Rightarrow> scheduledAuthMeta \<Rightarrow> string list \<Rightarrow> bool \<Rightarrow> time \<Rightarrow> providerScheduler"
where
  "upsertAuthForModelsLocked p0 meta targetModels credentialScoped now =
     (let p = p0\<lparr>ps_auths := AList.update (auth_ID (sm_auth meta)) meta (ps_auths p0)\<rparr>
      in if credentialScoped \<or> targetModels = []
         then p\<lparr>ps_modelShards := List.map (\<lambda>(k, shard). (k, syncShard meta now k shard)) (ps_modelShards p)\<rparr>
         else updateTargetShardsLocked p meta targetModels now)"

definition provider_removeAuthLocked :: "providerScheduler \<Rightarrow> string \<Rightarrow> providerScheduler" where
  "provider_removeAuthLocked p authID =
     (if authID = [] then p
      else p\<lparr>ps_auths := AList.delete authID (ps_auths p),
             ps_modelShards := List.map (\<lambda>(k, shard). (k, removeEntryLocked shard authID)) (ps_modelShards p)\<rparr>)"

definition ensureModelLocked ::
  "providerScheduler \<Rightarrow> string \<Rightarrow> time \<Rightarrow> providerScheduler \<times> modelScheduler"
where
  "ensureModelLocked p modelKey0 now =
     (let modelKey = canonicalModelKey modelKey0;
          shard = (case map_of (ps_modelShards p) modelKey of
              Some shard \<Rightarrow> promoteExpiredLocked shard now
            | None \<Rightarrow> fold (\<lambda>(_, meta) shard.
                  if \<not> supportsModel meta modelKey then shard else upsertEntryLocked shard meta now)
                (ps_auths p) (empty_shard modelKey))
      in (p\<lparr>ps_modelShards := AList.update modelKey shard (ps_modelShards p)\<rparr>, shard))"

section \<open>Credentials come and go\<close>

definition supportedModelSetForAuth :: "registry_view \<Rightarrow> string \<Rightarrow> string list option" where
  "supportedModelSetForAuth registry authID0 =
     (let authID = trim_space authID0
      in if authID = [] then None
         else let models = rg_models registry authID
           in if models = [] then None
              else Some (remdups (filter (\<lambda>k. k \<noteq> []) (List.map canonicalModelKey models))))"

definition buildScheduledAuthMetaWithModelSet :: "Auth \<Rightarrow> string list option \<Rightarrow> u64 \<Rightarrow> scheduledAuthMeta" where
  "buildScheduledAuthMetaWithModelSet auth modelSet regEpoch =
     \<lparr>sm_auth = auth, sm_providerKey = executorKeyFromAuth auth, sm_priority = authPriority auth,
      sm_weight = authWeight auth, sm_websocketEnabled = authWebsocketsEnabled auth,
      sm_supportedModelSet = modelSet, sm_registryEpoch = regEpoch\<rparr>"

definition isStaleScheduledAuth :: "authScheduler \<Rightarrow> string \<Rightarrow> u64 \<Rightarrow> u64 \<Rightarrow> time \<Rightarrow> bool" where
  "isStaleScheduledAuth s authID incomingEpoch incomingGen incomingUpdatedAt =
     (case map_of (as_authGenerations s) authID of
        None \<Rightarrow> False
      | Some existing \<Rightarrow>
          sg_epoch existing > incomingEpoch \<or>
          (sg_epoch existing = incomingEpoch \<and>
            (sg_generation existing > incomingGen \<or>
             (sg_generation existing = incomingGen \<and> sg_updatedAt existing > incomingUpdatedAt))))"

definition record_generation :: "authScheduler \<Rightarrow> string \<Rightarrow> u64 \<Rightarrow> u64 \<Rightarrow> time \<Rightarrow> authScheduler" where
  "record_generation s authID epoch generation updatedAt =
     s\<lparr>as_authGenerations := AList.update authID
         \<lparr>sg_epoch = epoch, sg_generation = generation, sg_updatedAt = updatedAt\<rparr> (as_authGenerations s)\<rparr>"

definition drop_from_provider :: "authScheduler \<Rightarrow> string \<Rightarrow> string \<Rightarrow> authScheduler" where
  "drop_from_provider s providerKey authID =
     (case map_of (as_providers s) providerKey of
        None \<Rightarrow> s
      | Some p \<Rightarrow> s\<lparr>as_providers := AList.update providerKey (provider_removeAuthLocked p authID) (as_providers s)\<rparr>)"

definition removeAuthFromProvidersLocked :: "authScheduler \<Rightarrow> string \<Rightarrow> authScheduler" where
  "removeAuthFromProvidersLocked s authID =
     (let providerKey = get_or [] (as_authProviders s) authID
      in if providerKey = [] then s
         else (drop_from_provider s providerKey authID)
           \<lparr>as_authProviders := AList.delete authID (as_authProviders s)\<rparr>)"

definition removeAuthLocked :: "authScheduler \<Rightarrow> string \<Rightarrow> time \<Rightarrow> authScheduler" where
  "removeAuthLocked s authID now =
     (if authID = [] then s
      else let epoch = (case map_of (as_authGenerations s) authID of
               Some existing \<Rightarrow> sg_epoch existing + 1 | None \<Rightarrow> 1)
        in removeAuthFromProvidersLocked (record_generation s authID epoch 0 now) authID)"

definition removeAuth :: "authScheduler \<Rightarrow> string \<Rightarrow> time \<Rightarrow> authScheduler" where
  "removeAuth s authID0 now =
     (let authID = trim_space authID0 in if authID = [] then s else removeAuthLocked s authID now)"

definition RecordRemovalTombstone :: "authScheduler \<Rightarrow> string \<Rightarrow> u64 \<Rightarrow> time \<Rightarrow> authScheduler" where
  "RecordRemovalTombstone s authID0 tombstoneEpoch now =
     (let authID = trim_space authID0
      in if authID = [] then s
         else case map_of (as_authGenerations s) authID of
           Some existing \<Rightarrow>
             if tombstoneEpoch < sg_epoch existing then s
             else removeAuthFromProvidersLocked (record_generation s authID tombstoneEpoch 0 now) authID
         | None \<Rightarrow> removeAuthFromProvidersLocked (record_generation s authID tombstoneEpoch 0 now) authID)"

definition ResetAuthGeneration :: "authScheduler \<Rightarrow> string \<Rightarrow> authScheduler" where
  "ResetAuthGeneration s authID0 =
     (let authID = trim_space authID0
      in if authID = [] then s else s\<lparr>as_authGenerations := AList.delete authID (as_authGenerations s)\<rparr>)"

definition ensureProviderLocked :: "authScheduler \<Rightarrow> string \<Rightarrow> providerScheduler" where
  "ensureProviderLocked s providerKey =
     (case map_of (as_providers s) providerKey of
        Some p \<Rightarrow> p
      | None \<Rightarrow> \<lparr>ps_providerKey = providerKey, ps_auths = [], ps_modelShards = []\<rparr>)"

text \<open>Leaving the provider a credential was listed under before.\<close>

definition leave_previous :: "authScheduler \<Rightarrow> string \<Rightarrow> string \<Rightarrow> authScheduler" where
  "leave_previous s authID providerKey =
     (let previousProvider = get_or [] (as_authProviders s) authID
      in if previousProvider \<noteq> [] \<and> previousProvider \<noteq> providerKey
         then drop_from_provider s previousProvider authID else s)"

definition install ::
  "authScheduler \<Rightarrow> string \<Rightarrow> string \<Rightarrow> scheduledAuthMeta \<Rightarrow> string list \<Rightarrow> bool \<Rightarrow> time \<Rightarrow> authScheduler"
where
  "install s authID providerKey meta targetModels credentialScoped now =
     s\<lparr>as_authProviders := AList.update authID providerKey (as_authProviders s),
       as_providers := AList.update providerKey
         (upsertAuthForModelsLocked (ensureProviderLocked s providerKey) meta targetModels credentialScoped now)
         (as_providers s)\<rparr>"

definition upsertAuthLifecycleLocked :: "registry_view \<Rightarrow> authScheduler \<Rightarrow> Auth \<Rightarrow> time \<Rightarrow> authScheduler" where
  "upsertAuthLifecycleLocked registry s auth now =
     (let authID = trim_space (auth_ID auth)
      in if authID = [] then s
         else if isStaleScheduledAuth s authID (auth_RegistrationEpoch auth) (auth_Generation auth) (auth_UpdatedAt auth)
         then s
         else
           let s1 = record_generation s authID (auth_RegistrationEpoch auth) (auth_Generation auth) (auth_UpdatedAt auth);
               providerKey = executorKeyFromAuth auth
           in if providerKey = [] \<or> auth_Disabled auth \<or> auth_Status auth = StatusDisabled
              then removeAuthFromProvidersLocked s1 authID
              else install (leave_previous s1 authID providerKey) authID providerKey
                     (buildScheduledAuthMetaWithModelSet auth
                       (supportedModelSetForAuth registry (auth_ID auth)) (rg_epoch registry authID))
                     [] True now)"

definition isCredentialBlocked :: "Auth \<Rightarrow> nat \<Rightarrow> time \<Rightarrow> bool" where
  "isCredentialBlocked auth supportedModelCount now =
     (if auth_Disabled auth \<or> auth_Status auth = StatusDisabled then True
      else if qs_Exceeded (auth_Quota auth) \<and> qs_Reason (auth_Quota auth) = ''credential_quota''
              \<and> qs_NextRecoverAt (auth_Quota auth) > now then True
      else if auth_ModelStates auth = [] then
        auth_Unavailable auth \<or> qs_Exceeded (auth_Quota auth)
          \<or> (auth_NextRetryAfter auth \<noteq> zero_time \<and> auth_NextRetryAfter auth > now)
      else if supportedModelCount > 0 \<and> length (auth_ModelStates auth) < supportedModelCount then False
      else auth_Unavailable auth)"

definition upsertAuthResultLocked ::
  "registry_view \<Rightarrow> authScheduler \<Rightarrow> Auth \<Rightarrow> string list \<Rightarrow> bool \<Rightarrow> time \<Rightarrow> authScheduler"
where
  "upsertAuthResultLocked registry s auth targetModels credentialScoped now =
     (let authID = trim_space (auth_ID auth); providerKey = executorKeyFromAuth auth
      in if authID = [] then s
         else if isStaleScheduledAuth s authID (auth_RegistrationEpoch auth) (auth_Generation auth) (auth_UpdatedAt auth)
         then
           (if providerKey = [] then s
            else case map_of (as_providers s) providerKey of
              None \<Rightarrow> s
            | Some p \<Rightarrow>
                (case map_of (ps_auths p) authID of
                   None \<Rightarrow> s
                 | Some latestMeta \<Rightarrow>
                     s\<lparr>as_providers := AList.update providerKey
                         (upsertAuthForModelsLocked p latestMeta targetModels credentialScoped now) (as_providers s)\<rparr>))
         else
           let s1 = record_generation s authID (auth_RegistrationEpoch auth) (auth_Generation auth) (auth_UpdatedAt auth)
           in if providerKey = [] \<or> auth_Disabled auth \<or> auth_Status auth = StatusDisabled
              then removeAuthFromProvidersLocked s1 authID
              else
                let s2 = leave_previous s1 authID providerKey;
                    currentRegEpoch = rg_epoch registry authID;
                    existingMeta = map_of (ps_auths (ensureProviderLocked s2 providerKey)) authID;
                    modelSetChanged = (case existingMeta of None \<Rightarrow> True
                      | Some e \<Rightarrow> sm_supportedModelSet e = None \<or> sm_registryEpoch e \<noteq> currentRegEpoch);
                    modelSet = (if \<not> modelSetChanged then Option.bind existingMeta sm_supportedModelSet
                                else supportedModelSetForAuth registry (auth_ID auth));
                    meta = buildScheduledAuthMetaWithModelSet auth modelSet currentRegEpoch;
                    modelCount = (case modelSet of None \<Rightarrow> 0 | Some ms \<Rightarrow> length ms);
                    wasBlocked = (case existingMeta of None \<Rightarrow> False
                      | Some e \<Rightarrow> isCredentialBlocked (sm_auth e) modelCount now);
                    isBlocked = isCredentialBlocked auth modelCount now
                in if modelSetChanged \<or> credentialScoped \<or> wasBlocked \<noteq> isBlocked \<or> targetModels = []
                   then install s2 authID providerKey meta [] True now
                   else install s2 authID providerKey meta targetModels credentialScoped now)"

definition rebuild :: "registry_view \<Rightarrow> authScheduler \<Rightarrow> Auth list \<Rightarrow> time \<Rightarrow> authScheduler" where
  "rebuild registry s auths now =
     fold (\<lambda>auth s. upsertAuthLifecycleLocked registry s auth now) auths
       (s\<lparr>as_providers := [], as_authProviders := [], as_mixedCursors := [], as_mixedWeightedStates := []\<rparr>)"

section \<open>Why there is no credential\<close>

datatype err_cause = CauseError AuthError | CauseMessage string

datatype sched_error =
    SchedNotFound "err_cause option"
  | SchedProviderNotFound
  | SchedCooldown string string duration "err_cause option"
  | SchedTerminal "err_cause option"
  | SchedUnavailable "duration option" "err_cause option"

type_synonym dated_error = "(err_cause \<times> time \<times> string) option"

text \<open>Of two dated errors the later one, of equally old ones that of the greater ID.\<close>

definition later_error :: "dated_error \<Rightarrow> dated_error \<Rightarrow> dated_error" where
  "later_error best cand =
     (case cand of
        None \<Rightarrow> best
      | Some (e, t, i) \<Rightarrow>
          (case best of
             None \<Rightarrow> cand
           | Some (e', t', i') \<Rightarrow> if t > t' \<or> (t = t' \<and> i > i') then cand else best))"

definition error_or_message :: "AuthError option \<Rightarrow> string \<Rightarrow> err_cause option" where
  "error_or_message err message =
     (case err of Some e \<Rightarrow> Some (CauseError e)
      | None \<Rightarrow> if trim_space message \<noteq> [] then Some (CauseMessage message) else None)"

definition model_error :: "Auth \<Rightarrow> string \<Rightarrow> dated_error" where
  "model_error auth model =
     (let state = (case map_of (auth_ModelStates auth) model of
            Some st \<Rightarrow> Some st | None \<Rightarrow> map_of (auth_ModelStates auth) (canonicalModelKey model))
      in case state of
           None \<Rightarrow> None
         | Some st \<Rightarrow>
             map_option (\<lambda>e. (e, if ms_UpdatedAt st = zero_time then auth_UpdatedAt auth else ms_UpdatedAt st,
                              auth_ID auth))
               (error_or_message (ms_LastError st) (ms_StatusMessage st)))"

definition auth_error :: "Auth \<Rightarrow> dated_error" where
  "auth_error auth = map_option (\<lambda>e. (e, auth_UpdatedAt auth, auth_ID auth))
     (error_or_message (auth_LastError auth) (auth_StatusMessage auth))"

definition candidateErrorsLocked ::
  "modelScheduler \<Rightarrow> string \<Rightarrow> (scheduledAuth \<Rightarrow> bool) \<Rightarrow> dated_error \<times> dated_error"
where
  "candidateErrorsLocked m model predicate =
     fold (\<lambda>(_, entry) (modelErr, authErr).
         if \<not> predicate entry then (modelErr, authErr)
         else (later_error modelErr (model_error (sa_auth entry) model),
               later_error authErr (auth_error (sa_auth entry))))
       (mo_entries m) (None, None)"

definition cause_of :: "dated_error \<Rightarrow> err_cause option" where
  "cause_of e = map_option fst e"

record summary_state =
  su_total :: nat
  su_cooldown :: nat
  su_unauthorized :: nat
  su_earliest :: time

definition add_entry :: "scheduledAuth \<Rightarrow> summary_state \<Rightarrow> summary_state" where
  "add_entry entry su =
     \<lparr>su_total = su_total su + 1,
      su_cooldown = su_cooldown su + (if sa_state entry = scheduledStateCooldown then 1 else 0),
      su_unauthorized = su_unauthorized su + (if hasUnauthorizedAuthFailure (sa_auth entry) then 1 else 0),
      su_earliest =
        (if (sa_state entry = scheduledStateCooldown \<or> sa_state entry = scheduledStateBlocked)
            \<and> sa_nextRetryAt entry \<noteq> zero_time
            \<and> (su_earliest su = zero_time \<or> sa_nextRetryAt entry < su_earliest su)
         then sa_nextRetryAt entry else su_earliest su)\<rparr>"

definition no_candidates :: summary_state where
  "no_candidates = \<lparr>su_total = 0, su_cooldown = 0, su_unauthorized = 0, su_earliest = zero_time\<rparr>"

definition availabilitySummaryLocked :: "modelScheduler \<Rightarrow> (scheduledAuth \<Rightarrow> bool) \<Rightarrow> summary_state" where
  "availabilitySummaryLocked m predicate =
     fold add_entry (filter predicate (List.map snd (mo_entries m))) no_candidates"

text \<open>The decision both error builders share.\<close>

definition build_error ::
  "summary_state \<Rightarrow> string \<Rightarrow> string \<Rightarrow> time \<Rightarrow> dated_error \<Rightarrow> dated_error \<Rightarrow> sched_error"
where
  "build_error su provider model now modelErr authErr =
     (let lastCandidateErr = (if modelErr \<noteq> None then cause_of modelErr else cause_of authErr)
      in if su_total su = 0 then SchedNotFound lastCandidateErr
         else if su_cooldown su = su_total su \<and> su_earliest su \<noteq> zero_time then
           let resetIn = su_earliest su - now
           in SchedCooldown model provider (if resetIn < 0 then 0 else resetIn) lastCandidateErr
         else if su_unauthorized su = su_total su then
           SchedTerminal (if cause_of authErr \<noteq> None then cause_of authErr else lastCandidateErr)
         else SchedUnavailable (if su_earliest su > now then Some (su_earliest su - now) else None) lastCandidateErr)"

definition unavailableErrorLocked ::
  "modelScheduler \<Rightarrow> string \<Rightarrow> string \<Rightarrow> (scheduledAuth \<Rightarrow> bool) \<Rightarrow> time \<Rightarrow> sched_error"
where
  "unavailableErrorLocked m provider model predicate now =
     (let (modelErr, authErr) = candidateErrorsLocked m model predicate
      in build_error (availabilitySummaryLocked m predicate)
           (if provider = ''mixed'' then [] else provider) model now modelErr authErr)"

section \<open>Picking for one provider\<close>

record pick_request =
  rq_eligibility :: authSelectionEligibility
  rq_downstreamWebsocket :: bool
  rq_pinnedAuthID :: string
  rq_tried :: "string list"

definition request_of ::
  "string \<Rightarrow> string \<Rightarrow> bool \<Rightarrow> (string, any_value) gomap \<Rightarrow> string list \<Rightarrow> pick_request"
where
  "request_of requiredKind credentialPolicy downstreamWebsocket metadata tried =
     \<lparr>rq_eligibility = \<lparr>el_requiredKind = requiredKind, el_credentialPolicy = credentialPolicy,
        el_disallowFreeAuth = disallowFreeAuthFromMetadata metadata\<rparr>,
      rq_downstreamWebsocket = downstreamWebsocket,
      rq_pinnedAuthID = pinnedAuthIDFromMetadata metadata, rq_tried = tried\<rparr>"

definition scheduledAuthPredicate ::
  "authSelectionEligibility \<Rightarrow> string list \<Rightarrow> string \<Rightarrow> bool \<Rightarrow> scheduledAuth \<Rightarrow> bool"
where
  "scheduledAuthPredicate eligibility tried pinnedAuthID requirePositiveWeight entry =
     (if \<not> allows eligibility (sa_auth entry) then False
      else if requirePositiveWeight \<and> entry_weight entry \<le> 0 then False
      else if pinnedAuthID \<noteq> [] \<and> entry_id entry \<noteq> pinnedAuthID then False
      else \<not> entry_id entry \<in> set tried)"

definition providerPrefersWebsocketTransport :: "string \<Rightarrow> bool" where
  "providerPrefersWebsocketTransport providerKey =
     (to_lower (trim_space providerKey) \<in> set [''codex'', ''xai''])"

definition put_shard :: "authScheduler \<Rightarrow> string \<Rightarrow> modelScheduler \<Rightarrow> authScheduler" where
  "put_shard s providerKey shard =
     (case map_of (as_providers s) providerKey of
        None \<Rightarrow> s
      | Some p \<Rightarrow> s\<lparr>as_providers := AList.update providerKey
          (p\<lparr>ps_modelShards := AList.update (mo_modelKey shard) shard (ps_modelShards p)\<rparr>) (as_providers s)\<rparr>)"

definition ensure_shard ::
  "authScheduler \<Rightarrow> string \<Rightarrow> string \<Rightarrow> time \<Rightarrow> authScheduler \<times> modelScheduler option"
where
  "ensure_shard s providerKey modelKey now =
     (case map_of (as_providers s) providerKey of
        None \<Rightarrow> (s, None)
      | Some p \<Rightarrow>
          (case ensureModelLocked p modelKey now of
             (p', shard) \<Rightarrow> (s\<lparr>as_providers := AList.update providerKey p' (as_providers s)\<rparr>, Some shard)))"

text \<open>A pick from one shard, and the error if it fails; the three readings of the clock in order.\<close>

definition pick_in_shard ::
  "authScheduler \<Rightarrow> string \<Rightarrow> string \<Rightarrow> string \<Rightarrow> bool \<Rightarrow> schedulerStrategy \<Rightarrow> (scheduledAuth \<Rightarrow> bool)
   \<Rightarrow> string \<Rightarrow> time \<Rightarrow> time \<Rightarrow> time \<Rightarrow> authScheduler \<times> (sched_error + Auth)"
where
  "pick_in_shard s providerKey modelKey model preferWebsocket strategy predicate providerForError now1 now2 now3 =
     (case ensure_shard s providerKey modelKey now1 of
        (s1, None) \<Rightarrow> (s1, Inl (SchedNotFound None))
      | (s1, Some shard) \<Rightarrow>
          (case pickReadyLocked shard preferWebsocket strategy predicate now2 of
             (shard', Some e) \<Rightarrow> (put_shard s1 providerKey shard', Inr (sa_auth e))
           | (shard', None) \<Rightarrow>
               (put_shard s1 providerKey shard',
                Inl (unavailableErrorLocked shard' providerForError model predicate now3))))"

definition pickSingleWithStrategy ::
  "authScheduler \<Rightarrow> string \<Rightarrow> string \<Rightarrow> pick_request \<Rightarrow> schedulerStrategy option
   \<Rightarrow> time \<Rightarrow> time \<Rightarrow> time \<Rightarrow> authScheduler \<times> (sched_error + Auth)"
where
  "pickSingleWithStrategy s provider model req strategy0 now1 now2 now3 =
     (let providerKey = to_lower (trim_space provider);
          modelKey = canonicalModelKey model;
          preferWebsocket = (rq_downstreamWebsocket req \<and> providerPrefersWebsocketTransport providerKey
            \<and> rq_pinnedAuthID req = []);
          strategy = (case strategy0 of None \<Rightarrow> as_strategy s | Some st \<Rightarrow> st);
          predicate = scheduledAuthPredicate (rq_eligibility req) (rq_tried req) (rq_pinnedAuthID req)
            (strategy = schedulerStrategyWeightedRoundRobin)
      in pick_in_shard s providerKey modelKey model preferWebsocket strategy predicate provider now1 now2 now3)"

section \<open>Picking across providers\<close>

fun normalize_loop :: "string list \<Rightarrow> string list \<Rightarrow> string list" where
  "normalize_loop [] seen = []"
| "normalize_loop (provider # ps) seen =
     (let providerKey = to_lower (trim_space provider)
      in if providerKey = [] \<or> providerKey \<in> set seen then normalize_loop ps seen
         else providerKey # normalize_loop ps (providerKey # seen))"

definition normalizeProviderKeys :: "string list \<Rightarrow> string list" where
  "normalizeProviderKeys providers = normalize_loop providers []"

fun gather_errors ::
  "authScheduler \<Rightarrow> string list \<Rightarrow> string \<Rightarrow> (scheduledAuth \<Rightarrow> bool) \<Rightarrow> time
   \<Rightarrow> summary_state \<Rightarrow> dated_error \<Rightarrow> dated_error \<Rightarrow> authScheduler \<times> summary_state \<times> dated_error \<times> dated_error"
where
  "gather_errors s [] model predicate now su modelErr authErr = (s, su, modelErr, authErr)"
| "gather_errors s (pk # pks) model predicate now su modelErr authErr =
     (case ensure_shard s pk (canonicalModelKey model) now of
        (s1, None) \<Rightarrow> gather_errors s1 pks model predicate now su modelErr authErr
      | (s1, Some shard) \<Rightarrow>
          (let l = availabilitySummaryLocked shard predicate;
               (lm, la) = candidateErrorsLocked shard model predicate;
               su' = \<lparr>su_total = su_total su + su_total l, su_cooldown = su_cooldown su + su_cooldown l,
                 su_unauthorized = su_unauthorized su + su_unauthorized l,
                 su_earliest = (if su_earliest l \<noteq> zero_time
                     \<and> (su_earliest su = zero_time \<or> su_earliest l < su_earliest su)
                   then su_earliest l else su_earliest su)\<rparr>
           in gather_errors s1 pks model predicate now su' (later_error modelErr lm) (later_error authErr la)))"

definition mixedUnavailableErrorLocked ::
  "authScheduler \<Rightarrow> string list \<Rightarrow> string \<Rightarrow> (scheduledAuth \<Rightarrow> bool) \<Rightarrow> time \<Rightarrow> authScheduler \<times> sched_error"
where
  "mixedUnavailableErrorLocked s providers model predicate now =
     (case gather_errors s providers model predicate now no_candidates None None of
        (s', su, modelErr, authErr) \<Rightarrow> (s', build_error su [] model now modelErr authErr))"

text \<open>The shards of the providers and the best priority that is ready in any of them.\<close>

fun candidate_shards ::
  "authScheduler \<Rightarrow> string list \<Rightarrow> string \<Rightarrow> (scheduledAuth \<Rightarrow> bool) \<Rightarrow> time \<Rightarrow> int option
   \<Rightarrow> authScheduler \<times> modelScheduler option list \<times> int option"
where
  "candidate_shards s [] modelKey predicate now best = (s, [], best)"
| "candidate_shards s (pk # pks) modelKey predicate now best =
     (case ensure_shard s pk modelKey now of
        (s1, shard) \<Rightarrow>
          let best' = (case Option.bind shard (\<lambda>m. highestReadyPriorityLocked m False predicate) of
                None \<Rightarrow> best
              | Some p \<Rightarrow> (case best of None \<Rightarrow> Some p | Some b \<Rightarrow> if p > b then Some p else best));
              (s2, shards, b) = candidate_shards s1 pks modelKey predicate now best'
          in (s2, shard # shards, b))"

fun first_pick ::
  "authScheduler \<Rightarrow> (string \<times> modelScheduler option) list \<Rightarrow> int \<Rightarrow> schedulerStrategy \<Rightarrow> (scheduledAuth \<Rightarrow> bool)
   \<Rightarrow> authScheduler \<times> (Auth \<times> string) option"
where
  "first_pick s [] best strategy predicate = (s, None)"
| "first_pick s ((pk, None) # cs) best strategy predicate = first_pick s cs best strategy predicate"
| "first_pick s ((pk, Some shard) # cs) best strategy predicate =
     (case pickReadyAtPriorityLocked shard False best strategy predicate of
        (shard', Some e) \<Rightarrow> (put_shard s pk shard', Some (sa_auth e, pk))
      | (shard', None) \<Rightarrow> first_pick (put_shard s pk shard') cs best strategy predicate)"

definition mixed_entries :: "modelScheduler option list \<Rightarrow> int \<Rightarrow> scheduledAuth list" where
  "mixed_entries shards best =
     sort_key entry_id (concat (List.map (\<lambda>shard. case shard of
        None \<Rightarrow> []
      | Some m \<Rightarrow> (case map_of (mo_readyByPriority m) best of
            None \<Rightarrow> [] | Some bucket \<Rightarrow> view_entries m (rk_all bucket))) shards))"

fun segments :: "nat list \<Rightarrow> nat \<Rightarrow> (nat \<times> nat) list" where
  "segments [] start = []"
| "segments (w # ws) start = (start, start + w) # segments ws (start + w)"

fun start_index :: "nat list \<Rightarrow> (nat \<times> nat) list \<Rightarrow> nat \<Rightarrow> nat \<Rightarrow> nat option" where
  "start_index (w # ws) ((a, b) # segs) slot i =
     (if w = 0 then start_index ws segs slot (Suc i)
      else if slot < b then Some i else start_index ws segs slot (Suc i))"
| "start_index _ _ slot i = None"

text \<open>The loop over the providers from the start index on; \<open>offsets\<close> are those still to try.\<close>

fun mixed_loop ::
  "authScheduler \<Rightarrow> string list \<Rightarrow> modelScheduler option list \<Rightarrow> nat list \<Rightarrow> (nat \<times> nat) list \<Rightarrow> nat \<Rightarrow> nat
   \<Rightarrow> int \<Rightarrow> (scheduledAuth \<Rightarrow> bool) \<Rightarrow> string \<Rightarrow> nat list \<Rightarrow> authScheduler \<times> (Auth \<times> string) option"
where
  "mixed_loop s normalized shards weights segs start slot best predicate cursorKey [] = (s, None)"
| "mixed_loop s normalized shards weights segs start slot best predicate cursorKey (offset # offsets) =
     (let i = (start + offset) mod length normalized
      in if weights ! i = 0
         then mixed_loop s normalized shards weights segs start slot best predicate cursorKey offsets
         else
           let slot' = (if i \<noteq> start then fst (segs ! i) else slot);
               pk = normalized ! i
           in case shards ! i of
                None \<Rightarrow> mixed_loop s normalized shards weights segs start slot' best predicate cursorKey offsets
              | Some shard \<Rightarrow>
                  (case pickReadyAtPriorityLocked shard False best schedulerStrategyRoundRobin predicate of
                     (shard', None) \<Rightarrow>
                       mixed_loop (put_shard s pk shard') normalized shards weights segs start slot' best predicate
                         cursorKey offsets
                   | (shard', Some e) \<Rightarrow>
                       ((put_shard s pk shard')
                          \<lparr>as_mixedCursors := AList.update cursorKey (int slot' + 1) (as_mixedCursors s)\<rparr>,
                        Some (sa_auth e, pk))))"

fun join_keys :: "string list \<Rightarrow> string" where
  "join_keys [] = []"
| "join_keys [k] = k"
| "join_keys (k # ks) = k @ '','' @ join_keys ks"

definition or_unavailable ::
  "authScheduler \<times> (Auth \<times> string) option \<Rightarrow> string list \<Rightarrow> string \<Rightarrow> (scheduledAuth \<Rightarrow> bool) \<Rightarrow> time
   \<Rightarrow> authScheduler \<times> (sched_error + Auth \<times> string)"
where
  "or_unavailable r normalized model predicate now =
     (case r of
        (s, Some picked) \<Rightarrow> (s, Inr picked)
      | (s, None) \<Rightarrow>
          (case mixedUnavailableErrorLocked s normalized model predicate now of (s', err) \<Rightarrow> (s', Inl err)))"

definition pick_weighted_mixed ::
  "authScheduler \<Rightarrow> modelScheduler option list \<Rightarrow> int \<Rightarrow> string \<Rightarrow> (scheduledAuth \<Rightarrow> bool)
   \<Rightarrow> authScheduler \<times> (Auth \<times> string) option"
where
  "pick_weighted_mixed s shards best cursorKey predicate =
     (let entries = mixed_entries shards best;
          st = prepare (get_or empty_smooth (as_mixedWeightedStates s) cursorKey)
                 (scheduledWeightVectorMatching predicate entries);
          (current, picked) = pickSmoothWeightedScheduled predicate entries (sw_current st)
      in (s\<lparr>as_mixedWeightedStates := AList.update cursorKey (st\<lparr>sw_current := current\<rparr>) (as_mixedWeightedStates s)\<rparr>,
          map_option (\<lambda>e. (sa_auth e, sm_providerKey (sa_meta e))) picked))"

definition pick_rotating_mixed ::
  "authScheduler \<Rightarrow> string list \<Rightarrow> modelScheduler option list \<Rightarrow> int \<Rightarrow> string \<Rightarrow> (scheduledAuth \<Rightarrow> bool)
   \<Rightarrow> authScheduler \<times> (Auth \<times> string) option"
where
  "pick_rotating_mixed s normalized shards best cursorKey predicate =
     (let weights = List.map (\<lambda>shard. case shard of None \<Rightarrow> 0
            | Some m \<Rightarrow> readyCountAtPriorityLocked m False best predicate) shards;
          segs = segments weights 0;
          totalWeight = sum_list weights
      in if totalWeight = 0 then (s, None)
         else let startSlot = nat (get_or 0 (as_mixedCursors s) cursorKey) mod totalWeight
           in case start_index weights segs startSlot 0 of
                None \<Rightarrow> (s, None)
              | Some start \<Rightarrow>
                  mixed_loop s normalized shards weights segs start startSlot best predicate cursorKey
                    [0 ..< length normalized])"

definition pickMixedWithStrategy ::
  "authScheduler \<Rightarrow> string list \<Rightarrow> string \<Rightarrow> pick_request \<Rightarrow> schedulerStrategy option
   \<Rightarrow> time \<Rightarrow> time \<Rightarrow> time \<Rightarrow> authScheduler \<times> (sched_error + Auth \<times> string)"
where
  "pickMixedWithStrategy s providers model req strategy0 now1 now2 now3 =
     (let normalized = normalizeProviderKeys providers
      in case normalized of
           [] \<Rightarrow> (s, Inl SchedProviderNotFound)
         | [providerKey] \<Rightarrow>
             (case pickSingleWithStrategy s providerKey model req strategy0 now1 now2 now3 of
                (s', Inl err) \<Rightarrow> (s', Inl err)
              | (s', Inr auth) \<Rightarrow> (s', Inr (auth, providerKey)))
         | _ \<Rightarrow>
             let modelKey = canonicalModelKey model;
                 strategy = (case strategy0 of None \<Rightarrow> as_strategy s | Some st \<Rightarrow> st);
                 weighted = (strategy = schedulerStrategyWeightedRoundRobin);
                 pinned = rq_pinnedAuthID req
             in if pinned \<noteq> [] then
                  let providerKey = get_or [] (as_authProviders s) pinned
                  in if providerKey = [] \<or> providerKey \<notin> set normalized then (s, Inl (SchedNotFound None))
                     else (case pick_in_shard s providerKey modelKey model False strategy
                             (scheduledAuthPredicate (rq_eligibility req) (rq_tried req) pinned weighted)
                             ''mixed'' now1 now2 now3 of
                             (s', Inl err) \<Rightarrow> (s', Inl err)
                           | (s', Inr auth) \<Rightarrow> (s', Inr (auth, providerKey)))
                else
                  let predicate = scheduledAuthPredicate (rq_eligibility req) (rq_tried req) [] weighted;
                      (s1, shards, best) = candidate_shards s normalized modelKey predicate now1 None;
                      cursorKey = join_keys normalized @ '':'' @ modelKey
                  in or_unavailable
                       (case best of
                          None \<Rightarrow> (s1, None)
                        | Some b \<Rightarrow>
                            if strategy = schedulerStrategyFillFirst
                            then first_pick s1 (zip normalized shards) b strategy predicate
                            else if weighted then pick_weighted_mixed s1 shards b cursorKey predicate
                            else pick_rotating_mixed s1 normalized shards b cursorKey predicate)
                       normalized model predicate now3)"

section \<open>The invariant of the scheduler\<close>

definition shards_inv :: "time \<Rightarrow> (string, modelScheduler) gomap \<Rightarrow> bool" where
  "shards_inv t shards \<longleftrightarrow> (\<forall>k sh. map_of shards k = Some sh \<longrightarrow> shard_inv k t sh)"

definition provider_inv :: "time \<Rightarrow> providerScheduler \<Rightarrow> bool" where
  "provider_inv t p \<longleftrightarrow> shards_inv t (ps_modelShards p)
     \<and> (\<forall>i meta. (i, meta) \<in> set (ps_auths p) \<longrightarrow> auth_ID (sm_auth meta) = i \<and> i \<noteq> [])"

definition sched_inv :: "time \<Rightarrow> authScheduler \<Rightarrow> bool" where
  "sched_inv t s \<longleftrightarrow> 0 \<le> t \<and> (\<forall>pk p. map_of (as_providers s) pk = Some p \<longrightarrow> provider_inv t p)"

lemma set_update: "x \<in> set (AList.update k v m) \<Longrightarrow> x = (k, v) \<or> x \<in> set m"
  by (induction m) (auto split: if_splits)

lemma set_delete: "x \<in> set (AList.delete k m) \<Longrightarrow> x \<in> set m"
  by (auto simp: AList.delete_eq)

lemma shards_inv_mono: "shards_inv t sh \<Longrightarrow> t \<le> t' \<Longrightarrow> shards_inv t' sh"
  unfolding shards_inv_def using shard_inv_mono by blast

lemma provider_inv_mono: "provider_inv t p \<Longrightarrow> t \<le> t' \<Longrightarrow> provider_inv t' p"
  unfolding provider_inv_def using shards_inv_mono by blast

lemma sched_inv_mono: "sched_inv t s \<Longrightarrow> t \<le> t' \<Longrightarrow> sched_inv t' s"
  unfolding sched_inv_def using provider_inv_mono by fastforce

lemma shards_inv_update: "shards_inv t shs \<Longrightarrow> shard_inv k t sh \<Longrightarrow> shards_inv t (AList.update k sh shs)"
  by (simp add: shards_inv_def)

lemma sync_inv:
  assumes "shard_inv k t sh" and "t \<le> now" and "0 \<le> now" and "auth_ID (sm_auth meta) \<noteq> []"
  shows "shard_inv k now (syncShard meta now k' sh)"
  using shard_inv_upsert [OF assms] shard_inv_mono [OF shard_inv_remove [OF assms(1)] assms(2)]
  by (simp add: syncShard_def)

lemma sync_targets_inv:
  assumes "shards_inv now shs" and "0 \<le> now" and "auth_ID (sm_auth meta) \<noteq> []"
  shows "shards_inv now (sync_targets meta now seen ms shs)"
  using assms(1)
proof (induction ms arbitrary: seen shs)
  case (Cons m ms)
  have "shards_inv now (AList.update (canonicalModelKey m) (syncShard meta now (canonicalModelKey m) sh) shs)"
    if "map_of shs (canonicalModelKey m) = Some sh" for sh
    using that Cons.prems sync_inv [OF _ order_refl assms(2,3)]
    by (intro shards_inv_update) (auto simp: shards_inv_def)
  with Cons show ?case by (simp add: Let_def split: option.split)
qed simp

lemma upsert_models_inv:
  assumes "provider_inv t p" and "t \<le> now" and "0 \<le> now" and "auth_ID (sm_auth meta) \<noteq> []"
  shows "provider_inv now (upsertAuthForModelsLocked p meta targets scoped now)"
proof -
  have sh: "shards_inv t (ps_modelShards p)" and shn: "shards_inv now (ps_modelShards p)"
    using assms(1) shards_inv_mono [OF _ assms(2)] by (auto simp: provider_inv_def)
  have auths: "\<forall>i m. (i, m) \<in> set (AList.update (auth_ID (sm_auth meta)) meta (ps_auths p)) \<longrightarrow>
      auth_ID (sm_auth m) = i \<and> i \<noteq> []"
    using assms(1,4) by (auto simp: provider_inv_def dest!: set_update)
  have all: "shards_inv now (List.map (\<lambda>(k, shard). (k, syncShard meta now k shard)) (ps_modelShards p))"
    using sh sync_inv [OF _ assms(2-4)] by (auto simp: shards_inv_def map_of_map_values)
  have one: "map_of (ps_modelShards p) [] = Some shard \<Longrightarrow>
      shards_inv now (AList.update [] (syncShard meta now [] shard) (ps_modelShards p))" for shard
    using shn sync_inv [OF _ order_refl assms(3,4)] by (intro shards_inv_update) (auto simp: shards_inv_def)
  show ?thesis
    using auths all shn one sync_targets_inv [OF _ assms(3,4)]
    by (auto simp: provider_inv_def upsertAuthForModelsLocked_def updateTargetShardsLocked_def Let_def
        split: option.split)
qed

lemma provider_remove_inv: "provider_inv t p \<Longrightarrow> provider_inv t (provider_removeAuthLocked p i)"
  by (auto simp: provider_inv_def provider_removeAuthLocked_def shards_inv_def map_of_map_values
      shard_inv_remove dest!: set_delete)

lemma fold_upsert_inv:
  assumes "\<forall>(i, meta) \<in> set metas. auth_ID (sm_auth meta) \<noteq> []" and "shard_inv k now sh" and "0 \<le> now"
  shows "shard_inv k now (fold (\<lambda>(_, meta) shard.
     if \<not> supportsModel meta k' then shard else upsertEntryLocked shard meta now) metas sh)"
  using assms(1,2)
  by (induction metas arbitrary: sh) (auto simp: shard_inv_upsert [OF _ order_refl assms(3)])

lemma ensure_inv:
  assumes "provider_inv t p" and "t \<le> now" and "0 \<le> now" and "ensureModelLocked p key now = (p', sh)"
  shows "provider_inv now p' \<and> shard_inv (canonicalModelKey key) now sh
    \<and> map_of (ps_modelShards p') (canonicalModelKey key) = Some sh"
proof -
  let ?k = "canonicalModelKey key"
  have sh: "shard_inv ?k now sh"
  proof (cases "map_of (ps_modelShards p) ?k")
    case None
    have "\<forall>(i, meta) \<in> set (ps_auths p). auth_ID (sm_auth meta) \<noteq> []"
      using assms(1) by (auto simp: provider_inv_def)
    from fold_upsert_inv [OF this shard_inv_empty assms(3)] None assms(4)
    show ?thesis by (auto simp: ensureModelLocked_def Let_def)
  next
    case (Some x)
    then have "shard_inv ?k t x" using assms(1) by (auto simp: provider_inv_def shards_inv_def)
    with shard_inv_promote [OF this assms(2,3)] Some assms(4) show ?thesis
      by (auto simp: ensureModelLocked_def Let_def)
  qed
  have p': "p' = p\<lparr>ps_modelShards := AList.update ?k sh (ps_modelShards p)\<rparr>"
    using assms(4) by (auto simp: ensureModelLocked_def Let_def)
  have "shards_inv now (ps_modelShards p)"
    using assms(1) shards_inv_mono [OF _ assms(2)] by (auto simp: provider_inv_def)
  with sh p' assms(1) shards_inv_update show ?thesis by (auto simp: provider_inv_def)
qed

lemma sched_inv_put_provider:
  "sched_inv t s \<Longrightarrow> provider_inv t p \<Longrightarrow> sched_inv t (s\<lparr>as_providers := AList.update pk p (as_providers s)\<rparr>)"
  by (simp add: sched_inv_def)

lemma sched_inv_frame [simp]:
  "sched_inv t (s\<lparr>as_authProviders := x\<rparr>) = sched_inv t s"
  "sched_inv t (s\<lparr>as_authGenerations := g\<rparr>) = sched_inv t s"
  "sched_inv t (s\<lparr>as_mixedCursors := c\<rparr>) = sched_inv t s"
  "sched_inv t (s\<lparr>as_mixedWeightedStates := w\<rparr>) = sched_inv t s"
  "sched_inv t (s\<lparr>as_strategy := st\<rparr>) = sched_inv t s"
  by (simp_all add: sched_inv_def)

lemma drop_inv: "sched_inv t s \<Longrightarrow> sched_inv t (drop_from_provider s pk i)"
  by (auto simp: drop_from_provider_def sched_inv_def provider_remove_inv split: option.split)

lemma remove_from_providers_inv: "sched_inv t s \<Longrightarrow> sched_inv t (removeAuthFromProvidersLocked s i)"
  using drop_inv by (simp add: removeAuthFromProvidersLocked_def Let_def)

lemma record_inv: "sched_inv t (record_generation s i e g u) = sched_inv t s"
  by (simp add: record_generation_def)

lemma leave_inv: "sched_inv t s \<Longrightarrow> sched_inv t (leave_previous s i pk)"
  by (simp add: leave_previous_def Let_def drop_inv)

lemma ensureProvider_inv: "sched_inv t s \<Longrightarrow> provider_inv t (ensureProviderLocked s pk)"
  by (auto simp: ensureProviderLocked_def sched_inv_def provider_inv_def shards_inv_def split: option.split)

lemma install_inv:
  assumes "sched_inv t s" and "t \<le> now" and "auth_ID (sm_auth meta) \<noteq> []"
  shows "sched_inv now (install s i pk meta targets scoped now)"
proof -
  have "0 \<le> now" using assms(1,2) by (auto simp: sched_inv_def)
  from upsert_models_inv [OF ensureProvider_inv [OF assms(1)] assms(2) this assms(3)]
  have "provider_inv now (upsertAuthForModelsLocked (ensureProviderLocked s pk) meta targets scoped now)" .
  with sched_inv_mono [OF assms(1,2)] show ?thesis by (simp add: install_def sched_inv_def)
qed

lemma build_auth [simp]: "sm_auth (buildScheduledAuthMetaWithModelSet a ms e) = a"
  by (simp add: buildScheduledAuthMetaWithModelSet_def)

lemma lifecycle_inv:
  assumes "sched_inv t s" and "t \<le> now"
  shows "sched_inv now (upsertAuthLifecycleLocked registry s auth now)"
proof -
  have "trim_space (auth_ID auth) \<noteq> [] \<Longrightarrow> auth_ID auth \<noteq> []" by auto
  then show ?thesis
    using assms sched_inv_mono [OF assms] install_inv [OF leave_inv assms(2)] remove_from_providers_inv
    by (simp add: upsertAuthLifecycleLocked_def Let_def record_inv)
qed

lemma result_inv:
  assumes "sched_inv t s" and "t \<le> now"
  shows "sched_inv now (upsertAuthResultLocked registry s auth targets scoped now)"
proof -
  have id: "trim_space (auth_ID auth) \<noteq> [] \<Longrightarrow> auth_ID auth \<noteq> []" by auto
  have now: "0 \<le> now" using assms by (auto simp: sched_inv_def)
  note mono = sched_inv_mono [OF assms]
  have stale: "sched_inv now (s\<lparr>as_providers := AList.update pk
      (upsertAuthForModelsLocked p meta tg sc now) (as_providers s)\<rparr>)"
    if "map_of (as_providers s) pk = Some p" "map_of (ps_auths p) i = Some meta" for pk p i meta tg sc
  proof (rule sched_inv_put_provider [OF mono upsert_models_inv [OF _ assms(2) now]])
    show inv: "provider_inv t p" using that(1) assms(1) by (simp add: sched_inv_def)
    have "(i, meta) \<in> set (ps_auths p)" using that(2) by (rule map_of_SomeD)
    with inv show "auth_ID (sm_auth meta) \<noteq> []" by (auto simp: provider_inv_def)
  qed
  have inst: "sched_inv now (install (leave_previous (record_generation s i e g u) i pk) i pk
      (buildScheduledAuthMetaWithModelSet auth ms ep) tg sc now)" if "auth_ID auth \<noteq> []" for i e g u pk ms ep tg sc
    by (rule install_inv [OF leave_inv assms(2)]) (use assms(1) that in \<open>simp_all add: record_inv\<close>)
  show ?thesis
    using mono stale inst id remove_from_providers_inv
    by (simp add: upsertAuthResultLocked_def Let_def record_inv split: option.split)
qed

section \<open>Picks are sound\<close>

definition all_settled :: "string \<Rightarrow> time \<Rightarrow> modelScheduler \<Rightarrow> bool" where
  "all_settled k now m \<longleftrightarrow> (\<forall>i e. map_of (mo_entries m) i = Some e \<longrightarrow> settled k now e)"

lemma upsert_entries: "mo_entries (upsertEntryLocked m meta now) =
    AList.update (auth_ID (sm_auth meta)) (reevaluate (mo_modelKey m) now
      \<lparr>sa_meta = meta, sa_state = scheduledStateReady, sa_nextRetryAt = zero_time\<rparr>) (mo_entries m)"
  "mo_modelKey (upsertEntryLocked m meta now) = mo_modelKey m"
  by (simp_all add: upsertEntryLocked_def Let_def split: option.split)

lemma fold_upsert_settled:
  assumes "all_settled k now sh" and "mo_modelKey sh = k"
  shows "all_settled k now (fold (\<lambda>(_, meta) shard.
     if \<not> supportsModel meta k' then shard else upsertEntryLocked shard meta now) metas sh)"
  using assms
proof (induction metas arbitrary: sh)
  case (Cons m metas)
  obtain i meta where m: "m = (i, meta)" by force
  have "all_settled k now (upsertEntryLocked sh meta now)"
    using Cons.prems reevaluate_settled unfolding all_settled_def upsert_entries
    by (auto simp: update_conv' split: if_splits)
  with Cons.IH Cons.prems m show ?case by (simp add: upsert_entries)
qed simp

lemma ensure_settled:
  assumes "provider_inv t p" and "t \<le> now" and "0 \<le> now" and "ensureModelLocked p key now = (p', sh)"
  shows "all_settled (canonicalModelKey key) now sh"
proof (cases "map_of (ps_modelShards p) (canonicalModelKey key)")
  case None
  with assms(4) fold_upsert_settled [of "canonicalModelKey key" now "empty_shard (canonicalModelKey key)"]
  show ?thesis by (auto simp: ensureModelLocked_def Let_def all_settled_def empty_shard_def)
next
  case (Some x)
  then have "shard_inv (canonicalModelKey key) t x" using assms(1) by (auto simp: provider_inv_def shards_inv_def)
  with shard_inv_promote [OF this assms(2,3)] Some assms(4) show ?thesis
    by (auto simp: ensureModelLocked_def Let_def all_settled_def)
qed

lemma ensure_shard_inv:
  assumes "sched_inv t s" and "t \<le> now" and "ensure_shard s pk key now = (s', sh)"
  shows "sched_inv now s' \<and> (\<forall>m. sh = Some m \<longrightarrow> shard_inv (canonicalModelKey key) now m
    \<and> all_settled (canonicalModelKey key) now m)"
proof (cases "map_of (as_providers s) pk")
  case None
  with assms sched_inv_mono [OF assms(1,2)] show ?thesis by (auto simp: ensure_shard_def)
next
  case (Some p)
  have now: "0 \<le> now" using assms(1,2) by (auto simp: sched_inv_def)
  have p: "provider_inv t p" using assms(1) Some by (simp add: sched_inv_def)
  obtain p' m where e: "ensureModelLocked p key now = (p', m)" by force
  from ensure_inv [OF p assms(2) now e] ensure_settled [OF p assms(2) now e] assms(3) Some e
    sched_inv_put_provider [OF sched_inv_mono [OF assms(1,2)]]
  show ?thesis by (auto simp: ensure_shard_def)
qed

lemma put_shard_inv:
  assumes "sched_inv t s" and "shard_inv k t m"
  shows "sched_inv t (put_shard s pk m)"
proof -
  have "mo_modelKey m = k" using assms(2) by (simp add: shard_inv_def)
  then show ?thesis using assms shards_inv_update
    by (auto simp: put_shard_def sched_inv_def provider_inv_def split: option.split)
qed

lemma predicate_suits:
  "suits strategy (scheduledAuthPredicate el tried pinned (strategy = schedulerStrategyWeightedRoundRobin))"
  by (simp add: suits_def scheduledAuthPredicate_def)

definition eligible :: "pick_request \<Rightarrow> Auth \<Rightarrow> bool" where
  "eligible req a \<longleftrightarrow> allows (rq_eligibility req) a \<and> auth_ID a \<notin> set (rq_tried req)
     \<and> (rq_pinnedAuthID req \<noteq> [] \<longrightarrow> auth_ID a = rq_pinnedAuthID req)"

lemma predicate_eligible:
  "scheduledAuthPredicate (rq_eligibility req) (rq_tried req) (rq_pinnedAuthID req) w e \<Longrightarrow> eligible req (sa_auth e)"
  by (auto simp: scheduledAuthPredicate_def eligible_def entry_id_def split: if_splits)

lemma pick_in_shard_sound:
  assumes "sched_inv t s" and "t \<le> now1" and "now1 \<le> now2" and "suits strategy predicate"
    and "pick_in_shard s pk key model pw strategy predicate prov now1 now2 now3 = (s', r)"
  shows "sched_inv now2 s' \<and> (\<forall>a. r = Inr a \<longrightarrow>
    (\<exists>e. sa_auth e = a \<and> predicate e) \<and> \<not> is_blocked (isAuthBlockedForModel a (canonicalModelKey key) now2))"
proof -
  obtain s1 sh where e: "ensure_shard s pk key now1 = (s1, sh)" by force
  note inv1 = ensure_shard_inv [OF assms(1,2) e]
  have inv2: "sched_inv now2 s1" using inv1 sched_inv_mono [OF _ assms(3)] by blast
  have now2: "0 \<le> now2" using inv2 by (simp add: sched_inv_def)
  show ?thesis
  proof (cases sh)
    case None
    with assms(5) e inv2 show ?thesis by (auto simp: pick_in_shard_def)
  next
    case (Some m)
    obtain m' picked where pk: "pickReadyLocked m pw strategy predicate now2 = (m', picked)" by force
    have m: "shard_inv (canonicalModelKey key) now1 m" using inv1 Some by blast
    note inv' = shard_inv_pick [OF m assms(3) now2 assms(4) pk]
    have "sched_inv now2 (put_shard s1 x m')" for x using put_shard_inv [OF inv2] inv' by blast
    with assms(5) e Some pk pickReadyLocked_sound [OF m assms(3) now2 assms(4)] show ?thesis
      by (auto simp: pick_in_shard_def split: option.splits)
  qed
qed

lemma pickAtPriority_sound:
  assumes "shard_inv k now m" and "all_settled k now m" and "suits strategy predicate"
    and "pickReadyAtPriorityLocked m False p strategy predicate = (m', picked)"
  shows "shard_inv k now m' \<and> (\<forall>e. picked = Some e \<longrightarrow> predicate e
    \<and> \<not> is_blocked (isAuthBlockedForModel (sa_auth e) k now))"
proof -
  have ix: "indexed m" using assms(1) by (simp add: shard_inv_def)
  have "predicate e \<and> \<not> is_blocked (isAuthBlockedForModel (sa_auth e) k now)" if e: "picked = Some e" for e
  proof -
    obtain bucket where b: "map_of (mo_readyByPriority m) p = Some bucket"
      using assms(4) e by (auto simp: pickReadyAtPriorityLocked_def split: option.splits)
    obtain view' where "pick_from_view m strategy predicate (rk_all bucket) = (view', Some e)"
      using assms(4) e b by (auto simp: pickReadyAtPriorityLocked_def split: prod.splits)
    from pick_from_view_spec [OF this assms(3)] bucket_entries(1) [OF ix b] assms(2)
    show ?thesis by (auto simp: all_settled_def settled_def)
  qed
  with pickReadyAtPriority_frame [OF assms(4,3)] assms(1) show ?thesis by (simp add: shard_inv_def)
qed

lemma candidate_shards_inv:
  assumes "sched_inv t s" and "t \<le> now" and "candidate_shards s pks key predicate now best = (s', shards, b)"
  shows "sched_inv now s' \<and> (\<forall>m. Some m \<in> set shards \<longrightarrow>
    shard_inv (canonicalModelKey key) now m \<and> all_settled (canonicalModelKey key) now m)"
  using assms
proof (induction pks arbitrary: s t best shards b)
  case Nil
  with sched_inv_mono [OF Nil.prems(1,2)] show ?case by simp
next
  case (Cons pk pks)
  obtain s1 sh where e: "ensure_shard s pk key now = (s1, sh)" by force
  note inv1 = ensure_shard_inv [OF Cons.prems(1,2) e]
  obtain best' shards' b' where c: "candidate_shards s1 pks key predicate now best' = (s', shards', b')"
    and sh: "shards = sh # shards'"
    using Cons.prems(3) e by (auto simp: Let_def split: prod.splits)
  from Cons.IH [OF _ order_refl c] inv1 sh show ?case by auto
qed

lemma first_pick_sound:
  assumes "sched_inv now s" and "suits strategy predicate" and "first_pick s cs best strategy predicate = (s', r)"
    and "\<forall>pk m. (pk, Some m) \<in> set cs \<longrightarrow> shard_inv k now m \<and> all_settled k now m"
  shows "sched_inv now s' \<and> (\<forall>a pk. r = Some (a, pk) \<longrightarrow>
    (\<exists>e. sa_auth e = a \<and> predicate e) \<and> \<not> is_blocked (isAuthBlockedForModel a k now))"
  using assms
proof (induction s cs best strategy predicate rule: first_pick.induct)
  case (3 s pk shard cs best strategy predicate)
  obtain m' picked where p: "pickReadyAtPriorityLocked shard False best strategy predicate = (m', picked)" by force
  have "shard_inv k now shard" "all_settled k now shard" using "3.prems"(4) by auto
  note sound = pickAtPriority_sound [OF this "3.prems"(2) p]
  have put: "sched_inv now (put_shard s pk m')" using put_shard_inv "3.prems"(1) sound by blast
  show ?case
  proof (cases picked)
    case None
    with 3 p put show ?thesis by simp
  next
    case (Some e)
    with "3.prems"(3) p put sound show ?thesis by auto
  qed
qed auto

lemma mixed_loop_sound:
  assumes "sched_inv now s"
    and "mixed_loop s normalized shards weights segs start slot best predicate key offsets = (s', r)"
    and "\<forall>m. Some m \<in> set shards \<longrightarrow> shard_inv k now m \<and> all_settled k now m" and "length shards = length normalized"
    and "normalized \<noteq> []"
  shows "sched_inv now s' \<and> (\<forall>a pk. r = Some (a, pk) \<longrightarrow>
    (\<exists>e. sa_auth e = a \<and> predicate e) \<and> \<not> is_blocked (isAuthBlockedForModel a k now))"
  using assms(1,2)
proof (induction offsets arbitrary: s slot)
  case (Cons offset offsets)
  define i where "i = (start + offset) mod length normalized"
  have i: "i < length shards" using assms(4,5) by (simp add: i_def)
  define slot' where "slot' = (if i \<noteq> start then fst (segs ! i) else slot)"
  have suit: "suits schedulerStrategyRoundRobin predicate" by (simp add: suits_def)
  show ?case
  proof (cases "weights ! i = 0 \<or> shards ! i = None")
    case True
    then have "\<exists>sl. mixed_loop s normalized shards weights segs start sl best predicate key offsets = (s', r)"
    proof
      assume "weights ! i = 0"
      with Cons.prems(2) show ?thesis by (auto simp: Let_def i_def [symmetric])
    next
      assume "shards ! i = None"
      with Cons.prems(2) show ?thesis by (cases "weights ! i = 0") (auto simp: Let_def i_def [symmetric])
    qed
    with Cons.IH Cons.prems(1) show ?thesis by blast
  next
    case False
    then obtain m where m: "shards ! i = Some m" by auto
    then have "Some m \<in> set shards" using i by (metis nth_mem)
    then have inv: "shard_inv k now m" "all_settled k now m" using assms(3) by auto
    obtain m' picked where p: "pickReadyAtPriorityLocked m False best schedulerStrategyRoundRobin predicate = (m', picked)"
      by force
    note sound = pickAtPriority_sound [OF inv suit p]
    have put: "sched_inv now (put_shard s pk m')" for pk using put_shard_inv Cons.prems(1) sound by blast
    show ?thesis
    proof (cases picked)
      case None
      then have "mixed_loop (put_shard s (normalized ! i) m') normalized shards weights segs start slot' best predicate
          key offsets = (s', r)"
        using Cons.prems(2) False m p by (simp add: Let_def i_def [symmetric] slot'_def)
      with Cons.IH put show ?thesis by blast
    next
      case (Some e)
      then have "s' = (put_shard s (normalized ! i) m')\<lparr>as_mixedCursors :=
          AList.update key (int slot' + 1) (as_mixedCursors s)\<rparr>" "r = Some (sa_auth e, normalized ! i)"
        using Cons.prems(2) False m p by (simp_all add: Let_def i_def [symmetric] slot'_def)
      with put sound Some show ?thesis by auto
    qed
  qed
qed simp

lemma candidate_length:
  "candidate_shards s pks key predicate now best = (s', shards, b) \<Longrightarrow> length shards = length pks"
  by (induction pks arbitrary: s best shards b) (auto simp: Let_def split: prod.splits)

lemma gather_inv:
  "sched_inv t s \<Longrightarrow> t \<le> now \<Longrightarrow> gather_errors s pks model predicate now su me ae = (s', x) \<Longrightarrow> sched_inv now s'"
proof (induction pks arbitrary: s t su me ae)
  case Nil
  with sched_inv_mono show ?case by auto
next
  case (Cons pk pks)
  obtain s1 sh where e: "ensure_shard s pk (canonicalModelKey model) now = (s1, sh)" by force
  have "sched_inv now s1" using ensure_shard_inv [OF Cons.prems(1,2) e] by blast
  moreover obtain su' me' ae' where "gather_errors s1 pks model predicate now su' me' ae' = (s', x)"
    using Cons.prems(3) e by (auto simp: Let_def split: option.splits prod.splits)
  ultimately show ?case using Cons.IH by blast
qed

end
