(* ===== verification/Dispatch.thy ===== *)
theory Dispatch
  imports Scheduler
begin

text \<open>
  What the scheduler promises over a whole run (\<open>sdk/cliproxy/auth/scheduler.go\<close>): reachable
  schedulers, soundness of single and mixed picks, the order of snapshots, the cooldown error.
\<close>

section \<open>Every pick is sound\<close>

lemma pickReadyLocked_None:
  assumes "pickReadyLocked m pw strategy predicate now = (m', None)" and "suits strategy predicate"
  shows "pickReadyLocked m False strategy predicate now = (m', None)"
proof (cases pw)
  case True
  define m1 where "m1 = promoteExpiredLocked m now"
  define ok where "ok = (\<lambda>p. case map_of (mo_readyByPriority m1) p of
      None \<Rightarrow> False | Some bucket \<Rightarrow> pickFirst predicate (view_entries m1 (rk_ws bucket)) \<noteq> None)"
  note d = pickReadyLocked_def highestReadyPriorityLocked_def m1_def [symmetric] Let_def ok_def [symmetric]
  show ?thesis
  proof (cases "first_priority ok (mo_priorityOrder m1)")
    case None
    then have nok: "\<not> ok p" if "p \<in> set (mo_priorityOrder m1)" for p
      using that first_priority_spec(1) by blast
    have "pickReadyAtPriorityLocked m1 True p strategy predicate = pickReadyAtPriorityLocked m1 False p strategy predicate"
      if "p \<in> set (mo_priorityOrder m1)" for p
      using nok [OF that] by (auto simp: pickReadyAtPriorityLocked_def ok_def split: option.split)
    moreover note first_priority_spec(2)
    ultimately show ?thesis using assms(1) True None by (auto simp: d split: option.splits)
  next
    case (Some p)
    then have "ok p" using first_priority_spec(2) by blast
    then obtain bucket where b: "map_of (mo_readyByPriority m1) p = Some bucket"
      and some: "pickFirst predicate (view_entries m1 (rk_ws bucket)) \<noteq> None"
      by (auto simp: ok_def split: option.splits)
    have "pickReadyAtPriorityLocked m1 True p strategy predicate = (m', None)"
      using assms(1) True Some by (simp add: d)
    with b some obtain view where "pick_from_view m1 strategy predicate (rk_ws bucket) = (view, None)"
      by (auto simp: pickReadyAtPriorityLocked_def split: prod.splits)
    from pick_from_view_spec [OF this assms(2)] some show ?thesis
      by (auto simp: pickFirst_def find_None_iff)
  qed
qed (use assms in simp)

lemma put_shard_get:
  "map_of (as_providers s) pk = Some p \<Longrightarrow>
   map_of (as_providers (put_shard s pk m)) pk =
     Some (p\<lparr>ps_modelShards := AList.update (mo_modelKey m) m (ps_modelShards p)\<rparr>)"
  by (simp add: put_shard_def)

lemma pick_in_shard_complete:
  assumes "sched_inv t s" and "t \<le> now1" and "now1 \<le> now2" and "suits strategy predicate"
    and "pick_in_shard s pk key model pw strategy predicate prov now1 now2 now3 = (s', Inl err)"
    and "map_of (as_providers s') pk = Some p'"
    and "map_of (ps_modelShards p') (canonicalModelKey key) = Some m"
    and "map_of (mo_entries m) i = Some e" and "predicate e"
  shows "is_blocked (isAuthBlockedForModel (sa_auth e) (canonicalModelKey key) now2)"
proof -
  obtain s1 sh where e: "ensure_shard s pk key now1 = (s1, sh)" by force
  note inv1 = ensure_shard_inv [OF assms(1,2) e]
  show ?thesis
  proof (cases sh)
    case None
    with assms(5) e have "s' = s1" by (auto simp: pick_in_shard_def)
    with None assms(6) e show ?thesis by (auto simp: ensure_shard_def split: option.splits prod.splits)
  next
    case (Some m0)
    obtain m' picked where pk: "pickReadyLocked m0 pw strategy predicate now2 = (m', picked)" by force
    with assms(5) e Some have none: "picked = None" and s': "s' = put_shard s1 pk m'"
      by (auto simp: pick_in_shard_def split: option.splits)
    have m0: "shard_inv (canonicalModelKey key) now1 m0" using inv1 Some by blast
    have now2: "0 \<le> now2" using inv1 assms(3) by (auto simp: sched_inv_def)
    have "mo_modelKey m' = canonicalModelKey key"
      using shard_inv_pick [OF m0 assms(3) now2 assms(4) pk] by (simp add: shard_inv_def)
    moreover obtain p1 where "map_of (as_providers s1) pk = Some p1"
      using e Some by (auto simp: ensure_shard_def split: option.splits prod.splits)
    ultimately have "m = m'" using assms(6,7) s' by (auto simp: put_shard_get)
    with pickReadyLocked_spec [OF m0 assms(3) now2 assms(4) pickReadyLocked_None [OF pk [unfolded none] assms(4)]]
      assms(8,9) show ?thesis by auto
  qed
qed

lemma pick_weighted_mixed_sound:
  assumes "sched_inv now s" and "\<forall>m. Some m \<in> set shards \<longrightarrow> shard_inv k now m \<and> all_settled k now m"
    and "pick_weighted_mixed s shards best key predicate = (s', r)"
  shows "sched_inv now s' \<and> (\<forall>a pk. r = Some (a, pk) \<longrightarrow>
    (\<exists>e. sa_auth e = a \<and> predicate e) \<and> \<not> is_blocked (isAuthBlockedForModel a k now))"
proof -
  define entries where "entries = mixed_entries shards best"
  define st where "st = prepare (get_or empty_smooth (as_mixedWeightedStates s) key)
    (scheduledWeightVectorMatching predicate entries)"
  obtain c picked where p: "smooth_pick entry_id entry_weight predicate entries (sw_current st) = (c, picked)" by force
  have r: "r = map_option (\<lambda>e. (sa_auth e, sm_providerKey (sa_meta e))) picked" and "sched_inv now s'"
    using assms(1,3) p by (auto simp: pick_weighted_mixed_def Let_def pickSmoothWeightedScheduled_def
        entries_def [symmetric] st_def [symmetric])
  moreover have "predicate e \<and> \<not> is_blocked (isAuthBlockedForModel (sa_auth e) k now)" if e: "picked = Some e" for e
  proof -
    have mem: "e \<in> set entries" "predicate e" using smooth_pick_mem [OF p] e by (auto simp: admitted_def)
    from mem(1) obtain m bucket where "Some m \<in> set shards" and b: "map_of (mo_readyByPriority m) best = Some bucket"
      and v: "e \<in> set (view_entries m (rk_all bucket))"
      unfolding entries_def mixed_entries_def by (auto split: option.splits) metis
    then have m: "indexed m" "all_settled k now m" using assms(2) by (auto simp: shard_inv_def)
    from bucket_entries(1) [OF m(1) b] v m(2) mem(2) show ?thesis by (auto simp: all_settled_def settled_def)
  qed
  ultimately show ?thesis by auto
qed

lemma pick_rotating_mixed_sound:
  assumes "sched_inv now s" and "\<forall>m. Some m \<in> set shards \<longrightarrow> shard_inv k now m \<and> all_settled k now m"
    and "pick_rotating_mixed s normalized shards best key predicate = (s', r)"
    and "length shards = length normalized" and "normalized \<noteq> []"
  shows "sched_inv now s' \<and> (\<forall>a pk. r = Some (a, pk) \<longrightarrow>
    (\<exists>e. sa_auth e = a \<and> predicate e) \<and> \<not> is_blocked (isAuthBlockedForModel a k now))"
  using assms(1,3) mixed_loop_sound [OF assms(1) _ assms(2,4,5)]
  by (auto simp: pick_rotating_mixed_def Let_def split: if_splits option.splits)

lemma or_unavailable_sound:
  assumes "sched_inv now1 s1 \<and> (\<forall>a pk. x = Some (a, pk) \<longrightarrow> P a)" and "now1 \<le> now3"
    and "or_unavailable (s1, x) normalized model predicate now3 = (s', r)"
  shows "sched_inv now3 s' \<and> (\<forall>a pk. r = Inr (a, pk) \<longrightarrow> P a)"
proof (cases x)
  case None
  obtain s2 err where e: "mixedUnavailableErrorLocked s1 normalized model predicate now3 = (s2, err)" by force
  then have "sched_inv now3 s2"
    using assms(1) gather_inv [OF _ assms(2)] by (auto simp: mixedUnavailableErrorLocked_def split: prod.splits)
  with assms(3) None e show ?thesis by (auto simp: or_unavailable_def)
next
  case (Some ap)
  with assms sched_inv_mono [OF _ assms(2)] show ?thesis by (auto simp: or_unavailable_def)
qed

text \<open>A credential a pick may return: admitted by the request and not blocked at the instant \<open>now\<close>.\<close>

definition servable :: "pick_request \<Rightarrow> string \<Rightarrow> time \<Rightarrow> Auth \<Rightarrow> bool" where
  "servable req key now a \<longleftrightarrow> eligible req a \<and> \<not> is_blocked (isAuthBlockedForModel a key now)"

lemma single_sound:
  assumes "sched_inv t s" and "t \<le> now1" and "now1 \<le> now2"
    and "pickSingleWithStrategy s provider model req strategy now1 now2 now3 = (s', r)"
  shows "sched_inv now2 s' \<and> (\<forall>a. r = Inr a \<longrightarrow> servable req (canonicalModelKey (canonicalModelKey model)) now2 a)"
proof -
  let ?st = "case strategy of None \<Rightarrow> as_strategy s | Some st \<Rightarrow> st"
  obtain pw where p: "pick_in_shard s (to_lower (trim_space provider)) (canonicalModelKey model) model pw ?st
      (scheduledAuthPredicate (rq_eligibility req) (rq_tried req) (rq_pinnedAuthID req)
        (?st = schedulerStrategyWeightedRoundRobin)) provider now1 now2 now3 = (s', r)"
    using assms(4) by (simp add: pickSingleWithStrategy_def Let_def)
  from pick_in_shard_sound [OF assms(1-3) predicate_suits p] show ?thesis
    using predicate_eligible by (fastforce simp: servable_def)
qed

lemma pinned_sound:
  assumes "sched_inv t s" and "t \<le> now1" and "now1 \<le> now2" and "rq_pinnedAuthID req = pinned"
    and "pick_in_shard s pk (canonicalModelKey model) model False strategy
      (scheduledAuthPredicate (rq_eligibility req) (rq_tried req) pinned (strategy = schedulerStrategyWeightedRoundRobin))
      prov now1 now2 now3 = (s', r)"
  shows "sched_inv now2 s' \<and> (\<forall>a. r = Inr a \<longrightarrow> servable req (canonicalModelKey (canonicalModelKey model)) now2 a)"
  using pick_in_shard_sound [OF assms(1-3) predicate_suits assms(5)] assms(4) predicate_eligible
  by (fastforce simp: servable_def)

text \<open>The pick across two or more providers, after their shards have been fetched.\<close>

definition across_pick ::
  "authScheduler \<Rightarrow> string list \<Rightarrow> modelScheduler option list \<Rightarrow> int option \<Rightarrow> schedulerStrategy \<Rightarrow> string
   \<Rightarrow> (scheduledAuth \<Rightarrow> bool) \<Rightarrow> authScheduler \<times> (Auth \<times> string) option"
where
  "across_pick s normalized shards best strategy key predicate =
     (case best of None \<Rightarrow> (s, None)
      | Some b \<Rightarrow>
          if strategy = schedulerStrategyFillFirst then first_pick s (zip normalized shards) b strategy predicate
          else if strategy = schedulerStrategyWeightedRoundRobin then pick_weighted_mixed s shards b key predicate
          else pick_rotating_mixed s normalized shards b key predicate)"

abbreviation strategy_for :: "authScheduler \<Rightarrow> schedulerStrategy option \<Rightarrow> schedulerStrategy" where
  "strategy_for s strategy0 \<equiv> (case strategy0 of None \<Rightarrow> as_strategy s | Some st \<Rightarrow> st)"

abbreviation request_predicate :: "pick_request \<Rightarrow> schedulerStrategy \<Rightarrow> scheduledAuth \<Rightarrow> bool" where
  "request_predicate req strategy \<equiv> scheduledAuthPredicate (rq_eligibility req) (rq_tried req) (rq_pinnedAuthID req)
     (strategy = schedulerStrategyWeightedRoundRobin)"

lemma pickMixed_pinned:
  assumes "normalizeProviderKeys providers = p # q # ps" and "rq_pinnedAuthID req \<noteq> []"
    and "pk = get_or [] (as_authProviders s) (rq_pinnedAuthID req)"
    and "pick_in_shard s pk (canonicalModelKey model) model False (strategy_for s strategy0)
      (request_predicate req (strategy_for s strategy0)) ''mixed'' now1 now2 now3 = (s1, r1)"
  shows "pickMixedWithStrategy s providers model req strategy0 now1 now2 now3 =
    (if pk = [] \<or> pk \<notin> set (p # q # ps) then (s, Inl (SchedNotFound None))
     else case r1 of Inl e \<Rightarrow> (s1, Inl e) | Inr a \<Rightarrow> (s1, Inr (a, pk)))"
  unfolding pickMixedWithStrategy_def Let_def assms(1) list.case if_P [OF assms(2)] assms(3) [symmetric] assms(4)
    prod.case by (rule refl)

lemma pickMixed_across:
  assumes "normalizeProviderKeys providers = p # q # ps" and "rq_pinnedAuthID req = []"
    and "candidate_shards s (p # q # ps) (canonicalModelKey model) (request_predicate req (strategy_for s strategy0))
      now1 None = (s1, shards, best)"
  shows "pickMixedWithStrategy s providers model req strategy0 now1 now2 now3 =
    or_unavailable (across_pick s1 (p # q # ps) shards best (strategy_for s strategy0)
        (join_keys (p # q # ps) @ '':'' @ canonicalModelKey model) (request_predicate req (strategy_for s strategy0)))
      (p # q # ps) model (request_predicate req (strategy_for s strategy0)) now3"
  by (simp only: pickMixedWithStrategy_def Let_def assms(1) list.case if_not_P not_not assms(2)
      assms(3) [unfolded assms(2)] prod.case if_False simp_thms across_pick_def)

lemma across_sound:
  assumes "sched_inv t s" and "t \<le> now1" and "normalized \<noteq> []" and "predicate = request_predicate req strategy"
    and c: "candidate_shards s normalized (canonicalModelKey model) predicate now1 None = (s1, shards, best)"
    and x: "across_pick s1 normalized shards best strategy key predicate = (s2, r)"
  shows "sched_inv now1 s2 \<and> (\<forall>a pk. r = Some (a, pk) \<longrightarrow>
    servable req (canonicalModelKey (canonicalModelKey model)) now1 a)"
proof -
  let ?k = "canonicalModelKey (canonicalModelKey model)"
  note inv = candidate_shards_inv [OF assms(1,2) c]
  have suit: "suits strategy predicate" using predicate_suits assms(4) by simp
  have len: "length shards = length normalized" using candidate_length [OF c] .
  have zip: "\<forall>pk m. (pk, Some m) \<in> set (zip normalized shards) \<longrightarrow> shard_inv ?k now1 m \<and> all_settled ?k now1 m"
    using inv by (meson set_zip_rightD)
  have "sched_inv now1 s2 \<and> (\<forall>a pk. r = Some (a, pk) \<longrightarrow>
      (\<exists>e. sa_auth e = a \<and> predicate e) \<and> \<not> is_blocked (isAuthBlockedForModel a ?k now1))"
  proof (cases best)
    case None
    with x inv show ?thesis by (simp add: across_pick_def)
  next
    case (Some b)
    have s1: "sched_inv now1 s1" "\<forall>m. Some m \<in> set shards \<longrightarrow> shard_inv ?k now1 m \<and> all_settled ?k now1 m"
      using inv by blast+
    consider "first_pick s1 (zip normalized shards) b strategy predicate = (s2, r)"
      | "pick_weighted_mixed s1 shards b key predicate = (s2, r)"
      | "pick_rotating_mixed s1 normalized shards b key predicate = (s2, r)"
      using x Some by (auto simp: across_pick_def split: if_splits)
    then show ?thesis
      using first_pick_sound [OF s1(1) suit _ zip] pick_weighted_mixed_sound [OF s1]
        pick_rotating_mixed_sound [OF s1 _ len assms(3)]
      by cases blast+
  qed
  then show ?thesis using predicate_eligible assms(4) by (auto simp: servable_def)
qed

lemma mixed_cases:
  obtains (none) "normalizeProviderKeys providers = []" | (one) pk where "normalizeProviderKeys providers = [pk]"
    | (more) p q ps where "normalizeProviderKeys providers = p # q # ps"
  by (metis neq_Nil_conv)

lemma mixed_sound:
  assumes inv: "sched_inv t s" and time: "t \<le> now1" "now1 \<le> now2" "now2 \<le> now3"
    and pick: "pickMixedWithStrategy s providers model req strategy0 now1 now2 now3 = (s', r)"
  shows "sched_inv now3 s' \<and> (\<forall>a pk. r = Inr (a, pk) \<longrightarrow>
    (\<exists>now \<in> {now1, now2}. servable req (canonicalModelKey (canonicalModelKey model)) now a))"
proof -
  have mono: "sched_inv now3 s''" if "sched_inv now2 s''" for s'' using sched_inv_mono [OF that time(3)] .
  have now3: "sched_inv now3 s" by (rule sched_inv_mono [OF inv]) (use time in linarith)
  show ?thesis
  proof (cases rule: mixed_cases [of providers])
    case none
    with pick now3 show ?thesis by (auto simp: pickMixedWithStrategy_def)
  next
    case (one pk)
    obtain s1 r1 where p: "pickSingleWithStrategy s pk model req strategy0 now1 now2 now3 = (s1, r1)" by force
    with pick one single_sound [OF inv time(1,2) p] mono show ?thesis
      by (auto simp: pickMixedWithStrategy_def split: sum.splits)
  next
    case (more p q ps)
    show ?thesis
    proof (cases "rq_pinnedAuthID req = []")
      case False
      obtain s1 r1 where p: "pick_in_shard s (get_or [] (as_authProviders s) (rq_pinnedAuthID req))
          (canonicalModelKey model) model False (strategy_for s strategy0)
          (request_predicate req (strategy_for s strategy0)) ''mixed'' now1 now2 now3 = (s1, r1)" by force
      with pinned_sound [OF inv time(1,2) refl p] pickMixed_pinned [OF more False refl p] pick mono now3
      show ?thesis by (auto split: sum.splits if_splits)
    next
      case True
      obtain s1 shards best where c: "candidate_shards s (p # q # ps) (canonicalModelKey model)
          (request_predicate req (strategy_for s strategy0)) now1 None = (s1, shards, best)" by (metis prod_cases3)
      obtain s2 x where x: "across_pick s1 (p # q # ps) shards best (strategy_for s strategy0)
          (join_keys (p # q # ps) @ '':'' @ canonicalModelKey model) (request_predicate req (strategy_for s strategy0))
          = (s2, x)" by force
      note sound = across_sound [OF inv time(1) list.distinct(2) refl c x]
      from or_unavailable_sound [OF sound _ trans [OF pickMixed_across [OF more True c, unfolded x, symmetric] pick]]
        time show ?thesis by fastforce
    qed
  qed
qed

section \<open>Reachable schedulers\<close>

lemma new_inv: "0 \<le> t \<Longrightarrow> sched_inv t (newAuthScheduler selector)"
  by (simp add: newAuthScheduler_def sched_inv_def)

lemma remove_inv: "sched_inv t s \<Longrightarrow> sched_inv t (removeAuth s i now)"
  by (simp add: removeAuth_def removeAuthLocked_def Let_def record_inv remove_from_providers_inv)

lemma tombstone_inv: "sched_inv t s \<Longrightarrow> sched_inv t (RecordRemovalTombstone s i e now)"
  by (simp add: RecordRemovalTombstone_def Let_def record_inv remove_from_providers_inv split: option.split)

lemma rebuild_inv:
  assumes "0 \<le> now"
  shows "sched_inv now (rebuild registry s auths now)"
proof -
  have "sched_inv now s' \<Longrightarrow> sched_inv now (fold (\<lambda>auth s. upsertAuthLifecycleLocked registry s auth now) auths s')" for s'
    by (induction auths arbitrary: s') (simp_all add: lifecycle_inv)
  moreover have "sched_inv now (s\<lparr>as_providers := [], as_authProviders := [], as_mixedCursors := [],
      as_mixedWeightedStates := []\<rparr>)" using assms by (simp add: sched_inv_def)
  ultimately show ?thesis by (simp add: rebuild_def)
qed

inductive sched_reach :: "time \<Rightarrow> authScheduler \<Rightarrow> bool" where
  created: "0 \<le> t \<Longrightarrow> sched_reach t (newAuthScheduler selector)"
| selector: "sched_reach t s \<Longrightarrow> sched_reach t (setSelector s sel)"
| rebuilt: "sched_reach t s \<Longrightarrow> t \<le> now \<Longrightarrow> sched_reach now (rebuild registry s auths now)"
| lifecycle: "sched_reach t s \<Longrightarrow> t \<le> now \<Longrightarrow> sched_reach now (upsertAuthLifecycleLocked registry s auth now)"
| result: "sched_reach t s \<Longrightarrow> t \<le> now \<Longrightarrow>
    sched_reach now (upsertAuthResultLocked registry s auth targets scoped now)"
| removed: "sched_reach t s \<Longrightarrow> t \<le> now \<Longrightarrow> sched_reach now (removeAuth s i now)"
| tombstone: "sched_reach t s \<Longrightarrow> t \<le> now \<Longrightarrow> sched_reach now (RecordRemovalTombstone s i e now)"
| reset: "sched_reach t s \<Longrightarrow> sched_reach t (ResetAuthGeneration s i)"
| single: "sched_reach t s \<Longrightarrow> t \<le> now1 \<Longrightarrow> now1 \<le> now2 \<Longrightarrow> now2 \<le> now3 \<Longrightarrow>
    pickSingleWithStrategy s provider model req strategy now1 now2 now3 = (s', r) \<Longrightarrow> sched_reach now3 s'"
| mixed: "sched_reach t s \<Longrightarrow> t \<le> now1 \<Longrightarrow> now1 \<le> now2 \<Longrightarrow> now2 \<le> now3 \<Longrightarrow>
    pickMixedWithStrategy s providers model req strategy now1 now2 now3 = (s', r') \<Longrightarrow> sched_reach now3 s'"

inductive_cases sched_reachE: "sched_reach t s"

lemma sched_reach_inv: "sched_reach t s \<Longrightarrow> sched_inv t s"
proof (induction rule: sched_reach.induct)
  case (rebuilt t s now registry auths)
  then show ?case by (intro rebuild_inv) (auto simp: sched_inv_def)
next
  case (single t s now1 now2 now3 provider model req strategy s' r)
  then show ?case using single_sound sched_inv_mono by metis
next
  case (mixed t s now1 now2 now3 providers model req strategy s' r')
  then show ?case using mixed_sound by metis
qed (auto simp: new_inv setSelector_def lifecycle_inv result_inv ResetAuthGeneration_def Let_def
    intro: remove_inv tombstone_inv sched_inv_mono)

section \<open>Where a credential is listed\<close>

text \<open>
  A credential is in the lists of the one provider the scheduler remembers for it, and a shard holds
  only credentials its provider lists. The scheduler remembers the ID without surrounding white
  space but lists the credential under the ID as it is, so this holds of IDs without such space.
\<close>

definition shards_listed :: "providerScheduler \<Rightarrow> bool" where
  "shards_listed p \<longleftrightarrow> (\<forall>k m i. map_of (ps_modelShards p) k = Some m \<longrightarrow> map_of (mo_entries m) i \<noteq> None \<longrightarrow>
     map_of (ps_auths p) i \<noteq> None)"

definition listed :: "authScheduler \<Rightarrow> bool" where
  "listed s \<longleftrightarrow> (\<forall>pk p. map_of (as_providers s) pk = Some p \<longrightarrow> shards_listed p
     \<and> (\<forall>i. map_of (ps_auths p) i \<noteq> None \<longrightarrow> trim_space i = i \<longrightarrow>
          pk \<noteq> [] \<and> map_of (as_authProviders s) i = Some pk))"

text \<open>No provider lists the credential and no shard holds it.\<close>

definition absent :: "authScheduler \<Rightarrow> string \<Rightarrow> bool" where
  "absent s i \<longleftrightarrow> (\<forall>pk p. map_of (as_providers s) pk = Some p \<longrightarrow> map_of (ps_auths p) i = None
     \<and> (\<forall>k m. map_of (ps_modelShards p) k = Some m \<longrightarrow> map_of (mo_entries m) i = None))"

lemma removeEntry_get:
  "map_of (mo_entries (removeEntryLocked m i)) j = (if i \<noteq> [] \<and> j = i then None else map_of (mo_entries m) j)"
  by (auto simp: removeEntryLocked_def has_key_def)

lemma sync_get:
  "map_of (mo_entries (syncShard meta now k m)) i \<noteq> None \<Longrightarrow>
   map_of (mo_entries m) i \<noteq> None \<or> i = auth_ID (sm_auth meta)"
  by (auto simp: syncShard_def removeEntry_get upsert_entries split: if_splits)

definition entries_within :: "(string, modelScheduler) gomap \<Rightarrow> string set \<Rightarrow> bool" where
  "entries_within shards A \<longleftrightarrow> (\<forall>k m i. map_of shards k = Some m \<longrightarrow> map_of (mo_entries m) i \<noteq> None \<longrightarrow> i \<in> A)"

lemma shards_listed_within: "shards_listed p \<longleftrightarrow> entries_within (ps_modelShards p) {i. map_of (ps_auths p) i \<noteq> None}"
  by (simp add: shards_listed_def entries_within_def)

lemma within_mono: "entries_within shs A \<Longrightarrow> A \<subseteq> B \<Longrightarrow> entries_within shs B"
  unfolding entries_within_def by blast

lemma within_update:
  "entries_within shs A \<Longrightarrow> \<forall>i. map_of (mo_entries m) i \<noteq> None \<longrightarrow> i \<in> A \<Longrightarrow> entries_within (AList.update k m shs) A"
  by (simp add: entries_within_def)

lemma within_sync:
  assumes "entries_within shs A" and "map_of shs k = Some m" and "auth_ID (sm_auth meta) \<in> A"
  shows "entries_within (AList.update k (syncShard meta now k' m) shs) A"
proof (rule within_update [OF assms(1)])
  show "\<forall>i. map_of (mo_entries (syncShard meta now k' m)) i \<noteq> None \<longrightarrow> i \<in> A"
    using assms sync_get unfolding entries_within_def by blast
qed

lemma within_targets:
  "entries_within shs A \<Longrightarrow> auth_ID (sm_auth meta) \<in> A \<Longrightarrow> entries_within (sync_targets meta now seen ms shs) A"
proof (induction ms arbitrary: seen shs)
  case (Cons m ms)
  then show ?case using within_sync by (simp add: Let_def split: option.split)
qed simp

lemma within_all:
  assumes "entries_within shs A" and "auth_ID (sm_auth meta) \<in> A"
  shows "entries_within (List.map (\<lambda>(k, m). (k, syncShard meta now k m)) shs) A"
  unfolding entries_within_def map_of_map_values
proof (intro allI impI)
  fix k m i
  assume "map_option (\<lambda>m. syncShard meta now k m) (map_of shs k) = Some m" "map_of (mo_entries m) i \<noteq> None"
  with sync_get assms show "i \<in> A" unfolding entries_within_def by blast
qed

lemma upsert_listed:
  assumes "shards_listed p"
  shows "shards_listed (upsertAuthForModelsLocked p meta targets scoped now)"
    and "map_of (ps_auths (upsertAuthForModelsLocked p meta targets scoped now)) i =
      (if i = auth_ID (sm_auth meta) then Some meta else map_of (ps_auths p) i)"
proof -
  define A where "A = insert (auth_ID (sm_auth meta)) {i. map_of (ps_auths p) i \<noteq> None}"
  have id: "auth_ID (sm_auth meta) \<in> A" by (simp add: A_def)
  have w: "entries_within (ps_modelShards p) A"
    unfolding A_def by (rule within_mono [OF assms [unfolded shards_listed_within]]) blast
  have q: "shards_listed q \<longleftrightarrow> entries_within (ps_modelShards q) A"
    if "ps_auths q = AList.update (auth_ID (sm_auth meta)) meta (ps_auths p)" for q :: providerScheduler
  proof -
    have "{i. map_of (ps_auths q) i \<noteq> None} = A" unfolding that A_def by auto
    then show ?thesis by (simp only: shards_listed_within)
  qed
  show "shards_listed (upsertAuthForModelsLocked p meta targets scoped now)"
    using w within_all [OF w id] within_targets [OF _ id] within_sync [OF w _ id]
    by (subst q) (simp_all add: upsertAuthForModelsLocked_def updateTargetShardsLocked_def Let_def split: option.split)
  show "map_of (ps_auths (upsertAuthForModelsLocked p meta targets scoped now)) i =
      (if i = auth_ID (sm_auth meta) then Some meta else map_of (ps_auths p) i)"
    by (simp add: upsertAuthForModelsLocked_def updateTargetShardsLocked_def Let_def)
qed

lemma remove_listed:
  assumes "shards_listed p"
  shows "shards_listed (provider_removeAuthLocked p i)"
    and "map_of (ps_auths (provider_removeAuthLocked p i)) j = (if i \<noteq> [] \<and> j = i then None else map_of (ps_auths p) j)"
  using assms
  by (auto simp: provider_removeAuthLocked_def shards_listed_def map_of_map_values removeEntry_get delete_conv'
      split: if_splits)

lemma fold_within:
  assumes "\<forall>(i, meta) \<in> set metas. auth_ID (sm_auth meta) \<in> A" and "\<forall>i. map_of (mo_entries sh) i \<noteq> None \<longrightarrow> i \<in> A"
  shows "\<forall>i. map_of (mo_entries (fold (\<lambda>(_, meta) shard.
     if \<not> supportsModel meta k' then shard else upsertEntryLocked shard meta now) metas sh)) i \<noteq> None \<longrightarrow> i \<in> A"
  using assms
proof (induction metas arbitrary: sh)
  case (Cons m metas)
  obtain i meta where m: "m = (i, meta)" by force
  have "\<forall>i. map_of (mo_entries (upsertEntryLocked sh meta now)) i \<noteq> None \<longrightarrow> i \<in> A"
    using Cons.prems m by (simp add: upsert_entries)
  with Cons m show ?case by simp
qed simp

lemma promote_dom:
  "shard_inv k t m \<Longrightarrow>
   map_of (mo_entries (promoteExpiredLocked m now)) i \<noteq> None \<longleftrightarrow> map_of (mo_entries m) i \<noteq> None"
  using promote_entries(1) [of k t m now i] by simp

text \<open>
  Picks leave the lists alone: \<open>fits\<close> says a shard may be stored for a provider, \<open>kept\<close> that a step keeps
  the lists, the generation records and the property above.
\<close>

definition lists_of :: "authScheduler \<Rightarrow> string \<Rightarrow> (string, scheduledAuthMeta) gomap option" where
  "lists_of s pk = map_option ps_auths (map_of (as_providers s) pk)"

definition fits :: "authScheduler \<Rightarrow> string \<Rightarrow> modelScheduler \<Rightarrow> bool" where
  "fits s pk m \<longleftrightarrow> (\<forall>i au. map_of (mo_entries m) i \<noteq> None \<longrightarrow> lists_of s pk = Some au \<longrightarrow> map_of au i \<noteq> None)"

definition kept :: "authScheduler \<Rightarrow> authScheduler \<Rightarrow> bool" where
  "kept s s' \<longleftrightarrow> as_authProviders s' = as_authProviders s \<and> as_authGenerations s' = as_authGenerations s
     \<and> lists_of s' = lists_of s \<and> (listed s \<longrightarrow> listed s')"

lemma kept_refl [simp]: "kept s s"
  by (simp add: kept_def)

lemma kept_trans: "kept s s' \<Longrightarrow> kept s' s'' \<Longrightarrow> kept s s''"
  by (simp add: kept_def)

lemma kept_fits: "kept s s' \<Longrightarrow> fits s' pk m = fits s pk m"
  by (simp add: kept_def fits_def)

lemma kept_frame [simp]:
  "kept s (s'\<lparr>as_mixedCursors := c\<rparr>) = kept s s'"
  "kept s (s'\<lparr>as_mixedWeightedStates := w\<rparr>) = kept s s'"
  by (auto simp: kept_def lists_of_def listed_def fun_eq_iff)

lemma store_kept:
  assumes "map_of (as_providers s) pk = Some p" and "fits s pk m"
  shows "kept s (s\<lparr>as_providers := AList.update pk
    (p\<lparr>ps_modelShards := AList.update k m (ps_modelShards p)\<rparr>) (as_providers s)\<rparr>)"
  using assms
  by (auto simp: kept_def lists_of_def listed_def fun_eq_iff shards_listed_within fits_def intro!: within_update)

lemma put_kept: "fits s pk m \<Longrightarrow> kept s (put_shard s pk m)"
  by (auto simp: put_shard_def store_kept split: option.split)

lemma ensure_kept:
  assumes "sched_inv t s" and "listed s" and "ensure_shard s pk key now = (s', sh)"
  shows "kept s s' \<and> (\<forall>m. sh = Some m \<longrightarrow> fits s pk m)"
proof (cases "map_of (as_providers s) pk")
  case None
  with assms(3) show ?thesis by (simp add: ensure_shard_def)
next
  case (Some p)
  let ?k = "canonicalModelKey key"
  let ?A = "{i. map_of (ps_auths p) i \<noteq> None}"
  have p: "provider_inv t p" and l: "shards_listed p" using assms(1,2) Some by (auto simp: sched_inv_def listed_def)
  have auths: "\<forall>(i, meta) \<in> set (ps_auths p). auth_ID (sm_auth meta) \<in> ?A"
    using p by (fastforce simp: provider_inv_def dest: weak_map_of_SomeI)
  obtain m where e: "ensureModelLocked p key now = (p\<lparr>ps_modelShards := AList.update ?k m (ps_modelShards p)\<rparr>, m)"
    by (auto simp: ensureModelLocked_def Let_def)
  have "i \<in> ?A" if "map_of (mo_entries m) i \<noteq> None" for i
  proof (cases "map_of (ps_modelShards p) ?k")
    case None
    with e that fold_within [OF auths, of "empty_shard ?k" ?k now] show ?thesis
      by (simp add: ensureModelLocked_def Let_def empty_shard_def)
  next
    case (Some m0)
    then have "shard_inv ?k t m0" using p by (auto simp: provider_inv_def shards_inv_def)
    with promote_dom [OF this, of now i] e that Some l show ?thesis
      by (auto simp: ensureModelLocked_def Let_def shards_listed_def)
  qed
  then have "fits s pk m" using Some by (auto simp: fits_def lists_of_def)
  with store_kept [OF Some this, of ?k] assms(3) Some e show ?thesis by (auto simp: ensure_shard_def)
qed

lemma fits_same: "mo_entries m' = mo_entries m \<Longrightarrow> fits s pk m \<Longrightarrow> fits s pk m'"
  by (simp add: fits_def)

lemma in_shard_kept:
  assumes "sched_inv t s" and "t \<le> now1" and "now1 \<le> now2" and "suits strategy predicate" and "listed s"
    and "pick_in_shard s pk key model pw strategy predicate prov now1 now2 now3 = (s', r)"
  shows "kept s s'"
proof -
  obtain s1 sh where e: "ensure_shard s pk key now1 = (s1, sh)" by force
  note inv1 = ensure_shard_inv [OF assms(1,2) e]
  note k1 = ensure_kept [OF assms(1,5) e]
  show ?thesis
  proof (cases sh)
    case None
    with assms(6) e k1 show ?thesis by (auto simp: pick_in_shard_def)
  next
    case (Some m)
    obtain m' picked where p: "pickReadyLocked m pw strategy predicate now2 = (m', picked)" by force
    have m: "shard_inv (canonicalModelKey key) now1 m" "0 \<le> now2" using inv1 Some assms(3) by (auto simp: sched_inv_def)
    have "fits s1 pk m'"
      using k1 Some shard_inv_pick [OF m(1) assms(3) m(2) assms(4) p] promote_dom [OF m(1)] kept_fits [of s s1]
      by (auto simp: fits_def)
    then have "kept s (put_shard s1 pk m')" using k1 put_kept kept_trans by blast
    with assms(6) e Some p show ?thesis by (auto simp: pick_in_shard_def split: option.splits)
  qed
qed

lemma candidate_kept:
  assumes "sched_inv t s" and "t \<le> now" and "listed s"
    and "candidate_shards s pks key predicate now best = (s', shards, b)"
  shows "kept s s' \<and> (\<forall>(pk, sh) \<in> set (zip pks shards). \<forall>m. sh = Some m \<longrightarrow> fits s pk m)"
  using assms
proof (induction pks arbitrary: s t best shards b)
  case (Cons pk pks)
  obtain s1 sh where e: "ensure_shard s pk key now = (s1, sh)" by force
  note k1 = ensure_kept [OF Cons.prems(1,3) e]
  obtain best' shards' b' where c: "candidate_shards s1 pks key predicate now best' = (s', shards', b')"
    and sh: "shards = sh # shards'"
    using Cons.prems(4) e by (auto simp: Let_def split: prod.splits)
  have "sched_inv now s1" "listed s1"
    using ensure_shard_inv [OF Cons.prems(1,2) e] k1 Cons.prems(3) by (auto simp: kept_def)
  from Cons.IH [OF this(1) order_refl this(2) c] k1
  have "kept s s'" "\<forall>(pk, sh) \<in> set (zip pks shards'). \<forall>m. sh = Some m \<longrightarrow> fits s pk m"
    using kept_trans kept_fits [of s s1] by auto
  with k1 show ?case by (simp add: sh)
qed simp

lemma at_priority_entries:
  "pickReadyAtPriorityLocked m pw p strategy predicate = (m', picked) \<Longrightarrow> mo_entries m' = mo_entries m"
  by (auto simp: pickReadyAtPriorityLocked_def split: option.splits if_splits prod.splits)

lemma first_kept:
  assumes "first_pick s cs best strategy predicate = (s', r)"
    and "\<forall>(pk, sh) \<in> set cs. \<forall>m. sh = Some m \<longrightarrow> fits s pk m"
  shows "kept s s'"
  using assms
proof (induction s cs best strategy predicate rule: first_pick.induct)
  case (3 s pk shard cs best strategy predicate)
  obtain m' picked where p: "pickReadyAtPriorityLocked shard False best strategy predicate = (m', picked)" by force
  have put: "kept s (put_shard s pk m')"
    using "3.prems"(2) at_priority_entries [OF p] by (intro put_kept fits_same [of m' shard]) auto
  show ?case
  proof (cases picked)
    case None
    with "3.prems" p have "first_pick (put_shard s pk m') cs best strategy predicate = (s', r)" by simp
    with "3.IH" [OF p [symmetric] None] "3.prems"(2) put show ?thesis
      by (auto simp: kept_fits [OF put] intro: kept_trans)
  next
    case (Some e)
    with "3.prems"(1) p put show ?thesis by simp
  qed
qed auto

lemma mixed_loop_kept:
  assumes "mixed_loop s normalized shards weights segs start slot best predicate key offsets = (s', r)"
    and "\<forall>(pk, sh) \<in> set (zip normalized shards). \<forall>m. sh = Some m \<longrightarrow> fits s pk m"
    and "length shards = length normalized" and "normalized \<noteq> []"
  shows "kept s s'"
  using assms(1,2)
proof (induction offsets arbitrary: s slot)
  case (Cons offset offsets)
  define i where "i = (start + offset) mod length normalized"
  have i: "i < length normalized" using assms(4) by (simp add: i_def)
  define slot' where "slot' = (if i \<noteq> start then fst (segs ! i) else slot)"
  show ?case
  proof (cases "weights ! i = 0 \<or> shards ! i = None")
    case True
    then have "\<exists>sl. mixed_loop s normalized shards weights segs start sl best predicate key offsets = (s', r)"
    proof
      assume "weights ! i = 0"
      with Cons.prems(1) show ?thesis by (auto simp: Let_def i_def [symmetric])
    next
      assume "shards ! i = None"
      with Cons.prems(1) show ?thesis by (cases "weights ! i = 0") (auto simp: Let_def i_def [symmetric])
    qed
    with Cons.IH Cons.prems(2) show ?thesis by blast
  next
    case False
    then obtain m where m: "shards ! i = Some m" by auto
    have "(normalized ! i, shards ! i) \<in> set (zip normalized shards)" using i assms(3) by (metis in_set_zip fst_conv snd_conv)
    then have fit: "fits s (normalized ! i) m" using Cons.prems(2) m by fastforce
    obtain m' picked where p: "pickReadyAtPriorityLocked m False best schedulerStrategyRoundRobin predicate = (m', picked)"
      by force
    have put: "kept s (put_shard s (normalized ! i) m')" using put_kept fits_same [OF at_priority_entries [OF p] fit] .
    show ?thesis
    proof (cases picked)
      case None
      then have "mixed_loop (put_shard s (normalized ! i) m') normalized shards weights segs start slot' best predicate
          key offsets = (s', r)"
        using Cons.prems(1) False m p by (simp add: Let_def i_def [symmetric] slot'_def)
      moreover have "\<forall>(pk, sh) \<in> set (zip normalized shards). \<forall>m. sh = Some m \<longrightarrow>
          fits (put_shard s (normalized ! i) m') pk m"
        using Cons.prems(2) by (simp add: kept_fits [OF put])
      ultimately show ?thesis using Cons.IH put kept_trans by blast
    next
      case (Some e)
      then have "s' = (put_shard s (normalized ! i) m')\<lparr>as_mixedCursors :=
          AList.update key (int slot' + 1) (as_mixedCursors s)\<rparr>"
        using Cons.prems(1) False m p by (simp add: Let_def i_def [symmetric] slot'_def)
      with put show ?thesis by simp
    qed
  qed
qed simp

lemma gather_kept:
  "sched_inv t s \<Longrightarrow> t \<le> now \<Longrightarrow> listed s \<Longrightarrow>
   gather_errors s pks model predicate now su me ae = (s', x) \<Longrightarrow> kept s s'"
proof (induction pks arbitrary: s t su me ae)
  case (Cons pk pks)
  obtain s1 sh where e: "ensure_shard s pk (canonicalModelKey model) now = (s1, sh)" by force
  note k1 = ensure_kept [OF Cons.prems(1,3) e]
  have "sched_inv now s1" "listed s1"
    using ensure_shard_inv [OF Cons.prems(1,2) e] k1 Cons.prems(3) by (auto simp: kept_def)
  moreover obtain su' me' ae' where "gather_errors s1 pks model predicate now su' me' ae' = (s', x)"
    using Cons.prems(4) e by (auto simp: Let_def split: option.splits prod.splits)
  ultimately have "kept s1 s'" using Cons.IH by blast
  with k1 kept_trans show ?case by blast
qed simp

lemma single_kept:
  assumes "sched_inv t s" and "t \<le> now1" and "now1 \<le> now2" and "listed s"
    and "pickSingleWithStrategy s provider model req strategy now1 now2 now3 = (s', r)"
  shows "kept s s'"
  using in_shard_kept [OF assms(1-3) predicate_suits assms(4)] assms(5)
  unfolding pickSingleWithStrategy_def Let_def by blast

lemma rotating_kept:
  assumes "pick_rotating_mixed s normalized shards best key predicate = (s', r)"
    and "\<forall>(pk, sh) \<in> set (zip normalized shards). \<forall>m. sh = Some m \<longrightarrow> fits s pk m"
    and "length shards = length normalized" and "normalized \<noteq> []"
  shows "kept s s'"
  using assms(1) mixed_loop_kept [OF _ assms(2-4)]
  by (auto simp: pick_rotating_mixed_def Let_def split: if_splits option.splits)

lemma weighted_kept: "pick_weighted_mixed s shards best key predicate = (s', r) \<Longrightarrow> kept s s'"
  by (auto simp: pick_weighted_mixed_def Let_def split: prod.splits)

lemma unavailable_kept:
  assumes "sched_inv t (fst x)" and "t \<le> now" and "listed (fst x)"
    and "or_unavailable x normalized model predicate now = (s', r)"
  shows "kept (fst x) s'"
  using assms gather_kept [OF assms(1-3)]
  by (cases x) (auto simp: or_unavailable_def mixedUnavailableErrorLocked_def split: option.splits prod.splits)

lemma across_kept:
  assumes "sched_inv t s" and "t \<le> now" and "listed s" and "normalized \<noteq> []"
    and c: "candidate_shards s normalized model predicate now None = (s1, shards, best)"
    and x: "across_pick s1 normalized shards best strategy key predicate = (s2, r)"
  shows "kept s s2"
proof -
  note k1 = candidate_kept [OF assms(1-3) c]
  have len: "length shards = length normalized" using candidate_length [OF c] .
  have fit: "\<forall>(pk, sh) \<in> set (zip normalized shards). \<forall>m. sh = Some m \<longrightarrow> fits s1 pk m"
    using k1 kept_fits [of s s1] by simp
  have "kept s1 s2"
    using x first_kept [OF _ fit] weighted_kept rotating_kept [OF _ fit len assms(4)]
    by (auto simp: across_pick_def split: option.splits if_splits)
  with k1 kept_trans show ?thesis by blast
qed

lemma mixed_kept:
  assumes inv: "sched_inv t s" and time: "t \<le> now1" "now1 \<le> now2" "now2 \<le> now3" and l: "listed s"
    and pick: "pickMixedWithStrategy s providers model req strategy0 now1 now2 now3 = (s', r)"
  shows "kept s s'"
proof (cases rule: mixed_cases [of providers])
  case none
  with pick show ?thesis by (auto simp: pickMixedWithStrategy_def)
next
  case (one pk)
  obtain s1 r1 where p: "pickSingleWithStrategy s pk model req strategy0 now1 now2 now3 = (s1, r1)" by force
  with pick one single_kept [OF inv time(1,2) l p] show ?thesis
    by (auto simp: pickMixedWithStrategy_def split: sum.splits)
next
  case (more p q ps)
  show ?thesis
  proof (cases "rq_pinnedAuthID req = []")
    case False
    obtain s1 r1 where p: "pick_in_shard s (get_or [] (as_authProviders s) (rq_pinnedAuthID req))
        (canonicalModelKey model) model False (strategy_for s strategy0)
        (request_predicate req (strategy_for s strategy0)) ''mixed'' now1 now2 now3 = (s1, r1)" by force
    with in_shard_kept [OF inv time(1,2) predicate_suits l p] pickMixed_pinned [OF more False refl p] pick
    show ?thesis by (auto split: sum.splits if_splits)
  next
    case True
    obtain s1 shards best where c: "candidate_shards s (p # q # ps) (canonicalModelKey model)
        (request_predicate req (strategy_for s strategy0)) now1 None = (s1, shards, best)" by (metis prod_cases3)
    obtain s2 x where x: "across_pick s1 (p # q # ps) shards best (strategy_for s strategy0)
        (join_keys (p # q # ps) @ '':'' @ canonicalModelKey model) (request_predicate req (strategy_for s strategy0))
        = (s2, x)" by force
    note k = across_kept [OF inv time(1) l list.distinct(2) c x]
    have "sched_inv now1 s2" using across_sound [OF inv time(1) list.distinct(2) refl c x] by blast
    moreover have "now1 \<le> now3" using time by linarith
    moreover have "listed s2" using k l by (simp add: kept_def)
    ultimately have "kept s2 s'"
      using unavailable_kept [of now1 "(s2, x)"] trans [OF pickMixed_across [OF more True c, unfolded x, symmetric] pick]
      by auto
    with k kept_trans show ?thesis by blast
  qed
qed

section \<open>Lists under the life of credentials\<close>

lemma listed_at: "listed s \<Longrightarrow> trim_space i = i \<Longrightarrow> map_of (as_providers s) pk = Some p \<Longrightarrow>
    map_of (ps_auths p) i \<noteq> None \<Longrightarrow> pk \<noteq> [] \<and> map_of (as_authProviders s) i = Some pk"
  unfolding listed_def by blast

lemma drop_get:
  "map_of (as_providers (drop_from_provider s pk i)) pk' =
     (if pk' = pk then map_option (\<lambda>p. provider_removeAuthLocked p i) (map_of (as_providers s) pk)
      else map_of (as_providers s) pk')"
  "as_authProviders (drop_from_provider s pk i) = as_authProviders s"
  "as_authGenerations (drop_from_provider s pk i) = as_authGenerations s"
  by (auto simp: drop_from_provider_def split: option.split)

lemma drop_listed:
  assumes "listed s"
  shows "listed (drop_from_provider s pk i)"
  unfolding listed_def drop_get
proof (intro allI impI conjI)
  fix pk' p
  assume p: "(if pk' = pk then map_option (\<lambda>p. provider_removeAuthLocked p i) (map_of (as_providers s) pk)
    else map_of (as_providers s) pk') = Some p"
  then obtain p0 where p0: "map_of (as_providers s) pk' = Some p0" "p = provider_removeAuthLocked p0 i \<or> p = p0"
    by (auto split: if_splits)
  have l: "shards_listed p0" using assms p0(1) by (simp add: listed_def)
  then show "shards_listed p" using p0(2) remove_listed(1) by blast
  fix j
  assume "map_of (ps_auths p) j \<noteq> None" and j: "trim_space j = j"
  then have "map_of (ps_auths p0) j \<noteq> None" using p0(2) remove_listed(2) [OF l, of i j] by (auto split: if_splits)
  with listed_at [OF assms j p0(1)] show "pk' \<noteq> []" "map_of (as_authProviders s) j = Some pk'" by auto
qed

lemma remove_from_get:
  "map_of (as_authProviders (removeAuthFromProvidersLocked s i)) j =
     (if get_or [] (as_authProviders s) i \<noteq> [] \<and> j = i then None else map_of (as_authProviders s) j)"
  by (auto simp: removeAuthFromProvidersLocked_def Let_def delete_conv' split: option.split)

text \<open>Removal empties every list of a credential: it is listed by the remembered provider only.\<close>

lemma remove_from_listed:
  assumes "listed s" and "i \<noteq> []"
  shows "listed (removeAuthFromProvidersLocked s i)"
    and "trim_space i = i \<Longrightarrow> absent (removeAuthFromProvidersLocked s i) i"
proof -
  let ?pk = "get_or [] (as_authProviders s) i"
  have providers: "as_providers (removeAuthFromProvidersLocked s i) =
      (if ?pk = [] then as_providers s else as_providers (drop_from_provider s ?pk i))"
    by (simp add: removeAuthFromProvidersLocked_def Let_def)
  have gone: "map_of (ps_auths p) i = None"
    if t: "trim_space i = i" and p: "map_of (as_providers (removeAuthFromProvidersLocked s i)) pk = Some p" for pk p
  proof (rule ccontr)
    assume in_p: "map_of (ps_auths p) i \<noteq> None"
    show False
    proof (cases "?pk = []")
      case True
      with p providers in_p listed_at [OF assms(1) t, of pk p] show False by (auto simp: get_or_def)
    next
      case False
      then obtain p0 where p0: "map_of (as_providers s) pk = Some p0"
        "p = (if pk = ?pk then provider_removeAuthLocked p0 i else p0)"
        using p providers by (auto simp: drop_get split: if_splits)
      have l: "shards_listed p0" using assms(1) p0(1) by (simp add: listed_def)
      show False
      proof (cases "pk = ?pk")
        case True
        with in_p p0(2) remove_listed(2) [OF l, of i i] assms(2) show False by simp
      next
        case False
        with in_p p0 listed_at [OF assms(1) t p0(1)] show False by (auto simp: get_or_def)
      qed
    qed
  qed
  have l: "listed (if ?pk = [] then s else drop_from_provider s ?pk i)" using assms(1) drop_listed by simp
  have base: "shards_listed p" "map_of (ps_auths p) j \<noteq> None \<Longrightarrow> trim_space j = j \<Longrightarrow>
      pk \<noteq> [] \<and> map_of (as_authProviders s) j = Some pk"
    if "map_of (as_providers (removeAuthFromProvidersLocked s i)) pk = Some p" for pk p j
  proof -
    let ?s = "if ?pk = [] then s else drop_from_provider s ?pk i"
    have "map_of (as_providers ?s) pk = Some p" using that by (simp add: providers split: if_splits)
    moreover have "as_authProviders ?s = as_authProviders s" by (simp add: drop_get(2))
    ultimately show "shards_listed p" "map_of (ps_auths p) j \<noteq> None \<Longrightarrow> trim_space j = j \<Longrightarrow>
      pk \<noteq> [] \<and> map_of (as_authProviders s) j = Some pk"
      using l unfolding listed_def by metis+
  qed
  show "listed (removeAuthFromProvidersLocked s i)"
    unfolding listed_def
  proof (intro allI impI conjI)
    fix pk p
    assume p: "map_of (as_providers (removeAuthFromProvidersLocked s i)) pk = Some p"
    show "shards_listed p" using base(1) [OF p] .
    fix j
    assume j: "map_of (ps_auths p) j \<noteq> None" "trim_space j = j"
    have "j \<noteq> i" using gone [OF _ p] j by fastforce
    with base(2) [OF p j] show "pk \<noteq> []" "map_of (as_authProviders (removeAuthFromProvidersLocked s i)) j = Some pk"
      by (simp_all add: remove_from_get)
  qed
  show "absent (removeAuthFromProvidersLocked s i) i" if "trim_space i = i"
    unfolding absent_def using gone [OF that] base(1) unfolding shards_listed_def by metis
qed

lemma record_simps [simp]:
  "as_providers (record_generation s i e g u) = as_providers s"
  "as_authProviders (record_generation s i e g u) = as_authProviders s"
  "listed (record_generation s i e g u) = listed s"
  by (simp_all add: record_generation_def listed_def)

lemma leave_listed:
  assumes "listed s" and "i \<noteq> []"
  shows "listed (leave_previous s i pk)"
    and "trim_space i = i \<Longrightarrow> map_of (as_providers (leave_previous s i pk)) pk' = Some p \<Longrightarrow> pk' \<noteq> pk \<Longrightarrow>
      map_of (ps_auths p) i = None"
proof -
  let ?prev = "get_or [] (as_authProviders s) i"
  show "listed (leave_previous s i pk)" using assms(1) drop_listed by (simp add: leave_previous_def Let_def)
  assume t: "trim_space i = i" and p: "map_of (as_providers (leave_previous s i pk)) pk' = Some p" and ne: "pk' \<noteq> pk"
  show "map_of (ps_auths p) i = None"
  proof (rule ccontr)
    assume in_p: "map_of (ps_auths p) i \<noteq> None"
    have l: "listed (leave_previous s i pk)" by fact
    have "pk' \<noteq> []" "map_of (as_authProviders s) i = Some pk'"
      using listed_at [OF l t p in_p] by (auto simp: leave_previous_def Let_def drop_get split: if_splits)
    then have "?prev = pk'" "leave_previous s i pk = drop_from_provider s pk' i"
      using ne by (auto simp: get_or_def leave_previous_def)
    with p obtain p0 where "map_of (as_providers s) pk' = Some p0" "p = provider_removeAuthLocked p0 i"
      by (auto simp: drop_get)
    with remove_listed(2) [of p0 i i] in_p assms show False by (auto simp: listed_def)
  qed
qed

lemma install_listed:
  assumes "listed s" and "pk \<noteq> []" and "trim_space (auth_ID (sm_auth meta)) = i"
    and "\<And>pk' p. trim_space i = i \<Longrightarrow> map_of (as_providers s) pk' = Some p \<Longrightarrow> pk' \<noteq> pk \<Longrightarrow> map_of (ps_auths p) i = None"
  shows "listed (install s i pk meta targets scoped now)"
proof -
  define p where "p = ensureProviderLocked s pk"
  have l: "shards_listed p"
    using assms(1) by (auto simp: p_def ensureProviderLocked_def listed_def shards_listed_def split: option.split)
  have old: "map_of (as_authProviders s) j = Some pk" if "map_of (ps_auths p) j \<noteq> None" "trim_space j = j" for j
    using assms(1) that by (auto simp: p_def ensureProviderLocked_def listed_def split: option.splits)
  define q where "q = upsertAuthForModelsLocked p meta targets scoped now"
  have ql: "shards_listed q" and qa: "\<And>j. map_of (ps_auths q) j =
      (if j = auth_ID (sm_auth meta) then Some meta else map_of (ps_auths p) j)"
    using upsert_listed [OF l] by (simp_all add: q_def)
  have s': "install s i pk meta targets scoped now = s\<lparr>as_authProviders := AList.update i pk (as_authProviders s),
      as_providers := AList.update pk q (as_providers s)\<rparr>"
    by (simp add: install_def q_def p_def)
  show ?thesis
    unfolding listed_def
  proof (intro allI impI)
    fix pk' p'
    assume "map_of (as_providers (install s i pk meta targets scoped now)) pk' = Some p'"
    then consider (new) "pk' = pk" "p' = q" | (other) "pk' \<noteq> pk" "map_of (as_providers s) pk' = Some p'"
      by (auto simp: s' split: if_splits)
    then show "shards_listed p' \<and> (\<forall>j. map_of (ps_auths p') j \<noteq> None \<longrightarrow> trim_space j = j \<longrightarrow>
        pk' \<noteq> [] \<and> map_of (as_authProviders (install s i pk meta targets scoped now)) j = Some pk')"
    proof cases
      case new
      with ql old assms(2,3) show ?thesis by (auto simp: s' qa)
    next
      case other
      have "j \<noteq> i" if "map_of (ps_auths p') j \<noteq> None" "trim_space j = j" for j
        using assms(4) [OF _ other(2,1)] that by fastforce
      with other listed_at [OF assms(1) _ other(2)] assms(1) show ?thesis by (auto simp: s' listed_def)
    qed
  qed
qed

lemma lifecycle_listed:
  assumes "listed s"
  shows "listed (upsertAuthLifecycleLocked registry s auth now)"
proof -
  let ?i = "trim_space (auth_ID auth)"
  have "listed (install (leave_previous (record_generation s ?i e g u) ?i pk) ?i pk
      (buildScheduledAuthMetaWithModelSet auth ms ep) tg sc now)" if "?i \<noteq> []" "pk \<noteq> []" for e g u pk ms ep tg sc
    by (rule install_listed) (use assms that leave_listed [of "record_generation s ?i e g u" ?i] in simp_all)
  then show ?thesis
    using assms remove_from_listed(1) by (simp add: upsertAuthLifecycleLocked_def Let_def)
qed

lemma stale_listed:
  assumes "listed s" and "sched_inv t s" and "map_of (as_providers s) pk = Some p" and "map_of (ps_auths p) i = Some meta"
  shows "listed (s\<lparr>as_providers := AList.update pk (upsertAuthForModelsLocked p meta tg sc now) (as_providers s)\<rparr>)"
proof -
  have l: "shards_listed p" using assms(1,3) by (simp add: listed_def)
  have "(i, meta) \<in> set (ps_auths p)" using assms(4) by (rule map_of_SomeD)
  then have "auth_ID (sm_auth meta) = i" using assms(2,3) by (auto simp: sched_inv_def provider_inv_def)
  then have same: "map_of (ps_auths (upsertAuthForModelsLocked p meta tg sc now)) j = map_of (ps_auths p) j" for j
    using upsert_listed(2) [OF l, of meta tg sc now j] assms(4) by simp
  show ?thesis
    using assms(1,3) upsert_listed(1) [OF l] unfolding listed_def by (simp add: same)
qed

lemma result_listed:
  assumes "listed s" and "sched_inv t s"
  shows "listed (upsertAuthResultLocked registry s auth targets scoped now)"
proof -
  let ?i = "trim_space (auth_ID auth)"
  have "listed (install (leave_previous (record_generation s ?i e g u) ?i pk) ?i pk
      (buildScheduledAuthMetaWithModelSet auth ms ep) tg sc now)" if "?i \<noteq> []" "pk \<noteq> []" for e g u pk ms ep tg sc
    by (rule install_listed) (use assms that leave_listed [of "record_generation s ?i e g u" ?i] in simp_all)
  then show ?thesis
    using assms(1) remove_from_listed(1) stale_listed [OF assms]
    by (simp add: upsertAuthResultLocked_def Let_def split: option.split)
qed

lemma rebuild_listed: "listed (rebuild registry s auths now)"
proof -
  have "listed s' \<Longrightarrow> listed (fold (\<lambda>auth s. upsertAuthLifecycleLocked registry s auth now) auths s')" for s'
    by (induction auths arbitrary: s') (simp_all add: lifecycle_listed)
  moreover have "listed (s\<lparr>as_providers := [], as_authProviders := [], as_mixedCursors := [],
      as_mixedWeightedStates := []\<rparr>)" by (simp add: listed_def)
  ultimately show ?thesis by (simp add: rebuild_def)
qed

lemma removeAuth_listed: "listed s \<Longrightarrow> listed (removeAuth s i now)"
  using remove_from_listed(1) by (simp add: removeAuth_def removeAuthLocked_def Let_def)

lemma tombstone_listed: "listed s \<Longrightarrow> listed (RecordRemovalTombstone s i e now)"
  using remove_from_listed(1) by (simp add: RecordRemovalTombstone_def Let_def split: option.split)

lemma sched_reach_listed: "sched_reach t s \<Longrightarrow> listed s"
proof (induction rule: sched_reach.induct)
  case (result t s now registry auth targets scoped)
  then show ?case using result_listed sched_reach_inv by blast
next
  case (single t s now1 now2 now3 provider model req strategy s' r)
  then show ?case using single_kept [OF sched_reach_inv] by (auto simp: kept_def)
next
  case (mixed t s now1 now2 now3 providers model req strategy s' r')
  then show ?case using mixed_kept [OF sched_reach_inv] by (auto simp: kept_def)
next
  case (created t selector)
  then show ?case by (simp add: listed_def newAuthScheduler_def)
next
  case (selector t s sel)
  then show ?case by (simp add: listed_def setSelector_def)
next
  case (reset t s i)
  then show ?case by (simp add: listed_def ResetAuthGeneration_def Let_def)
qed (simp_all add: rebuild_listed lifecycle_listed removeAuth_listed tombstone_listed)

section \<open>The cooldown error\<close>

lemma add_entry_counts:
  "su_total (fold add_entry es su) = su_total su + length es"
  "su_cooldown (fold add_entry es su) =
     su_cooldown su + length (filter (\<lambda>e. sa_state e = scheduledStateCooldown) es)"
  by (induction es arbitrary: su) (auto simp: add_entry_def)

lemma add_entry_earliest:
  assumes "\<forall>e \<in> set es. sa_state e = scheduledStateCooldown \<and> 0 < sa_nextRetryAt e" and "0 < su_earliest su"
  shows "su_earliest (fold add_entry es su) = fold (\<lambda>e a. min (sa_nextRetryAt e) a) es (su_earliest su)"
  using assms
proof (induction es arbitrary: su)
  case (Cons e es)
  have "su_earliest (add_entry e su) = min (sa_nextRetryAt e) (su_earliest su)" using Cons.prems
    by (auto simp: add_entry_def min_def)
  with Cons show ?case by simp
qed simp

lemma fold_min: "fold (\<lambda>e a. min (f e) a) es (x :: int) = Min (insert x (f ` set es))"
proof (induction es arbitrary: x)
  case (Cons e es)
  then show ?case by (cases "es = []") (simp_all add: min.commute min.left_commute)
qed simp

lemma summary_earliest:
  assumes "\<forall>e \<in> set es. sa_state e = scheduledStateCooldown \<and> 0 < sa_nextRetryAt e" and "es \<noteq> []"
  shows "su_earliest (fold add_entry es no_candidates) = Min (sa_nextRetryAt ` set es)"
proof -
  obtain e es' where es: "es = e # es'" using assms(2) by (cases es) auto
  have "su_earliest (add_entry e no_candidates) = sa_nextRetryAt e"
    using assms(1) by (simp add: es add_entry_def no_candidates_def)
  with add_entry_earliest [of es' "add_entry e no_candidates"] assms(1) show ?thesis by (simp add: es fold_min)
qed

lemma cooldown_later:
  assumes "timely key t e" and "sa_state e = scheduledStateCooldown"
  shows "0 < sa_nextRetryAt e"
proof -
  obtain t0 where t0: "0 \<le> t0"
    "(scheduledStateCooldown, sa_nextRetryAt e) = classify (isAuthBlockedForModel (sa_auth e) key t0)"
    using assms by (auto simp: timely_def)
  obtain b r u where blk: "isAuthBlockedForModel (sa_auth e) key t0 = (b, r, u)" by (metis prod_cases3)
  with t0(2) have "r = blockReasonCooldown" "u = sa_nextRetryAt e" by (auto simp: classify_def split: if_splits)
  with cooldown_future [OF t0(1), of "sa_auth e" key] blk t0(1) show ?thesis by simp
qed

lemma summary_error:
  assumes "shard_inv key t m"
  shows "(\<exists>mdl pv resetIn cause. unavailableErrorLocked m provider model predicate now = SchedCooldown mdl pv resetIn cause)
      \<longleftrightarrow> filter predicate (List.map snd (mo_entries m)) \<noteq> []
          \<and> (\<forall>e \<in> set (filter predicate (List.map snd (mo_entries m))). sa_state e = scheduledStateCooldown)"
    and "unavailableErrorLocked m provider model predicate now = SchedCooldown mdl pv resetIn cause \<Longrightarrow>
      resetIn = max 0 (Min (sa_nextRetryAt ` set (filter predicate (List.map snd (mo_entries m)))) - now)"
proof -
  define es where "es = filter predicate (List.map snd (mo_entries m))"
  define su where "su = fold add_entry es no_candidates"
  have ok: "0 < sa_nextRetryAt e" if "e \<in> set es" "sa_state e = scheduledStateCooldown" for e
  proof -
    obtain i where "(i, e) \<in> set (mo_entries m)" using \<open>e \<in> set es\<close> by (auto simp: es_def)
    then have "map_of (mo_entries m) i = Some e" using assms by (simp add: shard_inv_def map_of_mem)
    then have "timely key t e" using assms by (simp add: shard_inv_def)
    then show ?thesis using cooldown_later that(2) by blast
  qed
  have counts: "su_total su = length es"
    "su_cooldown su = length (filter (\<lambda>e. sa_state e = scheduledStateCooldown) es)"
    by (simp_all add: su_def add_entry_counts no_candidates_def)
  have all: "su_cooldown su = su_total su \<longleftrightarrow> (\<forall>e \<in> set es. sa_state e = scheduledStateCooldown)"
    unfolding counts using length_filter_less [where P = "\<lambda>e. sa_state e = scheduledStateCooldown" and xs = es]
    by force
  have early: "su_earliest su = Min (sa_nextRetryAt ` set es) \<and> su_earliest su \<noteq> zero_time"
    if "\<forall>e \<in> set es. sa_state e = scheduledStateCooldown" "es \<noteq> []"
  proof -
    have "\<forall>e \<in> set es. sa_state e = scheduledStateCooldown \<and> 0 < sa_nextRetryAt e" using that(1) ok by blast
    note eq = summary_earliest [OF this that(2)]
    have "Min (sa_nextRetryAt ` set es) \<in> sa_nextRetryAt ` set es" using that(2) by (intro Min_in) auto
    then obtain e where "e \<in> set es" "Min (sa_nextRetryAt ` set es) = sa_nextRetryAt e" by blast
    with ok [of e] that(1) have "0 < Min (sa_nextRetryAt ` set es)" by simp
    with eq show ?thesis by (simp add: su_def)
  qed
  obtain me ae where c: "candidateErrorsLocked m model predicate = (me, ae)" by force
  have err: "unavailableErrorLocked m provider model predicate now =
      build_error su (if provider = ''mixed'' then [] else provider) model now me ae"
    by (simp add: unavailableErrorLocked_def c availabilitySummaryLocked_def su_def es_def)
  show "(\<exists>mdl pv resetIn cause. unavailableErrorLocked m provider model predicate now = SchedCooldown mdl pv resetIn cause)
      \<longleftrightarrow> filter predicate (List.map snd (mo_entries m)) \<noteq> []
          \<and> (\<forall>e \<in> set (filter predicate (List.map snd (mo_entries m))). sa_state e = scheduledStateCooldown)"
    unfolding es_def [symmetric] err using all early counts(1) by (auto simp: build_error_def Let_def)
  show "unavailableErrorLocked m provider model predicate now = SchedCooldown mdl pv resetIn cause \<Longrightarrow>
      resetIn = max 0 (Min (sa_nextRetryAt ` set (filter predicate (List.map snd (mo_entries m)))) - now)"
    unfolding es_def [symmetric] err using all early counts(1)
    by (auto simp: build_error_def Let_def split: if_splits)
qed

section \<open>Turns across providers\<close>

lemma start_index_ge: "start_index ws segs slot k = Some i \<Longrightarrow> k \<le> i"
  by (induction ws segs slot k rule: start_index.induct) (auto split: if_splits)

lemma start_index_less: "start_index ws segs slot k = Some i \<Longrightarrow> i < k + length ws \<and> ws ! (i - k) \<noteq> 0"
proof (induction ws segs slot k rule: start_index.induct)
  case (1 w ws a b segs slot i')
  show ?case
  proof (cases "w \<noteq> 0 \<and> slot < b")
    case True
    with 1 show ?thesis by simp
  next
    case False
    then have s: "start_index ws segs slot (Suc i') = Some i" using "1.prems" by (auto split: if_splits)
    have "i < Suc i' + length ws \<and> ws ! (i - Suc i') \<noteq> 0" using False s "1.IH" by (cases "w = 0") simp_all
    moreover have "i - i' = Suc (i - Suc i')" using start_index_ge [OF s] by simp
    ultimately show ?thesis by simp
  qed
qed auto

text \<open>Every provider owns as many slots as it has ready credentials, and they are the slots of its segment.\<close>

lemma start_index_slots:
  assumes "j < length ws"
  shows "{slot \<in> {a ..< a + sum_list ws}. start_index ws (segments ws a) slot k = Some (k + j)} =
    {a + sum_list (take j ws) ..< a + sum_list (take (Suc j) ws)}"
  using assms
proof (induction ws arbitrary: a k j)
  case (Cons w ws)
  have rest: "start_index (w # ws) (segments (w # ws) a) slot k = start_index ws (segments ws (a + w)) slot (Suc k)"
    if "a + w \<le> slot" for slot using that by simp
  have first: "start_index (w # ws) (segments (w # ws) a) slot k = Some k" if "a \<le> slot" "slot < a + w" for slot
    using that by simp
  show ?case
  proof (cases j)
    case 0
    have "start_index ws (segments ws (a + w)) slot (Suc k) \<noteq> Some k" for slot
      using start_index_ge [of ws _ slot "Suc k" k] by fastforce
    with 0 rest first show ?thesis by (auto simp del: start_index.simps simp: not_less) (metis not_less)+
  next
    case (Suc j')
    have "start_index (w # ws) (segments (w # ws) a) slot k = Some (k + j) \<longleftrightarrow>
        a + w \<le> slot \<and> start_index ws (segments ws (a + w)) slot (Suc k) = Some (Suc k + j')" if "a \<le> slot" for slot
      using rest [of slot] first [OF that] Suc by (cases "a + w \<le> slot") (auto simp del: start_index.simps)
    then have "{slot \<in> {a ..< a + sum_list (w # ws)}. start_index (w # ws) (segments (w # ws) a) slot k = Some (k + j)}
        = {slot \<in> {a + w ..< a + w + sum_list ws}. start_index ws (segments ws (a + w)) slot (Suc k) = Some (Suc k + j')}"
      by (auto simp del: start_index.simps segments.simps)
    with Cons.IH [of j' "a + w" "Suc k"] Cons.prems Suc show ?thesis
      by (simp del: start_index.simps segments.simps add: add.assoc)
  qed
qed simp

definition ready_counts :: "modelScheduler option list \<Rightarrow> int \<Rightarrow> (scheduledAuth \<Rightarrow> bool) \<Rightarrow> nat list" where
  "ready_counts shards best predicate = List.map (\<lambda>shard. case shard of None \<Rightarrow> 0
     | Some m \<Rightarrow> readyCountAtPriorityLocked m False best predicate) shards"

lemma count_picks:
  assumes "0 < readyCountAtPriorityLocked m False p predicate"
  shows "\<exists>m' e. pickReadyAtPriorityLocked m False p schedulerStrategyRoundRobin predicate = (m', Some e)"
proof -
  obtain bucket where b: "map_of (mo_readyByPriority m) p = Some bucket"
    and some: "filter predicate (view_entries m (rk_all bucket)) \<noteq> []"
    using assms by (auto simp: readyCountAtPriorityLocked_def split: option.splits)
  obtain view r where v: "pick_from_view m schedulerStrategyRoundRobin predicate (rk_all bucket) = (view, r)" by force
  have "suits schedulerStrategyRoundRobin predicate" by (simp add: suits_def)
  with pick_from_view_spec [OF v] some have "r \<noteq> None" by (auto simp: filter_empty_conv)
  with b v show ?thesis by (auto simp: pickReadyAtPriorityLocked_def)
qed

lemma rotating_step:
  assumes "pick_rotating_mixed s normalized shards best key predicate = (s', r)"
    and "length shards = length normalized" and "weights = ready_counts shards best predicate"
    and "0 < sum_list weights" and "slot = nat (get_or 0 (as_mixedCursors s) key) mod sum_list weights"
    and "start_index weights (segments weights 0) slot 0 = Some i"
  shows "\<exists>a. r = Some (a, normalized ! i) \<and> get_or 0 (as_mixedCursors s') key = int slot + 1"
proof -
  have len: "length weights = length normalized" using assms(2,3) by (simp add: ready_counts_def)
  have i: "i < length normalized" "weights ! i \<noteq> 0" using start_index_less [OF assms(6)] len by simp_all
  then obtain m where m: "shards ! i = Some m" "0 < readyCountAtPriorityLocked m False best predicate"
    using assms(2) by (auto simp: assms(3) ready_counts_def split: option.splits)
  obtain m' e where p: "pickReadyAtPriorityLocked m False best schedulerStrategyRoundRobin predicate = (m', Some e)"
    using count_picks [OF m(2)] by blast
  obtain os where os: "[0 ..< length normalized] = 0 # os" using i(1) upt_conv_Cons [of 0 "length normalized"] by (metis not_less_zero neq0_conv)
  have nz: "sum_list weights \<noteq> 0" using assms(4) by linarith
  have "mixed_loop s normalized shards weights (segments weights 0) i slot best predicate key [0 ..< length normalized]
      = (s', r)"
    using assms(1)
    unfolding pick_rotating_mixed_def Let_def ready_counts_def [symmetric] assms(3) [symmetric] if_not_P [OF nz]
      assms(5) [symmetric] assms(6) option.case .
  with i m p show ?thesis by (auto simp: os Let_def)
qed

text \<open>Consecutive picks over the same shards, at the same best priority.\<close>

fun mixed_run ::
  "string list \<Rightarrow> modelScheduler option list \<Rightarrow> int \<Rightarrow> string \<Rightarrow> (scheduledAuth \<Rightarrow> bool) \<Rightarrow> nat \<Rightarrow> authScheduler
   \<Rightarrow> (Auth \<times> string) option list"
where
  "mixed_run normalized shards best key predicate 0 s = []"
| "mixed_run normalized shards best key predicate (Suc n) s =
     (case pick_rotating_mixed s normalized shards best key predicate of
        (s', r) \<Rightarrow> r # mixed_run normalized shards best key predicate n s')"

lemma slot_owned:
  assumes "slot < sum_list ws"
  shows "\<exists>i < length ws. start_index ws (segments ws 0) slot 0 = Some i"
proof -
  have "slot < a + sum_list ws \<Longrightarrow> start_index ws (segments ws a) slot k \<noteq> None" if "a \<le> slot" for a k
    using that
  proof (induction ws arbitrary: a k)
    case (Cons w ws)
    then show ?case using Cons.IH [of "a + w" "Suc k"] by (cases "slot < a + w") auto
  qed simp
  from this [of 0 0] assms obtain i where "start_index ws (segments ws 0) slot 0 = Some i" by auto
  with start_index_less [OF this] show ?thesis by auto
qed

lemma mixed_run_slots:
  assumes "length shards = length normalized" and "weights = ready_counts shards best predicate"
    and "0 < sum_list weights"
  shows "List.map (map_option snd) (mixed_run normalized shards best key predicate n s) =
    List.map (\<lambda>j. map_option ((!) normalized)
      (start_index weights (segments weights 0) ((nat (get_or 0 (as_mixedCursors s) key) + j) mod sum_list weights) 0))
      [0 ..< n]"
proof (induction n arbitrary: s)
  case (Suc n)
  let ?T = "sum_list weights" and ?c = "nat (get_or 0 (as_mixedCursors s) key)"
  obtain s' r where p: "pick_rotating_mixed s normalized shards best key predicate = (s', r)" by force
  obtain i where i: "start_index weights (segments weights 0) (?c mod ?T) 0 = Some i"
    using slot_owned [of "?c mod ?T" weights] assms(3) by auto
  obtain a where a: "r = Some (a, normalized ! i)" "get_or 0 (as_mixedCursors s') key = int (?c mod ?T) + 1"
    using rotating_step [OF p assms refl i] by blast
  have c': "nat (get_or 0 (as_mixedCursors s') key) = Suc (?c mod ?T)" using a(2) by simp
  have m: "(Suc (?c mod ?T) + j) mod ?T = (?c + Suc j) mod ?T" for j
    by (metis add_Suc_shift mod_add_left_eq)
  have u: "[0 ..< Suc n] = 0 # List.map Suc [0 ..< n]" by (simp add: upt_conv_Cons map_Suc_upt)
  show ?case
    unfolding mixed_run.simps p prod.case u list.map Suc.IH [of s'] c' m
    by (simp add: a(1) i comp_def)
qed simp

lemma count_mod:
  assumes "0 < (T :: nat)"
  shows "card {j \<in> {..<T}. P ((c + j) mod T)} = card {x \<in> {..<T}. P x}"
proof -
  have inj: "inj_on (\<lambda>j. (c + j) mod T) {..<T}"
  proof (rule linorder_inj_onI')
    fix x y
    assume "x \<in> {..<T}" "y \<in> {..<T}" "x < y"
    then have "\<not> T dvd (c + y) - (c + x)" by (intro nat_dvd_not_less) auto
    with \<open>x < y\<close> show "(c + x) mod T \<noteq> (c + y) mod T" using mod_eq_dvd_iff_nat [of "c + x" "c + y" T] by auto
  qed
  have "(\<lambda>j. (c + j) mod T) ` {..<T} = {..<T}"
    by (rule endo_inj_surj) (use assms inj in auto)
  then have "{x \<in> {..<T}. P x} = (\<lambda>j. (c + j) mod T) ` {j \<in> {..<T}. P ((c + j) mod T)}"
    using Compr_image_eq [of "\<lambda>j. (c + j) mod T" "{..<T}" P] by simp
  moreover have "inj_on (\<lambda>j. (c + j) mod T) {j \<in> {..<T}. P ((c + j) mod T)}" by (rule inj_on_subset [OF inj]) blast
  ultimately show ?thesis by (simp only: card_image)
qed

section \<open>The promises of the scheduler\<close>


text \<open>
  C10: A pick across providers returns only a credential the request admits and that was not blocked
  for the model at one of the two instants at which the pick looked: the first reading of the clock
  where several shards were compared, the second where one shard was asked.
\<close>

theorem pickMixed_sound:
  assumes "sched_reach t s" and "t \<le> now1" and "now1 \<le> now2" and "now2 \<le> now3"
    and "pickMixedWithStrategy s providers model req strategy0 now1 now2 now3 = (s', Inr (a, pk))"
  shows "servable req (canonicalModelKey (canonicalModelKey model)) now1 a
    \<or> servable req (canonicalModelKey (canonicalModelKey model)) now2 a"
  using mixed_sound [OF sched_reach_inv [OF assms(1)] assms(2-5)] by simp

definition generation_epoch :: "authScheduler \<Rightarrow> string \<Rightarrow> u64" where
  "generation_epoch s i = (case map_of (as_authGenerations s) i of None \<Rightarrow> 0 | Some g \<Rightarrow> sg_epoch g)"

lemma stale_ignored:
  assumes "map_of (as_authGenerations s) (trim_space (auth_ID auth)) = Some g"
    and "auth_RegistrationEpoch auth < sg_epoch g"
  shows "upsertAuthLifecycleLocked registry s auth now = s"
  using assms by (simp add: upsertAuthLifecycleLocked_def isStaleScheduledAuth_def Let_def)

lemma remove_generations:
  "as_authGenerations (removeAuthFromProvidersLocked s i) = as_authGenerations s"
  by (simp add: removeAuthFromProvidersLocked_def Let_def drop_get)

lemma next_epoch:
  assumes "e \<noteq> (- 1 :: u64)" and "x \<le> e"
  shows "x < e + 1"
proof -
  have "1 + e \<noteq> 0" using assms(1) by (metis add_eq_0_iff)
  then have "unat (1 + e) = Suc (unat e)" by (rule unatSuc)
  with assms(2) show ?thesis by (simp add: word_less_nat_alt word_le_nat_alt add.commute)
qed


text \<open>
  C33: The scheduler reports that the model is cooling down exactly if there are credentials the request
  admits and every one of them is in cooldown; the time it tells the client to wait then ends when the
  first of them becomes available again.
\<close>

theorem cooldown_error_exact:
  assumes "shard_reach key t m"
    and "cands = {e. (\<exists>i. map_of (mo_entries m) i = Some e) \<and> predicate e}"
    and "err = unavailableErrorLocked m provider model predicate now"
  shows "((\<exists>mdl pv resetIn cause. err = SchedCooldown mdl pv resetIn cause) \<longleftrightarrow>
      cands \<noteq> {} \<and> (\<forall>e. e \<in> cands \<longrightarrow> sa_state e = scheduledStateCooldown))
    \<and> (\<forall>mdl pv resetIn cause. err = SchedCooldown mdl pv resetIn cause \<longrightarrow>
      resetIn = max 0 (Min (sa_nextRetryAt ` cands) - now))"
proof -
  have inv: "shard_inv key t m" using shard_reach_inv [OF assms(1)] by blast
  let ?es = "filter predicate (List.map snd (mo_entries m))"
  have "e \<in> set ?es \<longleftrightarrow> e \<in> cands" for e
    using inv map_of_mem [of "mo_entries m"] by (force simp: assms(2) shard_inv_def)
  then have set: "set ?es = cands" by blast
  then have ne: "?es \<noteq> [] \<longleftrightarrow> cands \<noteq> {}" by (metis set_empty)
  note spec = summary_error [OF inv, of provider model predicate now, unfolded set ne]
  show ?thesis unfolding assms(3) using spec by blast
qed


section \<open>Witnesses\<close>

text \<open>A scheduler with a cooling and a ready credential of one provider; the registry lists model m for both.\<close>

definition small_registry :: registry_view where
  "small_registry = \<lparr>rg_models = (\<lambda>_. [''m'']), rg_epoch = (\<lambda>_. 1)\<rparr>"

definition small_scheduler :: authScheduler where
  "small_scheduler = upsertAuthLifecycleLocked small_registry
     (upsertAuthLifecycleLocked small_registry (newAuthScheduler RoundRobinSelector) (cooling ''a'' 30) 10)
     (new_auth ''b'' ''codex'') 12"

lemma small_reach: "sched_reach 12 small_scheduler"
  unfolding small_scheduler_def
  by (intro sched_reach.lifecycle [where t = 10] sched_reach.lifecycle [where t = 0] sched_reach.created) simp_all

definition any_request :: pick_request where
  "any_request = request_of [] [] False [] []"

lemma small_pick:
  "pickSingleWithStrategy small_scheduler ''codex'' ''m'' any_request None 20 20 20 =
    (fst (pickSingleWithStrategy small_scheduler ''codex'' ''m'' any_request None 20 20 20), Inr (new_auth ''b'' ''codex''))"
proof -
  have "snd (pickSingleWithStrategy small_scheduler ''codex'' ''m'' any_request None 20 20 20) =
    Inr (new_auth ''b'' ''codex'')" by code_simp
  then show ?thesis by (metis prod.collapse)
qed


theorem pickMixed_sound_witness:
  "\<exists>s'. pickMixedWithStrategy small_scheduler [''codex'', ''claude''] ''m'' any_request None 20 20 20 =
    (s', Inr (new_auth ''b'' ''codex'', ''codex''))
    \<and> servable any_request (canonicalModelKey (canonicalModelKey ''m'')) 20 (new_auth ''b'' ''codex'')"
proof -
  let ?r = "pickMixedWithStrategy small_scheduler [''codex'', ''claude''] ''m'' any_request None 20 20 20"
  have "snd ?r = Inr (new_auth ''b'' ''codex'', ''codex'')" by code_simp
  then have r: "?r = (fst ?r, Inr (new_auth ''b'' ''codex'', ''codex''))" by (metis prod.collapse)
  from pickMixed_sound [OF small_reach _ _ _ r] have
    "servable any_request (canonicalModelKey (canonicalModelKey ''m'')) 20 (new_auth ''b'' ''codex'')" by simp
  with r show ?thesis by blast
qed


theorem cooldown_error_exact_witness:
  "\<exists>cause. unavailableErrorLocked (upsertEntryLocked (empty_shard ''m'') (meta_of (cooling ''a'' 30)) 10) ''codex'' ''m''
      (\<lambda>_. True) 12 = SchedCooldown ''m'' ''codex'' 18 cause"
proof -
  let ?m = "upsertEntryLocked (empty_shard ''m'') (meta_of (cooling ''a'' 30)) 10"
  have reach: "shard_reach ''m'' 10 ?m"
    by (intro shard_reach.upsert [where t = 0] shard_reach.fresh) (simp_all add: meta_of_def cooling_def new_auth_def)
  obtain e where e: "mo_entries ?m = [(''a'', e)]" "sa_state e = scheduledStateCooldown" "sa_nextRetryAt e = 30"
  proof -
    let ?e = "\<lparr>sa_meta = meta_of (cooling ''a'' 30), sa_state = scheduledStateCooldown, sa_nextRetryAt = 30\<rparr>"
    have "mo_entries ?m = [(''a'', ?e)]" by code_simp
    with that show thesis by simp
  qed
  have "{x. (\<exists>i. map_of (mo_entries ?m) i = Some x) \<and> True} = {e}" using e(1) by auto
  from cooldown_error_exact [OF reach this [symmetric] refl, where provider = "''codex''" and model = "''m''" and now = 12]
    e(2,3)
  obtain mdl pv cause where "unavailableErrorLocked ?m ''codex'' ''m'' (\<lambda>_. True) 12 = SchedCooldown mdl pv 18 cause" by auto
  then show ?thesis
    by (auto simp: unavailableErrorLocked_def build_error_def Let_def split: prod.splits if_splits)
qed


section \<open>Two credentials the scheduler mishandles\<close>

definition nested_registry :: registry_view where
  "nested_registry = \<lparr>rg_models = (\<lambda>_. [''m(x)(y)'']), rg_epoch = (\<lambda>_. 1)\<rparr>"


text \<open>
  Removing a credential whose ID has surrounding white space does not take it out of service:
  removal looks for the trimmed ID, the provider lists the credential under the ID as it is.
\<close>

theorem padded_id_not_removed:
  "snd (pickSingleWithStrategy
     (removeAuth (upsertAuthLifecycleLocked small_registry (newAuthScheduler RoundRobinSelector)
        (new_auth '' b'' ''codex'') 12) '' b'' 15)
     ''codex'' ''m'' any_request None 20 20 20) = Inr (new_auth '' b'' ''codex'')"
  by code_simp

end
