(* ===== verification/ErrorClass.thy ===== *)
theory ErrorClass
  imports Credentials
begin

text \<open>
  What a failed request says about the credential that served it: the classification of results in
  \<open>sdk/cliproxy/auth/conductor_cooldown.go\<close> and of request faults in
  \<open>internal/clienterror/client_error.go\<close>. A failure is an \<open>AuthError\<close>, as results carry it.
  Bodies are JSON: decoding them (\<open>encoding/json\<close>) and looking up a path (the package gjson) are the
  fields of \<open>json_bodies\<close>; everything the code decides from their answers is modelled.
\<close>

section \<open>Texts\<close>

definition trim_chars :: "string \<Rightarrow> string \<Rightarrow> string" where
  "trim_chars cutset s = rev (dropWhile (\<lambda>c. c \<in> set cutset) (rev (dropWhile (\<lambda>c. c \<in> set cutset) s)))"

definition trim_left_chars :: "string \<Rightarrow> string \<Rightarrow> string" where
  "trim_left_chars cutset s = dropWhile (\<lambda>c. c \<in> set cutset) s"

definition trim_right_chars :: "string \<Rightarrow> string \<Rightarrow> string" where
  "trim_right_chars cutset s = rev (dropWhile (\<lambda>c. c \<in> set cutset) (rev s))"

definition trim_prefix :: "string \<Rightarrow> string \<Rightarrow> string" where
  "trim_prefix s p = (if has_prefix s p then drop (length p) s else s)"

definition replace_chars :: "(char \<times> char) list \<Rightarrow> string \<Rightarrow> string" where
  "replace_chars rules s = List.map (\<lambda>c. case map_of rules c of Some d \<Rightarrow> d | None \<Rightarrow> c) s"

definition apostrophe :: string where "apostrophe = [CHR 0x27]"
definition quotation :: string where "quotation = [CHR 0x22]"
definition backquote :: string where "backquote = [CHR 0x60]"

definition punctuation :: string where "punctuation = '' .!;'' @ [CHR 0x09, CHR 0x0D, CHR 0x0A]"

section \<open>Request faults\<close>

record json_bodies =
  jb_decode :: "string \<Rightarrow> any_value option"
  jb_valid :: "string \<Rightarrow> bool"
  jb_get :: "string \<Rightarrow> string \<Rightarrow> string"

definition requestFaultCodes :: "string list" where
  "requestFaultCodes = [''cyber_policy'', ''context_length_exceeded'', ''message_too_big'',
     ''string_above_max_length'', ''invalid_prompt'', ''invalid_value'', ''unsupported_value'',
     ''invalid_request_error'', ''previous_response_not_found'']"

definition requestFaultTypes :: "string list" where
  "requestFaultTypes = [''invalid_request'', ''invalid_request_error'', ''bad_request_error'', ''invalid_prompt'']"

definition body_has :: "json_bodies \<Rightarrow> string list \<Rightarrow> string list \<Rightarrow> string \<Rightarrow> bool" where
  "body_has jb paths words text =
     (let body = trim_space text
      in if body = [] \<or> \<not> jb_valid jb body then False
         else list_ex (\<lambda>path. to_lower (trim_space (jb_get jb body path)) \<in> set words) paths)"

definition code_paths :: "string list" where
  "code_paths = [''error.code'', ''code'', ''response.error.code'', ''body.error.code'']"

definition type_paths :: "string list" where
  "type_paths = [''error.type'', ''type'', ''response.error.type'', ''body.error.type'']"

definition hasModelNotFoundErrorBody :: "json_bodies \<Rightarrow> string \<Rightarrow> bool" where
  "hasModelNotFoundErrorBody jb text = body_has jb code_paths [''model_not_found'', ''model_not_found_error''] text"

definition hasAuthenticationErrorBody :: "json_bodies \<Rightarrow> string \<Rightarrow> bool" where
  "hasAuthenticationErrorBody jb text = body_has jb type_paths [''authentication_error''] text"

definition hasRequestFaultBody :: "json_bodies \<Rightarrow> string \<Rightarrow> bool" where
  "hasRequestFaultBody jb text =
     (body_has jb code_paths requestFaultCodes text \<or> body_has jb type_paths requestFaultTypes text)"

definition IsItemNotPersisted :: "string \<Rightarrow> bool" where
  "IsItemNotPersisted message =
     (let lower = to_lower message
      in str_contains lower ''item with id'' \<and> str_contains lower ''not found''
         \<and> str_contains lower (''items are not persisted when '' @ backquote @ ''store'' @ backquote
             @ '' is set to false''))"

text \<open>\<open>IsRequestFault\<close> of an error with this text; \<open>carried\<close> is the status the error itself carries, if any.\<close>

definition IsRequestFault :: "json_bodies \<Rightarrow> int \<Rightarrow> int option \<Rightarrow> string \<Rightarrow> bool" where
  "IsRequestFault jb status0 carried text =
     (let status = (if status0 \<le> 0 then (case carried of Some s \<Rightarrow> s | None \<Rightarrow> status0) else status0)
      in if status = 402 \<or> status = 429 then False
         else if status = 401 \<and> hasAuthenticationErrorBody jb text then False
         else if hasModelNotFoundErrorBody jb text then False
         else if hasRequestFaultBody jb text then True
         else if IsItemNotPersisted text then True
         else status \<in> set [400, 409, 413, 422])"

section \<open>Models the upstream does not know\<close>

definition underscores :: "string \<Rightarrow> string" where
  "underscores s = replace_chars [(CHR ''-'', CHR ''_''), (CHR '' '', CHR ''_'')] s"

fun last_index_any :: "string \<Rightarrow> string \<Rightarrow> nat option" where
  "last_index_any [] cs = None"
| "last_index_any (x # s) cs =
     (case last_index_any s cs of Some i \<Rightarrow> Some (Suc i) | None \<Rightarrow> if x \<in> set cs then Some 0 else None)"

definition isModelNotFoundIdentifier :: "string \<Rightarrow> bool" where
  "isModelNotFoundIdentifier value =
     (let candidate = to_lower (trim_space value);
          stripped =
            (case last_index candidate (CHR ''#'') of
               Some fragment \<Rightarrow>
                 if fragment + 1 < length candidate then Some (drop (fragment + 1) candidate) else None
             | None \<Rightarrow> None);
          final =
            (case stripped of
               Some s \<Rightarrow> s
             | None \<Rightarrow>
                 (let path = trim_right_chars ''/'' (takeWhile (\<lambda>c. c \<noteq> CHR ''?'') candidate)
                  in case last_index_any path ''/:'' of
                       Some separator \<Rightarrow> drop (separator + 1) path
                     | None \<Rightarrow> path))
      in underscores final \<in> set [''model_not_found'', ''model_not_found_error'', ''unknown_model'',
           ''model_does_not_exist'', ''model_not_exist''])"

definition isNotFoundErrorIdentifier :: "string \<Rightarrow> bool" where
  "isNotFoundErrorIdentifier value =
     (underscores (to_lower (trim_space value)) \<in> set [''not_found'', ''not_found_error''])"

definition isMissingModelPhrase :: "string \<Rightarrow> bool" where
  "isMissingModelPhrase value =
     (trim_chars punctuation value \<in> set [''not found'', ''was not found'', ''could not be found'',
        ''does not exist'', ''doesn'' @ apostrophe @ ''t exist'', ''not exist'', ''is unknown'',
        ''does not exist or you do not have access to it''])"

text \<open>What follows the model's name in a value that starts with it; None if it does not.\<close>

fun trim_reference_loop :: "string \<Rightarrow> string list \<Rightarrow> string option" where
  "trim_reference_loop value [] = None"
| "trim_reference_loop value (candidate # candidates) =
     (if value = candidate then Some []
      else if \<not> has_prefix value candidate then trim_reference_loop value candidates
      else let remainder = drop (length candidate) value
        in if remainder = [] \<or> hd remainder \<in> set '' :,'' then Some (trim_left_chars '' :,'' remainder)
           else trim_reference_loop value candidates)"

definition trimRequestedModelReference :: "string \<Rightarrow> string \<Rightarrow> string option" where
  "trimRequestedModelReference value requestedModel =
     (let model = to_lower (trim_space requestedModel)
      in if model = [] then None
         else trim_reference_loop value
           [model, apostrophe @ model @ apostrophe, quotation @ model @ quotation, backquote @ model @ backquote])"

definition phrase_rest :: "string \<Rightarrow> string \<Rightarrow> string option" where
  "phrase_rest lower prefix =
     (if lower \<noteq> prefix \<and> \<not> has_prefix lower (prefix @ '' '') \<and> \<not> has_prefix lower (prefix @ '':'') then None
      else Some (trim_space (trim_prefix (trim_space (trim_prefix lower prefix)) '':'')))"

fun first_rest :: "string \<Rightarrow> string list \<Rightarrow> string option" where
  "first_rest lower [] = None"
| "first_rest lower (p # ps) = (case phrase_rest lower p of Some r \<Rightarrow> Some r | None \<Rightarrow> first_rest lower ps)"

definition model_phrases :: "string list" where
  "model_phrases = [''the requested model'', ''requested model'', ''the model'', ''model'']"

definition isExplicitModelNotFoundMessage :: "string \<Rightarrow> string \<Rightarrow> bool" where
  "isExplicitModelNotFoundMessage message requestedModel =
     (let lower = trim_chars punctuation (to_lower (trim_space message));
          normalized = replace_chars [(CHR ''-'', CHR ''_'')] lower
      in if lower = [] then False
         else if str_contains lower ''in request'' \<or> str_contains lower ''in body''
              \<or> str_contains lower ''request body'' then False
         else if str_contains normalized ''model_not_found'' \<or> str_contains normalized ''unknown_model'' then True
         else case first_rest lower [''no such model'', ''unknown model''] of
           Some remainder \<Rightarrow>
             remainder = [] \<or> trimRequestedModelReference remainder requestedModel = Some []
         | None \<Rightarrow>
             (case first_rest lower model_phrases of
                Some remainder \<Rightarrow>
                  isMissingModelPhrase remainder
                  \<or> (case trimRequestedModelReference remainder requestedModel of
                       Some suffix \<Rightarrow> isMissingModelPhrase suffix | None \<Rightarrow> False)
              | None \<Rightarrow> False))"

definition isExactRequestedModelReference :: "string \<Rightarrow> string \<Rightarrow> bool" where
  "isExactRequestedModelReference message requestedModel =
     (let lower = trim_chars punctuation (to_lower (trim_space message))
      in case first_rest lower model_phrases of
           Some remainder \<Rightarrow> trimRequestedModelReference remainder requestedModel = Some []
         | None \<Rightarrow> False)"

text \<open>
  The search for a model-not-found answer in a decoded body. The accumulators of the loop over an
  object's members are the Go variables \<open>notFoundType\<close> and \<open>exactModelReference\<close>.
\<close>

definition message_keys :: "string list" where
  "message_keys = [''error'', ''message'', ''detail'', ''error_description'', ''title'']"

fun containsStructuredModelNotFound :: "string \<Rightarrow> any_value \<Rightarrow> bool"
  and not_found_members :: "string \<Rightarrow> (string \<times> any_value) list \<Rightarrow> bool \<Rightarrow> bool \<Rightarrow> bool"
  and not_found_items :: "string \<Rightarrow> any_value list \<Rightarrow> bool"
where
  "containsStructuredModelNotFound requestedModel (AObject members) =
     not_found_members requestedModel members False False"
| "containsStructuredModelNotFound requestedModel (AArray items) = not_found_items requestedModel items"
| "containsStructuredModelNotFound requestedModel _ = False"
| "not_found_members requestedModel [] notFoundType exactModelReference = (notFoundType \<and> exactModelReference)"
| "not_found_members requestedModel ((key, AString text) # members) notFoundType exactModelReference =
     (let k = to_lower (trim_space key)
      in if k = ''code'' then
           isModelNotFoundIdentifier text
           \<or> not_found_members requestedModel members notFoundType exactModelReference
         else if k = ''type'' then
           isModelNotFoundIdentifier text
           \<or> not_found_members requestedModel members (notFoundType \<or> isNotFoundErrorIdentifier text) exactModelReference
         else if k \<in> set message_keys then
           isExplicitModelNotFoundMessage text requestedModel
           \<or> not_found_members requestedModel members notFoundType
               (exactModelReference \<or> isExactRequestedModelReference text requestedModel)
         else not_found_members requestedModel members notFoundType exactModelReference)"
| "not_found_members requestedModel ((key, item) # members) notFoundType exactModelReference =
     (containsStructuredModelNotFound requestedModel item
      \<or> not_found_members requestedModel members notFoundType exactModelReference)"
| "not_found_items requestedModel [] = False"
| "not_found_items requestedModel (AString text # items) =
     (isExplicitModelNotFoundMessage text requestedModel \<or> not_found_items requestedModel items)"
| "not_found_items requestedModel (item # items) =
     (containsStructuredModelNotFound requestedModel item \<or> not_found_items requestedModel items)"

definition isStructuredModelNotFoundError :: "json_bodies \<Rightarrow> string \<Rightarrow> string \<Rightarrow> bool" where
  "isStructuredModelNotFoundError jb message requestedModel =
     (case jb_decode jb (trim_space message) of
        None \<Rightarrow> False
      | Some payload \<Rightarrow> containsStructuredModelNotFound requestedModel payload)"

definition Error_Error :: "AuthError \<Rightarrow> string" where
  "Error_Error e = (if er_Code e = [] then er_Message e else er_Code e @ '': '' @ er_Message e)"

definition isExplicitModelNotFoundError :: "json_bodies \<Rightarrow> AuthError \<Rightarrow> string \<Rightarrow> bool" where
  "isExplicitModelNotFoundError jb e requestedModel =
     (isModelNotFoundIdentifier (er_Code e)
      \<or> isStructuredModelNotFoundError jb (er_Message e) requestedModel
      \<or> isStructuredModelNotFoundError jb (Error_Error e) requestedModel)"

section \<open>Kinds of failures\<close>

definition ErrorCodeRequestScoped :: string where "ErrorCodeRequestScoped = ''request_scoped''"
definition connectionLifecycleErrorCode :: string where "connectionLifecycleErrorCode = ''connection_lifecycle''"
definition transientTransportErrorCode :: string where "transientTransportErrorCode = ''transient_transport''"
definition ErrorCodeForceCooldown :: string where "ErrorCodeForceCooldown = ''force_cooldown''"

definition isModelSupportErrorMessage :: "string \<Rightarrow> bool" where
  "isModelSupportErrorMessage message =
     (let lower = to_lower (trim_space message)
      in lower \<noteq> [] \<and> list_ex (str_contains lower)
        [''model_not_supported'', ''requested model is not supported'', ''requested model is unsupported'',
         ''requested model is unavailable'', ''model is not supported'', ''model not supported'',
         ''unsupported model'', ''model unavailable'', ''not available for your plan'',
         ''not available for your account''])"

definition model_support_status :: "int \<Rightarrow> bool" where
  "model_support_status status = (status \<in> set [400, 422, 404])"

definition isModelSupportError :: "json_bodies \<Rightarrow> AuthError \<Rightarrow> bool" where
  "isModelSupportError jb e =
     (isExplicitModelNotFoundError jb e []
      \<or> (model_support_status (er_HTTPStatus e) \<and> isModelSupportErrorMessage (Error_Error e)))"

definition isModelSupportResultError :: "json_bodies \<Rightarrow> AuthError \<Rightarrow> bool" where
  "isModelSupportResultError jb e =
     (isExplicitModelNotFoundError jb e []
      \<or> (model_support_status (er_HTTPStatus e) \<and> isModelSupportErrorMessage (er_Message e)))"

definition isInvalidGrantErrorMessage :: "string \<Rightarrow> bool" where
  "isInvalidGrantErrorMessage message = str_contains (to_lower message) ''invalid_grant''"

definition isInvalidGrantError :: "AuthError \<Rightarrow> bool" where
  "isInvalidGrantError e =
     (er_HTTPStatus e \<in> set [400, 401] \<and> isInvalidGrantErrorMessage (Error_Error e))"

definition isInvalidGrantResultError :: "AuthError \<Rightarrow> bool" where
  "isInvalidGrantResultError e =
     (er_HTTPStatus e \<in> set [400, 401]
      \<and> (isInvalidGrantErrorMessage (er_Code e) \<or> isInvalidGrantErrorMessage (er_Message e)))"

definition isCloudflareChallengeErrorMessage :: "string \<Rightarrow> bool" where
  "isCloudflareChallengeErrorMessage message =
     (let lower = to_lower (trim_space message)
      in str_contains lower ''challenge-platform'' \<or> str_contains lower ''cf-mitigated''
         \<or> str_contains lower ''cloudflare challenge''
         \<or> (str_contains lower ''just a moment'' \<and> str_contains lower ''cloudflare''))"

definition isCloudflareChallengeError :: "AuthError \<Rightarrow> bool" where
  "isCloudflareChallengeError e = (\<not> er_HTTPStatus e \<ge> 500 \<and> isCloudflareChallengeErrorMessage (Error_Error e))"

definition isCloudflareChallengeResultError :: "AuthError \<Rightarrow> bool" where
  "isCloudflareChallengeResultError e = (\<not> er_HTTPStatus e \<ge> 500 \<and> isCloudflareChallengeErrorMessage (er_Message e))"

definition isConnectionLifecycleMessage :: "string \<Rightarrow> bool" where
  "isConnectionLifecycleMessage message =
     (let lower = to_lower (trim_space message)
      in if lower = [] then False
         else if lower \<in> set [''context canceled'', ''context deadline exceeded'', ''eof'', ''unexpected eof''] then True
         else list_ex (str_contains lower)
           [''websocket: close 1000'', ''websocket: close 1001'', ''websocket: close 1006'', ''unexpected eof''])"

definition isConnectionLifecycleResultError :: "AuthError \<Rightarrow> bool" where
  "isConnectionLifecycleResultError e =
     (if er_Code e = connectionLifecycleErrorCode then True
      else if er_HTTPStatus e \<noteq> 0 then False
      else isConnectionLifecycleMessage (er_Message e))"

definition isTransientTransportMessage :: "string \<Rightarrow> bool" where
  "isTransientTransportMessage message =
     (let lower = to_lower (trim_space message)
      in lower \<noteq> [] \<and> list_ex (str_contains lower)
        [''tls: tls handshake'', ''tls handshake timeout'', ''wsarecv'', ''wsasend'',
         ''a connection attempt failed'', ''connection refused'', ''connection reset'', ''i/o timeout'',
         ''no such host'', ''server misbehaving'', ''network is unreachable'', ''no route to host'',
         ''broken pipe'', ''connection aborted'', ''use of closed network connection'', ''unexpected eof''])"

definition isTransientTransportResultError :: "AuthError \<Rightarrow> bool" where
  "isTransientTransportResultError e =
     (if er_Code e = transientTransportErrorCode then True
      else if er_HTTPStatus e \<noteq> 0 then False
      else isTransientTransportMessage (er_Message e))"

definition isRequestScopedNotFoundResultError :: "AuthError \<Rightarrow> bool" where
  "isRequestScopedNotFoundResultError e = (er_HTTPStatus e = 404 \<and> IsItemNotPersisted (er_Message e))"

definition isRequestInvalidError :: "json_bodies \<Rightarrow> AuthError \<Rightarrow> bool" where
  "isRequestInvalidError jb e =
     (if er_Code e = ErrorCodeRequestScoped then True
      else if isCloudflareChallengeError e then False
      else if isInvalidGrantError e then False
      else if isModelSupportError jb e then False
      else if IsRequestFault jb (er_HTTPStatus e) (Some (er_HTTPStatus e)) (Error_Error e) then True
      else er_Message e \<noteq> [] \<and> IsRequestFault jb (er_HTTPStatus e) None (er_Message e))"

definition isRequestScopedResultError :: "json_bodies \<Rightarrow> AuthError \<Rightarrow> bool" where
  "isRequestScopedResultError jb e =
     (er_Code e = ErrorCodeRequestScoped \<or> isRequestScopedNotFoundResultError e \<or> isRequestInvalidError jb e)"

text \<open>Failures that leave the credential alone. A result without an error counts against it.\<close>

definition shouldSkipCredentialCooldown :: "json_bodies \<Rightarrow> AuthError option \<Rightarrow> bool" where
  "shouldSkipCredentialCooldown jb err =
     (case err of
        None \<Rightarrow> False
      | Some e \<Rightarrow>
          if er_Code e = ErrorCodeForceCooldown then False
          else isRequestScopedResultError jb e \<or> isConnectionLifecycleResultError e
               \<or> isTransientTransportResultError e)"

lemmas error_codes = ErrorCodeRequestScoped_def connectionLifecycleErrorCode_def transientTransportErrorCode_def
  ErrorCodeForceCooldown_def

lemmas skip_defs = shouldSkipCredentialCooldown_def isRequestScopedResultError_def isRequestInvalidError_def
  isRequestScopedNotFoundResultError_def isConnectionLifecycleResultError_def isTransientTransportResultError_def

section \<open>Which failures count\<close>

text \<open>
  A rate limit or payment failure is never excused by what the upstream writes into the body: unless
  the code that reported it marked it as request-scoped, as a connection or as a transport failure, it
  counts against the credential.
\<close>

theorem quota_failures_count:
  assumes "er_HTTPStatus e = 429 \<or> er_HTTPStatus e = 402"
    and "er_Code e \<notin> {ErrorCodeRequestScoped, connectionLifecycleErrorCode, transientTransportErrorCode}"
  shows "\<not> shouldSkipCredentialCooldown jb (Some e)"
  using assms by (auto simp: skip_defs IsRequestFault_def Let_def)

theorem quota_failures_count_witness:
  "\<not> shouldSkipCredentialCooldown
     \<lparr>jb_decode = (\<lambda>_. None), jb_valid = (\<lambda>_. True), jb_get = (\<lambda>_ _. ''invalid_request_error'')\<rparr>
     (Some \<lparr>er_Code = [], er_Message = ''{}'', er_Retryable = False, er_HTTPStatus = 429\<rparr>)"
  by (rule quota_failures_count) (simp_all add: error_codes)

end
