(* ===== verification/Cooldown.thy ===== *)
theory Cooldown
  imports ErrorClass Availability
begin

text \<open>
  How results change a credential: cooldowns, quota backoff and their aggregation over the models
  (\<open>sdk/cliproxy/auth/conductor_cooldown.go\<close>, constants in \<open>conductor_refresh.go\<close>). A definition
  models what the code does to one credential under the manager's lock; the manager is in theory Manager.
\<close>

section \<open>Settings\<close>

definition quotaBackoffBase :: duration where "quotaBackoffBase = second_ns"
definition quotaBackoffMax :: duration where "quotaBackoffMax = 30 * minute_ns"
definition minQuotaCooldownFloor :: duration where "minQuotaCooldownFloor = 10 * second_ns"
definition maxQuotaCooldownCeiling :: duration where "maxQuotaCooldownCeiling = hour_ns"
definition transientErrorCooldown :: duration where "transientErrorCooldown = minute_ns"

text \<open>
  The configuration as cooling reads it: \<open>cf_compat\<close> is the DisableCooling entry that
  \<open>resolveOpenAICompatConfig\<close> finds for provider key, compat name and provider; \<open>cf_present\<close> says
  whether there is a configuration at all; the last two fields are the package's atomic settings.
\<close>

record cooling_config =
  cf_present :: bool
  cf_homeEnabled :: bool
  cf_disableCooling :: bool
  cf_compat :: "string \<Rightarrow> string \<Rightarrow> string \<Rightarrow> bool option"
  cf_quotaCooldownDisabled :: bool
  cf_transientErrorCooldownSeconds :: int

definition providerCoolingOverrideForAuth :: "cooling_config \<Rightarrow> Auth \<Rightarrow> bool option" where
  "providerCoolingOverrideForAuth cfg auth =
     (if \<not> cf_present cfg then None
      else let provider = to_lower (trim_space (auth_Provider auth));
               providerKey = trim_space (get_or [] (auth_Attributes auth) ''provider_key'');
               compatName = trim_space (get_or [] (auth_Attributes auth) ''compat_name'')
        in if provider = [] then None
           else if providerKey = [] \<and> compatName = [] \<and> provider \<noteq> ''openai-compatibility'' then None
           else cf_compat cfg (if providerKey = [] then provider else providerKey) compatName provider)"

definition quotaCooldownDisabledForAuthWithConfig :: "cooling_config \<Rightarrow> Auth \<Rightarrow> bool" where
  "quotaCooldownDisabledForAuthWithConfig cfg auth =
     (if cf_present cfg \<and> cf_homeEnabled cfg then True
      else case DisableCoolingOverride auth of
        Some override \<Rightarrow> override
      | None \<Rightarrow>
          (case providerCoolingOverrideForAuth cfg auth of
             Some override \<Rightarrow> override
           | None \<Rightarrow> if cf_present cfg \<and> cf_disableCooling cfg then True else cf_quotaCooldownDisabled cfg))"

definition recoverableFailureRetryAfterWithHint ::
  "cooling_config \<Rightarrow> time \<Rightarrow> duration option \<Rightarrow> bool \<Rightarrow> time"
where
  "recoverableFailureRetryAfterWithHint cfg now retryAfter disableCooling =
     (let seconds = cf_transientErrorCooldownSeconds cfg
      in if disableCooling then zero_time
         else if seconds < 0 then zero_time
         else case retryAfter of
           Some d \<Rightarrow> if d > 0 then now + d
                      else if seconds = 0 then now + transientErrorCooldown else now + seconds * second_ns
         | None \<Rightarrow> if seconds = 0 then now + transientErrorCooldown else now + seconds * second_ns)"

section \<open>Deadlines and backoff\<close>

definition clampQuotaCooldown :: "time \<Rightarrow> time \<Rightarrow> time" where
  "clampQuotaCooldown next now =
     (if next = zero_time then next
      else if next > now + maxQuotaCooldownCeiling then now + maxQuotaCooldownCeiling
      else next)"

text \<open>Two's complement of 64 bits, the arithmetic of \<open>time.Duration\<close> and of \<open>1 << n\<close>.\<close>

definition wrap_int64 :: "int \<Rightarrow> int" where
  "wrap_int64 x = (x + 2 ^ 63) mod 2 ^ 64 - 2 ^ 63"

definition nextQuotaCooldown :: "int \<Rightarrow> bool \<Rightarrow> duration \<times> int" where
  "nextQuotaCooldown prevLevel0 disableCooling =
     (let prevLevel = (if prevLevel0 < 0 then 0 else prevLevel0)
      in if disableCooling then (0, prevLevel)
         else
           let cooldown0 = wrap_int64 (quotaBackoffBase * wrap_int64 (2 ^ nat prevLevel));
               cooldown = (if cooldown0 < quotaBackoffBase then quotaBackoffBase else cooldown0)
           in if cooldown \<ge> quotaBackoffMax then (quotaBackoffMax, prevLevel)
              else (cooldown, prevLevel + 1))"

definition quotaCooldownAfterFailure :: "QuotaState \<Rightarrow> time \<Rightarrow> time \<times> int" where
  "quotaCooldownAfterFailure quota now =
     (if qs_NextRecoverAt quota > now then (qs_NextRecoverAt quota, qs_BackoffLevel quota)
      else case nextQuotaCooldown (qs_BackoffLevel quota) False of
        (cooldown, nextLevel) \<Rightarrow> (if cooldown > 0 then now + cooldown else zero_time, nextLevel))"

definition nextCloudflareCooldown :: "int \<Rightarrow> bool \<Rightarrow> time \<Rightarrow> time \<times> int" where
  "nextCloudflareCooldown backoffLevel disableCooling now =
     (if disableCooling then (zero_time, backoffLevel)
      else case nextQuotaCooldown backoffLevel disableCooling of
        (cooldown0, nextLevel) \<Rightarrow>
          let cooldown = (if cooldown0 < 10 * second_ns then 10 * second_ns else cooldown0)
          in (if cooldown > 0 then now + cooldown else zero_time, nextLevel))"

definition applyCooldownFields :: "QuotaState \<Rightarrow> bool \<Rightarrow> string \<Rightarrow> time \<Rightarrow> int \<Rightarrow> QuotaState" where
  "applyCooldownFields dst exceeded reason nextRecoverAt backoffLevel =
     dst\<lparr>qs_Exceeded := exceeded, qs_Reason := reason, qs_NextRecoverAt := nextRecoverAt,
         qs_BackoffLevel := backoffLevel\<rparr>"

definition clear_quota :: "QuotaState \<Rightarrow> QuotaState" where
  "clear_quota q = applyCooldownFields q False [] zero_time 0"

definition cooldownFieldsOf :: "QuotaState \<Rightarrow> QuotaState" where
  "cooldownFieldsOf q = no_quota\<lparr>qs_Exceeded := qs_Exceeded q, qs_Reason := qs_Reason q,
     qs_NextRecoverAt := qs_NextRecoverAt q, qs_BackoffLevel := qs_BackoffLevel q\<rparr>"

definition mergeQuotaObservation :: "QuotaState \<Rightarrow> QuotaState \<Rightarrow> QuotaState" where
  "mergeQuotaObservation target source =
     (if qs_ObservedAt source = zero_time \<or> qs_ObservedAt source < qs_ObservedAt target then target
      else target\<lparr>qs_ObservedAt := qs_ObservedAt source, qs_Signals := qs_Signals source\<rparr>)"

section \<open>Model states\<close>

definition new_model_state :: ModelState where
  "new_model_state = \<lparr>ms_Status = StatusActive, ms_StatusMessage = [], ms_Unavailable = False,
     ms_NextRetryAfter = zero_time, ms_LastError = None, ms_Quota = no_quota, ms_UpdatedAt = zero_time\<rparr>"

definition mergeModelState :: "ModelState \<Rightarrow> ModelState \<Rightarrow> ModelState" where
  "mergeModelState target source =
     (let preferred = (if ms_UpdatedAt source > ms_UpdatedAt target then source else target);
          fallback = (if ms_UpdatedAt source > ms_UpdatedAt target then target else source);
          tq = ms_Quota target; sq = ms_Quota source;
          exceeded = (qs_Exceeded tq \<or> qs_Exceeded sq);
          quota0 = no_quota\<lparr>qs_Exceeded := exceeded, qs_Reason := qs_Reason (ms_Quota preferred),
            qs_NextRecoverAt := qs_NextRecoverAt tq, qs_BackoffLevel := qs_BackoffLevel tq\<rparr>;
          quota1 = mergeQuotaObservation (mergeQuotaObservation quota0 (ms_Quota fallback)) (ms_Quota preferred);
          quota = quota1\<lparr>
            qs_NextRecoverAt := (if qs_NextRecoverAt sq > qs_NextRecoverAt quota1 then qs_NextRecoverAt sq
              else qs_NextRecoverAt quota1),
            qs_BackoffLevel := (if qs_BackoffLevel sq > qs_BackoffLevel quota1 then qs_BackoffLevel sq
              else qs_BackoffLevel quota1),
            qs_Reason := (if qs_Reason quota1 = [] then qs_Reason (ms_Quota fallback) else qs_Reason quota1)\<rparr>;
          unavailable = (ms_Unavailable target \<or> ms_Unavailable source)
      in \<lparr>ms_Status =
            (if ms_Status target = StatusDisabled \<or> ms_Status source = StatusDisabled then StatusDisabled
             else if unavailable \<or> exceeded then StatusError else ms_Status preferred),
          ms_StatusMessage =
            (if ms_StatusMessage preferred = [] then ms_StatusMessage fallback else ms_StatusMessage preferred),
          ms_Unavailable = unavailable,
          ms_NextRetryAfter =
            (if ms_NextRetryAfter source > ms_NextRetryAfter target then ms_NextRetryAfter source
             else ms_NextRetryAfter target),
          ms_LastError = (case ms_LastError preferred of None \<Rightarrow> ms_LastError fallback | Some e \<Rightarrow> Some e),
          ms_Quota = quota,
          ms_UpdatedAt =
            (if ms_UpdatedAt source > ms_UpdatedAt target then ms_UpdatedAt source else ms_UpdatedAt target)\<rparr>)"

text \<open>States listed under keys that are not canonical are merged under the canonical ones.\<close>

definition normal_key :: "string \<Rightarrow> string" where
  "normal_key model = (if canonicalModelKey model = [] then trim_space model else canonicalModelKey model)"

definition normalize_step ::
  "string \<times> ModelState \<Rightarrow> (string, ModelState) gomap \<Rightarrow> (string, ModelState) gomap"
where
  "normalize_step entry normalized =
     (case entry of (model, state) \<Rightarrow>
        (case map_of normalized (normal_key model) of
           Some existing \<Rightarrow> AList.update (normal_key model) (mergeModelState existing state) normalized
         | None \<Rightarrow> AList.update (normal_key model) state normalized))"

definition normalizeModelStates :: "(string, ModelState) gomap \<Rightarrow> (string, ModelState) gomap" where
  "normalizeModelStates states =
     (if list_all (\<lambda>(model, _). normal_key model = model) states then states
      else fold normalize_step states [])"

text \<open>The state of a model, created if there is none; the states with it in place.\<close>

definition ensureModelState :: "(string, ModelState) gomap \<Rightarrow> string \<Rightarrow> (string, ModelState) gomap \<times> ModelState" where
  "ensureModelState states0 model0 =
     (let model = canonicalModelKey model0; states = normalizeModelStates states0
      in case map_of states model of
           Some state \<Rightarrow> (states, state)
         | None \<Rightarrow> (AList.update model new_model_state states, new_model_state))"

definition resetModelState :: "time \<Rightarrow> ModelState \<Rightarrow> ModelState" where
  "resetModelState now state =
     state\<lparr>ms_Unavailable := False, ms_Status := StatusActive, ms_StatusMessage := [],
       ms_NextRetryAfter := zero_time, ms_LastError := None, ms_Quota := clear_quota (ms_Quota state),
       ms_UpdatedAt := now\<rparr>"

definition isModelStateActiveCooldown :: "ModelState \<Rightarrow> time \<Rightarrow> bool" where
  "isModelStateActiveCooldown state now =
     (if ms_Status state = StatusDisabled then True
      else if ms_NextRetryAfter state \<noteq> zero_time \<and> ms_NextRetryAfter state > now then True
      else if qs_NextRecoverAt (ms_Quota state) \<noteq> zero_time \<and> qs_NextRecoverAt (ms_Quota state) > now then True
      else qs_Exceeded (ms_Quota state) \<and> qs_NextRecoverAt (ms_Quota state) = zero_time)"

definition modelStateIsClean :: "ModelState \<Rightarrow> bool" where
  "modelStateIsClean state =
     (if ms_Status state \<noteq> StatusActive then False
      else if ms_Unavailable state \<or> ms_StatusMessage state \<noteq> [] \<or> ms_NextRetryAfter state \<noteq> zero_time
        \<or> ms_LastError state \<noteq> None then False
      else \<not> (qs_Exceeded (ms_Quota state) \<or> qs_Reason (ms_Quota state) \<noteq> []
        \<or> qs_NextRecoverAt (ms_Quota state) \<noteq> zero_time \<or> qs_BackoffLevel (ms_Quota state) \<noteq> 0))"

section \<open>The credential as a whole\<close>

definition clearAggregatedAvailability :: "Auth \<Rightarrow> Auth" where
  "clearAggregatedAvailability auth =
     auth\<lparr>auth_Unavailable := False, auth_NextRetryAfter := zero_time, auth_Quota := clear_quota (auth_Quota auth)\<rparr>"

text \<open>An expired block is lifted when the states are aggregated.\<close>

definition lift_expired :: "time \<Rightarrow> ModelState \<Rightarrow> ModelState" where
  "lift_expired now state =
     (if ms_Status state \<noteq> StatusDisabled \<and> ms_Unavailable state \<and> ms_NextRetryAfter state \<noteq> zero_time
         \<and> \<not> ms_NextRetryAfter state > now
      then state\<lparr>ms_Unavailable := False, ms_NextRetryAfter := zero_time\<rparr> else state)"

definition state_unavailable :: "time \<Rightarrow> ModelState \<Rightarrow> bool" where
  "state_unavailable now state =
     (ms_Status state = StatusDisabled
      \<or> (ms_Unavailable state \<and> ms_NextRetryAfter state \<noteq> zero_time \<and> ms_NextRetryAfter state > now))"

record aggregate =
  ag_allUnavailable :: bool
  ag_earliestRetry :: time
  ag_quotaExceeded :: bool
  ag_quotaRecover :: time
  ag_maxBackoffLevel :: int

definition no_states :: aggregate where
  "no_states = \<lparr>ag_allUnavailable = True, ag_earliestRetry = zero_time, ag_quotaExceeded = False,
     ag_quotaRecover = zero_time, ag_maxBackoffLevel = 0\<rparr>"

definition aggregate_step :: "time \<Rightarrow> ModelState \<Rightarrow> aggregate \<Rightarrow> aggregate" where
  "aggregate_step now state ag =
     \<lparr>ag_allUnavailable = (ag_allUnavailable ag \<and> state_unavailable now state),
      ag_earliestRetry =
        (if ms_Status state \<noteq> StatusDisabled \<and> state_unavailable now state
            \<and> (ag_earliestRetry ag = zero_time \<or> ms_NextRetryAfter state < ag_earliestRetry ag)
         then ms_NextRetryAfter state else ag_earliestRetry ag),
      ag_quotaExceeded = (ag_quotaExceeded ag \<or> qs_Exceeded (ms_Quota state)),
      ag_quotaRecover =
        (if qs_Exceeded (ms_Quota state)
            \<and> (ag_quotaRecover ag = zero_time
               \<or> (qs_NextRecoverAt (ms_Quota state) \<noteq> zero_time
                  \<and> qs_NextRecoverAt (ms_Quota state) < ag_quotaRecover ag))
         then qs_NextRecoverAt (ms_Quota state) else ag_quotaRecover ag),
      ag_maxBackoffLevel =
        (if qs_Exceeded (ms_Quota state) \<and> qs_BackoffLevel (ms_Quota state) > ag_maxBackoffLevel ag
         then qs_BackoffLevel (ms_Quota state) else ag_maxBackoffLevel ag)\<rparr>"

definition aggregate_states :: "time \<Rightarrow> (string, ModelState) gomap \<Rightarrow> aggregate" where
  "aggregate_states now states = fold (\<lambda>(_, state) ag. aggregate_step now state ag) states no_states"

definition credential_quota_active :: "Auth \<Rightarrow> time \<Rightarrow> bool" where
  "credential_quota_active auth now =
     (qs_Exceeded (auth_Quota auth) \<and> qs_Reason (auth_Quota auth) = ''credential_quota''
      \<and> qs_NextRecoverAt (auth_Quota auth) > now)"

definition aggregate_quota :: "aggregate \<Rightarrow> time \<Rightarrow> QuotaState \<Rightarrow> QuotaState" where
  "aggregate_quota ag now q =
     (if ag_quotaExceeded ag then
        q\<lparr>qs_Exceeded := True, qs_Reason := ''quota'',
          qs_NextRecoverAt := (if qs_NextRecoverAt q > ag_quotaRecover ag then qs_NextRecoverAt q else ag_quotaRecover ag),
          qs_BackoffLevel := ag_maxBackoffLevel ag\<rparr>
      else if qs_Exceeded q \<and> qs_NextRecoverAt q > now then q
      else clear_quota q)"

definition updateAggregatedAvailability :: "time \<Rightarrow> Auth \<Rightarrow> Auth" where
  "updateAggregatedAvailability now auth =
     (if credential_quota_active auth now then auth\<lparr>auth_Unavailable := True\<rparr>
      else if auth_ModelStates auth = [] then clearAggregatedAvailability auth
      else let ag = aggregate_states now (auth_ModelStates auth)
        in auth\<lparr>auth_ModelStates := List.map (\<lambda>(m, state). (m, lift_expired now state)) (auth_ModelStates auth),
             auth_Unavailable := ag_allUnavailable ag,
             auth_NextRetryAfter := (if ag_allUnavailable ag then ag_earliestRetry ag else zero_time),
             auth_Quota := aggregate_quota ag now (auth_Quota auth)\<rparr>)"

definition hasModelError :: "Auth \<Rightarrow> time \<Rightarrow> bool" where
  "hasModelError auth now = list_ex (\<lambda>(_, state).
     ms_LastError state \<noteq> None
     \<or> (ms_Status state = StatusError \<and> ms_Unavailable state
        \<and> (ms_NextRetryAfter state = zero_time \<or> ms_NextRetryAfter state > now))) (auth_ModelStates auth)"

definition clearAuthStateOnSuccess :: "time \<Rightarrow> Auth \<Rightarrow> Auth" where
  "clearAuthStateOnSuccess now auth =
     auth\<lparr>auth_Unavailable := False, auth_Status := StatusActive, auth_StatusMessage := [],
       auth_Quota := clear_quota (auth_Quota auth), auth_LastError := None, auth_NextRetryAfter := zero_time,
       auth_UpdatedAt := now\<rparr>"

definition needs_clearing :: "bool \<Rightarrow> time \<Rightarrow> QuotaState \<Rightarrow> bool" where
  "needs_clearing unavailable nextRetryAfter q =
     (unavailable \<or> nextRetryAfter \<noteq> zero_time \<or> qs_Exceeded q \<or> qs_NextRecoverAt q \<noteq> zero_time)"

definition clear_state :: "time \<Rightarrow> ModelState \<Rightarrow> ModelState" where
  "clear_state now state =
     (if needs_clearing (ms_Unavailable state) (ms_NextRetryAfter state) (ms_Quota state)
      then state\<lparr>ms_Unavailable := False, ms_NextRetryAfter := zero_time, ms_Quota := clear_quota (ms_Quota state),
             ms_UpdatedAt := now\<rparr>
      else state)"

definition clearCooldownStateForAuth :: "time \<Rightarrow> Auth \<Rightarrow> Auth \<times> bool" where
  "clearCooldownStateForAuth now auth =
     (let own = needs_clearing (auth_Unavailable auth) (auth_NextRetryAfter auth) (auth_Quota auth);
          changed = (own \<or> list_ex (\<lambda>(_, state). needs_clearing (ms_Unavailable state) (ms_NextRetryAfter state)
            (ms_Quota state)) (auth_ModelStates auth));
          a1 = (if own then auth\<lparr>auth_Unavailable := False, auth_NextRetryAfter := zero_time,
                  auth_Quota := clear_quota (auth_Quota auth), auth_UpdatedAt := now\<rparr> else auth);
          a2 = a1\<lparr>auth_ModelStates := List.map (\<lambda>(m, state). (m, clear_state now state)) (auth_ModelStates a1)\<rparr>;
          a3 = (if auth_ModelStates a2 \<noteq> [] then updateAggregatedAvailability now a2 else a2)
      in (if changed then a3\<lparr>auth_Generation := auth_Generation a3 + 1, auth_UpdatedAt := now\<rparr> else a3, changed))"

section \<open>A failure of the credential\<close>

definition origin_statuses :: "int list" where
  "origin_statuses = [408, 500, 502, 503, 504, 520, 521, 522, 523, 524, 525, 526]"

definition error_code :: "AuthError option \<Rightarrow> string" where
  "error_code err = (case err of Some e \<Rightarrow> er_Code e | None \<Rightarrow> [])"

definition statusCodeFromResult :: "AuthError option \<Rightarrow> int" where
  "statusCodeFromResult err = (case err of Some e \<Rightarrow> er_HTTPStatus e | None \<Rightarrow> 0)"

definition error_is :: "(AuthError \<Rightarrow> bool) \<Rightarrow> AuthError option \<Rightarrow> bool" where
  "error_is P err = (case err of Some e \<Rightarrow> P e | None \<Rightarrow> False)"

text \<open>The quota deadline and backoff level after a 429 with cooling enabled.\<close>

definition quota_deadline :: "duration option \<Rightarrow> QuotaState \<Rightarrow> time \<Rightarrow> time \<times> int" where
  "quota_deadline retryAfter q now =
     (let (next0, level) =
            (case retryAfter of
               Some cooldown \<Rightarrow> (now + (if cooldown < minQuotaCooldownFloor then minQuotaCooldownFloor else cooldown),
                                  qs_BackoffLevel q)
             | None \<Rightarrow> quotaCooldownAfterFailure q now);
          next = (if qs_Exceeded q \<and> qs_NextRecoverAt q > next0 then qs_NextRecoverAt q else next0)
      in (clampQuotaCooldown next now, level))"

text \<open>Status message and deadline of the failures without a special class, by HTTP status.\<close>

definition auth_failure_by_status ::
  "cooling_config \<Rightarrow> int \<Rightarrow> duration option \<Rightarrow> time \<Rightarrow> bool \<Rightarrow> Auth \<Rightarrow> Auth"
where
  "auth_failure_by_status cfg status retryAfter now disableCooling auth =
     (let after = (\<lambda>d. if disableCooling then zero_time else now + d)
      in if status = 401 then
           auth\<lparr>auth_StatusMessage := ''unauthorized'', auth_NextRetryAfter := after (30 * minute_ns)\<rparr>
         else if status = 402 \<or> status = 403 then
           auth\<lparr>auth_StatusMessage := ''payment_required'', auth_NextRetryAfter := after (30 * minute_ns)\<rparr>
         else if status = 404 then
           auth\<lparr>auth_StatusMessage := ''not_found'', auth_NextRetryAfter := after (12 * hour_ns)\<rparr>
         else if status = 429 then
           let q = (auth_Quota auth)\<lparr>qs_Exceeded := True, qs_Reason := ''quota''\<rparr>;
               (next, level) = (if disableCooling then (zero_time, qs_BackoffLevel q)
                                else quota_deadline retryAfter q now)
           in auth\<lparr>auth_StatusMessage := ''quota exhausted'',
                auth_Quota := q\<lparr>qs_BackoffLevel := level, qs_NextRecoverAt := next\<rparr>,
                auth_NextRetryAfter := next\<rparr>
         else if status \<in> set origin_statuses then
           let next = recoverableFailureRetryAfterWithHint cfg now retryAfter disableCooling
           in auth\<lparr>auth_StatusMessage := ''transient upstream error'', auth_NextRetryAfter := next,
                auth_Unavailable := (next \<noteq> zero_time)\<rparr>
         else
           let next = recoverableFailureRetryAfterWithHint cfg now None disableCooling
           in auth\<lparr>auth_StatusMessage := (if auth_StatusMessage auth = [] then ''request failed''
                  else auth_StatusMessage auth),
                auth_NextRetryAfter := next, auth_Unavailable := (next \<noteq> zero_time)\<rparr>)"

definition applyAuthFailureState ::
  "cooling_config \<Rightarrow> json_bodies \<Rightarrow> AuthError option \<Rightarrow> duration option \<Rightarrow> time \<Rightarrow> bool \<Rightarrow> Auth \<Rightarrow> Auth"
where
  "applyAuthFailureState cfg jb err retryAfter now disableCooling auth =
     (if shouldSkipCredentialCooldown jb err then auth
      else
        let prev = auth_NextRetryAfter auth;
            a0 = auth\<lparr>auth_Unavailable := True, auth_Status := StatusError, auth_UpdatedAt := now\<rparr>;
            a1 = (case err of
                Some e \<Rightarrow> a0\<lparr>auth_LastError := Some e,
                  auth_StatusMessage := (if er_Message e \<noteq> [] then er_Message e else auth_StatusMessage a0)\<rparr>
              | None \<Rightarrow> a0);
            a2 = (if error_is isCloudflareChallengeResultError err then
                    let (next, level) = nextCloudflareCooldown (qs_BackoffLevel (auth_Quota a1)) disableCooling now
                    in a1\<lparr>auth_StatusMessage := ''cloudflare challenge'',
                         auth_Quota := applyCooldownFields (auth_Quota a1) True ''cloudflare challenge'' next level,
                         auth_NextRetryAfter := next\<rparr>
                  else if error_is isInvalidGrantResultError err then
                    a1\<lparr>auth_StatusMessage := ''invalid_grant'',
                       auth_NextRetryAfter := (if disableCooling then zero_time else now + 30 * minute_ns)\<rparr>
                  else auth_failure_by_status cfg (statusCodeFromResult err) retryAfter now disableCooling a1);
            a3 = (if auth_NextRetryAfter a2 \<noteq> zero_time \<and> prev > auth_NextRetryAfter a2 \<and> prev > now
                  then a2\<lparr>auth_NextRetryAfter := prev\<rparr> else a2);
            a4 = (if error_code err = ErrorCodeForceCooldown \<and> auth_NextRetryAfter a3 = zero_time
                  then a3\<lparr>auth_NextRetryAfter := now + transientErrorCooldown, auth_Unavailable := True\<rparr> else a3)
        in if disableCooling \<and> auth_NextRetryAfter a4 = zero_time \<and> qs_NextRecoverAt (auth_Quota a4) = zero_time
           then a4\<lparr>auth_Unavailable := False, auth_Quota := (auth_Quota a4)\<lparr>qs_Exceeded := False\<rparr>\<rparr>
           else a4)"

section \<open>A failure of one model\<close>

record result =
  rs_AuthID :: string
  rs_Provider :: string
  rs_Model :: string
  rs_RouteModel :: string
  rs_Success :: bool
  rs_RetryAfter :: "duration option"
  rs_CredentialScope :: bool
  rs_Error :: "AuthError option"
  rs_SkipQuotaObservation :: bool

text \<open>The deadline a failed result gives the model's state, and its quota record, by class and status.\<close>

definition penalise_state ::
  "cooling_config \<Rightarrow> json_bodies \<Rightarrow> result \<Rightarrow> time \<Rightarrow> bool \<Rightarrow> ModelState \<Rightarrow> ModelState"
where
  "penalise_state cfg jb r now disableCooling state =
     (let err = rs_Error r;
          status = statusCodeFromResult err;
          after = (\<lambda>d. if disableCooling then zero_time else now + d)
      in if error_is (isModelSupportResultError jb) err then state\<lparr>ms_NextRetryAfter := after (12 * hour_ns)\<rparr>
         else if error_is isCloudflareChallengeResultError err then
           let (next, level) = nextCloudflareCooldown (qs_BackoffLevel (ms_Quota state)) disableCooling now
           in state\<lparr>ms_NextRetryAfter := next, ms_StatusMessage := ''cloudflare challenge'',
                ms_Quota := applyCooldownFields (ms_Quota state) True ''cloudflare challenge'' next level\<rparr>
         else if error_is isInvalidGrantResultError err then state\<lparr>ms_NextRetryAfter := after (30 * minute_ns)\<rparr>
         else if status \<in> set [401, 402, 403] then state\<lparr>ms_NextRetryAfter := after (30 * minute_ns)\<rparr>
         else if status = 404 then state\<lparr>ms_NextRetryAfter := after (12 * hour_ns)\<rparr>
         else if status = 429 then
           let (next, level) = (if disableCooling then (zero_time, qs_BackoffLevel (ms_Quota state))
                                else quota_deadline (rs_RetryAfter r) (ms_Quota state) now)
           in state\<lparr>ms_NextRetryAfter := next,
                ms_Quota := applyCooldownFields (ms_Quota state) True ''quota'' next level\<rparr>
         else if status \<in> set origin_statuses then
           let next = recoverableFailureRetryAfterWithHint cfg now (rs_RetryAfter r) disableCooling
           in state\<lparr>ms_NextRetryAfter := next, ms_Unavailable := (next \<noteq> zero_time)\<rparr>
         else
           let next = recoverableFailureRetryAfterWithHint cfg now None disableCooling
           in state\<lparr>ms_NextRetryAfter := next, ms_Unavailable := (next \<noteq> zero_time)\<rparr>)"

text \<open>Whether the result reaches the 429 case of the switch.\<close>

definition quota_case :: "json_bodies \<Rightarrow> result \<Rightarrow> bool" where
  "quota_case jb r =
     (\<not> error_is (isModelSupportResultError jb) (rs_Error r)
      \<and> \<not> error_is isCloudflareChallengeResultError (rs_Error r)
      \<and> \<not> error_is isInvalidGrantResultError (rs_Error r)
      \<and> statusCodeFromResult (rs_Error r) = 429)"

text \<open>A credential-wide limit reaches the states of the other models \<dots>\<close>

definition propagate_state :: "time \<Rightarrow> time \<Rightarrow> int \<Rightarrow> ModelState \<Rightarrow> ModelState" where
  "propagate_state now next level other =
     (let quotaNext = clampQuotaCooldown
            (if qs_Exceeded (ms_Quota other) \<and> qs_NextRecoverAt (ms_Quota other) > next
             then qs_NextRecoverAt (ms_Quota other) else next) now;
          retryAfter = (if ms_NextRetryAfter other \<noteq> zero_time \<and> ms_NextRetryAfter other > quotaNext
             then ms_NextRetryAfter other else quotaNext)
      in other\<lparr>ms_Unavailable := True, ms_Status := StatusError, ms_NextRetryAfter := retryAfter,
           ms_Quota := applyCooldownFields (ms_Quota other) True ''credential_quota'' quotaNext level\<rparr>)"

text \<open>\<dots> and the credential itself.\<close>

definition propagate_auth :: "time \<Rightarrow> time \<Rightarrow> Auth \<Rightarrow> Auth" where
  "propagate_auth now next auth =
     (let q = auth_Quota auth;
          authNext = clampQuotaCooldown (if qs_NextRecoverAt q > next then qs_NextRecoverAt q else next) now
      in auth\<lparr>auth_Unavailable := True,
           auth_Quota := q\<lparr>qs_Exceeded := True, qs_Reason := ''credential_quota'', qs_NextRecoverAt := authNext\<rparr>,
           auth_NextRetryAfter := authNext\<rparr>)"

text \<open>The corrections after the switch: disabled cooling, forced cooldown, and no shortening.\<close>

definition settle_state :: "result \<Rightarrow> time \<Rightarrow> bool \<Rightarrow> time \<Rightarrow> ModelState \<Rightarrow> ModelState" where
  "settle_state r now disableCooling prev s0 =
     (let s1 = (if disableCooling \<and> ms_NextRetryAfter s0 = zero_time \<and> qs_NextRecoverAt (ms_Quota s0) = zero_time
            then s0\<lparr>ms_Unavailable := False, ms_Quota := (ms_Quota s0)\<lparr>qs_Exceeded := False\<rparr>\<rparr> else s0);
          s2 = (if error_code (rs_Error r) = ErrorCodeForceCooldown \<and> ms_NextRetryAfter s1 = zero_time
            then s1\<lparr>ms_NextRetryAfter := now + transientErrorCooldown, ms_Unavailable := True\<rparr> else s1)
      in if ms_NextRetryAfter s2 \<noteq> zero_time \<and> prev > ms_NextRetryAfter s2 \<and> prev > now
         then s2\<lparr>ms_NextRetryAfter := prev\<rparr> else s2)"

text \<open>What is noted of a failure in the model's state and in the credential, before the switch.\<close>

definition note_state :: "result \<Rightarrow> time \<Rightarrow> ModelState \<Rightarrow> ModelState" where
  "note_state r now s0 =
     (let s1 = s0\<lparr>ms_Unavailable := True, ms_Status := StatusError, ms_UpdatedAt := now\<rparr>
      in case rs_Error r of
           Some e \<Rightarrow> s1\<lparr>ms_LastError := Some e, ms_StatusMessage := er_Message e\<rparr>
         | None \<Rightarrow> s1)"

definition note_auth :: "json_bodies \<Rightarrow> result \<Rightarrow> Auth \<Rightarrow> Auth" where
  "note_auth jb r auth =
     (let a1 = (case rs_Error r of
          Some e \<Rightarrow> auth\<lparr>auth_LastError := Some e, auth_StatusMessage := er_Message e\<rparr> | None \<Rightarrow> auth)
      in if \<not> error_is (isModelSupportResultError jb) (rs_Error r)
            \<and> error_is isCloudflareChallengeResultError (rs_Error r) \<and> auth_LastError a1 \<noteq> None
         then a1\<lparr>auth_StatusMessage := ''cloudflare challenge''\<rparr> else a1)"

definition propagate_states ::
  "time \<Rightarrow> string \<Rightarrow> ModelState \<Rightarrow> (string, ModelState) gomap \<Rightarrow> (string, ModelState) gomap"
where
  "propagate_states now key s states =
     List.map (\<lambda>(m, other). (m, if m = key then other
       else propagate_state now (ms_NextRetryAfter s) (qs_BackoffLevel (ms_Quota s)) other)) states"

definition fail_model ::
  "cooling_config \<Rightarrow> json_bodies \<Rightarrow> result \<Rightarrow> time \<Rightarrow> bool \<Rightarrow> string \<Rightarrow> Auth \<Rightarrow> Auth"
where
  "fail_model cfg jb r now disableCooling modelKey auth =
     (let key = canonicalModelKey modelKey;
          (states, s0) = ensureModelState (auth_ModelStates auth) modelKey;
          s = penalise_state cfg jb r now disableCooling (note_state r now s0);
          wide = (quota_case jb r \<and> rs_CredentialScope r \<and> \<not> disableCooling);
          states1 = (if wide then propagate_states now key s states else states);
          a1 = (if wide then propagate_auth now (ms_NextRetryAfter s) (note_auth jb r auth) else note_auth jb r auth);
          s' = settle_state r now disableCooling (ms_NextRetryAfter s0) s
      in updateAggregatedAvailability now
           (a1\<lparr>auth_ModelStates := AList.update key s' states1, auth_Status := StatusError\<rparr>))"

section \<open>A result\<close>

definition succeed_model :: "time \<Rightarrow> string \<Rightarrow> Auth \<Rightarrow> Auth" where
  "succeed_model now modelKey auth =
     (let (states, s0) = ensureModelState (auth_ModelStates auth) modelKey;
          a1 = updateAggregatedAvailability now
            (auth\<lparr>auth_ModelStates := AList.update (canonicalModelKey modelKey) (resetModelState now s0) states\<rparr>)
      in if hasModelError a1 now then a1
         else a1\<lparr>auth_LastError := None, auth_StatusMessage := [], auth_Status := StatusActive\<rparr>)"

definition effective_disable :: "cooling_config \<Rightarrow> result \<Rightarrow> Auth \<Rightarrow> bool" where
  "effective_disable cfg r auth =
     (if error_code (rs_Error r) = ErrorCodeForceCooldown then False
      else quotaCooldownDisabledForAuthWithConfig cfg auth)"

definition apply_result ::
  "cooling_config \<Rightarrow> json_bodies \<Rightarrow> result \<Rightarrow> time \<Rightarrow> string \<Rightarrow> Auth \<Rightarrow> Auth"
where
  "apply_result cfg jb r now modelKey auth =
     (if rs_Success r then
        (if qs_Reason (auth_Quota auth) = ''credential_quota'' \<and> qs_NextRecoverAt (auth_Quota auth) > now then auth
         else if modelKey \<noteq> [] then succeed_model now modelKey auth
         else clearAuthStateOnSuccess now auth)
      else if modelKey \<noteq> [] then
        (if shouldSkipCredentialCooldown jb (rs_Error r) then auth
         else fail_model cfg jb r now (effective_disable cfg r auth) modelKey auth)
      else applyAuthFailureState cfg jb (rs_Error r) (rs_RetryAfter r) now (effective_disable cfg r auth) auth)"

text \<open>The counters of a result, before its effect on availability.\<close>

definition count_result :: "result \<Rightarrow> time \<Rightarrow> Auth \<Rightarrow> Auth" where
  "count_result r now auth =
     (let a = auth\<lparr>auth_recentRequests := recordRecentRequest (auth_recentRequests auth) now (rs_Success r)\<rparr>
      in if rs_Success r then a\<lparr>auth_Success := auth_Success a + 1\<rparr> else a\<lparr>auth_Failed := auth_Failed a + 1\<rparr>)"

text \<open>The model a result is about: its own, or the one the requested route resolves to (\<open>selectionKey\<close>).\<close>

definition result_model :: "(Auth \<Rightarrow> string \<Rightarrow> string) \<Rightarrow> result \<Rightarrow> Auth \<Rightarrow> string" where
  "result_model selectionKey r auth =
     (let modelKey = canonicalModelKey (rs_Model r)
      in if modelKey = [] \<and> trim_space (rs_RouteModel r) \<noteq> [] then
           (if selectionKey auth (rs_RouteModel r) = [] then canonicalModelKey (rs_RouteModel r)
            else selectionKey auth (rs_RouteModel r))
         else modelKey)"

end
