(* ===== verification/QuotaSignals.thy ===== *)
theory QuotaSignals
  imports Cooldown "HOL-Library.Product_Lexorder"
begin

text \<open>
  The passive quota snapshot a response leaves on a credential (\<open>sdk/cliproxy/auth/quota_signals.go\<close>).
  A header map is a Go map from names to lists of vals; the two range loops of the code visit it in
  list order.
\<close>

section \<open>Definitions\<close>

definition maxQuotaSignalHeaders :: nat where "maxQuotaSignalHeaders = 64"
definition maxQuotaSignalValue :: nat where "maxQuotaSignalValue = 512"

text \<open>\<open>http.CanonicalHeaderKey\<close>: capitals at the start and after hyphens, if all bytes may occur in a name.\<close>

definition upper_char :: "char \<Rightarrow> char" where
  "upper_char c = (if c \<ge> CHR ''a'' \<and> c \<le> CHR ''z'' then char_of (of_char c - (32 :: nat)) else c)"

definition header_name_char :: "char \<Rightarrow> bool" where
  "header_name_char c =
     (is_digit c \<or> (c \<ge> CHR ''a'' \<and> c \<le> CHR ''z'') \<or> (c \<ge> CHR ''A'' \<and> c \<le> CHR ''Z'')
      \<or> c \<in> set ''!#$%&*+-.^_|~'' \<or> c = CHR 0x27 \<or> c = CHR 0x60)"

fun capitalise :: "bool \<Rightarrow> string \<Rightarrow> string" where
  "capitalise upper [] = []"
| "capitalise upper (c # s) =
     (if upper then upper_char c else lower_char c) # capitalise (c = CHR ''-'') s"

definition CanonicalHeaderKey :: "string \<Rightarrow> string" where
  "CanonicalHeaderKey s = (if list_all header_name_char s then capitalise True s else s)"

definition ProviderSupportsQuotaObservation :: "string \<Rightarrow> bool" where
  "ProviderSupportsQuotaObservation provider =
     (to_lower (trim_space provider) \<in> set [''claude'', ''codex'', ''devin''])"

definition validQuotaSignalValue :: "string \<Rightarrow> bool" where
  "validQuotaSignalValue value =
     (if value = [] \<or> length value > maxQuotaSignalValue then False
      else list_all (\<lambda>c. \<not> (of_char c < (32 :: nat) \<or> of_char c = (127 :: nat))) value)"

definition quotaSignalRetentionRank :: "string \<Rightarrow> nat" where
  "quotaSignalRetentionRank name =
     (let lower = to_lower (trim_space name)
      in if lower = ''retry-after'' \<or> has_prefix lower ''anthropic-ratelimit-unified-'' then 0
         else if lower = ''x-codex-plan-type'' \<or> lower = ''x-codex-active-limit''
              \<or> has_prefix lower ''x-codex-credits-'' then 1
         else if lower = ''x-codex-allowed'' \<or> lower = ''x-codex-limit-reached''
              \<or> has_prefix lower ''x-codex-primary-'' \<or> has_prefix lower ''x-codex-secondary-'' then 2
         else if has_prefix lower ''x-codex-code-review-'' then 3
         else if has_prefix lower ''x-codex-additional-'' then 5
         else if has_prefix lower ''x-codex-'' then 4
         else 6)"

definition isQuotaSignalHeaderForProvider :: "string \<Rightarrow> string \<Rightarrow> bool" where
  "isQuotaSignalHeaderForProvider provider0 name0 =
     (let provider = to_lower (trim_space provider0); name = to_lower (trim_space name0)
      in if name = ''retry-after'' then provider = ''claude'' \<or> provider = ''codex''
         else if has_prefix name ''anthropic-ratelimit-unified-'' then provider = ''claude''
         else if has_prefix name ''x-ratelimit-'' then provider = ''codex''
         else if \<not> has_prefix name ''x-codex-'' then False
         else if provider \<noteq> ''codex'' then False
         else if name = ''x-codex-active-limit'' \<or> name = ''x-codex-plan-type''
              \<or> has_prefix name ''x-codex-credits-'' then True
         else list_ex (str_contains name)
           [''-allowed'', ''-limit-reached'', ''-limit-name'', ''-used-percent'', ''-window-minutes'',
            ''-reset-after-seconds'', ''-reset-at'', ''-over-secondary-limit-percent''])"

text \<open>The signals among the headers, under canonical names; of several headers with one name the last visited.\<close>

definition collect_step ::
  "string \<Rightarrow> string \<times> string list \<Rightarrow> (string, string) gomap \<Rightarrow> (string, string) gomap"
where
  "collect_step provider header vals =
     (case header of (key, headerValues) \<Rightarrow>
        let canonicalKey = CanonicalHeaderKey (trim_space key)
        in if \<not> isQuotaSignalHeaderForProvider provider canonicalKey \<or> headerValues = [] then vals
           else let value = trim_space (last headerValues)
             in if \<not> validQuotaSignalValue value then vals else AList.update canonicalKey value vals)"

definition signal_values :: "string \<Rightarrow> (string, string list) gomap \<Rightarrow> (string, string) gomap" where
  "signal_values provider headers = fold (collect_step provider) headers []"

definition retained_names :: "(string, string) gomap \<Rightarrow> string list" where
  "retained_names vals =
     take maxQuotaSignalHeaders (sort_key (\<lambda>n. (quotaSignalRetentionRank n, n)) (List.map fst vals))"

definition collectQuotaSignals :: "string \<Rightarrow> (string, string list) gomap \<Rightarrow> (string, string) gomap" where
  "collectQuotaSignals provider headers =
     (let vals = signal_values provider headers
      in List.map (\<lambda>n. (n, get_or [] vals n)) (retained_names vals))"

definition ClearObservationSignals :: "QuotaState \<Rightarrow> QuotaState" where
  "ClearObservationSignals q = q\<lparr>qs_Signals := [], qs_ObservedAt := zero_time\<rparr>"

definition ObserveResponseHeadersForProvider ::
  "string \<Rightarrow> (string, string list) gomap \<Rightarrow> time \<Rightarrow> time \<Rightarrow> QuotaState \<Rightarrow> QuotaState"
where
  "ObserveResponseHeadersForProvider provider headers observedAt clock q =
     (if \<not> ProviderSupportsQuotaObservation provider then ClearObservationSignals q
      else let next = collectQuotaSignals provider headers
        in if next = [] then q
           else q\<lparr>qs_Signals := next, qs_ObservedAt := (if observedAt = zero_time then clock else observedAt)\<rparr>)"

section \<open>What is kept\<close>

lemma signal_values_ok:
  "wf_map (signal_values provider headers) \<and>
   (\<forall>n v. map_of (signal_values provider headers) n = Some v \<longrightarrow>
     isQuotaSignalHeaderForProvider provider n \<and> validQuotaSignalValue v)"
proof -
  have "wf_map m \<and> (\<forall>n v. map_of m n = Some v \<longrightarrow> isQuotaSignalHeaderForProvider provider n \<and> validQuotaSignalValue v)
    \<Longrightarrow> wf_map (fold (collect_step provider) headers m) \<and>
      (\<forall>n v. map_of (fold (collect_step provider) headers m) n = Some v \<longrightarrow>
        isQuotaSignalHeaderForProvider provider n \<and> validQuotaSignalValue v)" for m
  proof (induction headers arbitrary: m)
    case (Cons h headers)
    have "wf_map (collect_step provider h m) \<and> (\<forall>n v. map_of (collect_step provider h m) n = Some v \<longrightarrow>
        isQuotaSignalHeaderForProvider provider n \<and> validQuotaSignalValue v)"
    proof -
      obtain key vs where h: "h = (key, vs)" by force
      let ?k = "CanonicalHeaderKey (trim_space key)" and ?v = "trim_space (last vs)"
      have "collect_step provider h m = m \<or> (collect_step provider h m = AList.update ?k ?v m
          \<and> isQuotaSignalHeaderForProvider provider ?k \<and> validQuotaSignalValue ?v)"
        by (simp add: collect_step_def h Let_def)
      then show ?thesis
      proof
        assume "collect_step provider h m = m"
        with Cons.prems show ?thesis by simp
      next
        assume u: "collect_step provider h m = AList.update ?k ?v m
          \<and> isQuotaSignalHeaderForProvider provider ?k \<and> validQuotaSignalValue ?v"
        from u have e: "collect_step provider h m = AList.update ?k ?v m" by (rule conjunct1)
        have wf: "wf_map (AList.update ?k ?v m)" using Cons.prems by blast
        have "isQuotaSignalHeaderForProvider provider n \<and> validQuotaSignalValue v"
          if "map_of (AList.update ?k ?v m) n = Some v" for n v
        proof (cases "n = ?k")
          case True
          with that have "?v = v" by (simp only: map_of_update refl if_True option.inject)
          with True u show ?thesis by blast
        next
          case False
          with that have "map_of m n = Some v" by (simp only: map_of_update if_False)
          with Cons.prems show ?thesis by blast
        qed
        with wf show ?thesis unfolding e by blast
      qed
    qed
    from Cons.IH [OF this] show ?case unfolding fold_simps .
  qed simp
  from this [of "[]"] show ?thesis by (simp add: signal_values_def)
qed

lemma retained_subset: "set (retained_names vals) \<subseteq> fst ` set vals"
  using set_take_subset unfolding retained_names_def by fastforce

lemma retained_distinct: "wf_map vals \<Longrightarrow> distinct (retained_names vals)"
  by (simp add: retained_names_def wf_map_def)

lemma retained_rank:
  assumes "n \<in> set (retained_names vals)" and "n' \<in> fst ` set vals" and "n' \<notin> set (retained_names vals)"
  shows "quotaSignalRetentionRank n \<le> quotaSignalRetentionRank n'"
proof -
  let ?f = "\<lambda>n. (quotaSignalRetentionRank n, n)"
  let ?s = "sort_key ?f (List.map fst vals)"
  have "n' \<in> set (drop maxQuotaSignalHeaders ?s)"
  proof -
    have "set (take maxQuotaSignalHeaders ?s) \<union> set (drop maxQuotaSignalHeaders ?s) = fst ` set vals"
      by (simp only: set_append [symmetric] append_take_drop_id set_sort set_map)
    with assms(2,3) show ?thesis unfolding retained_names_def by blast
  qed
  moreover have "sorted (List.map ?f (take maxQuotaSignalHeaders ?s @ drop maxQuotaSignalHeaders ?s))"
    by (simp only: append_take_drop_id sorted_sort_key)
  then have "\<forall>x \<in> set (take maxQuotaSignalHeaders ?s). \<forall>y \<in> set (drop maxQuotaSignalHeaders ?s). ?f x \<le> ?f y"
    unfolding map_append sorted_append by fastforce
  ultimately have "?f n \<le> ?f n'" using assms(1) unfolding retained_names_def by blast
  then show ?thesis by auto
qed

text \<open>
  A snapshot has at most 64 signals, each a quota header of the provider under one name, with a value
  of at most 512 bytes without control characters (such vals reach the plain-text request log), and
  no signal is kept while one of a more important rank is dropped.
\<close>

theorem collectQuotaSignals_bounded:
  assumes "signals = collectQuotaSignals provider headers"
  shows "length signals \<le> 64 \<and> distinct (List.map fst signals)
    \<and> (\<forall>(n, v) \<in> set signals. isQuotaSignalHeaderForProvider provider n \<and> v \<noteq> [] \<and> length v \<le> 512
        \<and> list_all (\<lambda>c. of_char c \<ge> (32 :: nat) \<and> of_char c \<noteq> (127 :: nat)) v
        \<and> (\<forall>n' \<in> fst ` set (signal_values provider headers). n' \<notin> fst ` set signals \<longrightarrow>
             quotaSignalRetentionRank n \<le> quotaSignalRetentionRank n'))"
proof -
  let ?vals = "signal_values provider headers"
  have names: "List.map fst signals = retained_names ?vals"
    by (simp add: assms collectQuotaSignals_def Let_def comp_def)
  have ok: "wf_map ?vals" "\<And>n v. map_of ?vals n = Some v \<Longrightarrow>
      isQuotaSignalHeaderForProvider provider n \<and> validQuotaSignalValue v"
    using signal_values_ok by blast+
  have len: "length signals \<le> 64"
    using arg_cong [OF names, of length] by (simp add: retained_names_def maxQuotaSignalHeaders_def)
  have dist: "distinct (List.map fst signals)" unfolding names using retained_distinct ok(1) .
  have each: "isQuotaSignalHeaderForProvider provider n \<and> v \<noteq> [] \<and> length v \<le> 512
      \<and> list_all (\<lambda>c. of_char c \<ge> (32 :: nat) \<and> of_char c \<noteq> (127 :: nat)) v"
    and rank: "\<forall>n' \<in> fst ` set ?vals. n' \<notin> fst ` set signals \<longrightarrow>
      quotaSignalRetentionRank n \<le> quotaSignalRetentionRank n'" if nv: "(n, v) \<in> set signals" for n v
  proof -
    have n: "n \<in> set (retained_names ?vals)" "v = get_or [] ?vals n"
      using nv by (auto simp: assms collectQuotaSignals_def Let_def)
    then obtain w where "map_of ?vals n = Some w"
      using retained_subset by (metis image_iff map_of_eq_None_iff not_None_eq subsetD)
    with n ok(2) [of n w] show "isQuotaSignalHeaderForProvider provider n \<and> v \<noteq> [] \<and> length v \<le> 512
        \<and> list_all (\<lambda>c. of_char c \<ge> (32 :: nat) \<and> of_char c \<noteq> (127 :: nat)) v"
      by (auto simp: get_or_def validQuotaSignalValue_def maxQuotaSignalValue_def not_less list_all_iff split: if_splits)
    have "fst ` set signals = set (retained_names ?vals)" by (metis names set_map)
    with retained_rank [OF n(1)] show "\<forall>n' \<in> fst ` set ?vals. n' \<notin> fst ` set signals \<longrightarrow>
        quotaSignalRetentionRank n \<le> quotaSignalRetentionRank n'" by blast
  qed
  show ?thesis using len dist each rank by blast
qed

theorem collectQuotaSignals_bounded_witness:
  "length (collectQuotaSignals ''codex'' [(''x-codex-plan-type'', [''free'']), (''Date'', [''today''])]) = 1
    \<and> isQuotaSignalHeaderForProvider ''codex'' ''X-Codex-Plan-Type''"
proof -
  let ?h = "[(''x-codex-plan-type'', [''free'']), (''Date'', [''today''])]"
  have v: "collectQuotaSignals ''codex'' ?h = [(''X-Codex-Plan-Type'', ''free'')]" by code_simp
  from collectQuotaSignals_bounded [OF refl, of "''codex''" ?h] show ?thesis unfolding v by simp
qed

end
