(* ===== verification/Results.thy ===== *)
theory Results
  imports QuotaSignals
begin

text \<open>
  The effect of a result on the credential that served it (the locked part of \<open>MarkResult\<close>,
  \<open>sdk/cliproxy/auth/conductor_cooldown.go\<close>), and what it guarantees: backoff, ceilings, deadlines that
  are never shortened, aggregation over the models, and the way a result shows in selection.
\<close>

section \<open>The locked part of MarkResult\<close>

definition observe_state ::
  "string \<Rightarrow> (string, string list) gomap \<Rightarrow> time \<Rightarrow> ModelState \<Rightarrow> ModelState"
where
  "observe_state provider headers now state =
     state\<lparr>ms_Quota := ObserveResponseHeadersForProvider provider headers now now (ms_Quota state)\<rparr>"

definition observe_result ::
  "result \<Rightarrow> (string, string list) gomap \<Rightarrow> time \<Rightarrow> string \<Rightarrow> Auth \<Rightarrow> Auth"
where
  "observe_result r headers now modelKey auth =
     (if rs_SkipQuotaObservation r then auth
      else auth\<lparr>auth_Quota := ObserveResponseHeadersForProvider (rs_Provider r) headers now now (auth_Quota auth),
             auth_ModelStates :=
               (let key = canonicalModelKey modelKey
                in case map_of (auth_ModelStates auth) key of
                     Some state \<Rightarrow> if key = [] then auth_ModelStates auth
                       else AList.update key (observe_state (rs_Provider r) headers now state) (auth_ModelStates auth)
                   | None \<Rightarrow> auth_ModelStates auth)\<rparr>)"

definition mark_auth ::
  "cooling_config \<Rightarrow> json_bodies \<Rightarrow> (Auth \<Rightarrow> string \<Rightarrow> string) \<Rightarrow> (string, string list) gomap
   \<Rightarrow> result \<Rightarrow> time \<Rightarrow> Auth \<Rightarrow> Auth"
where
  "mark_auth cfg jb selectionKey headers r now auth =
     (let modelKey = result_model selectionKey r auth;
          a = apply_result cfg jb r now modelKey (count_result r now auth)
      in observe_result r headers now modelKey
           (a\<lparr>auth_Generation := auth_Generation a + 1, auth_UpdatedAt := now\<rparr>))"

text \<open>Inputs of the examples.\<close>

definition plain_config :: cooling_config where
  "plain_config = \<lparr>cf_present = False, cf_homeEnabled = False, cf_disableCooling = False, cf_compat = (\<lambda>_ _ _. None),
     cf_quotaCooldownDisabled = False, cf_transientErrorCooldownSeconds = 0\<rparr>"

definition no_bodies :: json_bodies where
  "no_bodies = \<lparr>jb_decode = (\<lambda>_. None), jb_valid = (\<lambda>_. False), jb_get = (\<lambda>_ _. [])\<rparr>"

definition failure_of :: "int \<Rightarrow> bool \<Rightarrow> result" where
  "failure_of status wide = \<lparr>rs_AuthID = ''a'', rs_Provider = ''codex'', rs_Model = ''m'', rs_RouteModel = [],
     rs_Success = False, rs_RetryAfter = None, rs_CredentialScope = wide,
     rs_Error = Some \<lparr>er_Code = [], er_Message = ''x'', er_Retryable = False, er_HTTPStatus = status\<rparr>,
     rs_SkipQuotaObservation = True\<rparr>"

definition first_failure :: "int \<Rightarrow> bool \<Rightarrow> Auth" where
  "first_failure status wide =
     mark_auth plain_config no_bodies (\<lambda>_ _. []) [] (failure_of status wide) 1000 (new_auth ''a'' ''codex'')"

section \<open>Backoff\<close>

lemma wrap_small: "- (2 ^ 63) \<le> x \<Longrightarrow> x < 2 ^ 63 \<Longrightarrow> wrap_int64 x = x"
  unfolding wrap_int64_def by (subst mod_pos_pos_trivial) simp_all

lemma next_cooldown_level:
  assumes "n \<le> 11"
  shows "nextQuotaCooldown (int n) False = (min (2 ^ n * second_ns) (30 * minute_ns), int (min (Suc n) 11))"
proof -
  have "list_all (\<lambda>n. nextQuotaCooldown (int n) False
      = (min (2 ^ n * second_ns) (30 * minute_ns), int (min (Suc n) 11))) [0..<12]"
    by code_simp
  with assms show ?thesis by (simp only: list_all_iff set_upt) simp
qed

text \<open>
  Backoff: from a clean record, the n-th quota failure in a row without a hint of the upstream (each
  after the window of the one before) waits for 2^n seconds, at most for thirty minutes; the level stops at
  11, so the 64-bit arithmetic never overflows, however many failures there are.
\<close>

theorem quota_backoff_ladder:
  "((\<lambda>level. snd (nextQuotaCooldown level False)) ^^ n) 0 = int (min n 11)
   \<and> fst (nextQuotaCooldown (((\<lambda>level. snd (nextQuotaCooldown level False)) ^^ n) 0) False)
     = min (2 ^ n * second_ns) (30 * minute_ns)"
proof -
  have level: "((\<lambda>level. snd (nextQuotaCooldown level False)) ^^ n) 0 = int (min n 11)" for n
  proof (induction n)
    case (Suc n)
    then show ?case using next_cooldown_level [of "min n 11"] by (simp add: min_def)
  qed simp
  have "min (2 ^ min n 11 * second_ns) (30 * minute_ns) = min (2 ^ n * second_ns) (30 * minute_ns)"
  proof (cases "n \<le> 11")
    case False
    then have "(2 :: int) ^ 11 \<le> 2 ^ n" by (intro power_increasing) auto
    with False show ?thesis by (simp add: min_def)
  qed (simp add: min_def)
  with level [of n] next_cooldown_level [of "min n 11"] show ?thesis by simp
qed

section \<open>Deadlines\<close>

lemma nextQuotaCooldown_pos: "0 < fst (nextQuotaCooldown level False)"
  by (auto simp: nextQuotaCooldown_def Let_def quotaBackoffBase_def quotaBackoffMax_def)

lemma quota_after_failure_future: "now < fst (quotaCooldownAfterFailure q now)"
  using nextQuotaCooldown_pos [of "qs_BackoffLevel q"]
  by (auto simp: quotaCooldownAfterFailure_def split: prod.splits)

lemma cloudflare_future: "0 \<le> now \<Longrightarrow> now < fst (nextCloudflareCooldown level False now)"
  by (auto simp: nextCloudflareCooldown_def Let_def split: prod.splits)

lemma clamp_bounds:
  assumes "0 \<le> now" and "now < next"
  shows "now < clampQuotaCooldown next now" and "clampQuotaCooldown next now \<le> now + hour_ns"
    and "clampQuotaCooldown next now \<le> next"
  using assms by (auto simp: clampQuotaCooldown_def maxQuotaCooldownCeiling_def)

lemma quota_deadline_bounds:
  assumes "0 \<le> now"
  shows "now < fst (quota_deadline retryAfter q now) \<and> fst (quota_deadline retryAfter q now) \<le> now + hour_ns"
proof -
  obtain next0 level where n: "(case retryAfter of
      Some cooldown \<Rightarrow> (now + (if cooldown < minQuotaCooldownFloor then minQuotaCooldownFloor else cooldown), qs_BackoffLevel q)
    | None \<Rightarrow> quotaCooldownAfterFailure q now) = (next0, level)" (is "?d = _") by force
  have "now < fst ?d"
    by (auto simp: minQuotaCooldownFloor_def quota_after_failure_future split: option.split)
  then have "now < next0" by (simp only: n fst_conv)
  then have "now < (if qs_Exceeded q \<and> qs_NextRecoverAt q > next0 then qs_NextRecoverAt q else next0)" by simp
  from clamp_bounds [OF assms this] show ?thesis unfolding quota_deadline_def n by simp
qed

lemma recoverable_future:
  "0 \<le> cf_transientErrorCooldownSeconds cfg \<Longrightarrow> now < recoverableFailureRetryAfterWithHint cfg now retryAfter False"
  by (auto simp: recoverableFailureRetryAfterWithHint_def transientErrorCooldown_def Let_def split: option.splits)

text \<open>With cooling enabled a failure gives the model's state a deadline ahead.\<close>

lemma penalise_blocks:
  assumes "0 \<le> now" and "0 \<le> cf_transientErrorCooldownSeconds cfg" and "ms_Unavailable s"
  shows "now < ms_NextRetryAfter (penalise_state cfg jb r now False s)
    \<and> ms_Unavailable (penalise_state cfg jb r now False s)
    \<and> ms_Status (penalise_state cfg jb r now False s) = ms_Status s"
proof -
  obtain c cl where c: "nextCloudflareCooldown (qs_BackoffLevel (ms_Quota s)) False now = (c, cl)" by force
  obtain d dl where d: "quota_deadline (rs_RetryAfter r) (ms_Quota s) now = (d, dl)" by force
  have "now < c" "now < d"
    using cloudflare_future [OF assms(1), of "qs_BackoffLevel (ms_Quota s)"]
      quota_deadline_bounds [OF assms(1), of "rs_RetryAfter r" "ms_Quota s"] by (simp_all add: c d)
  moreover have "now < recoverableFailureRetryAfterWithHint cfg now h False" for h
    by (rule recoverable_future [OF assms(2)])
  moreover from this have "recoverableFailureRetryAfterWithHint cfg now h False \<noteq> zero_time" for h
    using assms(1) by (metis not_less)
  ultimately show ?thesis
    using assms(3) unfolding penalise_state_def Let_def by (simp add: c d)
qed

lemma settle_blocks:
  assumes "0 \<le> now" and "now < ms_NextRetryAfter s" and "ms_Unavailable s"
  shows "now < ms_NextRetryAfter (settle_state r now False prev s)
    \<and> prev \<le> ms_NextRetryAfter (settle_state r now False prev s)
    \<and> ms_Unavailable (settle_state r now False prev s)
    \<and> ms_Status (settle_state r now False prev s) = ms_Status s
    \<and> ms_Quota (settle_state r now False prev s) = ms_Quota s"
  using assms by (auto simp: settle_state_def Let_def)

section \<open>A failure blocks the model\<close>

lemma observe_quota [simp]:
  "qs_Exceeded (ObserveResponseHeadersForProvider p h t c q) = qs_Exceeded q"
  "qs_Reason (ObserveResponseHeadersForProvider p h t c q) = qs_Reason q"
  "qs_NextRecoverAt (ObserveResponseHeadersForProvider p h t c q) = qs_NextRecoverAt q"
  "qs_BackoffLevel (ObserveResponseHeadersForProvider p h t c q) = qs_BackoffLevel q"
  by (simp_all add: ObserveResponseHeadersForProvider_def ClearObservationSignals_def Let_def)

lemma observe_state_sel [simp]:
  "ms_Status (observe_state p h t s) = ms_Status s" "ms_Unavailable (observe_state p h t s) = ms_Unavailable s"
  "ms_NextRetryAfter (observe_state p h t s) = ms_NextRetryAfter s"
  "ms_LastError (observe_state p h t s) = ms_LastError s"
  "ms_Quota (observe_state p h t s) = ObserveResponseHeadersForProvider p h t t (ms_Quota s)"
  by (simp_all add: observe_state_def)

lemma lift_expired_live: "now < ms_NextRetryAfter s \<Longrightarrow> lift_expired now s = s"
  by (simp add: lift_expired_def)

lemma aggregated_state:
  assumes "map_of (auth_ModelStates a) k = Some s" and "now < ms_NextRetryAfter s"
  shows "map_of (auth_ModelStates (updateAggregatedAvailability now a)) k = Some s"
  using assms by (auto simp: updateAggregatedAvailability_def clearAggregatedAvailability_def Let_def
      map_of_map_values lift_expired_live)

definition result_state ::
  "cooling_config \<Rightarrow> json_bodies \<Rightarrow> result \<Rightarrow> time \<Rightarrow> bool \<Rightarrow> ModelState \<Rightarrow> ModelState"
where
  "result_state cfg jb r now disableCooling s0 =
     settle_state r now disableCooling (ms_NextRetryAfter s0)
       (penalise_state cfg jb r now disableCooling (note_state r now s0))"

lemma note_state_sel [simp]:
  "ms_Unavailable (note_state r now s)" "ms_Status (note_state r now s) = StatusError"
  "ms_Quota (note_state r now s) = ms_Quota s" "ms_NextRetryAfter (note_state r now s) = ms_NextRetryAfter s"
  by (simp_all add: note_state_def Let_def split: option.split)

lemma result_state_blocks:
  assumes "0 \<le> now" and "0 \<le> cf_transientErrorCooldownSeconds cfg"
  shows "now < ms_NextRetryAfter (result_state cfg jb r now False s0)
    \<and> ms_NextRetryAfter s0 \<le> ms_NextRetryAfter (result_state cfg jb r now False s0)
    \<and> ms_Unavailable (result_state cfg jb r now False s0)
    \<and> ms_Status (result_state cfg jb r now False s0) = StatusError"
proof -
  let ?s = "penalise_state cfg jb r now False (note_state r now s0)"
  have "now < ms_NextRetryAfter ?s" "ms_Unavailable ?s" "ms_Status ?s = StatusError"
    using penalise_blocks [OF assms, of "note_state r now s0" jb r] by simp_all
  then show ?thesis
    using settle_blocks [OF assms(1), of ?s r "ms_NextRetryAfter s0"] by (simp add: result_state_def)
qed

lemma fail_model_state:
  "\<exists>a. fail_model cfg jb r now dc k auth = updateAggregatedAvailability now a
     \<and> map_of (auth_ModelStates a) (canonicalModelKey k)
       = Some (result_state cfg jb r now dc (snd (ensureModelState (auth_ModelStates auth) k)))"
proof -
  obtain states s0 where e: "ensureModelState (auth_ModelStates auth) k = (states, s0)" by force
  show ?thesis
    unfolding fail_model_def Let_def e prod.case result_state_def snd_conv
    by (rule exI, rule conjI, rule refl) simp
qed

lemma count_result_sel [simp]:
  "auth_ModelStates (count_result r now a) = auth_ModelStates a" "auth_Quota (count_result r now a) = auth_Quota a"
  "auth_Status (count_result r now a) = auth_Status a" "auth_Disabled (count_result r now a) = auth_Disabled a"
  "auth_tokenExpiry (count_result r now a) = auth_tokenExpiry a"
  by (simp_all add: count_result_def Let_def)

lemma effective_disable_cong:
  assumes "auth_Metadata a' = auth_Metadata a" and "auth_Attributes a' = auth_Attributes a"
    and "auth_Provider a' = auth_Provider a"
  shows "effective_disable cfg r a' = effective_disable cfg r a"
  unfolding effective_disable_def quotaCooldownDisabledForAuthWithConfig_def providerCoolingOverrideForAuth_def
    DisableCoolingOverride_def metadata_bool_def assms ..

lemma effective_disable_count [simp]: "effective_disable cfg r (count_result r' now a) = effective_disable cfg r a"
  by (rule effective_disable_cong) (simp_all add: count_result_def Let_def)

text \<open>The observation of response headers after the result leaves availability alone.\<close>

definition same_hold :: "ModelState \<Rightarrow> ModelState \<Rightarrow> bool" where
  "same_hold s s' \<longleftrightarrow> ms_Status s' = ms_Status s \<and> ms_Unavailable s' = ms_Unavailable s
     \<and> ms_NextRetryAfter s' = ms_NextRetryAfter s \<and> ms_LastError s' = ms_LastError s
     \<and> qs_Exceeded (ms_Quota s') = qs_Exceeded (ms_Quota s)
     \<and> qs_NextRecoverAt (ms_Quota s') = qs_NextRecoverAt (ms_Quota s)"

lemma same_hold_refl [simp]: "same_hold s s"
  by (simp add: same_hold_def)

lemma same_hold_observe [simp]: "same_hold s (observe_state p h t s)"
  by (simp add: same_hold_def)

lemma observed_states:
  "map_of (auth_ModelStates (observe_result r h now k a)) m = Some s' \<Longrightarrow>
     \<exists>s. map_of (auth_ModelStates a) m = Some s \<and> same_hold s s'"
  "map_of (auth_ModelStates a) m = Some s \<Longrightarrow>
     \<exists>s'. map_of (auth_ModelStates (observe_result r h now k a)) m = Some s' \<and> same_hold s s'"
  by (auto simp: observe_result_def Let_def update_conv' split: option.splits if_splits)

lemma blocked_by_state:
  assumes "map_of (auth_ModelStates a) k = Some s" and "canonicalModelKey k = canonicalModelKey m"
    and "canonicalModelKey m \<noteq> []" and "ms_Unavailable s" and "0 \<le> t" and "t < ms_NextRetryAfter s"
  shows "is_blocked (isAuthBlockedForModel a m t)"
proof -
  have "s \<in> relevant (canonicalModelKey m) (auth_ModelStates a)"
    using map_of_SomeD [OF assms(1)] assms(2) by (auto simp: relevant_def)
  moreover have "is_blocked (state_block t s)"
    using assms by (auto simp: state_block_def availabilityBlock_cases(1) holds_def)
  ultimately have "blocking (canonicalModelKey m) t (auth_ModelStates a) \<noteq> {}" by (auto simp: blocking_ne)
  moreover have "m \<noteq> []" "auth_ModelStates a \<noteq> []" using assms(1,3) by auto
  ultimately show ?thesis
    by (simp add: isAuthBlocked_structure(1) inner_block_def loop_blocked_iff)
qed

text \<open>
  C7: A failed result that counts, with cooling enabled, blocks the credential for its model: there is a
  time ahead, no earlier than the deadline the model's state had before, until which every request for the
  model (under any name with this canonical key) finds the credential blocked.
\<close>

theorem failure_cools_down:
  assumes "\<not> rs_Success r" and "\<not> shouldSkipCredentialCooldown jb (rs_Error r)"
    and "\<not> effective_disable cfg r auth" and "0 \<le> cf_transientErrorCooldownSeconds cfg" and "0 \<le> now"
    and "result_model selectionKey r auth = k" and "k \<noteq> []" and "canonicalModelKey k = k"
  shows "\<exists>until > now.
     (\<forall>s. map_of (normalizeModelStates (auth_ModelStates auth)) k = Some s \<longrightarrow> ms_NextRetryAfter s \<le> until)
     \<and> (\<forall>m t. canonicalModelKey m = k \<and> now \<le> t \<and> t < until \<longrightarrow>
          is_blocked (isAuthBlockedForModel (mark_auth cfg jb selectionKey headers r now auth) m t))"
proof -
  let ?c = "count_result r now auth"
  define s0 where "s0 = snd (ensureModelState (auth_ModelStates auth) k)"
  define s where "s = result_state cfg jb r now False s0"
  obtain a where a: "fail_model cfg jb r now False k ?c = updateAggregatedAvailability now a"
      "map_of (auth_ModelStates a) k = Some s"
    using fail_model_state [of cfg jb r now False k ?c] assms(8) by (auto simp: s_def s0_def)
  have s: "now < ms_NextRetryAfter s" "ms_NextRetryAfter s0 \<le> ms_NextRetryAfter s" "ms_Unavailable s"
    using result_state_blocks [OF assms(5,4), of jb r s0] by (simp_all add: s_def)
  let ?b = "fail_model cfg jb r now False k ?c"
  have "map_of (auth_ModelStates ?b) k = Some s" using aggregated_state [OF a(2) s(1)] a(1) by simp
  then have "map_of (auth_ModelStates (?b\<lparr>auth_Generation := auth_Generation ?b + 1, auth_UpdatedAt := now\<rparr>)) k = Some s"
    by simp
  from observed_states(2) [OF this] obtain s' where
    s': "map_of (auth_ModelStates (mark_auth cfg jb selectionKey headers r now auth)) k = Some s'" "same_hold s s'"
    using assms by (force simp: mark_auth_def apply_result_def Let_def)
  have "ms_NextRetryAfter s1 \<le> ms_NextRetryAfter s"
    if "map_of (normalizeModelStates (auth_ModelStates auth)) k = Some s1" for s1
    using that s(2) assms(8) by (simp add: s0_def ensureModelState_def Let_def)
  moreover have "is_blocked (isAuthBlockedForModel (mark_auth cfg jb selectionKey headers r now auth) m t)"
    if "canonicalModelKey m = k" "now \<le> t" "t < ms_NextRetryAfter s" for m t
    by (rule blocked_by_state [OF s'(1)]) (use that assms s'(2) s(3) in \<open>auto simp: same_hold_def\<close>)
  ultimately show ?thesis using s(1) by blast
qed

theorem failure_cools_down_witness:
  "is_blocked (isAuthBlockedForModel (first_failure 403 False) ''m'' 1000)"
proof -
  have "\<not> rs_Success (failure_of 403 False)"
    "\<not> shouldSkipCredentialCooldown no_bodies (rs_Error (failure_of 403 False))"
    "\<not> effective_disable plain_config (failure_of 403 False) (new_auth ''a'' ''codex'')"
    "0 \<le> cf_transientErrorCooldownSeconds plain_config"
    "result_model (\<lambda>_ _. []) (failure_of 403 False) (new_auth ''a'' ''codex'') = ''m''"
    by code_simp+
  note h = failure_cools_down [OF this(1-4) _ this(5), of 1000 "[]"]
  have "canonicalModelKey ''m'' = ''m''" by code_simp
  with h obtain until where "1000 < until"
    "\<forall>m t. canonicalModelKey m = ''m'' \<and> 1000 \<le> t \<and> t < until \<longrightarrow> is_blocked (isAuthBlockedForModel (first_failure 403 False) m t)"
    unfolding first_failure_def by auto
  with \<open>canonicalModelKey ''m'' = ''m''\<close> show ?thesis by auto
qed

section \<open>A limit of the whole credential\<close>

lemma penalise_quota:
  assumes "quota_case jb r"
  shows "ms_NextRetryAfter (penalise_state cfg jb r now False s) = fst (quota_deadline (rs_RetryAfter r) (ms_Quota s) now)
    \<and> qs_NextRecoverAt (ms_Quota (penalise_state cfg jb r now False s))
        = fst (quota_deadline (rs_RetryAfter r) (ms_Quota s) now)"
proof -
  obtain d dl where d: "quota_deadline (rs_RetryAfter r) (ms_Quota s) now = (d, dl)" by force
  from assms show ?thesis
    unfolding quota_case_def penalise_state_def Let_def by (simp add: d applyCooldownFields_def)
qed

lemma propagate_state_ceiling:
  assumes "0 \<le> now" and "now < next"
  shows "qs_NextRecoverAt (ms_Quota (propagate_state now next level other)) \<le> now + hour_ns"
  unfolding propagate_state_def Let_def using clamp_bounds(2) [OF assms(1)] assms(2)
  by (simp add: applyCooldownFields_def)

lemma propagate_auth_sel:
  assumes "0 \<le> now" and "now < next"
  shows "now < qs_NextRecoverAt (auth_Quota (propagate_auth now next a))
    \<and> qs_NextRecoverAt (auth_Quota (propagate_auth now next a)) \<le> now + hour_ns
    \<and> qs_Exceeded (auth_Quota (propagate_auth now next a))
    \<and> qs_Reason (auth_Quota (propagate_auth now next a)) = ''credential_quota''"
  unfolding propagate_auth_def Let_def using clamp_bounds [OF assms(1)] assms(2) by simp

lemma fail_model_wide:
  assumes "quota_case jb r" and "rs_CredentialScope r" and "0 \<le> now"
    and a'_def: "a' = fail_model cfg jb r now False k auth"
  shows "credential_hold a' now \<and> qs_NextRecoverAt (auth_Quota a') \<le> now + hour_ns
    \<and> (\<forall>m s. map_of (auth_ModelStates a') m = Some s \<longrightarrow> qs_NextRecoverAt (ms_Quota s) \<le> now + hour_ns)"
proof -
  obtain states s0 where e: "ensureModelState (auth_ModelStates auth) k = (states, s0)" by force
  define s where "s = penalise_state cfg jb r now False (note_state r now s0)"
  let ?q = "quota_deadline (rs_RetryAfter r) (ms_Quota (note_state r now s0)) now"
  have s: "ms_NextRetryAfter s = fst ?q" "qs_NextRecoverAt (ms_Quota s) = fst ?q"
    using penalise_quota [OF assms(1), of cfg now "note_state r now s0"] by (simp_all only: s_def)
  then have nx: "now < ms_NextRetryAfter s" "qs_NextRecoverAt (ms_Quota s) \<le> now + hour_ns"
    using quota_deadline_bounds [OF assms(3)] by simp_all
  have u: "ms_Unavailable s"
    using assms(1) unfolding s_def quota_case_def penalise_state_def Let_def by (simp split: prod.split)
  define states' where "states' = AList.update (canonicalModelKey k)
    (settle_state r now False (ms_NextRetryAfter s0) s) (propagate_states now (canonicalModelKey k) s states)"
  define b where "b = (propagate_auth now (ms_NextRetryAfter s) (note_auth jb r auth))
    \<lparr>auth_ModelStates := states', auth_Status := StatusError\<rparr>"
  have a': "a' = updateAggregatedAvailability now b"
    using assms(1,2) by (simp add: a'_def fail_model_def Let_def e s_def [symmetric] b_def states'_def)
  have q: "auth_Quota b = auth_Quota (propagate_auth now (ms_NextRetryAfter s) (note_auth jb r auth))"
    by (simp add: b_def)
  have "credential_quota_active b now"
    using propagate_auth_sel [OF assms(3) nx(1)] by (simp add: credential_quota_active_def q)
  then have a'': "a' = b\<lparr>auth_Unavailable := True\<rparr>" by (simp add: a' updateAggregatedAvailability_def)
  have "qs_NextRecoverAt (ms_Quota x) \<le> now + hour_ns" if "map_of states' m = Some x" for m x
  proof (cases "m = canonicalModelKey k")
    case True
    with that have "x = settle_state r now False (ms_NextRetryAfter s0) s" by (simp add: states'_def)
    with nx(2) settle_blocks [OF assms(3) nx(1) u] show ?thesis by simp
  next
    case False
    with that show ?thesis
      using propagate_state_ceiling [OF assms(3) nx(1)]
      by (auto simp: states'_def propagate_states_def map_of_map_values)
  qed
  moreover have "auth_ModelStates a' = states'" by (simp add: a'' b_def)
  moreover have "auth_Quota a' = auth_Quota b" by (simp add: a'')
  ultimately show ?thesis
    using propagate_auth_sel [OF assms(3) nx(1)] by (simp add: credential_hold_def q)
qed

text \<open>
  C13: A rate limit of the whole credential, with cooling enabled, blocks the credential for every model
  until one common time, which lies ahead, at most an hour; no model's quota deadline is later than
  that hour either, whatever deadlines were stored before.
\<close>

theorem credential_limit_everywhere:
  assumes "\<not> rs_Success r" and "\<not> shouldSkipCredentialCooldown jb (rs_Error r)" and "quota_case jb r"
    and "rs_CredentialScope r" and "\<not> effective_disable cfg r auth" and "0 \<le> now"
    and "result_model selectionKey r auth \<noteq> []"
  shows "\<exists>until. now < until \<and> until \<le> now + hour_ns
     \<and> (\<forall>m t. now \<le> t \<and> t < until \<longrightarrow>
          is_blocked (isAuthBlockedForModel (mark_auth cfg jb selectionKey headers r now auth) m t))
     \<and> (\<forall>m s. map_of (auth_ModelStates (mark_auth cfg jb selectionKey headers r now auth)) m = Some s \<longrightarrow>
          qs_NextRecoverAt (ms_Quota s) \<le> now + hour_ns)"
proof -
  let ?k = "result_model selectionKey r auth"
  let ?b = "fail_model cfg jb r now False ?k (count_result r now auth)"
  let ?b' = "?b\<lparr>auth_Generation := auth_Generation ?b + 1, auth_UpdatedAt := now\<rparr>"
  have m: "mark_auth cfg jb selectionKey headers r now auth = observe_result r headers now ?k ?b'"
    using assms by (simp add: mark_auth_def apply_result_def Let_def)
  note wide = fail_model_wide [OF assms(3,4,6) refl, of cfg ?k "count_result r now auth"]
  have q: "qs_Exceeded (auth_Quota (observe_result r headers now ?k ?b')) = qs_Exceeded (auth_Quota ?b)"
    "qs_Reason (auth_Quota (observe_result r headers now ?k ?b')) = qs_Reason (auth_Quota ?b)"
    "qs_NextRecoverAt (auth_Quota (observe_result r headers now ?k ?b')) = qs_NextRecoverAt (auth_Quota ?b)"
    by (simp_all add: observe_result_def)
  have "is_blocked (isAuthBlockedForModel (observe_result r headers now ?k ?b') m t)"
    if "t < qs_NextRecoverAt (auth_Quota ?b)" for m t
    using that wide by (simp add: isAuthBlocked_structure(1) credential_hold_def q)
  moreover have "qs_NextRecoverAt (ms_Quota s') \<le> now + hour_ns"
    if "map_of (auth_ModelStates (observe_result r headers now ?k ?b')) m = Some s'" for m s'
    using observed_states(1) [OF that] wide by (auto simp: same_hold_def)
  ultimately show ?thesis
    unfolding m using wide by (intro exI [of _ "qs_NextRecoverAt (auth_Quota ?b)"]) (auto simp: credential_hold_def)
qed

theorem credential_limit_everywhere_witness:
  "is_blocked (isAuthBlockedForModel (first_failure 429 True) ''another'' 1000)"
proof -
  have "\<not> rs_Success (failure_of 429 True)"
    "\<not> shouldSkipCredentialCooldown no_bodies (rs_Error (failure_of 429 True))"
    "quota_case no_bodies (failure_of 429 True)" "rs_CredentialScope (failure_of 429 True)"
    "\<not> effective_disable plain_config (failure_of 429 True) (new_auth ''a'' ''codex'')"
    by code_simp+
  note h = credential_limit_everywhere [OF this, of 1000 "\<lambda>_ _. []" "[]"]
  have "result_model (\<lambda>_ _. []) (failure_of 429 True) (new_auth ''a'' ''codex'') \<noteq> []" by code_simp
  with h show ?thesis unfolding first_failure_def by auto
qed

section \<open>A success unblocks the model\<close>

text \<open>The keys the code itself stores: canonical, and each once.\<close>

definition canonical_states :: "(string, ModelState) gomap \<Rightarrow> bool" where
  "canonical_states states \<longleftrightarrow> wf_map states \<and> list_all (\<lambda>(m, _). m \<noteq> [] \<and> canonicalModelKey m = m) states"

lemma canonical_normalize: "canonical_states states \<Longrightarrow> normalizeModelStates states = states"
  by (auto simp: canonical_states_def normalizeModelStates_def normal_key_def list_all_iff)

lemma keys_update: "fst ` set (AList.update k v m) = insert k (fst ` set m)"
  by (induction m) auto

lemma canonical_states_keys:
  "canonical_states states \<longleftrightarrow> wf_map states \<and> (\<forall>m \<in> fst ` set states. m \<noteq> [] \<and> canonicalModelKey m = m)"
  by (auto simp: canonical_states_def list_all_iff)

lemma canonical_update:
  "canonical_states states \<Longrightarrow> k \<noteq> [] \<Longrightarrow> canonicalModelKey k = k \<Longrightarrow> canonical_states (AList.update k s states)"
  by (simp add: canonical_states_keys keys_update)

lemma canonical_map_values:
  "canonical_states (List.map (\<lambda>(k, v). (k, f k v)) states) = canonical_states states"
  by (auto simp: canonical_states_def list_all_iff)

lemma canonical_aggregate:
  "canonical_states (auth_ModelStates (updateAggregatedAvailability now a)) = canonical_states (auth_ModelStates a)"
  by (simp add: updateAggregatedAvailability_def clearAggregatedAvailability_def Let_def canonical_map_values)

lemma canonical_key:
  "canonical_states states \<Longrightarrow> map_of states k = Some s \<Longrightarrow> k \<noteq> [] \<and> canonicalModelKey k = k"
  unfolding canonical_states_keys by (metis map_of_SomeD image_eqI fst_conv)

lemma canonical_observe:
  assumes "canonical_states (auth_ModelStates a)"
  shows "canonical_states (auth_ModelStates (observe_result r h now k a))"
proof (cases "map_of (auth_ModelStates a) (canonicalModelKey k)")
  case (Some s)
  with canonical_key [OF assms Some] canonical_update [OF assms] assms show ?thesis
    by (simp add: observe_result_def Let_def)
qed (use assms in \<open>simp add: observe_result_def\<close>)

lemma relevant_canonical:
  assumes "canonical_states states"
  shows "relevant k states = (case map_of states k of Some s \<Rightarrow> {s} | None \<Rightarrow> {})"
proof -
  have "s \<in> relevant k states \<longleftrightarrow> map_of states k = Some s" for s
  proof
    assume "s \<in> relevant k states"
    then obtain m where m: "(m, s) \<in> set states" "canonicalModelKey m = k" by (auto simp: relevant_def)
    moreover have "canonicalModelKey m = m" using m(1) assms by (force simp: canonical_states_keys)
    ultimately show "map_of states k = Some s" using assms wf_map_lookup by (auto simp: canonical_states_def)
  next
    assume k: "map_of states k = Some s"
    then have m: "(k, s) \<in> set states" by (rule map_of_SomeD)
    then have "canonicalModelKey k = k" using assms by (force simp: canonical_states_keys)
    with m show "s \<in> relevant k states" by (auto simp: relevant_def)
  qed
  then show ?thesis by (auto split: option.split)
qed

text \<open>With canonical keys, the state of the model alone decides beyond the guards of the credential.\<close>

lemma blocked_canonical:
  assumes "canonical_states (auth_ModelStates a)" and "map_of (auth_ModelStates a) (canonicalModelKey m) = Some s"
    and "m \<noteq> []"
  shows "is_blocked (isAuthBlockedForModel a m t) \<longleftrightarrow>
    permanent a \<or> token_expired a t \<or> credential_hold a t \<or> is_blocked (state_block t s)"
proof -
  have "auth_ModelStates a \<noteq> []" using assms(2) by auto
  then show ?thesis
    using assms by (auto simp: isAuthBlocked_structure(1) inner_block_def loop_blocked_iff blocking_ne relevant_canonical)
qed

lemma aggregated_quota:
  assumes "credential_hold (updateAggregatedAvailability now a) t" and "now \<le> t"
  shows "credential_hold a t"
  using assms by (auto simp: updateAggregatedAvailability_def clearAggregatedAvailability_def Let_def
      credential_hold_def credential_quota_active_def aggregate_quota_def clear_quota_def applyCooldownFields_def
      split: if_splits)

lemma aggregated_tokenExpiry [simp]:
  "auth_tokenExpiry (updateAggregatedAvailability now a) = auth_tokenExpiry a"
  by (simp add: updateAggregatedAvailability_def clearAggregatedAvailability_def Let_def)

lemma observe_result_sel [simp]:
  "auth_tokenExpiry (observe_result r h now k a) = auth_tokenExpiry a"
  "credential_hold (observe_result r h now k a) t = credential_hold a t"
  by (simp_all add: observe_result_def credential_hold_def)

lemma ensure_canonical:
  assumes "canonical_states (auth_ModelStates a)" and "k \<noteq> []" and "canonicalModelKey k = k"
    and "ensureModelState (auth_ModelStates a) k = (states, s)"
  shows "canonical_states states \<and> map_of states k = Some s"
  using assms canonical_update [OF assms(1-3)]
  by (auto simp: ensureModelState_def canonical_normalize Let_def split: option.splits)

lemma aggregated_idle_state:
  "map_of (auth_ModelStates a) k = Some s \<Longrightarrow> \<not> ms_Unavailable s \<Longrightarrow>
   map_of (auth_ModelStates (updateAggregatedAvailability now a)) k = Some s"
  by (auto simp: updateAggregatedAvailability_def clearAggregatedAvailability_def Let_def map_of_map_values lift_expired_def)

lemma reset_state_free: "0 \<le> t \<Longrightarrow> \<not> is_blocked (state_block t (resetModelState now s))"
  by (simp add: resetModelState_def state_block_def clear_quota_def applyCooldownFields_def availabilityBlock_def block_sel)

lemma same_hold_block: "0 \<le> t \<Longrightarrow> same_hold s s' \<Longrightarrow> is_blocked (state_block t s') = is_blocked (state_block t s)"
  by (simp add: state_block_def same_hold_def availabilityBlock_cases(1) holds_def)

text \<open>
  C18: A successful result frees the credential for its model: unless a limit of the whole credential is
  running, only what is not a cooldown (disabled, rejected or expired credential) still blocks it, whatever
  failures the model had before.
\<close>

theorem success_unblocks:
  assumes "rs_Success r" and "canonical_states (auth_ModelStates auth)"
    and "\<not> (qs_Reason (auth_Quota auth) = ''credential_quota'' \<and> qs_NextRecoverAt (auth_Quota auth) > now)"
    and "result_model selectionKey r auth = canonicalModelKey m" and "canonicalModelKey m \<noteq> []"
    and "canonicalModelKey (canonicalModelKey m) = canonicalModelKey m" and "0 \<le> now" and "now \<le> t"
  shows "is_blocked (isAuthBlockedForModel (mark_auth cfg jb selectionKey headers r now auth) m t)
     \<longleftrightarrow> permanent (mark_auth cfg jb selectionKey headers r now auth) \<or> token_expired auth t"
proof -
  let ?k = "canonicalModelKey m" and ?c = "count_result r now auth"
  obtain states s0 where e: "ensureModelState (auth_ModelStates auth) ?k = (states, s0)" by force
  have st: "canonical_states states" "map_of states ?k = Some s0"
    using ensure_canonical [OF assms(2,5,6) e] by simp_all
  let ?s = "resetModelState now s0"
  let ?a = "?c\<lparr>auth_ModelStates := AList.update ?k ?s states\<rparr>"
  let ?b = "succeed_model now ?k ?c"
  let ?b' = "?b\<lparr>auth_Generation := auth_Generation ?b + 1, auth_UpdatedAt := now\<rparr>"
  have b: "auth_ModelStates ?b = auth_ModelStates (updateAggregatedAvailability now ?a)"
    "auth_Quota ?b = auth_Quota (updateAggregatedAvailability now ?a)" "auth_tokenExpiry ?b = auth_tokenExpiry auth"
    by (simp_all add: succeed_model_def Let_def e assms(6) split: if_split)
  have m: "mark_auth cfg jb selectionKey headers r now auth = observe_result r headers now ?k ?b'"
    unfolding mark_auth_def apply_result_def Let_def assms(4) count_result_sel if_not_P [OF assms(3)]
    using assms(1,5) by simp
  have canon: "canonical_states (auth_ModelStates ?b')"
    using canonical_update [OF st(1) assms(5,6), of ?s] by (simp add: b(1) canonical_aggregate)
  have "map_of (auth_ModelStates ?b') ?k = Some ?s"
    using aggregated_idle_state [of ?a ?k ?s now] by (simp add: b(1) resetModelState_def)
  then obtain s' where s': "map_of (auth_ModelStates (observe_result r headers now ?k ?b')) ?k = Some s'" "same_hold ?s s'"
    using observed_states(2) by blast
  have "\<not> is_blocked (state_block t s')"
    using same_hold_block [OF _ s'(2)] reset_state_free assms(7,8) by simp
  moreover have "\<not> credential_hold ?b' t"
  proof
    assume "credential_hold ?b' t"
    then have "credential_hold (updateAggregatedAvailability now ?a) t" by (simp add: credential_hold_def b(2))
    from aggregated_quota [OF this assms(8)] assms(3,8) show False by (simp add: credential_hold_def)
  qed
  moreover have "token_expired (observe_result r headers now ?k ?b') t = token_expired auth t"
    by (simp add: token_expired_def b(3))
  moreover have "m \<noteq> []" using assms(5) by auto
  ultimately show ?thesis
    unfolding m blocked_canonical [OF canonical_observe [OF canon] s'(1) \<open>m \<noteq> []\<close>] by simp
qed

theorem success_unblocks_witness:
  "\<not> is_blocked (isAuthBlockedForModel (mark_auth plain_config no_bodies (\<lambda>_ _. []) []
       ((failure_of 0 False)\<lparr>rs_Success := True\<rparr>) 2000 (first_failure 403 False)) ''m'' 3000)"
proof -
  let ?r = "(failure_of 0 False)\<lparr>rs_Success := True\<rparr>"
  have "rs_Success ?r" "canonical_states (auth_ModelStates (first_failure 403 False))"
    "\<not> (qs_Reason (auth_Quota (first_failure 403 False)) = ''credential_quota''
        \<and> qs_NextRecoverAt (auth_Quota (first_failure 403 False)) > 2000)"
    "result_model (\<lambda>_ _. []) ?r (first_failure 403 False) = canonicalModelKey ''m''"
    "canonicalModelKey ''m'' \<noteq> []" "canonicalModelKey (canonicalModelKey ''m'') = canonicalModelKey ''m''"
    by (code_simp | (unfold canonical_states_def wf_map_def, code_simp))+
  from success_unblocks [OF this, of 3000 plain_config no_bodies "[]"] show ?thesis
    by (simp add: token_expired_def, code_simp)
qed

section \<open>Cooling disabled\<close>

text \<open>
  A negative setting for transient errors is read as no cooldown, and the failure that follows then
  erases a cooldown that is still running: after a 403 blocks a model for half an hour, a 500 with the
  setting at -1 (and cooling enabled) clears the deadline of its state.
\<close>

lemma negative_transient_clears_cooldown:
  "let cfg = plain_config\<lparr>cf_transientErrorCooldownSeconds := - 1\<rparr>;
       a1 = mark_auth cfg no_bodies (\<lambda>_ _. []) [] (failure_of 403 False) 1000 (new_auth ''a'' ''codex'');
       a2 = mark_auth cfg no_bodies (\<lambda>_ _. []) [] (failure_of 500 False) 2000 a1
   in \<not> effective_disable cfg (failure_of 500 False) a1
      \<and> block_until (isAuthBlockedForModel a1 ''m'' 3000) = 1000 + 30 * minute_ns
      \<and> \<not> is_blocked (isAuthBlockedForModel a2 ''m'' 3000)"
  by code_simp

section \<open>Aggregation\<close>

definition live_deadlines :: "time \<Rightarrow> (string, ModelState) gomap \<Rightarrow> time set" where
  "live_deadlines now states =
     {ms_NextRetryAfter s | m s. (m, s) \<in> set states \<and> ms_Status s \<noteq> StatusDisabled \<and> state_unavailable now s}"

definition exceeded_states :: "(string, ModelState) gomap \<Rightarrow> QuotaState set" where
  "exceeded_states states = {ms_Quota s | m s. (m, s) \<in> set states \<and> qs_Exceeded (ms_Quota s)}"

lemma live_deadlines_snoc:
  "live_deadlines now (states @ [(m, s)]) =
     (if ms_Status s \<noteq> StatusDisabled \<and> state_unavailable now s
      then insert (ms_NextRetryAfter s) (live_deadlines now states) else live_deadlines now states)"
  by (auto simp: live_deadlines_def)

lemma exceeded_states_snoc:
  "exceeded_states (states @ [(m, s)]) =
     (if qs_Exceeded (ms_Quota s) then insert (ms_Quota s) (exceeded_states states) else exceeded_states states)"
  by (auto simp: exceeded_states_def)

lemma live_deadlines_future: "d \<in> live_deadlines now states \<Longrightarrow> now < d"
  by (auto simp: live_deadlines_def state_unavailable_def)

lemma aggregate_snoc: "aggregate_states now (states @ [(m, s)]) = aggregate_step now s (aggregate_states now states)"
  by (simp add: aggregate_states_def)

lemma aggregate_exact:
  assumes "0 \<le> now"
  shows "ag_allUnavailable (aggregate_states now states) = list_all (\<lambda>(_, s). state_unavailable now s) states"
    and "live_deadlines now states = {} \<Longrightarrow> ag_earliestRetry (aggregate_states now states) = zero_time"
    and "live_deadlines now states \<noteq> {} \<Longrightarrow>
      ag_earliestRetry (aggregate_states now states) \<in> live_deadlines now states
      \<and> (\<forall>d \<in> live_deadlines now states. ag_earliestRetry (aggregate_states now states) \<le> d)"
    and "ag_quotaExceeded (aggregate_states now states) \<longleftrightarrow> exceeded_states states \<noteq> {}"
    and "\<forall>b \<in> insert 0 (qs_BackoffLevel ` exceeded_states states). b \<le> ag_maxBackoffLevel (aggregate_states now states)"
    and "ag_maxBackoffLevel (aggregate_states now states) \<in> insert 0 (qs_BackoffLevel ` exceeded_states states)"
proof (induction states rule: rev_induct)
  case Nil
  { case 1 show ?case by (simp add: aggregate_states_def no_states_def) }
  { case 2 show ?case by (simp add: aggregate_states_def no_states_def) }
  { case 3 then show ?case by (simp add: live_deadlines_def) }
  { case 4 show ?case by (simp add: aggregate_states_def no_states_def exceeded_states_def) }
  { case 5 show ?case by (simp add: aggregate_states_def no_states_def exceeded_states_def) }
  { case 6 show ?case by (simp add: aggregate_states_def no_states_def exceeded_states_def) }
next
  case (snoc x states)
  obtain m s where x: "x = (m, s)" by force
  let ?live = "ms_Status s \<noteq> StatusDisabled \<and> state_unavailable now s"
  have live: "?live \<Longrightarrow> ms_NextRetryAfter s \<noteq> zero_time" by (auto simp: state_unavailable_def)
  { case 1 show ?case using snoc.IH(1) by (auto simp: x aggregate_snoc aggregate_step_def) }
  { case 2 then show ?case using snoc.IH(2) unfolding x live_deadlines_snoc aggregate_snoc
      by (auto simp: aggregate_step_def split: if_splits) }
  { case 3
    show ?case
    proof (cases "live_deadlines now states = {}")
      case True
      with 3 snoc.IH(2) show ?thesis unfolding x live_deadlines_snoc aggregate_snoc
        by (auto simp: aggregate_step_def split: if_splits)
    next
      case False
      with snoc.IH(3) have "ag_earliestRetry (aggregate_states now states) \<noteq> zero_time"
        using live_deadlines_future assms by fastforce
      with False snoc.IH(3) show ?thesis unfolding x live_deadlines_snoc aggregate_snoc
        by (auto simp: aggregate_step_def)
    qed }
  { case 4 show ?case using snoc.IH(4) by (auto simp: x aggregate_snoc aggregate_step_def exceeded_states_snoc) }
  { case 5 show ?case using snoc.IH(5) by (auto simp: x aggregate_snoc aggregate_step_def exceeded_states_snoc) }
  { case 6 show ?case using snoc.IH(6) by (auto simp: x aggregate_snoc aggregate_step_def exceeded_states_snoc) }
qed



end
