(* ===== verification/CooldownStore.thy ===== *)
theory CooldownStore
  imports Results
begin

text \<open>
  Cooldowns across restarts and in the management view: the records that are written for a credential and
  put back (\<open>sdk/cliproxy/auth/conductor_cooldown.go\<close>, the record type in \<open>cooldown_state.go\<close>), the reset
  of a credential's quota, and the read-only view of the running timers (\<open>cooldown_view.go\<close>). Reading and
  writing the files is not modelled.
\<close>

section \<open>Records\<close>

record CooldownStateRecord =
  cr_Provider :: string
  cr_AuthID :: string
  cr_AuthFile :: string
  cr_Model :: string
  cr_Status :: string
  cr_NextRetryAfter :: time
  cr_Reason :: string
  cr_Quota :: QuotaState
  cr_LastError :: "AuthError option"
  cr_UpdatedAt :: time

definition cooldownAuthFile :: "Auth \<Rightarrow> string" where
  "cooldownAuthFile auth =
     (let path = trim_space (get_or [] (auth_Attributes auth) ''path'')
      in if path \<noteq> [] then path else trim_space (auth_FileName auth))"

definition cooldownReason :: "string \<Rightarrow> QuotaState \<Rightarrow> AuthError option \<Rightarrow> string" where
  "cooldownReason statusMessage quota lastErr =
     (if trim_space (qs_Reason quota) \<noteq> [] then trim_space (qs_Reason quota)
      else if trim_space statusMessage \<noteq> [] then trim_space statusMessage
      else case lastErr of
        Some e \<Rightarrow> if trim_space (er_Code e) \<noteq> [] then trim_space (er_Code e) else trim_space (er_Message e)
      | None \<Rightarrow> [])"

definition authCooldownStateRecord :: "Auth \<Rightarrow> time \<Rightarrow> CooldownStateRecord option" where
  "authCooldownStateRecord auth now =
     (if \<not> auth_Unavailable auth \<or> auth_NextRetryAfter auth = zero_time \<or> \<not> auth_NextRetryAfter auth > now then None
      else Some \<lparr>cr_Provider = trim_space (auth_Provider auth), cr_AuthID = auth_ID auth,
        cr_AuthFile = cooldownAuthFile auth, cr_Model = [], cr_Status = ''cooling'',
        cr_NextRetryAfter = auth_NextRetryAfter auth,
        cr_Reason = cooldownReason (auth_StatusMessage auth) (auth_Quota auth) (auth_LastError auth),
        cr_Quota = cooldownFieldsOf (auth_Quota auth), cr_LastError = auth_LastError auth,
        cr_UpdatedAt = auth_UpdatedAt auth\<rparr>)"

definition modelCooldownStateRecord :: "Auth \<Rightarrow> time \<Rightarrow> string \<times> ModelState \<Rightarrow> CooldownStateRecord option" where
  "modelCooldownStateRecord auth now entry =
     (case entry of (model0, state) \<Rightarrow>
        let model = trim_space model0
        in if model = [] \<or> \<not> ms_Unavailable state \<or> ms_NextRetryAfter state = zero_time
              \<or> \<not> ms_NextRetryAfter state > now then None
           else Some \<lparr>cr_Provider = trim_space (auth_Provider auth), cr_AuthID = auth_ID auth,
             cr_AuthFile = cooldownAuthFile auth, cr_Model = model, cr_Status = ''cooling'',
             cr_NextRetryAfter = ms_NextRetryAfter state,
             cr_Reason = cooldownReason (ms_StatusMessage state) (ms_Quota state) (ms_LastError state),
             cr_Quota = cooldownFieldsOf (ms_Quota state), cr_LastError = ms_LastError state,
             cr_UpdatedAt = ms_UpdatedAt state\<rparr>)"

definition cooldownStateRecordsForAuth :: "cooling_config \<Rightarrow> Auth \<Rightarrow> time \<Rightarrow> CooldownStateRecord list" where
  "cooldownStateRecordsForAuth cfg auth now =
     (if auth_ID auth = [] \<or> auth_Disabled auth \<or> auth_Status auth = StatusDisabled
         \<or> quotaCooldownDisabledForAuthWithConfig cfg auth then []
      else sort_key cr_Model
        (List.map_filter id (authCooldownStateRecord auth now
           # List.map (modelCooldownStateRecord auth now) (auth_ModelStates auth))))"

definition cooldownErrorEqual :: "AuthError option \<Rightarrow> AuthError option \<Rightarrow> bool" where
  "cooldownErrorEqual a b =
     (case (a, b) of
        (Some x, Some y) \<Rightarrow> er_Code x = er_Code y \<and> er_Message x = er_Message y
          \<and> er_Retryable x = er_Retryable y \<and> er_HTTPStatus x = er_HTTPStatus y
      | (None, None) \<Rightarrow> True
      | _ \<Rightarrow> False)"

definition cooldownQuotaEqual :: "QuotaState \<Rightarrow> QuotaState \<Rightarrow> bool" where
  "cooldownQuotaEqual a b =
     (qs_Exceeded a = qs_Exceeded b \<and> qs_Reason a = qs_Reason b \<and> qs_BackoffLevel a = qs_BackoffLevel b
      \<and> qs_NextRecoverAt a = qs_NextRecoverAt b)"

definition cooldownStateRecordEqual :: "CooldownStateRecord \<Rightarrow> CooldownStateRecord \<Rightarrow> bool" where
  "cooldownStateRecordEqual a b =
     (if cr_Provider a \<noteq> cr_Provider b \<or> cr_AuthID a \<noteq> cr_AuthID b \<or> cr_AuthFile a \<noteq> cr_AuthFile b
         \<or> cr_Model a \<noteq> cr_Model b \<or> cr_Status a \<noteq> cr_Status b \<or> cr_Reason a \<noteq> cr_Reason b
         \<or> cr_NextRetryAfter a \<noteq> cr_NextRetryAfter b \<or> cr_UpdatedAt a \<noteq> cr_UpdatedAt b
         \<or> \<not> cooldownQuotaEqual (cr_Quota a) (cr_Quota b) then False
      else cooldownErrorEqual (cr_LastError a) (cr_LastError b))"

fun cooldownStateRecordsEqual :: "CooldownStateRecord list \<Rightarrow> CooldownStateRecord list \<Rightarrow> bool" where
  "cooldownStateRecordsEqual [] [] = True"
| "cooldownStateRecordsEqual (a # as) (b # bs) =
     (if length as \<noteq> length bs then False
      else if \<not> cooldownStateRecordEqual a b then False else cooldownStateRecordsEqual as bs)"
| "cooldownStateRecordsEqual _ _ = False"

section \<open>Restoring a record\<close>

text \<open>The quota record and the deadline that a stored record leads to at \<open>now\<close>.\<close>

definition migrate_record :: "CooldownStateRecord \<Rightarrow> time \<Rightarrow> QuotaState \<times> time" where
  "migrate_record r now =
     (let q0 = cr_Quota r;
          q = (if qs_Exceeded q0 \<and> qs_NextRecoverAt q0 = zero_time then q0\<lparr>qs_NextRecoverAt := cr_NextRetryAfter r\<rparr>
               else q0)
      in if qs_Exceeded q then
           (q\<lparr>qs_NextRecoverAt := clampQuotaCooldown (qs_NextRecoverAt q) now\<rparr>,
            if qs_NextRecoverAt q \<noteq> zero_time \<and> \<not> cr_NextRetryAfter r > qs_NextRecoverAt q
            then clampQuotaCooldown (cr_NextRetryAfter r) now else cr_NextRetryAfter r)
         else (q, cr_NextRetryAfter r))"

definition restore_record :: "cooling_config \<Rightarrow> CooldownStateRecord \<Rightarrow> time \<Rightarrow> Auth \<Rightarrow> Auth \<times> bool" where
  "restore_record cfg r now auth =
     (if trim_space (cr_AuthID r) = [] \<or> cr_NextRetryAfter r = zero_time \<or> \<not> cr_NextRetryAfter r > now then (auth, False)
      else if auth_Disabled auth \<or> auth_Status auth = StatusDisabled \<or> quotaCooldownDisabledForAuthWithConfig cfg auth
      then (auth, False)
      else
        let updatedAt = (if cr_UpdatedAt r = zero_time then now else cr_UpdatedAt r);
            reason = trim_space (cr_Reason r);
            model = trim_space (cr_Model r);
            (quota, retryAfter) = migrate_record r now
        in if model = [] then
             (auth\<lparr>auth_Unavailable := True, auth_Status := StatusError, auth_NextRetryAfter := retryAfter,
                auth_Quota := mergeQuotaObservation
                  (applyCooldownFields (auth_Quota auth) (qs_Exceeded quota) (qs_Reason quota)
                     (qs_NextRecoverAt quota) (qs_BackoffLevel quota)) quota,
                auth_Generation := auth_Generation auth + 1, auth_UpdatedAt := updatedAt,
                auth_StatusMessage := (if reason = [] then auth_StatusMessage auth else reason),
                auth_LastError := cr_LastError r\<rparr>, True)
           else
             let (states, state) = ensureModelState (auth_ModelStates auth) model;
                 source = \<lparr>ms_Status = StatusError, ms_StatusMessage = reason, ms_Unavailable = True,
                   ms_NextRetryAfter = retryAfter, ms_LastError = cr_LastError r, ms_Quota = quota,
                   ms_UpdatedAt = updatedAt\<rparr>
             in (updateAggregatedAvailability now
                   (auth\<lparr>auth_ModelStates := AList.update (canonicalModelKey model) (mergeModelState state source) states,
                      auth_Generation := auth_Generation auth + 1, auth_UpdatedAt := updatedAt\<rparr>), True))"

text \<open>Model records first, then those of whole credentials; each goes to the credential it names.\<close>

definition restore_into :: "cooling_config \<Rightarrow> time \<Rightarrow> CooldownStateRecord \<Rightarrow> (string, Auth) gomap \<Rightarrow> (string, Auth) gomap" where
  "restore_into cfg now r auths =
     (case map_of auths (trim_space (cr_AuthID r)) of
        None \<Rightarrow> auths
      | Some auth \<Rightarrow> AList.update (trim_space (cr_AuthID r)) (fst (restore_record cfg r now auth)) auths)"

definition RestoreCooldownStates ::
  "cooling_config \<Rightarrow> time \<Rightarrow> CooldownStateRecord list \<Rightarrow> (string, Auth) gomap \<Rightarrow> (string, Auth) gomap"
where
  "RestoreCooldownStates cfg now records auths =
     (let model_level = filter (\<lambda>r. trim_space (cr_Model r) \<noteq> []) records;
          auth_level = filter (\<lambda>r. trim_space (cr_Model r) = []) records
      in fold (restore_into cfg now) auth_level (fold (restore_into cfg now) model_level auths))"

section \<open>Resetting a credential\<close>

fun dedupe_loop :: "string list \<Rightarrow> string list \<Rightarrow> string list" where
  "dedupe_loop seen [] = []"
| "dedupe_loop seen (value # values) =
     (let v = trim_space value
      in if v = [] then dedupe_loop seen values
         else if v \<in> set seen then dedupe_loop seen values
         else v # dedupe_loop (v # seen) values)"

definition dedupeStrings :: "string list \<Rightarrow> string list" where
  "dedupeStrings values = (if length values < 2 then values else dedupe_loop [] values)"

definition modelsForRegisteredAuth :: "string list \<Rightarrow> string list" where
  "modelsForRegisteredAuth supported = List.map canonicalModelKey (filter (\<lambda>m. trim_space m \<noteq> []) supported)"

definition reset_states :: "time \<Rightarrow> Auth \<Rightarrow> Auth" where
  "reset_states now auth = auth\<lparr>auth_ModelStates :=
     List.map (\<lambda>(m, s). (m, if trim_space m = [] then s else resetModelState now s)) (auth_ModelStates auth)\<rparr>"

text \<open>\<open>ResetQuota\<close> on the credential; \<open>supported\<close> are the IDs of the models registered for it.\<close>

definition ResetQuota :: "time \<Rightarrow> string list \<Rightarrow> Auth \<Rightarrow> Auth \<times> string list" where
  "ResetQuota now supported auth =
     (let registered = modelsForRegisteredAuth supported;
          models0 = filter (\<lambda>m. trim_space m \<noteq> []) (List.map fst (auth_ModelStates auth));
          (a1, changed) = clearCooldownStateForAuth now (reset_states now auth);
          models1 = (if changed \<and> models0 = [] then registered else models0);
          a2 = (if \<not> changed \<and> auth_ModelStates a1 \<noteq> [] then updateAggregatedAvailability now a1 else a1);
          models = dedupeStrings (if models1 = [] then registered else models1);
          a3 = (if \<not> auth_Disabled a2 \<and> auth_Status a2 \<noteq> StatusDisabled \<and> \<not> hasModelError a2 now
                then a2\<lparr>auth_LastError := None, auth_StatusMessage := [], auth_Status := StatusActive\<rparr> else a2)
      in (a3\<lparr>auth_Generation := auth_Generation a3 + 1, auth_UpdatedAt := now\<rparr>, models))"

section \<open>The view of the running timers\<close>

record CooldownView =
  cv_Scope :: string
  cv_ModelKey :: string
  cv_Reason :: string
  cv_RetryAt :: time
  cv_RemainingSeconds :: int
  cv_BackoffLevel :: "int option"
  cv_HTTPStatus :: int

definition cooldownStatusReason :: "string \<Rightarrow> string" where
  "cooldownStatusReason message =
     (let m = trim_space message
      in if m = ''quota'' \<or> m = ''quota exhausted'' then ''quota''
         else if m = ''cloudflare challenge'' then ''cloudflare_challenge''
         else if m \<in> set [''invalid_grant'', ''unauthorized'', ''payment_required'', ''not_found''] then m
         else if m = ''model_not_supported'' then ''model_not_supported''
         else if m = ''transient upstream error'' then ''transient_error''
         else ''unknown'')"

definition cooldownErrorReason :: "json_bodies \<Rightarrow> AuthError option \<Rightarrow> string" where
  "cooldownErrorReason jb err =
     (if error_is (isModelSupportResultError jb) err then ''model_not_supported''
      else if error_is isCloudflareChallengeResultError err then ''cloudflare_challenge''
      else if error_is isInvalidGrantResultError err then ''invalid_grant''
      else
        let status = statusCodeFromResult err
        in if status = 401 then ''unauthorized''
           else if status = 402 \<or> status = 403 then ''payment_required''
           else if status = 404 then ''not_found''
           else if status = 429 then ''quota''
           else if status \<in> set origin_statuses then ''transient_error''
           else case err of Some e \<Rightarrow> cooldownStatusReason (er_Code e) | None \<Rightarrow> ''unknown'')"

definition newCooldownView ::
  "json_bodies \<Rightarrow> string \<Rightarrow> string \<Rightarrow> time \<Rightarrow> time \<Rightarrow> QuotaState \<Rightarrow> string \<Rightarrow> AuthError option \<Rightarrow> CooldownView"
where
  "newCooldownView jb scope model next now quota statusMessage lastErr =
     (let remaining = next - now;
          seconds = go_div remaining second_ns + (if remaining mod second_ns \<noteq> 0 then 1 else 0);
          reason0 =
            (if qs_Exceeded quota \<and> (qs_NextRecoverAt quota = zero_time \<or> \<not> qs_NextRecoverAt quota < next) then
               (if qs_Reason quota = ''credential_quota'' \<or> qs_Reason quota = ''quota'' then qs_Reason quota
                else if qs_Reason quota = ''cloudflare challenge'' then ''cloudflare_challenge''
                else ''unknown'')
             else ''unknown'');
          view = \<lparr>cv_Scope = scope, cv_ModelKey = model, cv_Reason = reason0, cv_RetryAt = next,
            cv_RemainingSeconds = seconds, cv_BackoffLevel = None, cv_HTTPStatus = 0\<rparr>;
          propagatedQuota = (qs_Exceeded quota \<and> qs_Reason quota = ''credential_quota'')
      in if reason0 = ''credential_quota'' then view
         else
           let level = (if (reason0 = ''quota'' \<or> reason0 = ''cloudflare_challenge'') \<and> qs_BackoffLevel quota \<ge> 0
                  then Some (qs_BackoffLevel quota) else None);
               errorReason = cooldownErrorReason jb lastErr;
               reason1 = (if reason0 = ''unknown'' then errorReason else reason0);
               reason = (if reason1 = ''unknown'' then cooldownStatusReason statusMessage else reason1);
               status = statusCodeFromResult lastErr
           in view\<lparr>cv_BackoffLevel := level, cv_Reason := reason,
                cv_HTTPStatus := (if \<not> propagatedQuota \<and> lastErr \<noteq> None \<and> status \<ge> 400 \<and> status \<le> 599
                  \<and> errorReason = reason then status else 0)\<rparr>)"

definition view_step ::
  "json_bodies \<Rightarrow> time \<Rightarrow> (string, ModelState) gomap \<Rightarrow> string
   \<Rightarrow> (string, CooldownView \<times> blockReason) gomap \<Rightarrow> (string, CooldownView \<times> blockReason) gomap"
where
  "view_step jb now states key byModel =
     (let model = canonicalModelKey key
      in case map_of states key of
           None \<Rightarrow> byModel
         | Some state \<Rightarrow>
             if model = [] then byModel
             else case availabilityBlock (ms_Unavailable state) (qs_Exceeded (ms_Quota state))
                    (ms_NextRetryAfter state) (qs_NextRecoverAt (ms_Quota state)) now of
               (blocked, reason, next) \<Rightarrow>
                 if \<not> blocked \<or> \<not> next > now then byModel
                 else
                   let put = AList.update model (newCooldownView jb ''model'' model next now (ms_Quota state)
                               (ms_StatusMessage state) (ms_LastError state), reason) byModel
                   in case map_of byModel model of
                        Some (previous, previousReason) \<Rightarrow>
                          (let preferQuotaTie = (next = cv_RetryAt previous \<and> reason = blockReasonCooldown
                                 \<and> previousReason \<noteq> blockReasonCooldown)
                           in if \<not> next > cv_RetryAt previous \<and> \<not> preferQuotaTie then byModel else put)
                      | None \<Rightarrow> put)"

definition CooldownSnapshotForAuth :: "json_bodies \<Rightarrow> Auth \<Rightarrow> time \<Rightarrow> CooldownView list" where
  "CooldownSnapshotForAuth jb auth now =
     (let own = (\<lambda>next. newCooldownView jb ''credential'' [] next now (auth_Quota auth) (auth_StatusMessage auth)
                  (auth_LastError auth));
          whole =
            (if qs_Exceeded (auth_Quota auth) \<and> qs_Reason (auth_Quota auth) = ''credential_quota''
                \<and> qs_NextRecoverAt (auth_Quota auth) > now
             then [own (qs_NextRecoverAt (auth_Quota auth))]
             else if auth_ModelStates auth = [] then
               (case availabilityBlock (auth_Unavailable auth) (qs_Exceeded (auth_Quota auth))
                       (auth_NextRetryAfter auth) (qs_NextRecoverAt (auth_Quota auth)) now of
                  (blocked, _, next) \<Rightarrow> if blocked \<and> next > now then [own next] else [])
             else []);
          byModel = fold (view_step jb now (auth_ModelStates auth)) (sort (List.map fst (auth_ModelStates auth))) []
      in whole @ List.map (\<lambda>m. fst (the (map_of byModel m))) (sort (List.map fst byModel)))"

section \<open>What the records preserve\<close>

lemma cooldownErrorEqual_iff: "cooldownErrorEqual a b \<longleftrightarrow> a = b"
  by (cases a; cases b) (auto simp: cooldownErrorEqual_def intro: AuthError.equality)

lemma cooldownQuotaEqual_fields:
  "cooldownQuotaEqual (cooldownFieldsOf p) (cooldownFieldsOf q) \<longleftrightarrow> cooldownFieldsOf p = cooldownFieldsOf q"
  by (auto simp: cooldownQuotaEqual_def cooldownFieldsOf_def no_quota_def)

lemma cooldownFieldsOf_idem: "cooldownFieldsOf (cooldownFieldsOf q) = cooldownFieldsOf q"
  by (simp add: cooldownFieldsOf_def no_quota_def)

definition plain_record :: "CooldownStateRecord \<Rightarrow> bool" where
  "plain_record r \<longleftrightarrow> cooldownFieldsOf (cr_Quota r) = cr_Quota r"

lemma record_equal_iff:
  assumes "plain_record a" and "plain_record b"
  shows "cooldownStateRecordEqual a b \<longleftrightarrow> a = b"
proof -
  have "cooldownQuotaEqual (cr_Quota a) (cr_Quota b) \<longleftrightarrow> cr_Quota a = cr_Quota b"
    using cooldownQuotaEqual_fields [of "cr_Quota a" "cr_Quota b"] assms by (simp add: plain_record_def)
  then show ?thesis
    by (auto simp: cooldownStateRecordEqual_def cooldownErrorEqual_iff intro: CooldownStateRecord.equality)
qed

lemma records_equal_iff:
  "list_all plain_record as \<Longrightarrow> list_all plain_record bs \<Longrightarrow> cooldownStateRecordsEqual as bs \<longleftrightarrow> as = bs"
proof (induction as bs rule: cooldownStateRecordsEqual.induct)
  case (2 a as b bs)
  then show ?case by (cases "length as = length bs") (auto simp: record_equal_iff)
qed simp_all

lemma records_plain: "list_all plain_record (cooldownStateRecordsForAuth cfg auth now)"
  by (auto simp: cooldownStateRecordsForAuth_def list_all_iff map_filter_def authCooldownStateRecord_def
      modelCooldownStateRecord_def plain_record_def cooldownFieldsOf_idem Let_def split: if_splits)

text \<open>
  The comparison that decides whether cooldowns are written again finds a difference exactly when the
  records of the credential differ: no change is missed and nothing is written without one.
\<close>

theorem cooldown_change_detected:
  "cooldownStateRecordsEqual (cooldownStateRecordsForAuth cfg a now) (cooldownStateRecordsForAuth cfg' b now')
     \<longleftrightarrow> cooldownStateRecordsForAuth cfg a now = cooldownStateRecordsForAuth cfg' b now'"
  by (rule records_equal_iff [OF records_plain records_plain])

lemma migrate_within:
  assumes "qs_Exceeded (cr_Quota r) \<Longrightarrow> cr_NextRetryAfter r \<le> now + hour_ns \<and> qs_NextRecoverAt (cr_Quota r) \<le> now + hour_ns"
  shows "snd (migrate_record r now) = cr_NextRetryAfter r"
    and "fst (migrate_record r now) =
      (if qs_Exceeded (cr_Quota r) \<and> qs_NextRecoverAt (cr_Quota r) = zero_time
       then (cr_Quota r)\<lparr>qs_NextRecoverAt := cr_NextRetryAfter r\<rparr> else cr_Quota r)"
  using assms by (auto simp: migrate_record_def Let_def clampQuotaCooldown_def maxQuotaCooldownCeiling_def)

lemma merge_fresh:
  assumes "0 \<le> ms_NextRetryAfter s" and "0 \<le> qs_NextRecoverAt (ms_Quota s)" and "ms_Status s = StatusError"
    and "ms_Unavailable s"
  shows "ms_Status (mergeModelState new_model_state s) = StatusError
    \<and> ms_Unavailable (mergeModelState new_model_state s)
    \<and> ms_NextRetryAfter (mergeModelState new_model_state s) = ms_NextRetryAfter s
    \<and> qs_Exceeded (ms_Quota (mergeModelState new_model_state s)) = qs_Exceeded (ms_Quota s)
    \<and> qs_NextRecoverAt (ms_Quota (mergeModelState new_model_state s)) = qs_NextRecoverAt (ms_Quota s)"
  using assms by (simp add: mergeModelState_def new_model_state_def no_quota_def mergeQuotaObservation_def Let_def)

text \<open>
  C17: Cooldowns survive a restart: the record of a model's running cooldown, put into a credential that has
  no state for that model (cooling enabled, not disabled), blocks the model at every later time exactly as
  the old state did, provided its quota deadlines are within the ceiling of an hour.
\<close>

theorem cooldown_restore_roundtrip:
  assumes "modelCooldownStateRecord old t0 (k, s) = Some r" and "map_of (auth_ModelStates old) k = Some s"
    and "canonicalModelKey k = k" and "ms_Status s \<noteq> StatusDisabled" and "trim_space (auth_ID old) \<noteq> []"
    and "canonical_states (auth_ModelStates auth)" and "map_of (auth_ModelStates auth) k = None"
    and "\<not> auth_Disabled auth" and "auth_Status auth \<noteq> StatusDisabled"
    and "\<not> quotaCooldownDisabledForAuthWithConfig cfg auth"
    and "0 \<le> now" and "now < ms_NextRetryAfter s" and "0 \<le> qs_NextRecoverAt (ms_Quota s)"
    and "qs_Exceeded (ms_Quota s) \<Longrightarrow> ms_NextRetryAfter s \<le> now + hour_ns \<and> qs_NextRecoverAt (ms_Quota s) \<le> now + hour_ns"
    and "now \<le> t"
  shows "\<exists>s'. map_of (auth_ModelStates (fst (restore_record cfg r now auth))) k = Some s'
    \<and> state_block t s' = state_block t s"
proof -
  have k: "trim_space k = k" using canonicalModelKey_trim [of k] assms(3) by simp
  have r: "cr_NextRetryAfter r = ms_NextRetryAfter s" "cr_Quota r = cooldownFieldsOf (ms_Quota s)"
    "cr_AuthID r = auth_ID old" "cr_Model r = k" "k \<noteq> []" "ms_Unavailable s"
    using assms(1) k by (auto simp: modelCooldownStateRecord_def Let_def split: if_splits)
  obtain quota retryAfter where m: "migrate_record r now = (quota, retryAfter)" by force
  have q: "qs_Exceeded (cr_Quota r) = qs_Exceeded (ms_Quota s)"
    "qs_NextRecoverAt (cr_Quota r) = qs_NextRecoverAt (ms_Quota s)"
    by (simp_all add: r(2) cooldownFieldsOf_def)
  have w: "retryAfter = ms_NextRetryAfter s" "quota = (if qs_Exceeded (cr_Quota r) \<and> qs_NextRecoverAt (cr_Quota r) = zero_time
       then (cr_Quota r)\<lparr>qs_NextRecoverAt := ms_NextRetryAfter s\<rparr> else cr_Quota r)"
    using migrate_within [of r now] assms(14) by (simp_all add: m r(1) q)
  define source where "source = \<lparr>ms_Status = StatusError, ms_StatusMessage = trim_space (cr_Reason r), ms_Unavailable = True,
    ms_NextRetryAfter = retryAfter, ms_LastError = cr_LastError r, ms_Quota = quota,
    ms_UpdatedAt = (if cr_UpdatedAt r = zero_time then now else cr_UpdatedAt r)\<rparr>"
  define s' where "s' = mergeModelState new_model_state source"
  have s': "ms_Status s' = StatusError" "ms_Unavailable s'" "ms_NextRetryAfter s' = ms_NextRetryAfter s"
    "qs_Exceeded (ms_Quota s') = qs_Exceeded (ms_Quota s)" "qs_NextRecoverAt (ms_Quota s') = qs_NextRecoverAt quota"
    using merge_fresh [of source] assms(11-13) by (simp_all add: s'_def source_def w q)
  have e: "ensureModelState (auth_ModelStates auth) k = (AList.update k new_model_state (auth_ModelStates auth), new_model_state)"
    using assms(3,6,7) by (simp add: ensureModelState_def canonical_normalize Let_def)
  have guards: "\<not> (trim_space (cr_AuthID r) = [] \<or> cr_NextRetryAfter r = zero_time \<or> \<not> cr_NextRetryAfter r > now)"
    "\<not> (auth_Disabled auth \<or> auth_Status auth = StatusDisabled \<or> quotaCooldownDisabledForAuthWithConfig cfg auth)"
    using assms(5,8-12) by (simp_all add: r)
  define a where "a = auth\<lparr>auth_ModelStates := AList.update k s' (AList.update k new_model_state (auth_ModelStates auth)),
    auth_Generation := auth_Generation auth + 1,
    auth_UpdatedAt := if cr_UpdatedAt r = zero_time then now else cr_UpdatedAt r\<rparr>"
  have a: "fst (restore_record cfg r now auth) = updateAggregatedAvailability now a" "map_of (auth_ModelStates a) k = Some s'"
    unfolding restore_record_def Let_def m if_not_P [OF guards(1)] if_not_P [OF guards(2)] r(4) k e a_def s'_def source_def
    using r(5) assms(3) by simp_all
  have "map_of (auth_ModelStates (fst (restore_record cfg r now auth))) k = Some s'"
    unfolding a(1) by (rule aggregated_state [OF a(2)]) (use assms(12) s' in simp)
  moreover have "state_block t s' = state_block t s"
    using assms(4,11,12) s'(1-5) r(6)
    by (auto simp: state_block_def availabilityBlock_def w q Let_def)
  ultimately show ?thesis by blast
qed

definition blocked_state :: ModelState where
  "blocked_state = snd (hd (auth_ModelStates (first_failure 403 False)))"

definition blocked_record :: CooldownStateRecord where
  "blocked_record = the (modelCooldownStateRecord (first_failure 403 False) 2000 (''m'', blocked_state))"

theorem cooldown_restore_roundtrip_witness:
  "map_of (auth_ModelStates (fst (restore_record plain_config blocked_record 3000 (new_auth ''a'' ''codex'')))) ''m'' \<noteq> None
   \<and> is_blocked (state_block 4000 (the (map_of (auth_ModelStates
        (fst (restore_record plain_config blocked_record 3000 (new_auth ''a'' ''codex'')))) ''m'')))"
proof -
  have "modelCooldownStateRecord (first_failure 403 False) 2000 (''m'', blocked_state) = Some blocked_record"
    "map_of (auth_ModelStates (first_failure 403 False)) ''m'' = Some blocked_state"
    "canonicalModelKey ''m'' = ''m''" "ms_Status blocked_state \<noteq> StatusDisabled"
    "trim_space (auth_ID (first_failure 403 False)) \<noteq> []" by code_simp+
  note r = cooldown_restore_roundtrip [OF this, of "new_auth ''a'' ''codex''" plain_config 3000 4000]
  have "3000 < ms_NextRetryAfter blocked_state" "\<not> qs_Exceeded (ms_Quota blocked_state)"
    "0 \<le> qs_NextRecoverAt (ms_Quota blocked_state)" "is_blocked (state_block 4000 blocked_state)"
    "\<not> quotaCooldownDisabledForAuthWithConfig plain_config (new_auth ''a'' ''codex'')" by code_simp+
  with r show ?thesis by (auto simp: new_auth_def canonical_states_def)
qed

section \<open>A reset frees the credential\<close>

definition free_state :: "ModelState \<Rightarrow> bool" where
  "free_state s \<longleftrightarrow> ms_Status s \<noteq> StatusDisabled \<and> \<not> ms_Unavailable s \<and> \<not> qs_Exceeded (ms_Quota s)"

definition free_credential :: "Auth \<Rightarrow> bool" where
  "free_credential a \<longleftrightarrow> list_all (\<lambda>(_, s). free_state s) (auth_ModelStates a)
     \<and> \<not> auth_Unavailable a \<and> \<not> qs_Exceeded (auth_Quota a)"

lemma free_not_blocked: "free_state s \<Longrightarrow> \<not> is_blocked (state_block t s)"
  by (simp add: free_state_def state_block_def availabilityBlock_def block_sel)

lemma reset_free: "free_state (clear_state now (resetModelState now s))"
  by (simp add: free_state_def clear_state_def resetModelState_def clear_quota_def applyCooldownFields_def)

lemma free_credential_blocked:
  assumes "free_credential a"
  shows "is_blocked (isAuthBlockedForModel a m t) \<longleftrightarrow> permanent a \<or> token_expired a t"
proof -
  have "blocking k t (auth_ModelStates a) = {}" for k
    using assms free_not_blocked by (fastforce simp: free_credential_def blocking_def relevant_def list_all_iff)
  then have "\<not> is_blocked (inner_block a m t)"
    using assms by (auto simp: inner_block_def loop_blocked_iff free_credential_def availabilityBlock_def)
  then show ?thesis using assms by (auto simp: isAuthBlocked_structure(1) credential_hold_def free_credential_def)
qed

lemma free_aggregate:
  assumes "list_all (\<lambda>(_, s). free_state s) (auth_ModelStates a)" and "\<not> qs_Exceeded (auth_Quota a)"
  shows "free_credential (updateAggregatedAvailability now a)"
proof (cases "auth_ModelStates a = []")
  case True
  with assms show ?thesis
    by (simp add: updateAggregatedAvailability_def credential_quota_active_def clearAggregatedAvailability_def
        free_credential_def clear_quota_def applyCooldownFields_def)
next
  case False
  have e: "exceeded_states (auth_ModelStates a) = {}"
    using assms(1) by (auto simp: exceeded_states_def list_all_iff free_state_def)
  have "\<not> list_all (\<lambda>(_, s). state_unavailable now s) (auth_ModelStates a)"
    using False assms(1) by (cases "auth_ModelStates a") (auto simp: free_state_def state_unavailable_def)
  moreover have "ag_allUnavailable (aggregate_states now sts) = list_all (\<lambda>(_, s). state_unavailable now s) sts" for sts
    by (induction sts rule: rev_induct) (auto simp: aggregate_states_def no_states_def aggregate_step_def)
  moreover have "ag_quotaExceeded (aggregate_states now sts) \<longleftrightarrow> exceeded_states sts \<noteq> {}" for sts
  proof (induction sts rule: rev_induct)
    case (snoc x sts)
    then show ?case by (cases x) (auto simp: aggregate_snoc aggregate_step_def exceeded_states_snoc)
  qed (simp add: aggregate_states_def no_states_def exceeded_states_def)
  ultimately show ?thesis
    using False assms e
    by (auto simp: updateAggregatedAvailability_def credential_quota_active_def free_credential_def Let_def
        aggregate_quota_def clear_quota_def applyCooldownFields_def list_all_iff lift_expired_def free_state_def)
qed

text \<open>
  C32: A quota reset frees the credential: from then on only what is not a cooldown (disabled, rejected or
  expired credential) blocks it, for every model.
\<close>

theorem ResetQuota_frees:
  assumes "list_all (\<lambda>(m, _). trim_space m \<noteq> []) (auth_ModelStates auth)"
  shows "is_blocked (isAuthBlockedForModel (fst (ResetQuota now supported auth)) m t)
     \<longleftrightarrow> permanent (fst (ResetQuota now supported auth)) \<or> token_expired auth t"
proof -
  let ?r = "reset_states now auth"
  obtain a1 changed where c: "clearCooldownStateForAuth now ?r = (a1, changed)" by force
  define own where "own = needs_clearing (auth_Unavailable ?r) (auth_NextRetryAfter ?r) (auth_Quota ?r)"
  define b where "b = (if own then ?r\<lparr>auth_Unavailable := False, auth_NextRetryAfter := zero_time,
      auth_Quota := clear_quota (auth_Quota ?r), auth_UpdatedAt := now\<rparr> else ?r)"
  define b' where "b' = b\<lparr>auth_ModelStates := List.map (\<lambda>(m, s). (m, clear_state now s)) (auth_ModelStates b)\<rparr>"
  have states: "list_all (\<lambda>(_, s). free_state s) (auth_ModelStates b')"
    using assms by (auto simp: b'_def b_def reset_states_def list_all_iff reset_free)
  have own: "\<not> qs_Exceeded (auth_Quota b')" "\<not> auth_Unavailable b'"
    by (auto simp: b'_def b_def own_def needs_clearing_def clear_quota_def applyCooldownFields_def)
  have exp: "auth_tokenExpiry b' = auth_tokenExpiry auth" by (simp add: b'_def b_def reset_states_def)
  define b'' where "b'' = (if auth_ModelStates b' \<noteq> [] then updateAggregatedAvailability now b' else b')"
  have free: "free_credential b''" "auth_tokenExpiry b'' = auth_tokenExpiry auth"
    using free_aggregate [OF states own(1), of now] states own exp by (auto simp: b''_def free_credential_def)
  have a1: "a1 = (if changed then b''\<lparr>auth_Generation := auth_Generation b'' + 1, auth_UpdatedAt := now\<rparr> else b'')"
    using c unfolding clearCooldownStateForAuth_def Let_def own_def [symmetric] b_def [symmetric] b'_def [symmetric]
      b''_def [symmetric] by auto
  define a2 where "a2 = (if \<not> changed \<and> auth_ModelStates a1 \<noteq> [] then updateAggregatedAvailability now a1 else a1)"
  have a1': "free_credential a1" "auth_tokenExpiry a1 = auth_tokenExpiry auth"
    using free by (auto simp: a1 free_credential_def)
  then have a2: "free_credential a2" "auth_tokenExpiry a2 = auth_tokenExpiry auth"
    using free_aggregate [of a1 now] by (auto simp: a2_def free_credential_def)
  define a3 where "a3 = (if \<not> auth_Disabled a2 \<and> auth_Status a2 \<noteq> StatusDisabled \<and> \<not> hasModelError a2 now
      then a2\<lparr>auth_LastError := None, auth_StatusMessage := [], auth_Status := StatusActive\<rparr> else a2)"
  have res: "fst (ResetQuota now supported auth) = a3\<lparr>auth_Generation := auth_Generation a3 + 1, auth_UpdatedAt := now\<rparr>"
    unfolding ResetQuota_def Let_def c prod.case a2_def [symmetric] a3_def [symmetric] by simp
  have "free_credential (fst (ResetQuota now supported auth))"
    "auth_tokenExpiry (fst (ResetQuota now supported auth)) = auth_tokenExpiry auth"
    using a2 by (auto simp: res a3_def free_credential_def)
  then show ?thesis by (simp add: free_credential_blocked token_expired_def)
qed

theorem ResetQuota_frees_witness:
  "\<not> is_blocked (isAuthBlockedForModel (fst (ResetQuota 2000 [] (first_failure 403 False))) ''m'' 3000)"
proof -
  let ?a = "fst (ResetQuota 2000 [] (first_failure 403 False))"
  have "list_all (\<lambda>(m, _). trim_space m \<noteq> []) (auth_ModelStates (first_failure 403 False))" by code_simp
  note h = ResetQuota_frees [OF this, of 2000 "[]" "''m''" 3000]
  have "\<not> auth_Disabled ?a" "auth_Status ?a \<noteq> StatusDisabled" "\<not> hasUnauthorizedAuthFailure ?a"
    "\<not> token_expired (first_failure 403 False) 3000" by code_simp+
  with h show ?thesis by (simp add: permanent_def)
qed

section \<open>The view agrees with selection\<close>

definition entry_view ::
  "json_bodies \<Rightarrow> time \<Rightarrow> (string, ModelState) gomap \<Rightarrow> string \<Rightarrow> (CooldownView \<times> blockReason) option"
where
  "entry_view jb now states k =
     (case map_of states k of
        None \<Rightarrow> None
      | Some s \<Rightarrow>
          let b = availabilityBlock (ms_Unavailable s) (qs_Exceeded (ms_Quota s)) (ms_NextRetryAfter s)
                    (qs_NextRecoverAt (ms_Quota s)) now
          in if is_blocked b \<and> block_until b > now
             then Some (newCooldownView jb ''model'' k (block_until b) now (ms_Quota s) (ms_StatusMessage s) (ms_LastError s),
               block_reason b)
             else None)"

lemma view_step_canonical:
  assumes "k \<noteq> []" and "canonicalModelKey k = k" and "map_of m k = None"
  shows "map_of (view_step jb now states k m) k' =
    (if k' = k then entry_view jb now states k else map_of m k')"
  using assms by (auto simp: view_step_def entry_view_def Let_def block_sel split: option.split prod.split)

lemma view_fold:
  assumes "distinct ks" and "\<forall>k \<in> set ks. k \<noteq> [] \<and> canonicalModelKey k = k \<and> map_of m k = None"
  shows "map_of (fold (view_step jb now states) ks m) k' =
    (if k' \<in> set ks then entry_view jb now states k' else map_of m k')"
  using assms
proof (induction ks arbitrary: m)
  case (Cons k ks)
  then have "\<forall>x \<in> set ks. x \<noteq> [] \<and> canonicalModelKey x = x \<and> map_of (view_step jb now states k m) x = None"
    by (auto simp: view_step_canonical)
  with Cons show ?case by (auto simp: view_step_canonical)
qed simp

lemma view_sel:
  "cv_Scope (newCooldownView jb sc m next now q msg e) = sc"
  "cv_ModelKey (newCooldownView jb sc m next now q msg e) = m"
  "cv_RetryAt (newCooldownView jb sc m u now q msg e) = u"
  by (simp_all add: newCooldownView_def Let_def)

text \<open>The timers of models in the view.\<close>

lemma snapshot_timer:
  assumes "canonical_states (auth_ModelStates auth)" and "auth_ModelStates auth \<noteq> []" and "\<not> credential_hold auth now"
  shows "(\<exists>v \<in> set (CooldownSnapshotForAuth jb auth now). cv_Scope v = ''model'' \<and> cv_ModelKey v = k \<and> cv_RetryAt v = until)
      \<longleftrightarrow> (\<exists>v r. entry_view jb now (auth_ModelStates auth) k = Some (v, r) \<and> cv_RetryAt v = until)" (is "?L \<longleftrightarrow> ?R")
proof -
  let ?sts = "auth_ModelStates auth"
  define byModel where "byModel = fold (view_step jb now ?sts) (sort (List.map fst ?sts)) []"
  have "distinct (sort (List.map fst ?sts))" "\<forall>k \<in> set (sort (List.map fst ?sts)). k \<noteq> [] \<and> canonicalModelKey k = k"
    using assms(1) by (auto simp: canonical_states_keys wf_map_def)
  then have by_key: "map_of byModel m = (if m \<in> fst ` set ?sts then entry_view jb now ?sts m else None)" for m
    by (simp add: byModel_def view_fold)
  have none: "entry_view jb now ?sts m = None" if "m \<notin> fst ` set ?sts" for m
    using that by (simp add: entry_view_def map_of_eq_None_iff [THEN iffD2])
  have by_sel: "map_of byModel m = entry_view jb now ?sts m" for m using by_key none by simp
  have snap: "CooldownSnapshotForAuth jb auth now = List.map (\<lambda>m. fst (the (map_of byModel m))) (sort (List.map fst byModel))"
    using assms(2,3) by (simp add: CooldownSnapshotForAuth_def byModel_def credential_hold_def Let_def)
  have key: "cv_ModelKey v = m \<and> cv_Scope v = ''model''" if "entry_view jb now ?sts m = Some (v, r)" for m v r
    using that by (auto simp: entry_view_def view_sel Let_def split: option.splits if_splits)
  show ?thesis
  proof
    assume ?L
    then obtain m where m: "m \<in> fst ` set byModel" "cv_ModelKey (fst (the (map_of byModel m))) = k"
      "cv_RetryAt (fst (the (map_of byModel m))) = until" by (auto simp: snap)
    then obtain v r where "map_of byModel m = Some (v, r)" by (metis map_of_eq_None_iff not_None_eq surj_pair)
    with m key [of m v r] by_sel show ?R by auto
  next
    assume ?R
    then obtain v r where v: "map_of byModel k = Some (v, r)" "cv_RetryAt v = until" by (auto simp: by_sel)
    then have "k \<in> fst ` set byModel" by (metis map_of_eq_None_iff option.distinct(1))
    with v key [of k v r] by_sel show ?L by (force simp: snap)
  qed
qed

text \<open>
  The management view agrees with selection: for a credential that is not disabled, rejected, expired or
  limited as a whole, the view shows a timer of a model with a given end exactly if selection finds the
  credential blocked for that model until then.
\<close>

theorem CooldownSnapshot_agrees:
  assumes "canonical_states (auth_ModelStates auth)" and "auth_ModelStates auth \<noteq> []" and "0 \<le> now"
    and "\<not> permanent auth" and "\<not> token_expired auth now" and "\<not> credential_hold auth now"
    and "list_all (\<lambda>(_, s). ms_Status s \<noteq> StatusDisabled) (auth_ModelStates auth)"
    and "k \<noteq> []" and "canonicalModelKey k = k" and "until \<noteq> zero_time"
  shows "(\<exists>v \<in> set (CooldownSnapshotForAuth jb auth now).
       cv_Scope v = ''model'' \<and> cv_ModelKey v = k \<and> cv_RetryAt v = until)
     \<longleftrightarrow> is_blocked (isAuthBlockedForModel auth k now) \<and> block_until (isAuthBlockedForModel auth k now) = until"
proof -
  let ?sts = "auth_ModelStates auth"
  note lhs = snapshot_timer [OF assms(1,2,6), of jb k until]
  have rel: "relevant k ?sts = (case map_of ?sts k of Some s \<Rightarrow> {s} | None \<Rightarrow> {})"
    by (rule relevant_canonical [OF assms(1)])
  have blk: "is_blocked (isAuthBlockedForModel auth k now) \<longleftrightarrow> blocking k now ?sts \<noteq> {}"
    "block_until (isAuthBlockedForModel auth k now) = block_until (model_states_loop k now ?sts False False blockReasonNone zero_time)"
    using assms by (simp_all add: isAuthBlocked_structure(1,2) inner_block_def loop_blocked_iff)
  have sum: "summary (blocking k now ?sts) (model_states_loop k now ?sts False False blockReasonNone zero_time)"
    by (rule model_states_summary)
  show ?thesis
  proof (cases "map_of ?sts k")
    case None
    then show ?thesis unfolding lhs blk(1) by (simp add: entry_view_def blocking_def rel)
  next
    case (Some s)
    then have act: "ms_Status s \<noteq> StatusDisabled" using assms(7) map_of_SomeD [OF Some] by (auto simp: list_all_iff)
    let ?b = "availabilityBlock (ms_Unavailable s) (qs_Exceeded (ms_Quota s)) (ms_NextRetryAfter s) (qs_NextRecoverAt (ms_Quota s)) now"
    have b: "blocking k now ?sts = (if is_blocked ?b then {?b} else {})"
      using Some act by (auto simp: blocking_def rel state_block_def)
    have "block_until (isAuthBlockedForModel auth k now) = block_until ?b" if "is_blocked ?b"
      using sum that unfolding b blk(2) by (auto simp: summary_def)
    moreover have "block_until ?b = zero_time \<or> now < block_until ?b" if "is_blocked ?b"
      by (rule block_until_future [OF assms(3) that])
    ultimately show ?thesis
      unfolding lhs blk(1) b using Some assms(3,10) by (auto simp: entry_view_def Let_def view_sel split: if_splits)
  qed
qed

theorem CooldownSnapshot_agrees_witness:
  "\<exists>v \<in> set (CooldownSnapshotForAuth no_bodies (first_failure 403 False) 2000).
     cv_Scope v = ''model'' \<and> cv_ModelKey v = ''m'' \<and> cv_RetryAt v = 1000 + 30 * minute_ns"
proof -
  let ?a = "first_failure 403 False"
  have "wf_map (auth_ModelStates ?a)" unfolding wf_map_def by code_simp
  moreover have "list_all (\<lambda>(m, _). m \<noteq> [] \<and> canonicalModelKey m = m) (auth_ModelStates ?a)" by code_simp
  ultimately have c: "canonical_states (auth_ModelStates ?a)" by (simp add: canonical_states_def)
  have "\<not> auth_Disabled ?a" "auth_Status ?a \<noteq> StatusDisabled" "\<not> hasUnauthorizedAuthFailure ?a" by code_simp+
  then have p: "\<not> permanent ?a" by (simp add: permanent_def)
  have h: "\<not> credential_hold ?a 2000" unfolding credential_hold_def by code_simp
  have s: "auth_ModelStates ?a \<noteq> []" "\<not> token_expired ?a 2000"
    "list_all (\<lambda>(_, s). ms_Status s \<noteq> StatusDisabled) (auth_ModelStates ?a)"
    "canonicalModelKey ''m'' = ''m''" "isAuthBlockedForModel ?a ''m'' 2000 = (True, blockReasonOther, 1000 + 30 * minute_ns)"
    by code_simp+
  show ?thesis
    using CooldownSnapshot_agrees [OF c s(1) _ p s(2) h s(3) _ s(4), of "1000 + 30 * minute_ns" no_bodies] s(5) by simp
qed

end
