(* ===== verification/Registry.thy ===== *)
theory Registry
  imports ModelInfo Weights
begin

text \<open>
  The registry of models (\<open>internal/registry/model_registry.go\<close>): which client offers which models through
  which provider, reference counts per model, quota and suspension marks of clients, projections of the
  credentials' state guarded by epochs, and the listing of available models with its cache. The mutex makes
  each operation atomic, so an operation is a function of the state; the hook and logging are left out.
  A nil \<open>*ModelInfo\<close> in a list of models is \<open>None\<close>.
\<close>

section \<open>State\<close>

record ModelRegistration =
  mr_Info :: ModelInfo
  mr_InfoByProvider :: "(string, ModelInfo) gomap"
  mr_Count :: int
  mr_LastUpdated :: time
  mr_QuotaExceededClients :: "(string, time) gomap"
  mr_Providers :: "(string, int) gomap"
  mr_SuspendedClients :: "(string, string) gomap"

type_synonym model_map = "(string, any_value) gomap"

record availableModelsCacheEntry =
  ce_models :: "model_map list"
  ce_expiresAt :: time

record ModelRegistry =
  mreg_models :: "(string, ModelRegistration) gomap"
  mreg_clientModels :: "(string, string list) gomap"
  mreg_clientModelInfos :: "(string, (string, ModelInfo) gomap) gomap"
  mreg_clientProviders :: "(string, string) gomap"
  mreg_clientEpochs :: "(string, u64) gomap"
  mreg_clientGenerations :: "(string, u64) gomap"
  mreg_availableModelsCache :: "(string, availableModelsCacheEntry) gomap"
  mreg_generation :: u64

definition new_registry :: ModelRegistry where
  "new_registry = \<lparr>mreg_models = [], mreg_clientModels = [], mreg_clientModelInfos = [], mreg_clientProviders = [],
     mreg_clientEpochs = [], mreg_clientGenerations = [], mreg_availableModelsCache = [], mreg_generation = 0\<rparr>"

definition modelQuotaExceededWindow :: duration where "modelQuotaExceededWindow = 5 * minute_ns"

definition invalidateAvailableModelsCacheLocked :: "ModelRegistry \<Rightarrow> ModelRegistry" where
  "invalidateAvailableModelsCacheLocked r =
     r\<lparr>mreg_generation := mreg_generation r + 1, mreg_availableModelsCache := []\<rparr>"

text \<open>Changing one entry of a map: \<open>None\<close> is an absent key.\<close>

definition alter :: "'k \<Rightarrow> ('v option \<Rightarrow> 'v option) \<Rightarrow> ('k, 'v) gomap \<Rightarrow> ('k, 'v) gomap" where
  "alter k f m = (case f (map_of m k) of None \<Rightarrow> AList.delete k m | Some v \<Rightarrow> AList.update k v m)"

section \<open>Registrations\<close>

definition hasClientSupportingWebSearch :: "ModelRegistry \<Rightarrow> string \<Rightarrow> string \<Rightarrow> string \<Rightarrow> bool" where
  "hasClientSupportingWebSearch r modelID provider excludeClientID =
     list_ex (\<lambda>(cID, infos).
       if cID = excludeClientID then False
       else if provider \<noteq> [] \<and> get_or [] (mreg_clientProviders r) cID \<noteq> provider then False
       else case map_of infos modelID of Some info \<Rightarrow> mi_SupportsWebSearch info | None \<Rightarrow> False)
     (mreg_clientModelInfos r)"

definition with_search :: "ModelInfo \<Rightarrow> bool \<Rightarrow> ModelInfo" where
  "with_search info b = info\<lparr>mi_SupportsWebSearch := b\<rparr>"

text \<open>
  \<open>web id p\<close> is the lookup of web search support among the clients other than the one being changed;
  the maps it reads do not change while registrations do.
\<close>

definition addModelRegistration ::
  "(string \<Rightarrow> bool) \<Rightarrow> string \<Rightarrow> ModelInfo \<Rightarrow> time \<Rightarrow> ModelRegistration option \<Rightarrow> ModelRegistration option"
where
  "addModelRegistration web provider model now reg =
     (case reg of
        Some existing \<Rightarrow>
          let e = existing\<lparr>mr_Count := mr_Count existing + 1, mr_LastUpdated := now,
                mr_Info := with_search (cloneModelInfo model) (mi_SupportsWebSearch model \<or> web [])\<rparr>
          in Some (if provider = [] then e
             else e\<lparr>mr_Providers := AList.update provider (get_or 0 (mr_Providers e) provider + 1) (mr_Providers e),
                    mr_InfoByProvider := AList.update provider
                      (with_search (cloneModelInfo model) (mi_SupportsWebSearch model \<or> web provider))
                      (mr_InfoByProvider e)\<rparr>)
      | None \<Rightarrow>
          Some \<lparr>mr_Info = cloneModelInfo model,
            mr_InfoByProvider = (if provider = [] then [] else [(provider, cloneModelInfo model)]),
            mr_Count = 1, mr_LastUpdated = now, mr_QuotaExceededClients = [],
            mr_Providers = (if provider = [] then [] else [(provider, 1)]),
            mr_SuspendedClients = []\<rparr>)"

definition drop_provider :: "string \<Rightarrow> ModelRegistration \<Rightarrow> ModelRegistration" where
  "drop_provider provider reg =
     (if provider = [] then reg
      else case map_of (mr_Providers reg) provider of
        None \<Rightarrow> reg
      | Some count \<Rightarrow>
          if count \<le> 1
          then reg\<lparr>mr_Providers := AList.delete provider (mr_Providers reg),
                 mr_InfoByProvider := AList.delete provider (mr_InfoByProvider reg)\<rparr>
          else reg\<lparr>mr_Providers := AList.update provider (count - 1) (mr_Providers reg)\<rparr>)"

definition refresh_provider :: "(string \<Rightarrow> bool) \<Rightarrow> string \<Rightarrow> ModelRegistration \<Rightarrow> ModelRegistration" where
  "refresh_provider web provider reg =
     (case map_of (mr_InfoByProvider reg) provider of
        Some info \<Rightarrow> if provider = [] then reg
          else reg\<lparr>mr_InfoByProvider := AList.update provider (with_search info (web provider)) (mr_InfoByProvider reg)\<rparr>
      | None \<Rightarrow> reg)"

definition removeModelRegistration ::
  "(string \<Rightarrow> bool) \<Rightarrow> string \<Rightarrow> string \<Rightarrow> time \<Rightarrow> ModelRegistration option \<Rightarrow> ModelRegistration option"
where
  "removeModelRegistration web clientID provider now reg =
     (case reg of
        None \<Rightarrow> None
      | Some registration \<Rightarrow>
          let r1 = registration\<lparr>mr_Count := max 0 (mr_Count registration - 1), mr_LastUpdated := now,
                mr_QuotaExceededClients := AList.delete clientID (mr_QuotaExceededClients registration),
                mr_SuspendedClients := AList.delete clientID (mr_SuspendedClients registration)\<rparr>;
              r2 = drop_provider provider r1
          in if mr_Count r2 \<le> 0 then None
             else Some (refresh_provider web provider (r2\<lparr>mr_Info := with_search (mr_Info r2) (web [])\<rparr>)))"

section \<open>RegisterClient\<close>

text \<open>The models of a registration: raw IDs with duplicates, and the first information per ID.\<close>

fun collect_models ::
  "ModelInfo option list \<Rightarrow> string list \<Rightarrow> (string, ModelInfo) gomap \<Rightarrow> string list
   \<Rightarrow> string list \<times> (string, ModelInfo) gomap \<times> string list"
where
  "collect_models [] raw infos unique = (raw, infos, unique)"
| "collect_models (None # models) raw infos unique = collect_models models raw infos unique"
| "collect_models (Some model # models) raw infos unique =
     (if mi_ID model = [] then collect_models models raw infos unique
      else if has_key infos (mi_ID model) then collect_models models (raw @ [mi_ID model]) infos unique
      else collect_models models (raw @ [mi_ID model]) (AList.update (mi_ID model) model infos)
             (unique @ [mi_ID model]))"

text \<open>One unregistration of a model in \<open>unregisterClientInternal\<close>.\<close>

definition unregister_model ::
  "(string \<Rightarrow> bool) \<Rightarrow> string \<Rightarrow> string \<Rightarrow> time \<Rightarrow> ModelRegistration option \<Rightarrow> ModelRegistration option"
where
  "unregister_model web clientID provider now reg =
     (case reg of
        None \<Rightarrow> None
      | Some registration \<Rightarrow>
          let r1 = registration\<lparr>mr_Count := mr_Count registration - 1, mr_LastUpdated := now,
                mr_QuotaExceededClients := AList.delete clientID (mr_QuotaExceededClients registration),
                mr_SuspendedClients := AList.delete clientID (mr_SuspendedClients registration)\<rparr>;
              r2 = drop_provider provider r1
          in if mr_Count r2 \<le> 0 then None
             else Some (refresh_provider web provider (r2\<lparr>mr_Info := with_search (mr_Info r2) (web [])\<rparr>)))"

definition bump :: "string \<Rightarrow> (string, u64) gomap \<Rightarrow> (string, u64) gomap" where
  "bump k m = AList.update k (get_or 0 m k + 1) m"

definition unregisterClientInternal :: "string \<Rightarrow> time \<Rightarrow> ModelRegistry \<Rightarrow> ModelRegistry" where
  "unregisterClientInternal clientID now r0 =
     (let r = r0\<lparr>mreg_clientEpochs := bump clientID (mreg_clientEpochs r0),
            mreg_clientGenerations := bump clientID (mreg_clientGenerations r0)\<rparr>
      in case map_of (mreg_clientModels r) clientID of
           None \<Rightarrow> r\<lparr>mreg_clientProviders := AList.delete clientID (mreg_clientProviders r)\<rparr>
         | Some models \<Rightarrow>
             let provider = get_or [] (mreg_clientProviders r) clientID;
                 web = (\<lambda>id p. hasClientSupportingWebSearch r id p clientID)
             in r\<lparr>mreg_models := fold (\<lambda>id. alter id (unregister_model (web id) clientID provider now)) models (mreg_models r),
                  mreg_clientModels := AList.delete clientID (mreg_clientModels r),
                  mreg_clientModelInfos := AList.delete clientID (mreg_clientModelInfos r),
                  mreg_clientProviders := AList.delete clientID (mreg_clientProviders r)\<rparr>)"

definition UnregisterClient :: "string \<Rightarrow> time \<Rightarrow> ModelRegistry \<Rightarrow> ModelRegistry" where
  "UnregisterClient clientID now r = invalidateAvailableModelsCacheLocked (unregisterClientInternal clientID now r)"

text \<open>The provider changed: the overlapping registrations leave the old provider.\<close>

definition leave_provider ::
  "(string \<Rightarrow> bool) \<Rightarrow> string \<Rightarrow> int \<Rightarrow> ModelRegistration option \<Rightarrow> ModelRegistration option"
where
  "leave_provider web oldProvider toRemove reg =
     (case reg of
        None \<Rightarrow> None
      | Some registration \<Rightarrow> Some
          (case map_of (mr_Providers registration) oldProvider of
             None \<Rightarrow> registration
           | Some count \<Rightarrow>
               if count \<le> toRemove
               then registration\<lparr>mr_Providers := AList.delete oldProvider (mr_Providers registration),
                      mr_InfoByProvider := AList.delete oldProvider (mr_InfoByProvider registration)\<rparr>
               else refresh_provider web oldProvider
                 (registration\<lparr>mr_Providers := AList.update oldProvider (count - toRemove) (mr_Providers registration)\<rparr>)))"

text \<open>The metadata of a model that stays with the client or joins it.\<close>

definition refresh_model ::
  "(string \<Rightarrow> bool) \<Rightarrow> string \<Rightarrow> string \<Rightarrow> string \<Rightarrow> ModelInfo \<Rightarrow> int \<Rightarrow> time
   \<Rightarrow> ModelRegistration option \<Rightarrow> ModelRegistration option"
where
  "refresh_model web clientID provider oldProvider model overlap now reg =
     (case reg of
        None \<Rightarrow> None
      | Some g0 \<Rightarrow>
          let providerChanged = (oldProvider \<noteq> provider);
              g1 = g0\<lparr>mr_Info := with_search (cloneModelInfo model) (mi_SupportsWebSearch model \<or> web [])\<rparr>;
              g2 = (if provider = [] then g1
                    else g1\<lparr>mr_InfoByProvider := AList.update provider
                      (with_search (cloneModelInfo model) (mi_SupportsWebSearch model \<or> web provider))
                      (mr_InfoByProvider g1)\<rparr>);
              g3 = (if providerChanged then refresh_provider web oldProvider g2 else g2);
              g4 = g3\<lparr>mr_LastUpdated := now,
                mr_QuotaExceededClients := AList.delete clientID (mr_QuotaExceededClients g3),
                mr_SuspendedClients := AList.delete clientID (mr_SuspendedClients g3)\<rparr>
          in Some (if providerChanged \<and> provider \<noteq> [] \<and> overlap > 0
             then g4\<lparr>mr_Providers := AList.update provider (get_or 0 (mr_Providers g4) provider + overlap) (mr_Providers g4)\<rparr>
             else g4))"

definition set_provider :: "string \<Rightarrow> string \<Rightarrow> (string, string) gomap \<Rightarrow> (string, string) gomap" where
  "set_provider clientID provider m =
     (if provider = [] then AList.delete clientID m else AList.update clientID provider m)"

text \<open>The registrations after a client with models \<open>old\<close> is reconciled with the models \<open>raw\<close>.\<close>

definition reconcile ::
  "(string \<Rightarrow> string \<Rightarrow> bool) \<Rightarrow> string \<Rightarrow> string \<Rightarrow> string \<Rightarrow> string list \<Rightarrow> string list
   \<Rightarrow> (string, ModelInfo) gomap \<Rightarrow> string list \<Rightarrow> time
   \<Rightarrow> (string, ModelRegistration) gomap \<Rightarrow> (string, ModelRegistration) gomap"
where
  "reconcile web clientID provider oldProvider old raw newModels unique now models0 =
     (let oldIDs = remdups old;
          removed = filter (\<lambda>id. count_list raw id = 0) oldIDs;
          m1 = (if oldProvider \<noteq> provider \<and> oldProvider \<noteq> [] then
                  fold (\<lambda>id. if count_list old id = 0 then (\<lambda>m. m)
                     else alter id (leave_provider (web id) oldProvider (int (min (count_list raw id) (count_list old id)))))
                   unique models0
                else models0);
          m2 = fold (\<lambda>id. (alter id (removeModelRegistration (web id) clientID oldProvider now)) ^^ count_list old id)
                 removed m1;
          m3 = fold (\<lambda>id. if count_list raw id = 0 then (\<lambda>m. m)
                  else (alter id (removeModelRegistration (web id) clientID oldProvider now))
                         ^^ (count_list old id - count_list raw id))
                 oldIDs m2;
          m4 = fold (\<lambda>id. (case map_of newModels id of
                  Some model \<Rightarrow> (alter id (addModelRegistration (web id) provider model now))
                    ^^ (count_list raw id - count_list old id)
                | None \<Rightarrow> (\<lambda>m. m)))
                 unique m3
      in fold (\<lambda>id. (case map_of newModels id of
             Some model \<Rightarrow> alter id (refresh_model (web id) clientID provider oldProvider model
               (int (min (count_list raw id) (count_list old id))) now)
           | None \<Rightarrow> (\<lambda>m. m)))
           unique m4)"

definition RegisterClient ::
  "string \<Rightarrow> string \<Rightarrow> ModelInfo option list \<Rightarrow> time \<Rightarrow> ModelRegistry \<Rightarrow> ModelRegistry"
where
  "RegisterClient clientID clientProvider models now r0 =
     (let provider = to_lower clientProvider;
          (raw, newModels, unique) = collect_models models [] [] []
      in if unique = [] then
           (let r = unregisterClientInternal clientID now r0
            in invalidateAvailableModelsCacheLocked
                 (r\<lparr>mreg_clientModels := AList.delete clientID (mreg_clientModels r),
                    mreg_clientModelInfos := AList.delete clientID (mreg_clientModelInfos r),
                    mreg_clientProviders := AList.delete clientID (mreg_clientProviders r)\<rparr>))
         else
           let r = r0\<lparr>mreg_clientEpochs := bump clientID (mreg_clientEpochs r0),
                 mreg_clientGenerations := AList.update clientID 0 (mreg_clientGenerations r0)\<rparr>;
               web = (\<lambda>id p. hasClientSupportingWebSearch r id p clientID);
               models' =
                 (case map_of (mreg_clientModels r) clientID of
                    None \<Rightarrow> fold (\<lambda>id. (case map_of newModels id of
                        Some model \<Rightarrow> alter id (addModelRegistration (web id) provider model now)
                      | None \<Rightarrow> (\<lambda>m. m))) raw (mreg_models r)
                  | Some old \<Rightarrow> reconcile web clientID provider (get_or [] (mreg_clientProviders r) clientID) old raw
                      newModels unique now (mreg_models r))
           in invalidateAvailableModelsCacheLocked
                (r\<lparr>mreg_models := models',
                   mreg_clientModels := AList.update clientID raw (mreg_clientModels r),
                   mreg_clientModelInfos := AList.update clientID newModels (mreg_clientModelInfos r),
                   mreg_clientProviders := set_provider clientID provider (mreg_clientProviders r)\<rparr>))"

section \<open>Marks of quota and suspension\<close>

text \<open>\<open>None\<close>: nothing changed, and the cache stays.\<close>

definition on_registration ::
  "string \<Rightarrow> (ModelRegistration \<Rightarrow> ModelRegistration option) \<Rightarrow> ModelRegistry \<Rightarrow> ModelRegistry"
where
  "on_registration modelID f r =
     (case map_of (mreg_models r) modelID of
        None \<Rightarrow> r
      | Some registration \<Rightarrow>
          (case f registration of
             None \<Rightarrow> r
           | Some registration' \<Rightarrow> invalidateAvailableModelsCacheLocked
               (r\<lparr>mreg_models := AList.update modelID registration' (mreg_models r)\<rparr>)))"

definition SetModelQuotaExceeded :: "string \<Rightarrow> string \<Rightarrow> time \<Rightarrow> ModelRegistry \<Rightarrow> ModelRegistry" where
  "SetModelQuotaExceeded clientID modelID now = on_registration modelID (\<lambda>g. Some
     (g\<lparr>mr_QuotaExceededClients := AList.update clientID now (mr_QuotaExceededClients g)\<rparr>))"

definition ClearModelQuotaExceeded :: "string \<Rightarrow> string \<Rightarrow> ModelRegistry \<Rightarrow> ModelRegistry" where
  "ClearModelQuotaExceeded clientID modelID = on_registration modelID (\<lambda>g. Some
     (g\<lparr>mr_QuotaExceededClients := AList.delete clientID (mr_QuotaExceededClients g)\<rparr>))"

definition SuspendClientModel :: "string \<Rightarrow> string \<Rightarrow> string \<Rightarrow> time \<Rightarrow> ModelRegistry \<Rightarrow> ModelRegistry" where
  "SuspendClientModel clientID modelID reason now r =
     (if clientID = [] \<or> modelID = [] then r
      else on_registration modelID (\<lambda>g.
        if has_key (mr_SuspendedClients g) clientID then None
        else Some (g\<lparr>mr_SuspendedClients := AList.update clientID reason (mr_SuspendedClients g),
                     mr_LastUpdated := now\<rparr>)) r)"

definition ResumeClientModel :: "string \<Rightarrow> string \<Rightarrow> time \<Rightarrow> ModelRegistry \<Rightarrow> ModelRegistry" where
  "ResumeClientModel clientID modelID now r =
     (if clientID = [] \<or> modelID = [] then r
      else on_registration modelID (\<lambda>g.
        if \<not> has_key (mr_SuspendedClients g) clientID then None
        else Some (g\<lparr>mr_SuspendedClients := AList.delete clientID (mr_SuspendedClients g),
                     mr_LastUpdated := now\<rparr>)) r)"

definition cleanup_registration :: "time \<Rightarrow> ModelRegistration \<Rightarrow> ModelRegistration" where
  "cleanup_registration now g =
     g\<lparr>mr_QuotaExceededClients := filter (\<lambda>(_, t). \<not> now - t \<ge> modelQuotaExceededWindow) (mr_QuotaExceededClients g)\<rparr>"

definition CleanupExpiredQuotas :: "time \<Rightarrow> ModelRegistry \<Rightarrow> ModelRegistry" where
  "CleanupExpiredQuotas now r =
     (let r' = r\<lparr>mreg_models := List.map (\<lambda>(id, g). (id, cleanup_registration now g)) (mreg_models r)\<rparr>
      in if list_ex (\<lambda>(_, g). list_ex (\<lambda>(_, t). now - t \<ge> modelQuotaExceededWindow) (mr_QuotaExceededClients g)) (mreg_models r)
         then invalidateAvailableModelsCacheLocked r' else r')"

section \<open>Projections of the credentials' state\<close>

record ClientModelProjection =
  pj_ModelID :: string
  pj_Suspended :: bool
  pj_SuspendReason :: string
  pj_QuotaExceeded :: bool

text \<open>One projection on a registration, and whether it changed anything.\<close>

definition project :: "string \<Rightarrow> time \<Rightarrow> ClientModelProjection \<Rightarrow> ModelRegistration \<Rightarrow> ModelRegistration \<times> bool" where
  "project clientID now proj g0 =
     (let (g1, c1) =
            (if pj_Suspended proj then
               (if map_of (mr_SuspendedClients g0) clientID \<noteq> Some (pj_SuspendReason proj)
                then (g0\<lparr>mr_SuspendedClients := AList.update clientID (pj_SuspendReason proj) (mr_SuspendedClients g0),
                         mr_LastUpdated := now\<rparr>, True)
                else (g0, False))
             else if has_key (mr_SuspendedClients g0) clientID
             then (g0\<lparr>mr_SuspendedClients := AList.delete clientID (mr_SuspendedClients g0), mr_LastUpdated := now\<rparr>, True)
             else (g0, False));
          (g2, c2) =
            (if pj_QuotaExceeded proj then
               (if \<not> has_key (mr_QuotaExceededClients g1) clientID
                then (g1\<lparr>mr_QuotaExceededClients := AList.update clientID now (mr_QuotaExceededClients g1),
                         mr_LastUpdated := now\<rparr>, True)
                else (g1, False))
             else if has_key (mr_QuotaExceededClients g1) clientID
             then (g1\<lparr>mr_QuotaExceededClients := AList.delete clientID (mr_QuotaExceededClients g1), mr_LastUpdated := now\<rparr>, True)
             else (g1, False))
      in (g2, c1 \<or> c2))"

text \<open>The registration a projection is about: a model the client itself registered.\<close>

definition projection_target ::
  "string list \<Rightarrow> (string, ModelRegistration) gomap \<Rightarrow> ClientModelProjection \<Rightarrow> (string \<times> ModelRegistration) option"
where
  "projection_target registeredSet models proj =
     (let modelID = trim_space (pj_ModelID proj)
      in if modelID = [] \<or> modelID \<notin> set registeredSet then None
         else case map_of models modelID of None \<Rightarrow> None | Some g \<Rightarrow> Some (modelID, g))"

fun project_loop ::
  "string \<Rightarrow> time \<Rightarrow> string list \<Rightarrow> ClientModelProjection list \<Rightarrow> (string, ModelRegistration) gomap \<Rightarrow> bool
   \<Rightarrow> (string, ModelRegistration) gomap \<times> bool"
where
  "project_loop clientID now registeredSet [] models changed = (models, changed)"
| "project_loop clientID now registeredSet (proj # projections) models changed =
     (case projection_target registeredSet models proj of
        None \<Rightarrow> project_loop clientID now registeredSet projections models changed
      | Some (modelID, g) \<Rightarrow>
          (case project clientID now proj g of
             (g', c) \<Rightarrow> project_loop clientID now registeredSet projections (AList.update modelID g' models) (changed \<or> c)))"

definition ApplyClientModelProjections ::
  "string \<Rightarrow> u64 \<Rightarrow> u64 \<Rightarrow> ClientModelProjection list \<Rightarrow> time \<Rightarrow> ModelRegistry \<Rightarrow> ModelRegistry \<times> bool"
where
  "ApplyClientModelProjections clientID0 epoch generation projections now r =
     (let clientID = trim_space clientID0
      in if clientID = [] then (r, False)
         else if get_or [] (mreg_clientModels r) clientID = [] then (r, False)
         else if epoch \<noteq> get_or 0 (mreg_clientEpochs r) clientID then (r, False)
         else if generation < get_or 0 (mreg_clientGenerations r) clientID then (r, False)
         else
           let registeredSet = filter (\<lambda>m. m \<noteq> []) (List.map trim_space (get_or [] (mreg_clientModels r) clientID))
           in if \<not> list_ex (\<lambda>proj. projection_target registeredSet (mreg_models r) proj \<noteq> None) projections then (r, False)
              else
                let r1 = r\<lparr>mreg_clientGenerations := AList.update clientID generation (mreg_clientGenerations r)\<rparr>;
                    (models, changed) = project_loop clientID now registeredSet projections (mreg_models r1) False;
                    r2 = r1\<lparr>mreg_models := models\<rparr>
                in (if changed then invalidateAvailableModelsCacheLocked r2 else r2, True))"

text \<open>Capabilities of a client's models: \<open>mutate\<close> is the callback of the caller.\<close>

definition refresh_search :: "(string \<Rightarrow> bool) \<Rightarrow> string \<Rightarrow> ModelRegistration option \<Rightarrow> ModelRegistration option" where
  "refresh_search web provider reg =
     (case reg of
        None \<Rightarrow> None
      | Some g \<Rightarrow> Some (refresh_provider web provider (g\<lparr>mr_Info := with_search (mr_Info g) (web [])\<rparr>)))"

fun capabilities_loop ::
  "string \<Rightarrow> (string \<Rightarrow> ModelInfo \<Rightarrow> ModelInfo) \<Rightarrow> string list \<Rightarrow> ModelRegistry \<Rightarrow> ModelRegistry"
where
  "capabilities_loop clientID mutate [] r = r"
| "capabilities_loop clientID mutate (modelID # ids) r =
     (let infos = get_or [] (mreg_clientModelInfos r) clientID
      in case map_of infos modelID of
           None \<Rightarrow> capabilities_loop clientID mutate ids r
         | Some info \<Rightarrow>
             let r1 = r\<lparr>mreg_clientModelInfos := AList.update clientID (AList.update modelID (mutate modelID info) infos) (mreg_clientModelInfos r)\<rparr>
             in capabilities_loop clientID mutate ids
                  (r1\<lparr>mreg_models := alter modelID (refresh_search (\<lambda>p. hasClientSupportingWebSearch r1 modelID p [])
                     (get_or [] (mreg_clientProviders r1) clientID)) (mreg_models r1)\<rparr>))"

definition ApplyClientModelCapabilities ::
  "string \<Rightarrow> u64 \<Rightarrow> (string \<Rightarrow> ModelInfo \<Rightarrow> ModelInfo) \<Rightarrow> ModelRegistry \<Rightarrow> ModelRegistry \<times> bool"
where
  "ApplyClientModelCapabilities clientID0 expectedEpoch mutate r =
     (let clientID = trim_space clientID0
      in if clientID = [] then (r, False)
         else if get_or 0 (mreg_clientEpochs r) clientID \<noteq> expectedEpoch then (r, False)
         else if get_or [] (mreg_clientModelInfos r) clientID = [] then (r, False)
         else (invalidateAvailableModelsCacheLocked
                 (capabilities_loop clientID mutate (gokeys (get_or [] (mreg_clientModelInfos r) clientID)) r), True))"

section \<open>Queries\<close>

definition ClientSupportsModel :: "ModelRegistry \<Rightarrow> string \<Rightarrow> string \<Rightarrow> bool" where
  "ClientSupportsModel r clientID modelID =
     (if trim_space clientID = [] \<or> trim_space modelID = [] then False
      else list_ex (\<lambda>id. equal_fold (trim_space id) (trim_space modelID)) (get_or [] (mreg_clientModels r) (trim_space clientID)))"

definition IsModelSuspendedForClient :: "ModelRegistry \<Rightarrow> string \<Rightarrow> string \<Rightarrow> bool" where
  "IsModelSuspendedForClient r clientID modelID =
     (if trim_space clientID = [] \<or> trim_space modelID = [] then False
      else case map_of (mreg_models r) (trim_space modelID) of
        None \<Rightarrow> False | Some g \<Rightarrow> has_key (mr_SuspendedClients g) (trim_space clientID))"

definition IsModelQuotaExceededForClient :: "ModelRegistry \<Rightarrow> string \<Rightarrow> string \<Rightarrow> bool" where
  "IsModelQuotaExceededForClient r clientID modelID =
     (if trim_space clientID = [] \<or> trim_space modelID = [] then False
      else case map_of (mreg_models r) (trim_space modelID) of
        None \<Rightarrow> False | Some g \<Rightarrow> has_key (mr_QuotaExceededClients g) (trim_space clientID))"

definition recovering :: "time \<Rightarrow> (string, time) gomap \<Rightarrow> time list" where
  "recovering now quota = filter (\<lambda>due. now < due) (List.map (\<lambda>(_, t). t + modelQuotaExceededWindow) quota)"

definition earlier :: "time \<Rightarrow> time \<Rightarrow> time" where
  "earlier expiresAt candidate = (if expiresAt = zero_time \<or> candidate < expiresAt then candidate else expiresAt)"

definition available_from :: "int \<Rightarrow> int \<Rightarrow> int \<Rightarrow> int \<Rightarrow> bool" where
  "available_from availableClients expiredClients cooldownSuspended otherSuspended =
     (let effectiveClients = max 0 (availableClients - expiredClients - otherSuspended)
      in effectiveClients > 0
         \<or> (availableClients > 0 \<and> (expiredClients > 0 \<or> cooldownSuspended > 0) \<and> otherSuspended = 0))"

definition modelRegistrationAvailability :: "ModelRegistration \<Rightarrow> time \<Rightarrow> bool \<times> time" where
  "modelRegistrationAvailability g now =
     (let waiting = recovering now (mr_QuotaExceededClients g);
          cooldownSuspended = length (filter (\<lambda>(_, reason). equal_fold reason ''quota'') (mr_SuspendedClients g));
          otherSuspended = length (filter (\<lambda>(_, reason). \<not> equal_fold reason ''quota'') (mr_SuspendedClients g))
      in (available_from (mr_Count g) (int (length waiting)) (int cooldownSuspended) (int otherSuspended),
          fold (\<lambda>due e. earlier e due) waiting zero_time))"

definition GetAvailableModelInfos :: "ModelRegistry \<Rightarrow> time \<Rightarrow> ModelInfo list" where
  "GetAvailableModelInfos r now = sort_key (\<lambda>i. trim_space (mi_ID i))
     (List.map (\<lambda>(_, g). cloneModelInfo (mr_Info g))
       (filter (\<lambda>(_, g). fst (modelRegistrationAvailability g now)) (mreg_models r)))"

definition GetModelCount :: "ModelRegistry \<Rightarrow> string \<Rightarrow> time \<Rightarrow> int" where
  "GetModelCount r modelID now =
     (case map_of (mreg_models r) modelID of
        None \<Rightarrow> 0
      | Some g \<Rightarrow>
          let expiredClients = length (filter (\<lambda>(_, t). now - t < modelQuotaExceededWindow) (mr_QuotaExceededClients g));
              suspendedClients = length (mr_SuspendedClients g);
              result = mr_Count g - int expiredClients - int suspendedClients
          in if result < 0 then 0 else result)"

definition GetModelProviders :: "ModelRegistry \<Rightarrow> string \<Rightarrow> string list" where
  "GetModelProviders r modelID =
     (case map_of (mreg_models r) modelID of
        None \<Rightarrow> []
      | Some g \<Rightarrow> List.map fst (sort_key (\<lambda>(_, count). - count) (sort_key fst
          (filter (\<lambda>(_, count). count > 0) (mr_Providers g)))))"

definition GetModelInfo :: "ModelRegistry \<Rightarrow> string \<Rightarrow> string \<Rightarrow> ModelInfo option" where
  "GetModelInfo r modelID provider =
     (case map_of (mreg_models r) modelID of
        None \<Rightarrow> None
      | Some g \<Rightarrow> Some (cloneModelInfo
          (if provider \<noteq> [] \<and> get_or 0 (mr_Providers g) provider > 0
           then (case map_of (mr_InfoByProvider g) provider of Some info \<Rightarrow> info | None \<Rightarrow> mr_Info g)
           else mr_Info g)))"

definition GetModelsAndEpochForClient :: "ModelRegistry \<Rightarrow> string \<Rightarrow> ModelInfo list \<times> u64" where
  "GetModelsAndEpochForClient r clientID =
     (let infos = get_or [] (mreg_clientModelInfos r) clientID;
          lookup = (\<lambda>id. case map_of infos id of
              Some info \<Rightarrow> Some (cloneModelInfo info)
            | None \<Rightarrow> map_option (\<lambda>g. cloneModelInfo (mr_Info g)) (map_of (mreg_models r) id))
      in (List.map_filter lookup (rev (remdups (rev (get_or [] (mreg_clientModels r) clientID)))),
          get_or 0 (mreg_clientEpochs r) clientID))"

text \<open>\<open>GetAvailableModelsByProvider\<close>: entries of the provider's clients, then their availability.\<close>

definition provider_entry ::
  "ModelRegistry \<Rightarrow> string \<Rightarrow> string \<Rightarrow> (string, nat \<times> ModelInfo option) gomap \<Rightarrow> (string, nat \<times> ModelInfo option) gomap"
where
  "provider_entry r clientID modelID0 entries =
     (let modelID = trim_space modelID0
      in if modelID = [] then entries
         else let (count, info) = get_or (0, None) entries modelID;
                  own = map_of (get_or [] (mreg_clientModelInfos r) clientID) modelID;
                  info' = (case info of Some i \<Rightarrow> Some i
                    | None \<Rightarrow> (case own of Some i \<Rightarrow> Some i
                        | None \<Rightarrow> map_option mr_Info (map_of (mreg_models r) modelID)))
              in AList.update modelID (Suc count, info') entries)"

definition provider_entries :: "ModelRegistry \<Rightarrow> string \<Rightarrow> (string, nat \<times> ModelInfo option) gomap" where
  "provider_entries r provider =
     fold (\<lambda>(clientID, clientProvider) entries.
       if clientProvider \<noteq> provider then entries
       else fold (provider_entry r clientID) (get_or [] (mreg_clientModels r) clientID) entries)
     (mreg_clientProviders r) []"

definition entry_available :: "ModelRegistry \<Rightarrow> string \<Rightarrow> time \<Rightarrow> string \<Rightarrow> nat \<Rightarrow> bool" where
  "entry_available r provider now modelID count =
     (let ours = (\<lambda>clientID. clientID \<noteq> [] \<and> map_of (mreg_clientProviders r) clientID = Some provider);
          (quota, suspended) = (case map_of (mreg_models r) modelID of
              Some g \<Rightarrow> (filter (\<lambda>(c, _). ours c) (mr_QuotaExceededClients g), filter (\<lambda>(c, _). ours c) (mr_SuspendedClients g))
            | None \<Rightarrow> ([], []))
      in available_from (int count)
           (int (length (filter (\<lambda>(_, t). now - t < modelQuotaExceededWindow) quota)))
           (int (length (filter (\<lambda>(_, reason). equal_fold reason ''quota'') suspended)))
           (int (length (filter (\<lambda>(_, reason). \<not> equal_fold reason ''quota'') suspended))))"

definition GetAvailableModelsByProvider :: "ModelRegistry \<Rightarrow> string \<Rightarrow> time \<Rightarrow> ModelInfo list" where
  "GetAvailableModelsByProvider r provider0 now =
     (let provider = to_lower (trim_space provider0)
      in if provider = [] then []
         else List.map_filter (\<lambda>(modelID, count, info).
             if entry_available r provider now modelID count then
               (case info of Some i \<Rightarrow> Some (cloneModelInfo i)
                | None \<Rightarrow> map_option (\<lambda>g. cloneModelInfo (mr_Info g)) (map_of (mreg_models r) modelID))
             else None)
           (provider_entries r provider))"

section \<open>Native web search over all routes\<close>

definition responsesWebSearchProviderPathSupport :: "string \<Rightarrow> bool option" where
  "responsesWebSearchProviderPathSupport provider0 =
     (let provider = to_lower (trim_space provider0)
      in if provider \<in> set [''codex'', ''xai'', ''claude'', ''antigravity''] then Some True
         else if provider \<in> set [''openai'', ''openai-compatibility'', ''gemini'', ''aistudio'', ''vertex'', ''kimi'',
           ''interactions'', ''gemini-interactions''] then Some False
         else if has_prefix provider ''openai-compatible-'' then Some False
         else None)"

definition web_search_of :: "NativeCapabilities option \<Rightarrow> bool option" where
  "web_search_of caps = (case caps of Some c \<Rightarrow> nc_WebSearch c | None \<Rightarrow> None)"

fun resolve_loop :: "(string \<times> NativeCapabilities option) list \<Rightarrow> bool \<Rightarrow> bool option" where
  "resolve_loop [] hasUnknown = (if hasUnknown then None else Some True)"
| "resolve_loop ((provider, caps) # routes) hasUnknown =
     (if web_search_of caps = Some False then Some False
      else case responsesWebSearchProviderPathSupport provider of
             None \<Rightarrow> resolve_loop routes True
           | Some support \<Rightarrow>
               if \<not> support then Some False
               else resolve_loop routes (if web_search_of caps = None then True else hasUnknown))"

definition ResolveResponsesWebSearchCapability :: "(string \<times> NativeCapabilities option) list \<Rightarrow> bool option" where
  "ResolveResponsesWebSearchCapability routes = (if routes = [] then None else resolve_loop routes False)"

definition GetResponsesWebSearchCapability :: "ModelRegistry \<Rightarrow> string \<Rightarrow> bool option" where
  "GetResponsesWebSearchCapability r modelID0 =
     (let modelID = trim_space modelID0
      in if modelID = [] then None
         else ResolveResponsesWebSearchCapability
           (concat (List.map (\<lambda>(clientID, modelIDs).
              List.map (\<lambda>registeredID. (get_or [] (mreg_clientProviders r) clientID,
                  Option.bind (map_of (get_or [] (mreg_clientModelInfos r) clientID) registeredID) mi_NativeCapabilities))
                (filter (\<lambda>registeredID. trim_space registeredID = modelID) modelIDs))
              (mreg_clientModels r))))"

section \<open>The listing and its cache\<close>

text \<open>\<open>time.RFC3339\<close> of a number of Unix seconds in UTC (days to a civil date by 400-year eras).\<close>

definition padded :: "nat \<Rightarrow> int \<Rightarrow> string" where
  "padded width n = (let d = itoa n in replicate (width - length d) (CHR ''0'') @ d)"

definition rfc3339 :: "int \<Rightarrow> string" where
  "rfc3339 seconds =
     (let days = seconds div 86400; sod = seconds mod 86400;
          z = days + 719468; era = z div 146097; doe = z - era * 146097;
          yoe = (doe - doe div 1460 + doe div 36524 - doe div 146096) div 365;
          doy = doe - (365 * yoe + yoe div 4 - yoe div 100);
          mp = (5 * doy + 2) div 153;
          day = doy - (153 * mp + 2) div 5 + 1;
          month = (if mp < 10 then mp + 3 else mp - 9);
          year = yoe + era * 400 + (if month \<le> 2 then 1 else 0)
      in padded 4 year @ ''-'' @ padded 2 month @ ''-'' @ padded 2 day @ ''T'' @ padded 2 (sod div 3600) @ '':''
         @ padded 2 (sod mod 3600 div 60) @ '':'' @ padded 2 (sod mod 60) @ ''Z'')"

definition text_field :: "string \<Rightarrow> string \<Rightarrow> model_map" where
  "text_field k v = (if v = [] then [] else [(k, AString v)])"

definition number_field :: "string \<Rightarrow> int \<Rightarrow> model_map" where
  "number_field k n = (if n > 0 then [(k, ASigned n)] else [])"

definition list_field :: "string \<Rightarrow> string list \<Rightarrow> model_map" where
  "list_field k vs = (if vs = [] then [] else [(k, AArray (List.map AString vs))])"

definition DefaultClaudeMaxInputTokens :: int where "DefaultClaudeMaxInputTokens = 200000"
definition DefaultClaudeMaxOutputTokens :: int where "DefaultClaudeMaxOutputTokens = 64000"

definition openai_map :: "ModelInfo \<Rightarrow> model_map" where
  "openai_map model = [(''id'', AString (mi_ID model)), (''object'', AString ''model''),
       (''owned_by'', AString (mi_OwnedBy model))]
     @ number_field ''created'' (mi_Created model) @ text_field ''type'' (mi_Type model)
     @ text_field ''display_name'' (mi_DisplayName model) @ text_field ''version'' (mi_Version model)
     @ text_field ''description'' (mi_Description model)
     @ number_field ''context_length'' (mi_ContextLength model)
     @ number_field ''max_context_length'' (mi_MaxContextLength model)
     @ number_field ''max_completion_tokens'' (mi_MaxCompletionTokens model)
     @ list_field ''supported_parameters'' (mi_SupportedParameters model)"

definition claude_map :: "ModelInfo \<Rightarrow> model_map" where
  "claude_map model = [(''id'', AString (mi_ID model)), (''object'', AString ''model''),
       (''owned_by'', AString (mi_OwnedBy model))]
     @ (if mi_Created model > 0 then [(''created_at'', AString (rfc3339 (mi_Created model)))] else [])
     @ [(''type'', AString ''model''),
        (''display_name'', AString (if mi_DisplayName model = [] then mi_ID model else mi_DisplayName model)),
        (''max_input_tokens'', ASigned (if mi_ContextLength model \<le> 0 then DefaultClaudeMaxInputTokens
           else mi_ContextLength model)),
        (''max_tokens'', ASigned (if mi_MaxCompletionTokens model \<le> 0 then DefaultClaudeMaxOutputTokens
           else mi_MaxCompletionTokens model))]"

definition gemini_map :: "ModelInfo \<Rightarrow> model_map" where
  "gemini_map model = [(''name'', AString (if mi_Name model = [] then mi_ID model else mi_Name model))]
     @ text_field ''version'' (mi_Version model) @ text_field ''displayName'' (mi_DisplayName model)
     @ text_field ''description'' (mi_Description model)
     @ number_field ''inputTokenLimit'' (mi_InputTokenLimit model)
     @ number_field ''outputTokenLimit'' (mi_OutputTokenLimit model)
     @ list_field ''supportedGenerationMethods'' (mi_SupportedGenerationMethods model)
     @ list_field ''supportedInputModalities'' (mi_SupportedInputModalities model)
     @ list_field ''supportedOutputModalities'' (mi_SupportedOutputModalities model)"

definition generic_map :: "ModelInfo \<Rightarrow> model_map" where
  "generic_map model = [(''id'', AString (mi_ID model)), (''object'', AString ''model'')]
     @ text_field ''owned_by'' (mi_OwnedBy model) @ text_field ''type'' (mi_Type model)
     @ (if mi_Created model \<noteq> 0 then [(''created'', ASigned (mi_Created model))] else [])"

definition convertModelToMap :: "ModelInfo \<Rightarrow> string \<Rightarrow> model_map" where
  "convertModelToMap model handlerType =
     (if handlerType = ''openai'' then openai_map model
      else if handlerType = ''claude'' then claude_map model
      else if handlerType = ''gemini'' then gemini_map model
      else generic_map model)"

definition list_registration ::
  "string \<Rightarrow> time \<Rightarrow> string \<times> ModelRegistration \<Rightarrow> model_map list \<times> time \<Rightarrow> model_map list \<times> time"
where
  "list_registration handlerType now entry acc =
     (case (entry, acc) of
        ((_, g), (models, expiresAt)) \<Rightarrow>
          (case modelRegistrationAvailability g now of
             (available, registrationExpiresAt) \<Rightarrow>
               (if available then models @ [convertModelToMap (mr_Info g) handlerType] else models,
                if registrationExpiresAt \<noteq> zero_time \<and> (expiresAt = zero_time \<or> registrationExpiresAt < expiresAt)
                then registrationExpiresAt else expiresAt)))"

definition buildAvailableModelsLocked :: "ModelRegistry \<Rightarrow> string \<Rightarrow> time \<Rightarrow> model_map list \<times> time" where
  "buildAvailableModelsLocked r handlerType now = fold (list_registration handlerType now) (mreg_models r) ([], zero_time)"

definition GetAvailableModels :: "string \<Rightarrow> time \<Rightarrow> ModelRegistry \<Rightarrow> ModelRegistry \<times> model_map list" where
  "GetAvailableModels handlerType now r =
     (case map_of (mreg_availableModelsCache r) handlerType of
        Some cache \<Rightarrow>
          if ce_expiresAt cache = zero_time \<or> now < ce_expiresAt cache then (r, ce_models cache)
          else
            let (models, expiresAt) = buildAvailableModelsLocked r handlerType now
            in (r\<lparr>mreg_availableModelsCache := AList.update handlerType
                  \<lparr>ce_models = models, ce_expiresAt = expiresAt\<rparr> (mreg_availableModelsCache r)\<rparr>, models)
      | None \<Rightarrow>
          let (models, expiresAt) = buildAvailableModelsLocked r handlerType now
          in (r\<lparr>mreg_availableModelsCache := AList.update handlerType
                \<lparr>ce_models = models, ce_expiresAt = expiresAt\<rparr> (mreg_availableModelsCache r)\<rparr>, models))"

end
