(* ===== verification/RegistryCounts.thy ===== *)
theory RegistryCounts
  imports Registry
begin

text \<open>
  The reference counts of the registry: in every reachable state the count of a model is the number of
  registrations of it by clients, per provider too, and a model is listed exactly while some client
  offers it.
\<close>

section \<open>Changing entries\<close>

lemma map_of_alter: "map_of (alter k f m) k' = (if k' = k then f (map_of m k) else map_of m k')"
  by (simp add: alter_def split: option.split)

lemma map_of_alter_pow: "map_of ((alter k f ^^ n) m) k' = (if k' = k then (f ^^ n) (map_of m k) else map_of m k')"
  by (induction n) (auto simp: map_of_alter)

lemma fold_local:
  assumes "\<And>k m k'. map_of (step k m) k' = (if k' = k then F k (map_of m k) else map_of m k')"
  shows "map_of (fold step ks m) k' = (F k' ^^ count_list ks k') (map_of m k')"
  by (induction ks arbitrary: m) (auto simp: assms funpow_swap1)

lemma count_list_distinct: "distinct ks \<Longrightarrow> count_list ks k = (if k \<in> set ks then 1 else 0)"
  by (induction ks) auto

lemma fold_local_distinct:
  assumes "\<And>k m k'. map_of (step k m) k' = (if k' = k then F k (map_of m k) else map_of m k')" and "distinct ks"
  shows "map_of (fold step ks m) k' = (if k' \<in> set ks then F k' (map_of m k') else map_of m k')"
  using fold_local [of step F, OF assms(1)] by (simp add: count_list_distinct [OF assms(2)])

section \<open>The count of one model\<close>

definition tallies :: "int \<Rightarrow> (string \<Rightarrow> int) \<Rightarrow> ModelRegistration option \<Rightarrow> bool" where
  "tallies c P reg \<longleftrightarrow>
     (case reg of
        None \<Rightarrow> c = 0
      | Some g \<Rightarrow> 0 < c \<and> mr_Count g = c \<and> wf_map (mr_Providers g) \<and> map_of (mr_Providers g) [] = None
          \<and> (\<forall>p. p \<noteq> [] \<longrightarrow> map_of (mr_Providers g) p = (if 0 < P p then Some (P p) else None)))"

definition add_at :: "string \<Rightarrow> int \<Rightarrow> (string \<Rightarrow> int) \<Rightarrow> string \<Rightarrow> int" where
  "add_at provider n P = (\<lambda>p. if p = provider then P p + n else P p)"

lemma add_at_0 [simp]: "add_at provider 0 P = P"
  by (auto simp: add_at_def)

lemma tallies_cong: "(\<And>p. p \<noteq> [] \<Longrightarrow> P p = P' p) \<Longrightarrow> c = c' \<Longrightarrow> tallies c P x = tallies c' P' x"
  by (auto simp: tallies_def split: option.split)

lemma tallies_add:
  assumes "tallies c P x" and "c = 0 \<Longrightarrow> \<forall>p. P p = 0" and "\<forall>p. 0 \<le> P p"
  shows "tallies (c + 1) (add_at provider 1 P) (addModelRegistration web provider model now x)"
proof (cases x)
  case None
  with assms show ?thesis by (auto simp: tallies_def addModelRegistration_def add_at_def wf_map_Cons)
next
  case (Some g)
  have "get_or 0 (mr_Providers g) provider = P provider" if "provider \<noteq> []"
    using assms(1,3) that by (auto simp: tallies_def get_or_def Some not_less order_antisym_conv)
  moreover have "0 \<le> P provider" using assms(3) by blast
  ultimately show ?thesis
    using assms(1) by (auto simp: tallies_def addModelRegistration_def add_at_def Some Let_def)
qed

lemma tallies_add_pow:
  assumes "tallies c P x" and "c = 0 \<Longrightarrow> \<forall>p. P p = 0" and "\<forall>p. 0 \<le> P p" and "0 \<le> c"
  shows "tallies (c + int n) (add_at provider (int n) P) ((addModelRegistration web provider model now ^^ n) x)"
proof (induction n)
  case 0
  show ?case using assms(1) by simp
next
  case (Suc n)
  have "tallies (c + int n + 1) (add_at provider 1 (add_at provider (int n) P))
      (addModelRegistration web provider model now ((addModelRegistration web provider model now ^^ n) x))"
    by (rule tallies_add [OF Suc]) (use assms in \<open>auto simp: add_at_def\<close>)
  moreover have "add_at provider 1 (add_at provider (int n) P) = add_at provider (int (Suc n)) P"
    by (auto simp: add_at_def)
  ultimately show ?case by (simp add: algebra_simps)
qed

lemma drop_provider_sel [simp]: "mr_Count (drop_provider p g) = mr_Count g"
  by (simp add: drop_provider_def split: option.split)

lemma refresh_provider_sel [simp]:
  "mr_Count (refresh_provider w p g) = mr_Count g" "mr_Providers (refresh_provider w p g) = mr_Providers g"
  by (simp_all add: refresh_provider_def split: option.split)

lemma drop_provider_of:
  "map_of (mr_Providers (drop_provider provider g)) p =
     (if p = provider \<and> provider \<noteq> [] then
        (case map_of (mr_Providers g) p of None \<Rightarrow> None | Some n \<Rightarrow> if n \<le> 1 then None else Some (n - 1))
      else map_of (mr_Providers g) p)"
  by (simp add: drop_provider_def split: option.split)

lemma drop_provider_wf: "wf_map (mr_Providers g) \<Longrightarrow> wf_map (mr_Providers (drop_provider p g))"
  by (simp add: drop_provider_def split: option.split)

lemma tallies_remove:
  assumes "tallies c P x" and "0 < c" and "provider \<noteq> [] \<Longrightarrow> 0 < P provider"
  shows "tallies (c - 1) (add_at provider (- 1) P) (removeModelRegistration web client provider now x)"
proof (cases x)
  case (Some g)
  with assms show ?thesis
    by (auto simp: tallies_def removeModelRegistration_def add_at_def Let_def drop_provider_of drop_provider_wf)
qed (use assms in \<open>simp add: tallies_def\<close>)

lemma tallies_remove_pow:
  assumes "tallies c P x" and "int n \<le> c" and "provider \<noteq> [] \<Longrightarrow> int n \<le> P provider"
  shows "tallies (c - int n) (add_at provider (- int n) P) ((removeModelRegistration web client provider now ^^ n) x)"
  using assms(2,3)
proof (induction n)
  case 0
  show ?case using assms(1) by simp
next
  case (Suc n)
  have "tallies (c - int n - 1) (add_at provider (- 1) (add_at provider (- int n) P))
      (removeModelRegistration web client provider now ((removeModelRegistration web client provider now ^^ n) x))"
    by (rule tallies_remove [OF Suc.IH]) (use Suc.prems in \<open>auto simp: add_at_def\<close>)
  moreover have "add_at provider (- 1) (add_at provider (- int n) P) = add_at provider (- int (Suc n)) P"
    by (auto simp: add_at_def)
  ultimately show ?case by (simp add: algebra_simps)
qed

lemma unregister_is_remove: "unregister_model = removeModelRegistration"
  by (auto simp: fun_eq_iff unregister_model_def removeModelRegistration_def Let_def split: option.split)

lemma tallies_leave:
  assumes "tallies c P x" and "0 < n" and "n \<le> P provider" and "provider \<noteq> []"
  shows "tallies c (add_at provider (- n) P) (leave_provider web provider n x)"
proof (cases x)
  case (Some g)
  with assms show ?thesis
    by (auto simp: tallies_def leave_provider_def add_at_def split: option.splits)
qed (use assms in \<open>simp add: tallies_def leave_provider_def\<close>)

lemma tallies_refresh:
  assumes "tallies c P x" and "\<forall>p. 0 \<le> P p" and "0 \<le> n"
  shows "tallies c (if oldP \<noteq> provider then add_at provider n P else P) (refresh_model web client provider oldP model n now x)"
proof (cases x)
  case (Some g)
  have "get_or 0 (mr_Providers g) provider = P provider" if "provider \<noteq> []"
    using assms(1,2) that by (auto simp: tallies_def get_or_def Some not_less order_antisym_conv)
  moreover have "0 \<le> P provider" using assms(2) by blast
  ultimately show ?thesis
    using assms(1,3) by (auto simp: tallies_def refresh_model_def add_at_def Some Let_def split: if_splits)
qed (use assms in \<open>simp add: tallies_def refresh_model_def\<close>)

section \<open>One model through a reconciliation\<close>

lemma local_id: "map_of ((\<lambda>m. m) m) k' = (if k' = k then map_of m k else map_of m k')"
  by simp

definition reconcile_one ::
  "(string \<Rightarrow> bool) \<Rightarrow> string \<Rightarrow> string \<Rightarrow> string \<Rightarrow> nat \<Rightarrow> nat \<Rightarrow> ModelInfo \<Rightarrow> time
   \<Rightarrow> ModelRegistration option \<Rightarrow> ModelRegistration option"
where
  "reconcile_one web client provider oldP old new model now x0 =
     (let x1 = (if oldP \<noteq> provider \<and> oldP \<noteq> [] \<and> 0 < new \<and> 0 < old
                then leave_provider web oldP (int (min new old)) x0 else x0);
          x2 = (if new = 0 then (removeModelRegistration web client oldP now ^^ old) x1 else x1);
          x3 = (if new = 0 then x2 else (removeModelRegistration web client oldP now ^^ (old - new)) x2)
      in if new = 0 then x3
         else refresh_model web client provider oldP model (int (min new old)) now
                ((addModelRegistration web provider model now ^^ (new - old)) x3))"

lemma reconcile_map_of:
  assumes "distinct unique" and "set unique = set raw" and "\<forall>k. has_key newModels k \<longleftrightarrow> k \<in> set raw"
  shows "map_of (reconcile web client provider oldP old raw newModels unique now models) k =
    reconcile_one (web k) client provider oldP (count_list old k) (count_list raw k) (the (map_of newModels k)) now
      (map_of models k)"
proof -
  note loc = fold_local_distinct
  have new: "count_list raw k = 0 \<longleftrightarrow> k \<notin> set unique" for k using assms(2) by (simp add: count_list_0_iff)
  have old: "count_list old k = 0 \<longleftrightarrow> k \<notin> set (remdups old)" for k by (simp add: count_list_0_iff)
  have known: "k \<in> set unique \<Longrightarrow> \<exists>model. map_of newModels k = Some model" for k
    using assms(2,3) by (auto simp: has_key_def)
  define m1 where "m1 = (if oldP \<noteq> provider \<and> oldP \<noteq> [] then
      fold (\<lambda>id. if count_list old id = 0 then (\<lambda>m. m)
        else alter id (leave_provider (web id) oldP (int (min (count_list raw id) (count_list old id))))) unique models
    else models)"
  have m1: "map_of m1 k = (if oldP \<noteq> provider \<and> oldP \<noteq> [] \<and> 0 < count_list raw k \<and> 0 < count_list old k
      then leave_provider (web k) oldP (int (min (count_list raw k) (count_list old k))) (map_of models k)
      else map_of models k)" for k
  proof -
    have "map_of (fold (\<lambda>id. if count_list old id = 0 then (\<lambda>m. m)
        else alter id (leave_provider (web id) oldP (int (min (count_list raw id) (count_list old id))))) unique models) k
      = (if k \<in> set unique then (if count_list old k = 0 then (\<lambda>x. x)
          else leave_provider (web k) oldP (int (min (count_list raw k) (count_list old k)))) (map_of models k)
         else map_of models k)"
      by (rule loc [OF _ assms(1)]) (simp add: map_of_alter)
    then show ?thesis using new [of k] by (auto simp: m1_def)
  qed
  define m2 where "m2 = fold (\<lambda>id. (alter id (removeModelRegistration (web id) client oldP now)) ^^ count_list old id)
    (filter (\<lambda>id. count_list raw id = 0) (remdups old)) m1"
  have m2: "map_of m2 k = (if count_list raw k = 0
      then (removeModelRegistration (web k) client oldP now ^^ count_list old k) (map_of m1 k) else map_of m1 k)" for k
  proof -
    have "map_of m2 k = (if k \<in> set (filter (\<lambda>id. count_list raw id = 0) (remdups old))
        then (removeModelRegistration (web k) client oldP now ^^ count_list old k) (map_of m1 k) else map_of m1 k)"
      unfolding m2_def by (rule loc) (simp_all add: map_of_alter_pow)
    then show ?thesis using old [of k] by auto
  qed
  define m3 where "m3 = fold (\<lambda>id. if count_list raw id = 0 then (\<lambda>m. m)
      else (alter id (removeModelRegistration (web id) client oldP now)) ^^ (count_list old id - count_list raw id))
    (remdups old) m2"
  have m3: "map_of m3 k = (if count_list raw k = 0 then map_of m2 k
      else (removeModelRegistration (web k) client oldP now ^^ (count_list old k - count_list raw k)) (map_of m2 k))" for k
  proof -
    have "map_of m3 k = (if k \<in> set (remdups old) then (if count_list raw k = 0 then (\<lambda>x. x)
        else removeModelRegistration (web k) client oldP now ^^ (count_list old k - count_list raw k)) (map_of m2 k)
      else map_of m2 k)"
      unfolding m3_def by (rule loc) (simp_all add: map_of_alter_pow)
    then show ?thesis using old [of k] by auto
  qed
  define add where "add = (\<lambda>id. (case map_of newModels id of
      Some model \<Rightarrow> (alter id (addModelRegistration (web id) provider model now)) ^^ (count_list raw id - count_list old id)
    | None \<Rightarrow> (\<lambda>m. m)))"
  have m4: "map_of (fold add unique m3) k = (if 0 < count_list raw k
      then (addModelRegistration (web k) provider (the (map_of newModels k)) now ^^ (count_list raw k - count_list old k)) (map_of m3 k)
      else map_of m3 k)" for k
  proof -
    have "map_of (fold add unique m3) k = (if k \<in> set unique then (case map_of newModels k of
        Some model \<Rightarrow> addModelRegistration (web k) provider model now ^^ (count_list raw k - count_list old k)
      | None \<Rightarrow> (\<lambda>x. x)) (map_of m3 k) else map_of m3 k)"
      unfolding add_def by (rule loc [OF _ assms(1)]) (simp add: map_of_alter_pow split: option.split)
    then show ?thesis using new [of k] known [of k] by auto
  qed
  define refresh where "refresh = (\<lambda>id. (case map_of newModels id of
      Some model \<Rightarrow> alter id (refresh_model (web id) client provider oldP model
        (int (min (count_list raw id) (count_list old id))) now)
    | None \<Rightarrow> (\<lambda>m. m)))"
  have m5: "map_of (fold refresh unique m) k = (if 0 < count_list raw k
      then refresh_model (web k) client provider oldP (the (map_of newModels k)) (int (min (count_list raw k) (count_list old k))) now (map_of m k)
      else map_of m k)" for k m
  proof -
    have "map_of (fold refresh unique m) k = (if k \<in> set unique then (case map_of newModels k of
        Some model \<Rightarrow> refresh_model (web k) client provider oldP model (int (min (count_list raw k) (count_list old k))) now
      | None \<Rightarrow> (\<lambda>x. x)) (map_of m k) else map_of m k)"
      unfolding refresh_def by (rule loc [OF _ assms(1)]) (simp add: map_of_alter split: option.split)
    then show ?thesis using new [of k] known [of k] by auto
  qed
  have "reconcile web client provider oldP old raw newModels unique now models = fold refresh unique (fold add unique m3)"
    unfolding reconcile_def Let_def m1_def [symmetric] m2_def [symmetric] m3_def [symmetric] add_def [symmetric]
      refresh_def [symmetric] ..
  then show ?thesis by (simp add: m5 m4 m3 m2 m1 reconcile_one_def Let_def)
qed

lemma tallies_reconcile:
  fixes others :: int and ofs :: "string \<Rightarrow> int"
  assumes "tallies (others + int old) (\<lambda>p. ofs p + (if p = oldP then int old else 0)) x"
    and "\<forall>p. 0 \<le> ofs p \<and> ofs p \<le> others"
  shows "tallies (others + int new) (\<lambda>p. ofs p + (if p = provider then int new else 0))
    (reconcile_one web client provider oldP old new model now x)"
proof -
  let ?P0 = "\<lambda>p. ofs p + (if p = oldP then int old else 0)"
  define c1 where "c1 = (if oldP \<noteq> provider \<and> oldP \<noteq> [] \<and> 0 < new \<and> 0 < old then int (min new old) else 0)"
  define x1 where "x1 = (if oldP \<noteq> provider \<and> oldP \<noteq> [] \<and> 0 < new \<and> 0 < old
    then leave_provider web oldP (int (min new old)) x else x)"
  have t1: "tallies (others + int old) (add_at oldP (- c1) ?P0) x1"
  proof (cases "oldP \<noteq> provider \<and> oldP \<noteq> [] \<and> 0 < new \<and> 0 < old")
    case True
    have "int (min new old) \<le> ?P0 oldP" using assms(2) by (simp add: add_increasing)
    with True tallies_leave [OF assms(1), of "int (min new old)" oldP web] show ?thesis by (simp add: x1_def c1_def)
  qed (use assms(1) in \<open>auto simp: x1_def c1_def\<close>)
  show ?thesis
  proof (cases "new = 0")
    case True
    then have t: "tallies (others + int old - int old) (add_at oldP (- int old) (add_at oldP (- c1) ?P0))
        (reconcile_one web client provider oldP old new model now x)"
      unfolding reconcile_one_def x1_def [symmetric] Let_def if_P [OF True]
      using assms(2) by (intro tallies_remove_pow [OF t1]) (auto simp: add_at_def c1_def)
    show ?thesis by (rule tallies_cong [THEN iffD1, OF _ _ t]) (use True in \<open>auto simp: add_at_def c1_def\<close>)
  next
    case False
    define n where "n = int (old - new)"
    have t3: "tallies (others + int old - n) (add_at oldP (- n) (add_at oldP (- c1) ?P0))
        ((removeModelRegistration web client oldP now ^^ (old - new)) x1)"
      unfolding n_def
    proof (rule tallies_remove_pow [OF t1])
      have d: "int (old - new) = int old - int (min new old)" by (simp add: min_def)
      have ofs: "0 \<le> ofs oldP" "ofs oldP \<le> others" using assms(2) by simp_all
      with d show "int (old - new) \<le> others + int old" by linarith
      show "int (old - new) \<le> add_at oldP (- c1) ?P0 oldP"
        using ofs(1) unfolding d add_at_def c1_def by simp
    qed
    define a where "a = int (new - old)"
    let ?P3 = "\<lambda>p. if p = [] then 0 else add_at oldP (- n) (add_at oldP (- c1) ?P0) p"
    have t3': "tallies (others + int old - n) ?P3 ((removeModelRegistration web client oldP now ^^ (old - new)) x1)"
      by (rule tallies_cong [THEN iffD1, OF _ refl t3]) simp
    have pos: "\<forall>p. 0 \<le> ?P3 p"
    proof
      fix p
      have "0 \<le> ofs p" "n = int old - int (min new old)" "0 \<le> int (min new old)" "int (min new old) \<le> int old"
        using assms(2) by (simp_all add: n_def min_def)
      then show "0 \<le> ?P3 p" unfolding add_at_def c1_def by (auto simp del: of_nat_min)
    qed
    have zero: "\<forall>p. ?P3 p = 0" if z: "others + int old - n = 0"
    proof
      fix p
      have "0 \<le> ofs p" "ofs p \<le> others" "int (old - new) \<le> int old" "old \<noteq> 0 \<Longrightarrow> int (old - new) < int old"
        using assms(2) False by simp_all
      then have "others = 0" "old = 0" "ofs p = 0" using z by (cases "old = 0", auto simp: n_def)+
      then show "?P3 p = 0" unfolding add_at_def c1_def n_def by auto
    qed
    have t4: "tallies (others + int old - n + a) (add_at provider a ?P3)
        ((addModelRegistration web provider model now ^^ (new - old)) ((removeModelRegistration web client oldP now ^^ (old - new)) x1))"
      unfolding a_def by (rule tallies_add_pow [OF t3' zero pos]) (use assms(2) in \<open>auto simp: n_def\<close>)
    have pos4: "\<forall>p. 0 \<le> add_at provider a ?P3 p" using pos by (auto simp: add_at_def a_def)
    have mn: "0 \<le> int (min new old)" by (rule of_nat_0_le_iff)
    from tallies_refresh [OF t4 pos4 mn, of oldP provider web client model now]
    have t5: "tallies (others + int old - n + a)
        (if oldP \<noteq> provider then add_at provider (int (min new old)) (add_at provider a ?P3) else add_at provider a ?P3)
        (reconcile_one web client provider oldP old new model now x)"
      unfolding reconcile_one_def Let_def x1_def [symmetric] if_not_P [OF False] .
    show ?thesis
      by (rule tallies_cong [THEN iffD1, OF _ _ t5])
        (use False in \<open>auto simp: add_at_def c1_def n_def a_def min_def\<close>)
  qed
qed

section \<open>The counts of the registry\<close>

definition total :: "ModelRegistry \<Rightarrow> string \<Rightarrow> int" where
  "total r k = sum_list (List.map (\<lambda>(c, ids). int (count_list ids k)) (mreg_clientModels r))"

definition by_provider :: "ModelRegistry \<Rightarrow> string \<Rightarrow> string \<Rightarrow> int" where
  "by_provider r k p = sum_list (List.map (\<lambda>(c, ids).
     if get_or [] (mreg_clientProviders r) c = p then int (count_list ids k) else 0) (mreg_clientModels r))"

definition consistent :: "ModelRegistry \<Rightarrow> bool" where
  "consistent r \<longleftrightarrow> wf_map (mreg_clientModels r) \<and> (\<forall>k. tallies (total r k) (by_provider r k) (map_of (mreg_models r) k))"

lemma delete_update_same: "AList.delete k (AList.update k v m) = AList.delete k m"
  by (induction m) (auto simp: AList.delete_eq)

lemma delete_absent: "map_of m k = None \<Longrightarrow> AList.delete k m = m"
  by (induction m) (auto simp: AList.delete_eq split: if_splits)

lemma delete_twice: "AList.delete k (AList.delete k m) = AList.delete k m"
  by (simp add: AList.delete_eq)

lemma sum_split:
  fixes f :: "'k \<Rightarrow> 'v \<Rightarrow> int"
  assumes "wf_map m"
  shows "sum_list (List.map (\<lambda>(c, x). f c x) m)
    = sum_list (List.map (\<lambda>(c, x). f c x) (AList.delete k m)) + (case map_of m k of None \<Rightarrow> 0 | Some x \<Rightarrow> f k x)"
  using assms
proof (induction m)
  case (Cons e m)
  obtain c x where e: "e = (c, x)" by force
  have "AList.delete k m = m" if "k \<notin> fst ` set m" using that by (induction m) (auto simp: AList.delete_eq)
  moreover have "map_of m k = None \<longleftrightarrow> k \<notin> fst ` set m" by (rule map_of_eq_None_iff)
  ultimately show ?case using Cons by (auto simp: e wf_map_Cons AList.delete_eq split: option.split)
qed simp

definition others :: "ModelRegistry \<Rightarrow> string \<Rightarrow> string \<Rightarrow> int" where
  "others r client k = sum_list (List.map (\<lambda>(c, ids). int (count_list ids k)) (AList.delete client (mreg_clientModels r)))"

definition others_of :: "ModelRegistry \<Rightarrow> string \<Rightarrow> string \<Rightarrow> string \<Rightarrow> int" where
  "others_of r client k p = sum_list (List.map (\<lambda>(c, ids).
     if get_or [] (mreg_clientProviders r) c = p then int (count_list ids k) else 0) (AList.delete client (mreg_clientModels r)))"

lemma total_split:
  assumes "wf_map (mreg_clientModels r)"
  shows "total r k = others r client k + int (count_list (get_or [] (mreg_clientModels r) client) k)"
  unfolding total_def others_def sum_split [OF assms, of "\<lambda>c ids. int (count_list ids k)" client]
  by (simp add: get_or_def split: option.split)

lemma by_provider_split:
  assumes "wf_map (mreg_clientModels r)"
  shows "by_provider r k p = others_of r client k p
    + (if p = get_or [] (mreg_clientProviders r) client then int (count_list (get_or [] (mreg_clientModels r) client) k) else 0)"
  unfolding by_provider_def others_of_def
    sum_split [OF assms, of "\<lambda>c ids. if get_or [] (mreg_clientProviders r) c = p then int (count_list ids k) else 0" client]
  by (simp add: get_or_def split: option.split)

lemma others_bounds: "0 \<le> others_of r client k p \<and> others_of r client k p \<le> others r client k"
proof -
  have "0 \<le> sum_list (List.map (\<lambda>(c, ids). if f c = p then int (count_list ids k) else 0) m)
    \<and> sum_list (List.map (\<lambda>(c, ids). if f c = p then int (count_list ids k) else 0) m)
      \<le> sum_list (List.map (\<lambda>(c, ids). int (count_list ids k)) m)" for f :: "string \<Rightarrow> string" and m :: "(string \<times> string list) list"
    by (induction m) auto
  then show ?thesis by (simp add: others_of_def others_def)
qed

lemma others_cong:
  assumes "AList.delete client (mreg_clientModels r') = AList.delete client (mreg_clientModels r)"
    and "\<And>c. c \<noteq> client \<Longrightarrow> get_or [] (mreg_clientProviders r') c = get_or [] (mreg_clientProviders r) c"
  shows "others r' client k = others r client k" and "others_of r' client k p = others_of r client k p"
proof -
  show "others r' client k = others r client k" by (simp add: others_def assms(1))
  have "c \<noteq> client" if "(c, ids) \<in> set (AList.delete client m)" for c ids and m :: "(string \<times> string list) list"
    using that by (auto simp: AList.delete_eq)
  then show "others_of r' client k p = others_of r client k p"
    unfolding others_of_def assms(1)
    by (intro arg_cong [of _ _ sum_list] map_cong refl) (auto simp: assms(2))
qed

lemma others_nonneg: "0 \<le> others r client k"
  using others_bounds [of r client k "[]"] by simp

lemma consistent_split:
  "consistent r \<longleftrightarrow> wf_map (mreg_clientModels r) \<and>
     (\<forall>k. tallies (others r client k + int (count_list (get_or [] (mreg_clientModels r) client) k))
        (\<lambda>p. others_of r client k p + (if p = get_or [] (mreg_clientProviders r) client
           then int (count_list (get_or [] (mreg_clientModels r) client) k) else 0)) (map_of (mreg_models r) k))"
proof (cases "wf_map (mreg_clientModels r)")
  case True
  have b: "by_provider r k = (\<lambda>p. others_of r client k p + (if p = get_or [] (mreg_clientProviders r) client
      then int (count_list (get_or [] (mreg_clientModels r) client) k) else 0))" for k
    by (rule ext) (rule by_provider_split [OF True])
  show ?thesis by (simp only: consistent_def True total_split [OF True, of _ client] b)
qed (simp add: consistent_def)

lemma collect_models_ok:
  assumes "collect_models models raw infos unique = (raw', infos', unique')"
    and "distinct unique" and "set unique = set raw" and "\<forall>k. has_key infos k \<longleftrightarrow> k \<in> set raw"
  shows "distinct unique' \<and> set unique' = set raw' \<and> (\<forall>k. has_key infos' k \<longleftrightarrow> k \<in> set raw')"
  using assms
proof (induction models raw infos unique rule: collect_models.induct)
  case (3 model models raw infos unique)
  then show ?case by (auto split: if_splits)
qed auto

lemma set_provider_get: "get_or [] (set_provider client provider m) c = (if c = client then provider else get_or [] m c)"
  by (simp add: set_provider_def)

lemma invalidate_sel [simp]:
  "mreg_models (invalidateAvailableModelsCacheLocked r) = mreg_models r"
  "mreg_clientModels (invalidateAvailableModelsCacheLocked r) = mreg_clientModels r"
  "mreg_clientProviders (invalidateAvailableModelsCacheLocked r) = mreg_clientProviders r"
  "mreg_clientModelInfos (invalidateAvailableModelsCacheLocked r) = mreg_clientModelInfos r"
  "mreg_clientEpochs (invalidateAvailableModelsCacheLocked r) = mreg_clientEpochs r"
  "mreg_clientGenerations (invalidateAvailableModelsCacheLocked r) = mreg_clientGenerations r"
  by (simp_all add: invalidateAvailableModelsCacheLocked_def)

lemma consistent_cong:
  assumes "mreg_models r' = mreg_models r" and "mreg_clientModels r' = mreg_clientModels r"
    and "mreg_clientProviders r' = mreg_clientProviders r"
  shows "consistent r' = consistent r"
  by (simp add: consistent_def total_def by_provider_def [abs_def] assms)

lemma consistent_invalidate [simp]: "consistent (invalidateAvailableModelsCacheLocked r) = consistent r"
  by (rule consistent_cong) simp_all

lemma consistent_unregister:
  assumes "consistent r"
  shows "consistent (unregisterClientInternal client now r)"
proof (cases "map_of (mreg_clientModels r) client")
  case None
  let ?r' = "unregisterClientInternal client now r"
  have e: "mreg_models ?r' = mreg_models r" "mreg_clientModels ?r' = mreg_clientModels r"
    "mreg_clientProviders ?r' = AList.delete client (mreg_clientProviders r)"
    using None by (simp_all add: unregisterClientInternal_def Let_def)
  have own: "get_or [] (mreg_clientModels r) client = []" using None by (simp add: get_or_def)
  have o: "others ?r' client k = others r client k" "others_of ?r' client k p = others_of r client k p" for k p
    by (rule others_cong; simp add: e)+
  show ?thesis
    using assms by (simp add: consistent_split [of _ client] e own o cong: if_cong)
next
  case (Some ids)
  let ?r' = "unregisterClientInternal client now r"
  let ?oldP = "get_or [] (mreg_clientProviders r) client"
  define web where "web = (\<lambda>id p. hasClientSupportingWebSearch
    (r\<lparr>mreg_clientEpochs := bump client (mreg_clientEpochs r), mreg_clientGenerations := bump client (mreg_clientGenerations r)\<rparr>) id p client)"
  have r': "mreg_models ?r' = fold (\<lambda>id. alter id (removeModelRegistration (web id) client ?oldP now)) ids (mreg_models r)"
    "mreg_clientModels ?r' = AList.delete client (mreg_clientModels r)"
    "mreg_clientProviders ?r' = AList.delete client (mreg_clientProviders r)"
    using Some by (simp_all add: unregisterClientInternal_def Let_def unregister_is_remove web_def)
  have models: "map_of (mreg_models ?r') k = (removeModelRegistration (web k) client ?oldP now ^^ count_list ids k) (map_of (mreg_models r) k)" for k
    unfolding r'(1) by (rule fold_local) (simp add: map_of_alter)
  have o: "others ?r' client k = others r client k" "others_of ?r' client k p = others_of r client k p" for k p
    by (rule others_cong; simp add: r' delete_twice)+
  have own: "get_or [] (mreg_clientModels r) client = ids" using Some by (simp add: get_or_def)
  have "tallies (others r client k) (others_of r client k) (map_of (mreg_models ?r') k)" for k
  proof -
    have t: "tallies (others r client k + int (count_list ids k))
        (\<lambda>p. others_of r client k p + (if p = ?oldP then int (count_list ids k) else 0)) (map_of (mreg_models r) k)" (is "tallies ?c ?P _")
      using assms consistent_split [of r client] by (simp add: own cong: if_cong)
    have "tallies (?c - int (count_list ids k)) (add_at ?oldP (- int (count_list ids k)) ?P) (map_of (mreg_models ?r') k)"
      unfolding models using others_bounds [of r client k] others_nonneg [of r client k]
      by (intro tallies_remove_pow [OF t]) (auto simp: add_increasing)
    then show ?thesis by (rule tallies_cong [THEN iffD1, rotated 2]) (auto simp: add_at_def)
  qed
  then show ?thesis
    using assms consistent_split [of r client] consistent_split [of ?r' client] by (simp add: r'(2,3) o cong: if_cong)
qed

lemma consistent_register:
  assumes "consistent r"
  shows "consistent (RegisterClient client clientProvider models now r)"
proof -
  obtain raw newModels unique where c: "collect_models models [] [] [] = (raw, newModels, unique)"
    by (metis prod_cases3)
  have cm: "distinct unique" "set unique = set raw" "\<forall>k. has_key newModels k \<longleftrightarrow> k \<in> set raw"
    using collect_models_ok [OF c] by auto
  show ?thesis
  proof (cases "unique = []")
    case True
    let ?u = "unregisterClientInternal client now r"
    have u: "consistent ?u" by (rule consistent_unregister [OF assms])
    have del: "AList.delete client (mreg_clientModels ?u) = mreg_clientModels ?u" "AList.delete client (mreg_clientProviders ?u) = mreg_clientProviders ?u"
      by (simp_all add: unregisterClientInternal_def Let_def delete_absent delete_twice split: option.split)
    show ?thesis
      unfolding RegisterClient_def c Let_def prod.case if_P [OF True] consistent_invalidate
      by (rule consistent_cong [THEN iffD2, OF _ _ _ u]) (simp_all add: del)
  next
    case False
    let ?r' = "RegisterClient client clientProvider models now r"
    let ?provider = "to_lower clientProvider" and ?oldP = "get_or [] (mreg_clientProviders r) client"
    let ?old = "get_or [] (mreg_clientModels r) client"
    define web where "web = (\<lambda>id p. hasClientSupportingWebSearch
      (r\<lparr>mreg_clientEpochs := bump client (mreg_clientEpochs r), mreg_clientGenerations := AList.update client 0 (mreg_clientGenerations r)\<rparr>) id p client)"
    have r': "mreg_models ?r' = (case map_of (mreg_clientModels r) client of
          None \<Rightarrow> fold (\<lambda>id. (case map_of newModels id of
              Some model \<Rightarrow> alter id (addModelRegistration (web id) ?provider model now) | None \<Rightarrow> (\<lambda>m. m))) raw (mreg_models r)
        | Some old \<Rightarrow> reconcile web client ?provider ?oldP old raw newModels unique now (mreg_models r))"
      "mreg_clientModels ?r' = AList.update client raw (mreg_clientModels r)"
      "mreg_clientProviders ?r' = set_provider client ?provider (mreg_clientProviders r)"
      using False by (simp_all add: RegisterClient_def c Let_def web_def cong: option.case_cong)
    have o: "others ?r' client k = others r client k" "others_of ?r' client k p = others_of r client k p" for k p
      by (rule others_cong; simp add: r' delete_update_same set_provider_get)+
    have "tallies (others r client k + int (count_list raw k))
        (\<lambda>p. others_of r client k p + (if p = ?provider then int (count_list raw k) else 0)) (map_of (mreg_models ?r') k)" for k
    proof -
      have t: "tallies (others r client k + int (count_list ?old k))
          (\<lambda>p. others_of r client k p + (if p = ?oldP then int (count_list ?old k) else 0)) (map_of (mreg_models r) k)"
        using assms consistent_split [of r client] by simp
      show ?thesis
      proof (cases "map_of (mreg_clientModels r) client")
        case None
        then have none: "?old = []" by (simp add: get_or_def)
        define add where "add = (\<lambda>id. (case map_of newModels id of
          Some model \<Rightarrow> addModelRegistration (web id) ?provider model now | None \<Rightarrow> (\<lambda>x. x)))"
        have "map_of (mreg_models ?r') k = (add k ^^ count_list raw k) (map_of (mreg_models r) k)"
          unfolding r'(1) None option.case by (rule fold_local) (simp add: map_of_alter add_def split: option.split)
        moreover have "tallies (others r client k + int (count_list raw k))
            (add_at ?provider (int (count_list raw k)) (others_of r client k)) ((add k ^^ count_list raw k) (map_of (mreg_models r) k))"
        proof (cases "k \<in> set raw")
          case True
          then obtain model where "map_of newModels k = Some model" using cm(3) by (auto simp: has_key_def)
          then have add: "add k = addModelRegistration (web k) ?provider model now" by (simp add: add_def)
          have "tallies (others r client k) (others_of r client k) (map_of (mreg_models r) k)" using t by (simp add: none cong: if_cong)
          then show ?thesis unfolding add
            by (rule tallies_add_pow) (use others_bounds [of r client k] others_nonneg [of r client k] in \<open>auto simp: order_antisym\<close>)
        next
          case False
          then show ?thesis using t by (simp add: none count_list_0_iff [THEN iffD2] cong: if_cong)
        qed
        ultimately show ?thesis by (simp add: add_at_def if_distrib cong: if_cong)
      next
        case (Some old)
        then have old: "?old = old" by (simp add: get_or_def)
        show ?thesis
          unfolding r'(1) Some option.case reconcile_map_of [OF cm]
          by (rule tallies_reconcile [OF t [unfolded old]]) (use others_bounds [of r client k] in simp)
      qed
    qed
    then show ?thesis
      using assms consistent_split [of r client] consistent_split [of ?r' client] by (simp add: r'(2,3) o set_provider_get cong: if_cong)
  qed
qed

section \<open>Every operation\<close>

lemma tallies_same:
  "tallies c P (Some g) \<Longrightarrow> mr_Count g' = mr_Count g \<Longrightarrow> mr_Providers g' = mr_Providers g \<Longrightarrow> tallies c P (Some g')"
  by (simp add: tallies_def)

lemma consistent_models:
  assumes "consistent r" and "mreg_clientModels r' = mreg_clientModels r" and "mreg_clientProviders r' = mreg_clientProviders r"
    and "\<And>k. case (map_of (mreg_models r) k, map_of (mreg_models r') k) of
        (Some g, Some g') \<Rightarrow> mr_Count g' = mr_Count g \<and> mr_Providers g' = mr_Providers g
      | (None, None) \<Rightarrow> True | _ \<Rightarrow> False"
  shows "consistent r'"
proof -
  have "tallies (total r k) (by_provider r k) (map_of (mreg_models r') k)" for k
    using assms(1) assms(4) [of k] tallies_same unfolding consistent_def
    by (auto split: option.splits prod.splits) (metis tallies_same)+
  then show ?thesis using assms(1) by (simp add: consistent_def total_def by_provider_def [abs_def] assms(2,3))
qed

lemma consistent_on_registration:
  assumes "consistent r" and "\<And>g g'. f g = Some g' \<Longrightarrow> mr_Count g' = mr_Count g \<and> mr_Providers g' = mr_Providers g"
  shows "consistent (on_registration k f r)"
proof -
  show ?thesis
    by (rule consistent_models [OF assms(1)])
      (use assms(2) in \<open>auto simp: on_registration_def split: option.split\<close>)
qed

lemma consistent_marks:
  assumes "consistent r"
  shows "consistent (SetModelQuotaExceeded c m now r)" and "consistent (ClearModelQuotaExceeded c m r)"
    and "consistent (SuspendClientModel c m reason now r)" and "consistent (ResumeClientModel c m now r)"
  unfolding SetModelQuotaExceeded_def ClearModelQuotaExceeded_def SuspendClientModel_def ResumeClientModel_def
  using assms by (auto intro!: consistent_on_registration split: if_splits)

lemma consistent_cleanup:
  assumes "consistent r"
  shows "consistent (CleanupExpiredQuotas now r)"
proof -
  have "consistent (r\<lparr>mreg_models := List.map (\<lambda>(id, g). (id, cleanup_registration now g)) (mreg_models r)\<rparr>)"
    by (rule consistent_models [OF assms])
      (auto simp: map_of_map_values cleanup_registration_def split: option.split)
  then show ?thesis by (simp add: CleanupExpiredQuotas_def Let_def)
qed

lemma project_sel:
  "mr_Count (fst (project c now proj g)) = mr_Count g" "mr_Providers (fst (project c now proj g)) = mr_Providers g"
  "mr_Info (fst (project c now proj g)) = mr_Info g"
  by (simp_all add: project_def Let_def split: if_split prod.split)

lemma project_loop_counts:
  "case (map_of models k, map_of (fst (project_loop c now reg projs models ch)) k) of
     (Some g, Some g') \<Rightarrow> mr_Count g' = mr_Count g \<and> mr_Providers g' = mr_Providers g
   | (None, None) \<Rightarrow> True | _ \<Rightarrow> False"
proof (induction c now reg projs models ch rule: project_loop.induct)
  case (1 c now reg models ch)
  then show ?case by (simp split: option.split)
next
  case (2 c now reg proj projs models ch)
  show ?case
  proof (cases "projection_target reg models proj")
    case None
    then show ?thesis using "2.IH"(1) by simp
  next
    case (Some e)
    obtain m g where e: "e = (m, g)" by force
    then have m: "map_of models m = Some g" using Some by (auto simp: projection_target_def Let_def split: if_splits option.splits)
    obtain g' c' where p: "project c now proj g = (g', c')" by force
    then have "mr_Count g' = mr_Count g" "mr_Providers g' = mr_Providers g" using project_sel [of c now proj g] by auto
    then show ?thesis
      using "2.IH"(2) [OF Some e [symmetric] p [symmetric]] m
      by (auto simp: Some e p split: option.splits if_splits)
  qed
qed

lemma consistent_projections:
  assumes "consistent r"
  shows "consistent (fst (ApplyClientModelProjections c e gen projs now r))"
proof -
  have "consistent (r\<lparr>mreg_clientGenerations := gens, mreg_models := fst (project_loop c' now reg projs (mreg_models r) ch)\<rparr>)" for gens c' reg ch
    by (rule consistent_models [OF assms]) (use project_loop_counts in \<open>auto split: option.splits prod.splits\<close>)
  then show ?thesis
    using assms by (auto simp: ApplyClientModelProjections_def Let_def split: prod.split) (metis fst_conv)+
qed

lemma consistent_capabilities_loop: "consistent r \<Longrightarrow> consistent (capabilities_loop c mutate ids r)"
proof (induction c mutate ids r rule: capabilities_loop.induct)
  case (2 c mutate m ids r)
  show ?case
  proof (cases "map_of (get_or [] (mreg_clientModelInfos r) c) m")
    case (Some info)
    let ?r1 = "r\<lparr>mreg_clientModelInfos := AList.update c (AList.update m (mutate m info) (get_or [] (mreg_clientModelInfos r) c)) (mreg_clientModelInfos r)\<rparr>"
    let ?f = "refresh_search (\<lambda>p. hasClientSupportingWebSearch ?r1 m p []) (get_or [] (mreg_clientProviders ?r1) c)"
    have "consistent (?r1\<lparr>mreg_models := alter m ?f (mreg_models ?r1)\<rparr>)"
      by (rule consistent_models [OF "2.prems"])
        (auto simp: map_of_alter refresh_search_def split: option.split)
    then show ?thesis using "2.IH"(2) [OF refl Some refl] Some by (simp add: Let_def)
  qed (use 2 in simp)
qed simp

lemma consistent_capabilities: "consistent r \<Longrightarrow> consistent (fst (ApplyClientModelCapabilities c e mutate r))"
  by (simp add: ApplyClientModelCapabilities_def Let_def consistent_capabilities_loop)

lemma listing_sel:
  "mreg_models (fst (GetAvailableModels h now r)) = mreg_models r"
  "mreg_clientModels (fst (GetAvailableModels h now r)) = mreg_clientModels r"
  "mreg_clientProviders (fst (GetAvailableModels h now r)) = mreg_clientProviders r"
  by (simp_all add: GetAvailableModels_def split: option.split prod.split)

text \<open>The operations that take the registry's lock for writing, and the states they lead to.\<close>

datatype registry_op =
    Register string string "ModelInfo option list"
  | Unregister string
  | MarkQuota string string
  | ClearQuota string string
  | Suspend string string string
  | Resume string string
  | Project string u64 u64 "ClientModelProjection list"
  | Capabilities string u64 "string \<Rightarrow> ModelInfo \<Rightarrow> ModelInfo"
  | Cleanup
  | Listing string

fun registry_step :: "time \<Rightarrow> registry_op \<Rightarrow> ModelRegistry \<Rightarrow> ModelRegistry" where
  "registry_step now (Register c p models) r = RegisterClient c p models now r"
| "registry_step now (Unregister c) r = UnregisterClient c now r"
| "registry_step now (MarkQuota c m) r = SetModelQuotaExceeded c m now r"
| "registry_step now (ClearQuota c m) r = ClearModelQuotaExceeded c m r"
| "registry_step now (Suspend c m reason) r = SuspendClientModel c m reason now r"
| "registry_step now (Resume c m) r = ResumeClientModel c m now r"
| "registry_step now (Project c e gen projs) r = fst (ApplyClientModelProjections c e gen projs now r)"
| "registry_step now (Capabilities c e mutate) r = fst (ApplyClientModelCapabilities c e mutate r)"
| "registry_step now Cleanup r = CleanupExpiredQuotas now r"
| "registry_step now (Listing h) r = fst (GetAvailableModels h now r)"

inductive registry_reach :: "ModelRegistry \<Rightarrow> time \<Rightarrow> bool" where
  start: "0 \<le> now \<Longrightarrow> registry_reach new_registry now"
| step: "registry_reach r t \<Longrightarrow> t \<le> now \<Longrightarrow> registry_reach (registry_step now op r) now"

lemma reach_consistent: "registry_reach r t \<Longrightarrow> consistent r"
proof (induction rule: registry_reach.induct)
  case (start now)
  show ?case by (simp add: consistent_def new_registry_def total_def by_provider_def tallies_def)
next
  case (step r t now op)
  show ?case
  proof (cases op)
    case (Listing h)
    then show ?thesis using step consistent_cong [OF listing_sel] by simp
  qed (simp_all add: step.IH consistent_register consistent_unregister UnregisterClient_def consistent_marks
      consistent_projections consistent_capabilities consistent_cleanup)
qed

text \<open>
  C8: Whatever sequence of registrations (with duplicates, changed providers and changed models),
  unregistrations, marks, projections and listings led to a state, its reference counts are exact: a model
  is registered exactly if some client offers it, its count is the number of those offers, the count of a
  provider is the number of offers through it, and the providers reported for the model are exactly those.
\<close>

theorem registry_counts_exact:
  assumes "registry_reach r t"
  shows "(map_of (mreg_models r) m = None \<longleftrightarrow> total r m = 0)
    \<and> (\<forall>g. map_of (mreg_models r) m = Some g \<longrightarrow>
         mr_Count g = total r m \<and> (\<forall>p. p \<noteq> [] \<longrightarrow> get_or 0 (mr_Providers g) p = by_provider r m p))
    \<and> set (GetModelProviders r m) = {p. p \<noteq> [] \<and> 0 < by_provider r m p}"
proof -
  have c: "tallies (total r m) (by_provider r m) (map_of (mreg_models r) m)"
    using reach_consistent [OF assms] by (simp add: consistent_def)
  have b: "0 \<le> by_provider r m p" "by_provider r m p \<le> total r m" for p
  proof -
    have "0 \<le> sum_list (List.map (\<lambda>(c, ids). if f c = p then int (count_list ids k) else 0) xs)
      \<and> sum_list (List.map (\<lambda>(c, ids). if f c = p then int (count_list ids k) else 0) xs)
        \<le> sum_list (List.map (\<lambda>(c, ids). int (count_list ids k)) xs)" for f :: "string \<Rightarrow> string" and k and xs :: "(string \<times> string list) list"
      by (induction xs) auto
    then show "0 \<le> by_provider r m p" "by_provider r m p \<le> total r m" by (simp_all add: by_provider_def total_def)
  qed
  show ?thesis
  proof (cases "map_of (mreg_models r) m")
    case None
    with c have "total r m = 0" by (simp add: tallies_def)
    with None b show ?thesis by (auto simp: GetModelProviders_def dest: leD)
  next
    case (Some g)
    have p: "map_of (mr_Providers g) p = (if p \<noteq> [] \<and> 0 < by_provider r m p then Some (by_provider r m p) else None)" for p
      using c by (cases "p = []") (simp_all add: Some tallies_def)
    have "set (GetModelProviders r m) = fst ` {(p, n) \<in> set (mr_Providers g). 0 < n}"
      by (auto simp: GetModelProviders_def Some)
    also have "\<dots> = {p. \<exists>n. map_of (mr_Providers g) p = Some n \<and> 0 < n}"
    proof -
      have "wf_map (mr_Providers g)" using c by (simp add: Some tallies_def)
      then have "(p, n) \<in> set (mr_Providers g) \<longleftrightarrow> map_of (mr_Providers g) p = Some n" for p n
        using wf_map_lookup map_of_SomeD by metis
      then show ?thesis by force
    qed
    also have "\<dots> = {p. p \<noteq> [] \<and> 0 < by_provider r m p}" by (auto simp: p)
    finally have "set (GetModelProviders r m) = {p. p \<noteq> [] \<and> 0 < by_provider r m p}" .
    moreover have "get_or 0 (mr_Providers g) p = by_provider r m p" if "p \<noteq> []" for p
      using p [of p] b(1) [of p] that by (auto simp: get_or_def)
    ultimately show ?thesis using c by (simp add: Some tallies_def)
  qed
qed

definition one_client :: ModelRegistry where
  "one_client = registry_step 1000 (Register ''a'' ''codex'' [Some (blank_model ''m''), Some (blank_model ''m'')]) new_registry"

lemma one_client_reach: "registry_reach one_client 1000"
  unfolding one_client_def by (rule registry_reach.step [OF registry_reach.start [of 0]]) simp_all

theorem registry_counts_exact_witness:
  "set (GetModelProviders one_client ''m'') = {p. p \<noteq> [] \<and> 0 < by_provider one_client ''m'' p}
    \<and> total one_client ''m'' = 2 \<and> map_option mr_Count (map_of (mreg_models one_client) ''m'') = Some 2"
proof -
  have "total one_client ''m'' = 2" by code_simp
  with registry_counts_exact [OF one_client_reach, of "''m''"] show ?thesis
    by (cases "map_of (mreg_models one_client) ''m''") auto
qed

end
