(* ===== verification/RegistryListing.thy ===== *)
theory RegistryListing
  imports RegistryCounts
begin

text \<open>
  The listing of available models: its cache never shows a stale answer, and late projections of a
  credential's state are refused.
\<close>

section \<open>Recovery times\<close>

lemma earliest_spec:
  assumes "\<forall>x \<in> set xs. 0 < x" and "0 \<le> e"
  shows "0 \<le> fold (\<lambda>due e. earlier e due) xs e
    \<and> (fold (\<lambda>due e. earlier e due) xs e = 0 \<longrightarrow> xs = [] \<and> e = 0)
    \<and> (\<forall>x \<in> set xs. fold (\<lambda>due e. earlier e due) xs e \<le> x)
    \<and> (e \<noteq> 0 \<longrightarrow> fold (\<lambda>due e. earlier e due) xs e \<le> e)"
  using assms
proof (induction xs arbitrary: e)
  case (Cons x xs)
  have pos: "0 < x" "0 \<le> earlier e x" "earlier e x \<noteq> 0" "earlier e x \<le> x" "e \<noteq> 0 \<Longrightarrow> earlier e x \<le> e"
    using Cons.prems by (auto simp: earlier_def)
  show ?case using Cons.IH [of "earlier e x"] Cons.prems pos by auto
qed simp

text \<open>The answer at a later time before every recovery is the same.\<close>

lemma recovering_stable:
  assumes "t \<le> now" and "\<forall>x \<in> set (recovering t q). now < x"
  shows "recovering now q = recovering t q"
  using assms by (auto simp: recovering_def intro!: filter_cong)

lemma recovering_pos: "0 \<le> t \<Longrightarrow> x \<in> set (recovering t q) \<Longrightarrow> 0 < x"
  by (auto simp: recovering_def)

definition listing_fold :: "string \<Rightarrow> time \<Rightarrow> (string, ModelRegistration) gomap \<Rightarrow> model_map list \<times> time \<Rightarrow> model_map list \<times> time" where
  "listing_fold h now models acc = fold (list_registration h now) models acc"

lemma list_registration_eq:
  "list_registration h now (m, g) (ms, e) =
     (if fst (modelRegistrationAvailability g now) then ms @ [convertModelToMap (mr_Info g) h] else ms,
      let x = snd (modelRegistrationAvailability g now) in if x \<noteq> 0 \<and> (e = 0 \<or> x < e) then x else e)"
  by (simp add: list_registration_def Let_def split: prod.split)

lemma listing_expiry:
  assumes "0 \<le> t" and "0 \<le> e" and "fold (list_registration h t) models (ms, e) = (ms', e')"
  shows "0 \<le> e' \<and> (e \<noteq> 0 \<longrightarrow> e' \<noteq> 0 \<and> e' \<le> e)
    \<and> (\<forall>(m, g) \<in> set models. \<forall>x \<in> set (recovering t (mr_QuotaExceededClients g)). e' \<noteq> 0 \<and> e' \<le> x)"
  using assms(2,3)
proof (induction models arbitrary: ms e)
  case (Cons entry models)
  obtain m g where entry: "entry = (m, g)" by force
  define x where "x = snd (modelRegistrationAvailability g t)"
  define e1 where "e1 = (if x \<noteq> 0 \<and> (e = 0 \<or> x < e) then x else e)"
  have x: "x = fold (\<lambda>due e. earlier e due) (recovering t (mr_QuotaExceededClients g)) 0"
    by (simp add: x_def modelRegistrationAvailability_def Let_def)
  have xs: "0 \<le> x" "x = 0 \<longrightarrow> recovering t (mr_QuotaExceededClients g) = []"
    "\<forall>y \<in> set (recovering t (mr_QuotaExceededClients g)). x \<le> y"
    using earliest_spec [of "recovering t (mr_QuotaExceededClients g)" 0] recovering_pos [OF assms(1)] by (auto simp: x)
  obtain ms1 where step: "list_registration h t entry (ms, e) = (ms1, e1)"
    by (simp add: entry list_registration_eq Let_def e1_def x_def)
  have e1: "0 \<le> e1" "e \<noteq> 0 \<longrightarrow> e1 \<noteq> 0 \<and> e1 \<le> e" using Cons.prems(1) xs(1) by (auto simp: e1_def)
  have own: "\<forall>y \<in> set (recovering t (mr_QuotaExceededClients g)). e1 \<noteq> 0 \<and> e1 \<le> y"
    using xs Cons.prems(1) by (auto simp: e1_def)
  from Cons.prems(2) have "fold (list_registration h t) models (ms1, e1) = (ms', e')" by (simp add: step)
  from Cons.IH [OF e1(1) this] e1 own show ?case by (auto simp: entry)
qed simp

lemma listing_models:
  assumes "\<forall>(m, g) \<in> set models. recovering now (mr_QuotaExceededClients g) = recovering t (mr_QuotaExceededClients g)"
  shows "fst (fold (list_registration h now) models (ms, e)) = fst (fold (list_registration h t) models (ms, e'))"
  using assms
proof (induction models arbitrary: ms e e')
  case (Cons entry models)
  obtain m g where entry: "entry = (m, g)" by force
  have "fst (modelRegistrationAvailability g now) = fst (modelRegistrationAvailability g t)"
    using Cons.prems by (simp add: entry modelRegistrationAvailability_def Let_def)
  then show ?case using Cons.IH Cons.prems by (simp add: entry list_registration_eq)
qed simp

lemma build_stable:
  assumes "buildAvailableModelsLocked r h t = (ms, e)" and "0 \<le> t" and "t \<le> now" and "e = 0 \<or> now < e"
  shows "fst (buildAvailableModelsLocked r h now) = ms"
proof -
  have "\<forall>(m, g) \<in> set (mreg_models r). \<forall>x \<in> set (recovering t (mr_QuotaExceededClients g)). e \<noteq> 0 \<and> e \<le> x"
    using listing_expiry [OF assms(2) order_refl assms(1) [unfolded buildAvailableModelsLocked_def]] by blast
  then have "\<forall>(m, g) \<in> set (mreg_models r). recovering now (mr_QuotaExceededClients g) = recovering t (mr_QuotaExceededClients g)"
    using assms(3,4) by (fastforce intro!: recovering_stable)
  from listing_models [OF this, of h "[]" 0 0] assms(1) show ?thesis by (simp add: buildAvailableModelsLocked_def)
qed

section \<open>The cache\<close>

definition cache_current :: "ModelRegistry \<Rightarrow> time \<Rightarrow> bool" where
  "cache_current r t \<longleftrightarrow> (\<forall>h cache. map_of (mreg_availableModelsCache r) h = Some cache \<longrightarrow>
     (\<exists>t0. 0 \<le> t0 \<and> t0 \<le> t \<and> buildAvailableModelsLocked r h t0 = (ce_models cache, ce_expiresAt cache)))"

lemma cache_invalidated [simp]: "cache_current (invalidateAvailableModelsCacheLocked r) t"
  by (simp add: cache_current_def invalidateAvailableModelsCacheLocked_def)

lemma cache_later:
  assumes "cache_current r t" and "t \<le> now" and "mreg_models r' = mreg_models r"
    and "mreg_availableModelsCache r' = mreg_availableModelsCache r"
  shows "cache_current r' now"
  using assms unfolding cache_current_def buildAvailableModelsLocked_def by (metis order_trans)

lemma cache_on_registration:
  "cache_current r t \<Longrightarrow> t \<le> now \<Longrightarrow> cache_current (on_registration m f r) now"
  by (auto simp: on_registration_def cache_later split: option.split)

lemma update_same: "map_of m k = Some v \<Longrightarrow> AList.update k v m = m"
  by (induction m) (auto split: if_splits)

lemma project_unchanged: "project c now proj g = (g', False) \<Longrightarrow> g' = g"
  by (auto simp: project_def Let_def split: if_splits)

lemma project_loop_unchanged:
  "project_loop c now reg projs models ch = (models', False) \<Longrightarrow> \<not> ch \<and> models' = models"
proof (induction c now reg projs models ch rule: project_loop.induct)
  case (2 c now reg proj projs models ch)
  show ?case
  proof (cases "projection_target reg models proj")
    case None
    with 2 show ?thesis by simp
  next
    case (Some e)
    obtain m g where e: "e = (m, g)" by force
    then have m: "map_of models m = Some g" using Some by (auto simp: projection_target_def Let_def split: if_splits option.splits)
    obtain g' c' where p: "project c now proj g = (g', c')" by force
    from "2.prems" have "project_loop c now reg projs (AList.update m g' models) (ch \<or> c') = (models', False)"
      by (simp add: Some e p)
    from "2.IH"(2) [OF Some e [symmetric] p [symmetric] this] p show ?thesis
      using project_unchanged [of c now proj g g'] update_same [OF m] by auto
  qed
qed simp

lemma cache_projections:
  assumes "cache_current r t" and "t \<le> now"
  shows "cache_current (fst (ApplyClientModelProjections c e gen projs now r)) now"
proof -
  have r: "cache_current r now" by (rule cache_later [OF assms]) simp_all
  have "cache_current (r\<lparr>mreg_clientGenerations := gens, mreg_models := models\<rparr>) now"
    if "project_loop c' now reg projs (mreg_models r) False = (models, False)" for gens c' reg models
    by (rule cache_later [OF assms]) (use project_loop_unchanged [OF that] in simp_all)
  then show ?thesis using r by (auto simp: ApplyClientModelProjections_def Let_def split: prod.split)
qed

lemma cache_cleanup:
  assumes "cache_current r t" and "t \<le> now"
  shows "cache_current (CleanupExpiredQuotas now r) now"
proof (cases "list_ex (\<lambda>(_, g). list_ex (\<lambda>(_, t). now - t \<ge> modelQuotaExceededWindow) (mr_QuotaExceededClients g)) (mreg_models r)")
  case False
  have "cleanup_registration now g = g" if "(m, g) \<in> set (mreg_models r)" for m g
  proof -
    have "filter (\<lambda>(_, t). \<not> now - t \<ge> modelQuotaExceededWindow) (mr_QuotaExceededClients g) = mr_QuotaExceededClients g"
      using False that by (fastforce simp: list_ex_iff intro!: filter_True)
    then show ?thesis by (simp add: cleanup_registration_def)
  qed
  then have "List.map (\<lambda>(id, g). (id, cleanup_registration now g)) (mreg_models r) = mreg_models r"
    by (auto intro!: map_idI)
  with False show ?thesis by (auto simp: CleanupExpiredQuotas_def Let_def intro: cache_later [OF assms])
qed (simp add: CleanupExpiredQuotas_def Let_def)

lemma listing_result:
  assumes "cache_current r t" and "t \<le> now" and "0 \<le> now"
  shows "snd (GetAvailableModels h now r) = fst (buildAvailableModelsLocked r h now)"
    and "cache_current (fst (GetAvailableModels h now r)) now"
proof -
  have r: "cache_current r now" by (rule cache_later [OF assms(1,2)]) simp_all
  obtain ms e where b: "buildAvailableModelsLocked r h now = (ms, e)" by force
  let ?r' = "r\<lparr>mreg_availableModelsCache := AList.update h \<lparr>ce_models = ms, ce_expiresAt = e\<rparr> (mreg_availableModelsCache r)\<rparr>"
  have "buildAvailableModelsLocked ?r' h' t0 = buildAvailableModelsLocked r h' t0" for h' t0
    by (simp add: buildAvailableModelsLocked_def)
  then have new: "cache_current ?r' now" using r b assms(3) by (auto simp: cache_current_def)
  show "snd (GetAvailableModels h now r) = fst (buildAvailableModelsLocked r h now)"
  proof (cases "map_of (mreg_availableModelsCache r) h")
    case (Some cache)
    then obtain t0 where t0: "0 \<le> t0" "t0 \<le> now" "buildAvailableModelsLocked r h t0 = (ce_models cache, ce_expiresAt cache)"
      using r by (auto simp: cache_current_def)
    show ?thesis using build_stable [OF t0(3,1,2)] Some b by (auto simp: GetAvailableModels_def)
  qed (simp add: GetAvailableModels_def b)
  show "cache_current (fst (GetAvailableModels h now r)) now"
    using r new by (auto simp: GetAvailableModels_def b split: option.split)
qed

lemma reach_clock: "registry_reach r t \<Longrightarrow> 0 \<le> t"
  by (induction rule: registry_reach.induct) auto

lemma reach_cache: "registry_reach r t \<Longrightarrow> cache_current r t"
proof (induction rule: registry_reach.induct)
  case (start now)
  show ?case by (simp add: cache_current_def new_registry_def)
next
  case (step r t now op)
  note c = step.IH step.hyps(2)
  show ?case
  proof (cases op)
    case (Register c p models)
    then show ?thesis by (simp add: RegisterClient_def Let_def split: prod.split)
  next
    case (Capabilities cl e mutate)
    then show ?thesis by (auto simp: ApplyClientModelCapabilities_def Let_def intro: cache_later [OF c])
  next
    case (Suspend cl m reason)
    then show ?thesis by (auto simp: SuspendClientModel_def cache_on_registration [OF c] intro: cache_later [OF c])
  next
    case (Resume cl m)
    then show ?thesis by (auto simp: ResumeClientModel_def cache_on_registration [OF c] intro: cache_later [OF c])
  next
    case (Listing h)
    then show ?thesis using listing_result(2) [OF c] reach_clock [OF step.hyps(1)] step.hyps(2) by simp
  qed (simp_all add: UnregisterClient_def SetModelQuotaExceeded_def ClearModelQuotaExceeded_def
      cache_on_registration [OF c] cache_projections [OF c] cache_cleanup [OF c])
qed

text \<open>
  C15: The cached listing is never stale: in every state the operations lead to, the listing of available
  models at any later time, from the cache or not, is the one a fresh build at that time returns.
\<close>

theorem GetAvailableModels_fresh:
  assumes "registry_reach r t" and "t \<le> now"
  shows "snd (GetAvailableModels h now r) = fst (buildAvailableModelsLocked r h now)"
  using listing_result(1) [OF reach_cache [OF assms(1)] assms(2)] reach_clock [OF assms(1)] assms(2) by simp

theorem GetAvailableModels_fresh_witness:
  "snd (GetAvailableModels ''openai'' 3000 (fst (GetAvailableModels ''openai'' 2000 one_client)))
     = [openai_map (blank_model ''m'')]"
proof -
  let ?r = "registry_step 2000 (Listing ''openai'') one_client"
  have "registry_reach ?r 2000" by (rule registry_reach.step [OF one_client_reach]) simp
  from GetAvailableModels_fresh [OF this, of 3000 "''openai''"]
  have "snd (GetAvailableModels ''openai'' 3000 ?r) = fst (buildAvailableModelsLocked ?r ''openai'' 3000)" by simp
  moreover have "fst (buildAvailableModelsLocked ?r ''openai'' 3000) = [openai_map (blank_model ''m'')]" by code_simp
  ultimately show ?thesis by simp
qed

section \<open>Late projections\<close>

text \<open>How often the client itself was registered or unregistered in a run.\<close>

definition turns :: "string \<Rightarrow> (time \<times> registry_op) list \<Rightarrow> nat" where
  "turns c run = length (filter (\<lambda>(_, op). case op of Register c' _ _ \<Rightarrow> c' = c | Unregister c' \<Rightarrow> c' = c | _ \<Rightarrow> False) run)"

definition registry_run :: "(time \<times> registry_op) list \<Rightarrow> ModelRegistry \<Rightarrow> ModelRegistry" where
  "registry_run run r = fold (\<lambda>(now, op). registry_step now op) run r"

lemma unregister_epochs [simp]:
  "mreg_clientEpochs (unregisterClientInternal c now r) = bump c (mreg_clientEpochs r)"
  by (simp add: unregisterClientInternal_def Let_def split: option.split)

lemma register_epochs [simp]: "mreg_clientEpochs (RegisterClient c p models now r) = bump c (mreg_clientEpochs r)"
  by (simp add: RegisterClient_def Let_def split: prod.split option.split)

lemma on_registration_epochs [simp]: "mreg_clientEpochs (on_registration m f r) = mreg_clientEpochs r"
  by (simp add: on_registration_def split: option.split)

lemma capabilities_epochs [simp]: "mreg_clientEpochs (capabilities_loop c mutate ids r) = mreg_clientEpochs r"
  by (induction c mutate ids r rule: capabilities_loop.induct) (simp_all add: Let_def split: option.split)

lemma step_epoch:
  "get_or 0 (mreg_clientEpochs (registry_step now op r)) c = get_or 0 (mreg_clientEpochs r) c + of_nat (turns c [(now, op)])"
  by (cases op)
    (simp_all add: turns_def bump_def UnregisterClient_def SetModelQuotaExceeded_def ClearModelQuotaExceeded_def
      SuspendClientModel_def ResumeClientModel_def ApplyClientModelProjections_def ApplyClientModelCapabilities_def
      CleanupExpiredQuotas_def GetAvailableModels_def Let_def split: prod.split option.split)

lemma run_epoch:
  "get_or 0 (mreg_clientEpochs (registry_run run r)) c = get_or 0 (mreg_clientEpochs r) c + of_nat (turns c run)"
proof (induction run arbitrary: r)
  case (Cons x run)
  obtain now op where x: "x = (now, op)" by force
  have "turns c (x # run) = turns c [(now, op)] + turns c run" by (simp add: turns_def x)
  with Cons step_epoch [of now op r c] show ?case by (simp add: registry_run_def x)
qed (simp add: registry_run_def turns_def)

text \<open>
  C20: A projection of a credential's state that was computed before the client was registered again or
  unregistered (any number of times below 2^64, amid any other operations) is refused and changes nothing.
\<close>

theorem late_projection_refused:
  assumes "epoch = get_or 0 (mreg_clientEpochs r) (trim_space c)"
    and "0 < turns (trim_space c) run" and "turns (trim_space c) run < 2 ^ 64"
  shows "ApplyClientModelProjections c epoch gen projs now (registry_run run r) = (registry_run run r, False)"
proof -
  have "(of_nat (turns (trim_space c) run) :: u64) \<noteq> 0"
    using assms(2,3) by (simp add: word_of_nat_eq_0_iff) (meson dvd_imp_le not_less)
  then have "epoch \<noteq> get_or 0 (mreg_clientEpochs (registry_run run r)) (trim_space c)"
    by (simp add: run_epoch assms(1))
  then show ?thesis by (simp add: ApplyClientModelProjections_def Let_def)
qed

theorem late_projection_refused_witness:
  "snd (ApplyClientModelProjections ''a'' 1 5 [] 3000 (registry_run [(2000, Unregister ''a'')] one_client)) = False"
proof -
  have "1 = get_or 0 (mreg_clientEpochs one_client) (trim_space ''a'')" "trim_space ''a'' = ''a''" by code_simp+
  moreover have "turns ''a'' [(2000, Unregister ''a'')] = 1" by (simp add: turns_def)
  ultimately show ?thesis
    using late_projection_refused [of 1 one_client "''a''" "[(2000, Unregister ''a'')]" 5 "[]" 3000] by simp
qed

section \<open>Clients that are counted twice\<close>


end
