(* ===== verification/Aliases.thy ===== *)
theory Aliases
  imports Credentials
begin

text \<open>
  Model aliases (\<open>sdk/cliproxy/auth/oauth_model_alias.go\<close>,
  \<open>internal/config/config_normalization.go\<close>): a client asks for an alias, the credential is
  asked for the upstream model the alias stands for. Aliases come from the configuration, per
  channel, compiled into a table; from the attributes of the credential; or from the models listed
  with an API key (theory \<open>Routing\<close>).

  The interface \<open>modelAliasEntry\<close> is the record \<open>alias_entry\<close>; the struct
  \<open>OAuthModelAlias\<close> extends it. The decoding of the attribute \<open>model_aliases\<close> by
  \<open>encoding/json\<close> is the parameter \<open>unmarshal\<close>, which is \<open>None\<close> where the decoder
  reports an error.

  The lemmas show that the compiled table answers as a scan of the configured aliases does.
\<close>

section \<open>Data\<close>

record alias_entry =
  al_Name :: string
  al_Alias :: string
  al_ForceMapping :: bool

record OAuthModelAlias = alias_entry +
  al_Fork :: bool
  al_DisplayName :: string

record oauthModelAliasEntry =
  oe_upstreamModel :: string
  oe_configAlias :: string
  oe_forceMapping :: bool

type_synonym oauthModelAliasTable = "(string, (string, oauthModelAliasEntry) gomap) gomap"

record OAuthModelAliasResult =
  ar_UpstreamModel :: string
  ar_ForceMapping :: bool
  ar_OriginalAlias :: string

definition no_alias :: OAuthModelAliasResult where
  "no_alias = \<lparr>ar_UpstreamModel = [], ar_ForceMapping = False, ar_OriginalAlias = []\<rparr>"

definition unaliased :: "string \<Rightarrow> OAuthModelAliasResult" where
  "unaliased model = no_alias\<lparr>ar_UpstreamModel := model\<rparr>"

type_synonym alias_decoder = "string \<Rightarrow> OAuthModelAlias list option"

section \<open>Sanitised aliases and the compiled table\<close>

definition sanitize_step ::
  "OAuthModelAlias \<Rightarrow> string list \<times> OAuthModelAlias list \<Rightarrow> string list \<times> OAuthModelAlias list"
where
  "sanitize_step entry acc =
     (case acc of (seenAlias, clean) \<Rightarrow>
        let name = trim_space (al_Name entry); alias = trim_space (al_Alias entry)
        in if name = [] \<or> alias = [] then acc
           else if equal_fold name alias then acc
           else let aliasKey = to_lower alias
             in if aliasKey \<in> set seenAlias then acc
                else (aliasKey # seenAlias,
                      clean @ [\<lparr>al_Name = name, al_Alias = alias, al_ForceMapping = al_ForceMapping entry,
                        al_Fork = al_Fork entry, al_DisplayName = trim_space (al_DisplayName entry)\<rparr>]))"

definition sanitize_channel :: "OAuthModelAlias list \<Rightarrow> OAuthModelAlias list" where
  "sanitize_channel aliases = snd (fold sanitize_step aliases ([], []))"

definition SanitizeOAuthModelAlias ::
  "(string, OAuthModelAlias list) gomap \<Rightarrow> (string, OAuthModelAlias list) gomap"
where
  "SanitizeOAuthModelAlias cfg = fold (\<lambda>(rawChannel, aliases) out.
     let channel = to_lower (trim_space rawChannel); clean = sanitize_channel aliases
     in if channel = [] \<or> aliases = [] \<or> clean = [] then out else AList.update channel clean out) cfg []"

definition sanitizeOAuthModelAliases :: "OAuthModelAlias list \<Rightarrow> OAuthModelAlias list" where
  "sanitizeOAuthModelAliases aliases = get_or [] (SanitizeOAuthModelAlias [(''auth'', aliases)]) ''auth''"

definition compile_entry ::
  "OAuthModelAlias \<Rightarrow> (string, oauthModelAliasEntry) gomap \<Rightarrow> (string, oauthModelAliasEntry) gomap"
where
  "compile_entry entry rev_table =
     (let name = trim_space (al_Name entry); alias = trim_space (al_Alias entry)
      in if name = [] \<or> alias = [] then rev_table
         else if equal_fold name alias then rev_table
         else let aliasKey = to_lower alias
           in if has_key rev_table aliasKey then rev_table
              else AList.update aliasKey \<lparr>oe_upstreamModel = name, oe_configAlias = alias,
                     oe_forceMapping = al_ForceMapping entry\<rparr> rev_table)"

definition compileOAuthModelAliasTable :: "(string, OAuthModelAlias list) gomap \<Rightarrow> oauthModelAliasTable" where
  "compileOAuthModelAliasTable aliases = fold (\<lambda>(rawChannel, entries) out.
     let channel = to_lower (trim_space rawChannel); rev_table = fold compile_entry entries []
     in if channel = [] \<or> entries = [] \<or> rev_table = [] then out
        else AList.update channel rev_table out) aliases []"

section \<open>Resolution of one requested model\<close>

definition modelAliasLookupCandidates :: "string \<Rightarrow> SuffixResult \<times> string list" where
  "modelAliasLookupCandidates requestedModel0 =
     (let requestedModel = trim_space requestedModel0
      in if requestedModel = [] then (\<lparr>sr_ModelName = [], sr_HasSuffix = False, sr_RawSuffix = []\<rparr>, [])
         else let requestResult = ParseSuffix requestedModel;
                base = (if sr_ModelName requestResult = [] then requestedModel else sr_ModelName requestResult)
           in (requestResult, requestedModel # (if base \<noteq> requestedModel then [base] else [])))"

definition preserveResolvedModelSuffix :: "string \<Rightarrow> SuffixResult \<Rightarrow> string" where
  "preserveResolvedModelSuffix resolved0 requestResult =
     (let resolved = trim_space resolved0
      in if resolved = [] then []
         else if sr_HasSuffix (ParseSuffix resolved) then resolved
         else if sr_HasSuffix requestResult \<and> sr_RawSuffix requestResult \<noteq> []
           then resolved @ ''('' @ sr_RawSuffix requestResult @ '')''
         else resolved)"

definition preserveRequestedModelSuffix :: "string \<Rightarrow> string \<Rightarrow> string" where
  "preserveRequestedModelSuffix requestedModel resolved =
     preserveResolvedModelSuffix resolved (ParseSuffix requestedModel)"

definition oauthModelAliasForceMappingResponseModel :: "string \<Rightarrow> string" where
  "oauthModelAliasForceMappingResponseModel configAlias = trim_space configAlias"

text \<open>
  The result for the entry found: \<open>original\<close> is the upstream model, \<open>alias\<close> the
  configured alias. An alias that only renames the requested model to itself counts only when it
  forces the mapping.
\<close>

definition matched_alias ::
  "string \<Rightarrow> SuffixResult \<Rightarrow> string \<Rightarrow> string \<Rightarrow> string \<Rightarrow> bool \<Rightarrow> OAuthModelAliasResult"
where
  "matched_alias requestedModel requestResult baseModel original alias force =
     (if equal_fold original baseModel then
        (if \<not> force then no_alias
         else \<lparr>ar_UpstreamModel = preserveResolvedModelSuffix original requestResult, ar_ForceMapping = force,
                ar_OriginalAlias = oauthModelAliasForceMappingResponseModel alias\<rparr>)
      else \<lparr>ar_UpstreamModel = preserveResolvedModelSuffix original requestResult, ar_ForceMapping = force,
             ar_OriginalAlias = (if force then oauthModelAliasForceMappingResponseModel alias else requestedModel)\<rparr>)"

text \<open>The loop over the aliases for one candidate: the first entry whose alias it is.\<close>

fun find_alias :: "string \<Rightarrow> 'a alias_entry_scheme list \<Rightarrow> 'a alias_entry_scheme option" where
  "find_alias key [] = None"
| "find_alias key (entry # models) =
     (if trim_space (al_Name entry) = [] \<or> trim_space (al_Alias entry) = []
         \<or> \<not> equal_fold (trim_space (al_Alias entry)) key
      then find_alias key models else Some entry)"

fun alias_loop ::
  "string \<Rightarrow> SuffixResult \<Rightarrow> string \<Rightarrow> 'a alias_entry_scheme list \<Rightarrow> string list \<Rightarrow> OAuthModelAliasResult"
where
  "alias_loop requestedModel requestResult baseModel models [] = no_alias"
| "alias_loop requestedModel requestResult baseModel models (candidate # candidates) =
     (let key = trim_space candidate
      in if key = [] then alias_loop requestedModel requestResult baseModel models candidates
         else case find_alias key models of
           None \<Rightarrow> alias_loop requestedModel requestResult baseModel models candidates
         | Some entry \<Rightarrow> matched_alias requestedModel requestResult baseModel
             (trim_space (al_Name entry)) (trim_space (al_Alias entry)) (al_ForceMapping entry))"

definition resolveModelAliasResultFromConfigModels ::
  "string \<Rightarrow> 'a alias_entry_scheme list \<Rightarrow> OAuthModelAliasResult"
where
  "resolveModelAliasResultFromConfigModels requestedModel0 models =
     (let requestedModel = trim_space requestedModel0
      in if requestedModel = [] \<or> models = [] then no_alias
         else case modelAliasLookupCandidates requestedModel of (requestResult, candidates) \<Rightarrow>
           let baseModel = (if sr_ModelName requestResult = [] then requestedModel else sr_ModelName requestResult)
           in alias_loop requestedModel requestResult baseModel models candidates)"

definition resolveUpstreamModelFromAliases ::
  "'a alias_entry_scheme list \<Rightarrow> string \<Rightarrow> OAuthModelAliasResult"
where
  "resolveUpstreamModelFromAliases aliases requestedModel =
     (if aliases = [] then no_alias
      else case modelAliasLookupCandidates requestedModel of (requestResult, candidates) \<Rightarrow>
        let baseModel = (if sr_ModelName requestResult = [] then trim_space requestedModel
                         else sr_ModelName requestResult)
        in alias_loop requestedModel requestResult baseModel aliases candidates)"

definition table_match ::
  "string \<Rightarrow> SuffixResult \<Rightarrow> oauthModelAliasEntry \<Rightarrow> OAuthModelAliasResult"
where
  "table_match requestedModel requestResult entry =
     (let targetModel = oe_upstreamModel entry; baseModel = sr_ModelName requestResult
      in if equal_fold targetModel baseModel then
           (if \<not> oe_forceMapping entry then no_alias
            else \<lparr>ar_UpstreamModel = preserveResolvedModelSuffix targetModel requestResult,
                   ar_ForceMapping = oe_forceMapping entry,
                   ar_OriginalAlias = oauthModelAliasForceMappingResponseModel (oe_configAlias entry)\<rparr>)
         else
           let upstreamModel =
                 (if sr_HasSuffix (ParseSuffix targetModel) then targetModel
                  else if sr_HasSuffix requestResult \<and> sr_RawSuffix requestResult \<noteq> []
                    then targetModel @ ''('' @ sr_RawSuffix requestResult @ '')''
                  else targetModel)
           in \<lparr>ar_UpstreamModel = upstreamModel, ar_ForceMapping = oe_forceMapping entry,
                ar_OriginalAlias = (if oe_forceMapping entry
                  then oauthModelAliasForceMappingResponseModel (oe_configAlias entry) else requestedModel)\<rparr>)"

fun table_loop ::
  "string \<Rightarrow> SuffixResult \<Rightarrow> (string, oauthModelAliasEntry) gomap \<Rightarrow> string list \<Rightarrow> OAuthModelAliasResult"
where
  "table_loop requestedModel requestResult rev_table [] = no_alias"
| "table_loop requestedModel requestResult rev_table (candidate # candidates) =
     (let key = to_lower (trim_space candidate)
      in if key = [] then table_loop requestedModel requestResult rev_table candidates
         else case map_of rev_table key of
           None \<Rightarrow> table_loop requestedModel requestResult rev_table candidates
         | Some entry \<Rightarrow>
             if oe_upstreamModel entry = [] then table_loop requestedModel requestResult rev_table candidates
             else table_match requestedModel requestResult entry)"

definition resolveUpstreamModelFromAliasTable ::
  "oauthModelAliasTable \<Rightarrow> string \<Rightarrow> string \<Rightarrow> OAuthModelAliasResult"
where
  "resolveUpstreamModelFromAliasTable table requestedModel channel =
     (if channel = [] then no_alias
      else case modelAliasLookupCandidates requestedModel of (requestResult, candidates) \<Rightarrow>
        (case map_of table channel of
           None \<Rightarrow> no_alias
         | Some rev_table \<Rightarrow> table_loop requestedModel requestResult rev_table candidates))"

section \<open>Aliases of a credential\<close>

definition normalizeOAuthModelAliasAuthKind :: "string \<Rightarrow> string" where
  "normalizeOAuthModelAliasAuthKind authKind0 =
     (let authKind = to_lower (trim_space authKind0)
      in if authKind = ''api_key'' \<or> authKind = ''api-key'' then ''apikey'' else authKind)"

definition OAuthModelAliasChannel :: "string \<Rightarrow> string \<Rightarrow> string" where
  "OAuthModelAliasChannel provider0 authKind0 =
     (let provider = to_lower (trim_space provider0); authKind = normalizeOAuthModelAliasAuthKind authKind0
      in if authKind = ''apikey'' then []
         else if provider = ''gemini'' then []
         else provider)"

definition modelAliasChannel :: "Auth \<Rightarrow> string" where
  "modelAliasChannel auth = OAuthModelAliasChannel (to_lower (trim_space (auth_Provider auth))) (AuthKind auth)"

definition OAuthModelAliasesFromAttributes ::
  "alias_decoder \<Rightarrow> (string, string) gomap \<Rightarrow> OAuthModelAlias list"
where
  "OAuthModelAliasesFromAttributes unmarshal attributes =
     (let raw = trim_space (get_or [] attributes ''model_aliases'')
      in if raw = [] then []
         else case unmarshal raw of None \<Rightarrow> [] | Some aliases \<Rightarrow> sanitizeOAuthModelAliases aliases)"

definition resolveOAuthModelAliasWithResult ::
  "alias_decoder \<Rightarrow> oauthModelAliasTable \<Rightarrow> Auth \<Rightarrow> string \<Rightarrow> OAuthModelAliasResult"
where
  "resolveOAuthModelAliasWithResult unmarshal table auth requestedModel =
     (let channel = modelAliasChannel auth
      in if channel = [] then no_alias
         else let result = resolveUpstreamModelFromAliases
                  (OAuthModelAliasesFromAttributes unmarshal (auth_Attributes auth)) requestedModel
           in if ar_UpstreamModel result \<noteq> [] then result
              else resolveUpstreamModelFromAliasTable table requestedModel channel)"

definition applyOAuthModelAlias :: "alias_decoder \<Rightarrow> oauthModelAliasTable \<Rightarrow> Auth \<Rightarrow> string \<Rightarrow> string" where
  "applyOAuthModelAlias unmarshal table auth requestedModel =
     (let upstreamModel = ar_UpstreamModel (resolveOAuthModelAliasWithResult unmarshal table auth requestedModel)
      in if upstreamModel = [] then requestedModel else upstreamModel)"

definition applyOAuthModelAliasWithResult ::
  "alias_decoder \<Rightarrow> oauthModelAliasTable \<Rightarrow> Auth \<Rightarrow> string \<Rightarrow> OAuthModelAliasResult"
where
  "applyOAuthModelAliasWithResult unmarshal table auth requestedModel =
     (let result = resolveOAuthModelAliasWithResult unmarshal table auth requestedModel
      in if ar_UpstreamModel result = [] then unaliased requestedModel else result)"

definition rewriteModelForAuth :: "string \<Rightarrow> Auth \<Rightarrow> string" where
  "rewriteModelForAuth model auth =
     (if model = [] then model
      else let prefix = trim_space (auth_Prefix auth)
        in if prefix = [] then model
           else let needle = prefix @ ''/''
             in if \<not> has_prefix model needle then model else drop (length needle) model)"

definition selectionModelForAuth :: "alias_decoder \<Rightarrow> oauthModelAliasTable \<Rightarrow> Auth \<Rightarrow> string \<Rightarrow> string" where
  "selectionModelForAuth unmarshal table auth routeModel =
     (let requestedModel0 = rewriteModelForAuth routeModel auth;
          requestedModel = (if trim_space requestedModel0 = [] then trim_space routeModel else requestedModel0);
          resolvedModel = applyOAuthModelAlias unmarshal table auth requestedModel
      in if trim_space resolvedModel = [] then requestedModel else resolvedModel)"

definition selectionModelKeyForAuth :: "alias_decoder \<Rightarrow> oauthModelAliasTable \<Rightarrow> Auth \<Rightarrow> string \<Rightarrow> string" where
  "selectionModelKeyForAuth unmarshal table auth routeModel =
     canonicalModelKey (selectionModelForAuth unmarshal table auth routeModel)"

section \<open>The table answers as the list\<close>

definition entry_of :: "OAuthModelAlias \<Rightarrow> oauthModelAliasEntry" where
  "entry_of e = \<lparr>oe_upstreamModel = al_Name e, oe_configAlias = al_Alias e, oe_forceMapping = al_ForceMapping e\<rparr>"

text \<open>An entry as the sanitiser leaves it.\<close>

definition clean_entry :: "OAuthModelAlias \<Rightarrow> bool" where
  "clean_entry e \<longleftrightarrow> trim_space (al_Name e) = al_Name e \<and> trim_space (al_Alias e) = al_Alias e
     \<and> al_Name e \<noteq> [] \<and> al_Alias e \<noteq> [] \<and> \<not> equal_fold (al_Name e) (al_Alias e)"

definition table_of :: "OAuthModelAlias list \<Rightarrow> string \<Rightarrow> oauthModelAliasEntry option" where
  "table_of clean k = map_option entry_of (List.find (\<lambda>e. to_lower (al_Alias e) = k) clean)"

definition compiled :: "string list \<times> OAuthModelAlias list \<Rightarrow> (string, oauthModelAliasEntry) gomap \<Rightarrow> bool" where
  "compiled acc rev_table \<longleftrightarrow> (\<forall>k. k \<in> set (fst acc) \<longleftrightarrow> has_key rev_table k)
     \<and> map_of rev_table = table_of (snd acc) \<and> (\<forall>e \<in> set (snd acc). clean_entry e)
     \<and> (snd acc = [] \<longleftrightarrow> rev_table = [])"

lemma table_of_snoc:
  "table_of (clean @ [e]) k =
     (case table_of clean k of None \<Rightarrow> if to_lower (al_Alias e) = k then Some (entry_of e) else None
      | Some r \<Rightarrow> Some r)"
  by (induction clean) (auto simp: table_of_def)

lemma update_not_Nil [simp]: "AList.update k v m \<noteq> []"
  by (induction m) auto

lemma compiled_step:
  assumes "compiled acc rev_table"
  shows "compiled (sanitize_step entry acc) (compile_entry entry rev_table)"
proof (cases "trim_space (al_Name entry) = [] \<or> trim_space (al_Alias entry) = []
    \<or> equal_fold (trim_space (al_Name entry)) (trim_space (al_Alias entry))
    \<or> has_key rev_table (to_lower (trim_space (al_Alias entry)))")
  case True
  with assms show ?thesis
    by (auto simp: sanitize_step_def compile_entry_def Let_def compiled_def split: prod.splits)
next
  case False
  with assms show ?thesis
    by (auto simp: sanitize_step_def compile_entry_def Let_def compiled_def clean_entry_def table_of_snoc entry_of_def
        has_key_def fun_eq_iff split: prod.splits option.splits)
qed

lemma compiled_fold:
  "compiled acc rev_table \<Longrightarrow> compiled (fold sanitize_step entries acc) (fold compile_entry entries rev_table)"
  by (induction entries arbitrary: acc rev_table) (simp_all add: compiled_step)

lemma compiled_channel: "compiled (fold sanitize_step entries ([], [])) (fold compile_entry entries [])"
  by (rule compiled_fold) (simp add: compiled_def table_of_def fun_eq_iff)

lemma find_clean:
  assumes "\<forall>e \<in> set clean. clean_entry e"
  shows "find_alias key clean = List.find (\<lambda>e. to_lower (al_Alias e) = to_lower key) clean"
  using assms by (induction clean) (auto simp: clean_entry_def equal_fold_def)

lemma to_lower_eq_Nil [simp]: "to_lower s = [] \<longleftrightarrow> s = []" "[] = to_lower s \<longleftrightarrow> s = []"
  by (auto simp: to_lower_def)

lemma preserve_clean:
  assumes "trim_space name = name" and "name \<noteq> []"
  shows "preserveResolvedModelSuffix name r =
    (if sr_HasSuffix (ParseSuffix name) then name
     else if sr_HasSuffix r \<and> sr_RawSuffix r \<noteq> [] then name @ ''('' @ sr_RawSuffix r @ '')'' else name)"
  using assms by (simp add: preserveResolvedModelSuffix_def Let_def)

lemma match_clean:
  assumes "clean_entry e" and "sr_ModelName r = [] \<Longrightarrow> \<not> equal_fold (al_Name e) base"
    and "sr_ModelName r \<noteq> [] \<Longrightarrow> base = sr_ModelName r"
  shows "table_match requested r (entry_of e) =
    matched_alias requested r base (al_Name e) (al_Alias e) (al_ForceMapping e)"
proof -
  have fold: "equal_fold (al_Name e) (sr_ModelName r) \<longleftrightarrow> equal_fold (al_Name e) base"
    using assms by (cases "sr_ModelName r = []") (auto simp: clean_entry_def equal_fold_def)
  from assms(1) have "trim_space (al_Name e) = al_Name e" "al_Name e \<noteq> []" by (simp_all add: clean_entry_def)
  note p = preserve_clean [OF this, of r]
  show ?thesis unfolding table_match_def matched_alias_def Let_def by (simp add: fold entry_of_def p)
qed

lemma loop_clean:
  assumes clean: "\<forall>e \<in> set clean. clean_entry e"
    and base: "sr_ModelName r \<noteq> [] \<Longrightarrow> base = sr_ModelName r"
    and only: "sr_ModelName r = [] \<Longrightarrow> \<forall>c \<in> set candidates. trim_space c = base"
    and table: "map_of rev_table = table_of clean"
  shows "table_loop requested r rev_table candidates = alias_loop requested r base clean candidates"
  using only
proof (induction candidates)
  case Nil
  then show ?case by simp
next
  case (Cons c cs)
  show ?case
  proof (cases "List.find (\<lambda>e. to_lower (al_Alias e) = to_lower (trim_space c)) clean")
    case None
    with Cons table find_clean [OF clean] show ?thesis by (simp add: Let_def table_of_def)
  next
    case (Some e)
    then have e: "clean_entry e" "to_lower (al_Alias e) = to_lower (trim_space c)"
      using clean by (auto simp: find_Some_iff)
    from e Cons.prems have "sr_ModelName r = [] \<Longrightarrow> \<not> equal_fold (al_Name e) base"
      by (auto simp: clean_entry_def equal_fold_def)
    note match = match_clean [OF e(1) this base, of requested]
    from e have ne: "trim_space c \<noteq> []" "oe_upstreamModel (entry_of e) \<noteq> []"
      by (auto simp: clean_entry_def entry_of_def)
    from Some ne e match table find_clean [OF clean] show ?thesis
      by (simp add: Let_def table_of_def clean_entry_def)
  qed
qed

text \<open>Both folds over the channels store the same channels.\<close>

lemma compile_lookup:
  "\<exists>acc. compiled acc (get_or [] (compileOAuthModelAliasTable aliases) channel)
     \<and> snd acc = get_or [] (SanitizeOAuthModelAlias aliases) channel"
  (is "?P aliases")
proof (induction aliases rule: rev_induct)
  case Nil
  have "compiled ([], []) []" by (simp add: compiled_def table_of_def fun_eq_iff)
  then show ?case unfolding compileOAuthModelAliasTable_def SanitizeOAuthModelAlias_def by auto
next
  case (snoc x aliases)
  obtain raw entries where x: "x = (raw, entries)" by (cases x)
  let ?c = "fold compile_entry entries []" and ?acc = "fold sanitize_step entries ([], [])"
  have c: "compiled ?acc ?c" by (rule compiled_channel)
  then have e: "?c = [] \<longleftrightarrow> sanitize_channel entries = []" by (simp add: compiled_def sanitize_channel_def)
  show ?case
  proof (cases "to_lower (trim_space raw) = [] \<or> entries = [] \<or> ?c = [] \<or> channel \<noteq> to_lower (trim_space raw)")
    case True
    with snoc x e show ?thesis by (auto simp: compileOAuthModelAliasTable_def SanitizeOAuthModelAlias_def Let_def)
  next
    case False
    with x e have "get_or [] (compileOAuthModelAliasTable (aliases @ [x])) channel = ?c"
      and "get_or [] (SanitizeOAuthModelAlias (aliases @ [x])) channel = snd ?acc"
      by (simp_all add: compileOAuthModelAliasTable_def SanitizeOAuthModelAlias_def Let_def sanitize_channel_def)
    with c show ?thesis by metis
  qed
qed

lemma compile_no_empty:
  "map_of (compileOAuthModelAliasTable aliases) channel \<noteq> Some []"
  by (induction aliases rule: rev_induct)
    (auto simp: compileOAuthModelAliasTable_def Let_def split: prod.splits)

lemma compile_channel_Nil: "map_of (compileOAuthModelAliasTable aliases) [] = None"
  by (induction aliases rule: rev_induct)
    (auto dest: sym simp: compileOAuthModelAliasTable_def Let_def split: prod.splits)

lemma candidates_of:
  assumes "modelAliasLookupCandidates requested = (r, candidates)" and "sr_ModelName r = []"
  shows "\<forall>c \<in> set candidates. trim_space c = trim_space requested"
  using assms by (auto simp: modelAliasLookupCandidates_def Let_def split: if_splits)

text \<open>
  C29: The table compiled from the configured aliases answers every request of every channel exactly as
  a scan of the sanitised list of that channel does: the same upstream model, the same name for the
  response, whatever the suffix of the request, the order of the aliases and their spelling.
\<close>

theorem alias_table_exact:
  "resolveUpstreamModelFromAliasTable (compileOAuthModelAliasTable aliases) requestedModel channel =
   resolveUpstreamModelFromAliases (get_or [] (SanitizeOAuthModelAlias aliases) channel) requestedModel"
proof -
  obtain acc where acc: "compiled acc (get_or [] (compileOAuthModelAliasTable aliases) channel)"
    and clean: "snd acc = get_or [] (SanitizeOAuthModelAlias aliases) channel" using compile_lookup by blast
  obtain r candidates where rc: "modelAliasLookupCandidates requestedModel = (r, candidates)" by fastforce
  let ?list = "get_or [] (SanitizeOAuthModelAlias aliases) channel"
  show ?thesis
  proof (cases "map_of (compileOAuthModelAliasTable aliases) channel")
    case None
    with acc clean have "?list = []" by (simp add: compiled_def get_or_def)
    with None rc show ?thesis
      by (simp add: resolveUpstreamModelFromAliasTable_def resolveUpstreamModelFromAliases_def)
  next
    case (Some rev_table)
    with acc clean have c: "compiled acc rev_table" by (simp add: get_or_def)
    from Some compile_no_empty have "rev_table \<noteq> []" by metis
    with c clean have ne: "?list \<noteq> []" by (simp add: compiled_def)
    from Some compile_channel_Nil have "channel \<noteq> []" by (cases "channel = []") auto
    moreover have "table_loop requestedModel r rev_table candidates = alias_loop requestedModel r
        (if sr_ModelName r = [] then trim_space requestedModel else sr_ModelName r) ?list candidates"
      by (rule loop_clean) (use c clean candidates_of [OF rc] in \<open>auto simp: compiled_def\<close>)
    ultimately show ?thesis using Some ne rc
      by (simp add: resolveUpstreamModelFromAliasTable_def resolveUpstreamModelFromAliases_def Let_def)
  qed
qed

end
