(* ===== verification/Routing.thy ===== *)
theory Routing
  imports Aliases Availability "HOL-Library.Multiset"
begin

text \<open>
  The models of API-key credentials and the candidates of an execution
  (\<open>sdk/cliproxy/auth/conductor_models.go\<close>, \<open>api_key_model_capabilities.go\<close>,
  \<open>home_concurrency.go\<close>): which configuration entry a credential belongs to, the compiled
  alias table and the scan behind it, the pool of upstream models of an OpenAI-compatible provider
  and its rotation, and the models a credential may be asked for.

  The entries of the provider keys share the record \<open>key_entry\<close>, which holds what the
  interface \<open>APIKeyConfigEntry\<close> and the fields \<open>Models\<close> and \<open>RequestScopedErrors\<close> give; the other
  settings of an entry are left out. The atomic snapshot of the routing and the offsets of the pools are the record
  \<open>model_router\<close>; \<open>m.mu\<close>, which guards the offsets, makes each call one step.
  A nil configuration is the empty one, as the code has it.
\<close>

section \<open>Configuration\<close>

record RequestScopedErrorRule =
  rl_Status :: int
  rl_Match :: "string list"
  rl_MatchRegexr :: "string list"
  rl_Action :: string

record key_entry =
  ke_APIKey :: string
  ke_BaseURL :: string
  ke_Prefix :: string
  ke_ProxyURL :: string
  ke_Models :: "alias_entry list"
  ke_RequestScopedErrors :: "RequestScopedErrorRule list"

record OpenAICompatibility =
  oc_Name :: string
  oc_Disabled :: bool
  oc_Models :: "alias_entry list"
  oc_RequestScopedErrors :: "RequestScopedErrorRule list"

record Config =
  cf_GeminiKey :: "key_entry list"
  cf_InteractionsKey :: "key_entry list"
  cf_ClaudeKey :: "key_entry list"
  cf_CodexKey :: "key_entry list"
  cf_XAIKey :: "key_entry list"
  cf_VertexCompatAPIKey :: "key_entry list"
  cf_MetaKey :: "key_entry list"
  cf_OpenAICompatibility :: "OpenAICompatibility list"
  cf_OAuthRequestScopedErrors :: "(string, RequestScopedErrorRule list) gomap"

type_synonym apiKeyModelAliasTable = "(string, (string, string) gomap) gomap"

record model_router =
  rt_config :: Config
  rt_aliases :: apiKeyModelAliasTable
  rt_oauthModelAlias :: oauthModelAliasTable
  rt_modelPoolOffsets :: "(string, int) gomap"

section \<open>The entry of a credential\<close>

definition matchesCredentials :: "string \<Rightarrow> string \<Rightarrow> key_entry \<Rightarrow> bool" where
  "matchesCredentials attrKey attrBase entry =
     (let cfgKey = trim_space (ke_APIKey entry); cfgBase = trim_space (ke_BaseURL entry)
      in if attrKey \<noteq> [] \<and> attrBase \<noteq> [] then equal_fold cfgKey attrKey \<and> equal_fold cfgBase attrBase
         else if attrKey \<noteq> [] then equal_fold cfgKey attrKey \<and> (cfgBase = [] \<or> equal_fold cfgBase attrBase)
         else attrBase \<noteq> [] \<and> equal_fold cfgBase attrBase)"

definition config_index :: "Auth \<Rightarrow> nat \<Rightarrow> nat option" where
  "config_index auth n =
     (if AuthSourceKind auth \<noteq> ''config'' then None
      else case parse_int (authAttribute auth ''config_index'') of
        None \<Rightarrow> None
      | Some index \<Rightarrow> if 0 \<le> index \<and> index < int n then Some (nat index) else None)"

definition same_route :: "Auth \<Rightarrow> key_entry \<Rightarrow> bool" where
  "same_route auth entry \<longleftrightarrow> equal_fold (trim_space (ke_Prefix entry)) (trim_space (auth_Prefix auth))
     \<and> equal_fold (trim_space (ke_ProxyURL entry)) (trim_space (auth_ProxyURL auth))"

definition scan_entries :: "string \<Rightarrow> string \<Rightarrow> key_entry list \<Rightarrow> Auth \<Rightarrow> key_entry option" where
  "scan_entries attrKey attrBase entries auth =
     (case List.find (\<lambda>e. matchesCredentials attrKey attrBase e \<and> same_route auth e) entries of
        Some e \<Rightarrow> Some e
      | None \<Rightarrow>
          (case List.find (matchesCredentials attrKey attrBase) entries of
             Some e \<Rightarrow> Some e
           | None \<Rightarrow> if attrKey \<noteq> [] then List.find (\<lambda>e. equal_fold (trim_space (ke_APIKey e)) attrKey) entries
                     else None))"

definition resolveAPIKeyConfig :: "key_entry list \<Rightarrow> Auth \<Rightarrow> key_entry option" where
  "resolveAPIKeyConfig entries auth =
     (let attrKey = authAttribute auth ''api_key''; attrBase = authAttribute auth ''base_url''
      in case config_index auth (length entries) of
           Some index \<Rightarrow> if matchesCredentials attrKey attrBase (entries ! index) then Some (entries ! index)
                         else scan_entries attrKey attrBase entries auth
         | None \<Rightarrow> scan_entries attrKey attrBase entries auth)"

definition resolveGeminiAPIKeyConfig :: "Config \<Rightarrow> Auth \<Rightarrow> key_entry option" where
  "resolveGeminiAPIKeyConfig cfg = resolveAPIKeyConfig (cf_GeminiKey cfg)"

definition resolveInteractionsAPIKeyConfig :: "Config \<Rightarrow> Auth \<Rightarrow> key_entry option" where
  "resolveInteractionsAPIKeyConfig cfg = resolveAPIKeyConfig (cf_InteractionsKey cfg)"

definition resolveClaudeAPIKeyConfig :: "Config \<Rightarrow> Auth \<Rightarrow> key_entry option" where
  "resolveClaudeAPIKeyConfig cfg = resolveAPIKeyConfig (cf_ClaudeKey cfg)"

definition resolveCodexAPIKeyConfig :: "Config \<Rightarrow> Auth \<Rightarrow> key_entry option" where
  "resolveCodexAPIKeyConfig cfg = resolveAPIKeyConfig (cf_CodexKey cfg)"

definition resolveXAIAPIKeyConfig :: "Config \<Rightarrow> Auth \<Rightarrow> key_entry option" where
  "resolveXAIAPIKeyConfig cfg = resolveAPIKeyConfig (cf_XAIKey cfg)"

definition resolveVertexAPIKeyConfig :: "Config \<Rightarrow> Auth \<Rightarrow> key_entry option" where
  "resolveVertexAPIKeyConfig cfg = resolveAPIKeyConfig (cf_VertexCompatAPIKey cfg)"

definition resolveMetaAPIKeyConfig :: "Config \<Rightarrow> Auth \<Rightarrow> key_entry option" where
  "resolveMetaAPIKeyConfig cfg = resolveAPIKeyConfig (cf_MetaKey cfg)"

definition resolveOpenAICompatConfig :: "Config \<Rightarrow> string \<Rightarrow> string \<Rightarrow> string \<Rightarrow> OpenAICompatibility option" where
  "resolveOpenAICompatConfig cfg providerKey compatName authProvider =
     (let candidates = filter (\<lambda>v. v \<noteq> []) [trim_space compatName, trim_space providerKey, trim_space authProvider]
      in List.find (\<lambda>compat. \<not> oc_Disabled compat
             \<and> list_ex (\<lambda>candidate. equal_fold (trim_space candidate) (oc_Name compat)) candidates)
           (cf_OpenAICompatibility cfg))"

definition resolveOpenAICompatConfigForAuth :: "Config \<Rightarrow> Auth \<Rightarrow> string \<Rightarrow> string \<Rightarrow> OpenAICompatibility option" where
  "resolveOpenAICompatConfigForAuth cfg auth providerKey compatName =
     (let entries = cf_OpenAICompatibility cfg
      in case config_index auth (length entries) of
           Some index \<Rightarrow> if \<not> oc_Disabled (entries ! index) then Some (entries ! index)
                         else resolveOpenAICompatConfig cfg providerKey compatName (auth_Provider auth)
         | None \<Rightarrow> resolveOpenAICompatConfig cfg providerKey compatName (auth_Provider auth))"

definition isConfiguredModelRoutingAuth :: "Auth \<Rightarrow> bool" where
  "isConfiguredModelRoutingAuth auth =
     (if AuthKind auth = ''apikey'' then True
      else if AuthSourceKind auth \<noteq> ''config'' then False
      else authAttribute auth ''compat_name'' \<noteq> [])"

definition isConfiguredOpenAICompatAuth :: "Auth \<Rightarrow> bool" where
  "isConfiguredOpenAICompatAuth auth =
     (if \<not> isConfiguredModelRoutingAuth auth then False
      else if equal_fold (trim_space (auth_Provider auth)) ''openai-compatibility'' then True
      else authAttribute auth ''compat_name'' \<noteq> [])"

definition models_of_entry :: "key_entry option \<Rightarrow> alias_entry list" where
  "models_of_entry entry = (case entry of None \<Rightarrow> [] | Some e \<Rightarrow> ke_Models e)"

definition configuredModelAliasEntries :: "Config \<Rightarrow> Auth \<Rightarrow> alias_entry list" where
  "configuredModelAliasEntries cfg auth =
     (let provider = to_lower (trim_space (auth_Provider auth))
      in if provider = ''gemini'' then models_of_entry (resolveGeminiAPIKeyConfig cfg auth)
         else if provider = ''gemini-interactions'' then models_of_entry (resolveInteractionsAPIKeyConfig cfg auth)
         else if provider = ''claude'' then models_of_entry (resolveClaudeAPIKeyConfig cfg auth)
         else if provider = ''codex'' then models_of_entry (resolveCodexAPIKeyConfig cfg auth)
         else if provider = ''xai'' then models_of_entry (resolveXAIAPIKeyConfig cfg auth)
         else if provider = ''vertex'' then models_of_entry (resolveVertexAPIKeyConfig cfg auth)
         else if provider = ''meta'' then models_of_entry (resolveMetaAPIKeyConfig cfg auth)
         else let providerKey = authAttribute auth ''provider_key''; compatName = authAttribute auth ''compat_name''
           in if compatName \<noteq> [] \<or> equal_fold (trim_space (auth_Provider auth)) ''openai-compatibility''
              then (case resolveOpenAICompatConfigForAuth cfg auth providerKey compatName of
                      None \<Rightarrow> [] | Some entry \<Rightarrow> oc_Models entry)
              else [])"

section \<open>The scan of the configured models\<close>

text \<open>The pool of one candidate: the upstream models of all entries with this alias, each once.\<close>

fun pool_loop ::
  "string \<Rightarrow> SuffixResult \<Rightarrow> string list \<Rightarrow> 'a alias_entry_scheme list \<Rightarrow> string list"
where
  "pool_loop candidate requestResult seen [] = []"
| "pool_loop candidate requestResult seen (m # models) =
     (let name = trim_space (al_Name m); alias = trim_space (al_Alias m)
      in if candidate = [] \<or> alias = [] \<or> \<not> equal_fold alias candidate
         then pool_loop candidate requestResult seen models
         else let resolved = preserveResolvedModelSuffix (if name \<noteq> [] then name else candidate) requestResult;
                  key = to_lower (trim_space resolved)
           in if key = [] \<or> key \<in> set seen then pool_loop candidate requestResult seen models
              else resolved # pool_loop candidate requestResult (key # seen) models)"

fun first_pool ::
  "SuffixResult \<Rightarrow> 'a alias_entry_scheme list \<Rightarrow> string list \<Rightarrow> string list"
where
  "first_pool requestResult models [] = []"
| "first_pool requestResult models (candidate # candidates) =
     (let out = pool_loop candidate requestResult [] models
      in if out \<noteq> [] then out else first_pool requestResult models candidates)"

fun first_name ::
  "SuffixResult \<Rightarrow> 'a alias_entry_scheme list \<Rightarrow> string list \<Rightarrow> string list"
where
  "first_name requestResult models [] = []"
| "first_name requestResult models (candidate # candidates) =
     (case List.find (\<lambda>m. candidate \<noteq> [] \<and> trim_space (al_Name m) \<noteq> []
            \<and> equal_fold (trim_space (al_Name m)) candidate) models of
        Some m \<Rightarrow> [preserveResolvedModelSuffix (trim_space (al_Name m)) requestResult]
      | None \<Rightarrow> first_name requestResult models candidates)"

definition resolveModelAliasPoolFromConfigModels :: "string \<Rightarrow> 'a alias_entry_scheme list \<Rightarrow> string list" where
  "resolveModelAliasPoolFromConfigModels requestedModel0 models =
     (let requestedModel = trim_space requestedModel0
      in if requestedModel = [] \<or> models = [] then []
         else case modelAliasLookupCandidates requestedModel of (requestResult, candidates) \<Rightarrow>
           let pool = first_pool requestResult models candidates
           in if pool \<noteq> [] then pool else first_name requestResult models candidates)"

definition resolveModelAliasFromConfigModels :: "string \<Rightarrow> 'a alias_entry_scheme list \<Rightarrow> string" where
  "resolveModelAliasFromConfigModels requestedModel models =
     (case resolveModelAliasPoolFromConfigModels requestedModel models of [] \<Rightarrow> [] | resolved # _ \<Rightarrow> resolved)"

definition resolve_entry :: "string \<Rightarrow> key_entry option \<Rightarrow> string" where
  "resolve_entry requestedModel entry =
     (case entry of None \<Rightarrow> [] | Some e \<Rightarrow> resolveModelAliasFromConfigModels requestedModel (ke_Models e))"

definition resolveUpstreamModelForGeminiAPIKey :: "Config \<Rightarrow> Auth \<Rightarrow> string \<Rightarrow> string" where
  "resolveUpstreamModelForGeminiAPIKey cfg auth requestedModel =
     resolve_entry requestedModel (resolveGeminiAPIKeyConfig cfg auth)"

definition resolveUpstreamModelForInteractionsAPIKey :: "Config \<Rightarrow> Auth \<Rightarrow> string \<Rightarrow> string" where
  "resolveUpstreamModelForInteractionsAPIKey cfg auth requestedModel =
     resolve_entry requestedModel (resolveInteractionsAPIKeyConfig cfg auth)"

definition resolveUpstreamModelForClaudeAPIKey :: "Config \<Rightarrow> Auth \<Rightarrow> string \<Rightarrow> string" where
  "resolveUpstreamModelForClaudeAPIKey cfg auth requestedModel =
     resolve_entry requestedModel (resolveClaudeAPIKeyConfig cfg auth)"

definition resolveUpstreamModelForCodexAPIKey :: "Config \<Rightarrow> Auth \<Rightarrow> string \<Rightarrow> string" where
  "resolveUpstreamModelForCodexAPIKey cfg auth requestedModel =
     resolve_entry requestedModel (resolveCodexAPIKeyConfig cfg auth)"

definition resolveUpstreamModelForXAIAPIKey :: "Config \<Rightarrow> Auth \<Rightarrow> string \<Rightarrow> string" where
  "resolveUpstreamModelForXAIAPIKey cfg auth requestedModel =
     resolve_entry requestedModel (resolveXAIAPIKeyConfig cfg auth)"

definition resolveUpstreamModelForVertexAPIKey :: "Config \<Rightarrow> Auth \<Rightarrow> string \<Rightarrow> string" where
  "resolveUpstreamModelForVertexAPIKey cfg auth requestedModel =
     resolve_entry requestedModel (resolveVertexAPIKeyConfig cfg auth)"

definition resolveUpstreamModelForMetaAPIKey :: "Config \<Rightarrow> Auth \<Rightarrow> string \<Rightarrow> string" where
  "resolveUpstreamModelForMetaAPIKey cfg auth requestedModel =
     resolve_entry requestedModel (resolveMetaAPIKeyConfig cfg auth)"

definition resolveUpstreamModelForOpenAICompatAPIKey :: "Config \<Rightarrow> Auth \<Rightarrow> string \<Rightarrow> string" where
  "resolveUpstreamModelForOpenAICompatAPIKey cfg auth requestedModel =
     (let providerKey = authAttribute auth ''provider_key''; compatName = authAttribute auth ''compat_name''
      in if compatName = [] \<and> \<not> equal_fold (trim_space (auth_Provider auth)) ''openai-compatibility'' then []
         else case resolveOpenAICompatConfigForAuth cfg auth providerKey compatName of
           None \<Rightarrow> []
         | Some entry \<Rightarrow> resolveModelAliasFromConfigModels requestedModel (oc_Models entry))"

section \<open>The compiled table of API keys\<close>

definition add_route :: "string \<Rightarrow> string \<Rightarrow> (string, string) gomap \<Rightarrow> (string, string) gomap" where
  "add_route key0 name out =
     (let key = to_lower (trim_space key0)
      in if key = [] then out else if has_key out key then out else AList.update key name out)"

definition compile_model :: "'a alias_entry_scheme \<Rightarrow> (string, string) gomap \<Rightarrow> (string, string) gomap" where
  "compile_model m out =
     (let alias = trim_space (al_Alias m); name = trim_space (al_Name m)
      in if alias = [] \<or> name = [] then out
         else add_route (sr_ModelName (ParseSuffix name)) name
           (add_route name name
             (add_route (sr_ModelName (ParseSuffix alias)) name (add_route alias name out))))"

definition compileAPIKeyModelAliasForModels :: "'a alias_entry_scheme list \<Rightarrow> (string, string) gomap" where
  "compileAPIKeyModelAliasForModels models = fold compile_model models []"

definition rebuildAPIKeyModelAliasLocked :: "Config \<Rightarrow> Auth list \<Rightarrow> apiKeyModelAliasTable" where
  "rebuildAPIKeyModelAliasLocked cfg auths = fold (\<lambda>auth out.
     if trim_space (auth_ID auth) = [] then out
     else if \<not> isConfiguredModelRoutingAuth auth then out
     else let byAlias = compileAPIKeyModelAliasForModels (configuredModelAliasEntries cfg auth)
       in if byAlias \<noteq> [] then AList.update (auth_ID auth) byAlias out else out) auths []"

fun lookup_routes :: "string \<Rightarrow> (string, string) gomap \<Rightarrow> string list \<Rightarrow> string" where
  "lookup_routes requestedModel byAlias [] = []"
| "lookup_routes requestedModel byAlias (key # routes) =
     (let resolved = trim_space (get_or [] byAlias key)
      in if resolved \<noteq> [] then preserveRequestedModelSuffix requestedModel resolved
         else lookup_routes requestedModel byAlias routes)"

definition lookupAPIKeyUpstreamModel :: "apiKeyModelAliasTable \<Rightarrow> string \<Rightarrow> string \<Rightarrow> string" where
  "lookupAPIKeyUpstreamModel aliases authID0 requestedModel0 =
     (let authID = trim_space authID0; requestedModel = trim_space requestedModel0
      in if authID = [] \<or> requestedModel = [] then []
         else let byAlias = get_or [] aliases authID
           in if byAlias = [] then []
              else let lowered = to_lower requestedModel;
                       baseKey = to_lower (trim_space (sr_ModelName (ParseSuffix requestedModel)))
                in lookup_routes requestedModel byAlias
                     (lowered # (if baseKey \<noteq> [] \<and> baseKey \<noteq> lowered then [baseKey] else [])))"

definition scan_upstream :: "Config \<Rightarrow> Auth \<Rightarrow> string \<Rightarrow> string" where
  "scan_upstream cfg auth requestedModel =
     (let provider = to_lower (trim_space (auth_Provider auth))
      in if provider = ''gemini'' then resolveUpstreamModelForGeminiAPIKey cfg auth requestedModel
         else if provider = ''gemini-interactions'' then resolveUpstreamModelForInteractionsAPIKey cfg auth requestedModel
         else if provider = ''claude'' then resolveUpstreamModelForClaudeAPIKey cfg auth requestedModel
         else if provider = ''codex'' then resolveUpstreamModelForCodexAPIKey cfg auth requestedModel
         else if provider = ''xai'' then resolveUpstreamModelForXAIAPIKey cfg auth requestedModel
         else if provider = ''vertex'' then resolveUpstreamModelForVertexAPIKey cfg auth requestedModel
         else if provider = ''meta'' then resolveUpstreamModelForMetaAPIKey cfg auth requestedModel
         else resolveUpstreamModelForOpenAICompatAPIKey cfg auth requestedModel)"

definition applyAPIKeyModelAlias :: "model_router \<Rightarrow> Auth \<Rightarrow> string \<Rightarrow> string" where
  "applyAPIKeyModelAlias rt auth requestedModel0 =
     (if AuthKind auth \<noteq> ''apikey'' then requestedModel0
      else let requestedModel = trim_space requestedModel0
        in if requestedModel = [] then requestedModel
           else let resolved = lookupAPIKeyUpstreamModel (rt_aliases rt) (auth_ID auth) requestedModel
             in if resolved \<noteq> [] then resolved
                else let upstreamModel = scan_upstream (rt_config rt) auth requestedModel
                  in if upstreamModel \<noteq> [] then upstreamModel else requestedModel)"

definition resolveAPIKeyModelAliasWithResult :: "Config \<Rightarrow> Auth \<Rightarrow> string \<Rightarrow> OAuthModelAliasResult" where
  "resolveAPIKeyModelAliasWithResult cfg auth requestedModel0 =
     (let requestedModel = trim_space requestedModel0
      in if requestedModel = [] then no_alias
         else let models = configuredModelAliasEntries cfg auth
           in if models = [] then unaliased requestedModel
              else let result = resolveModelAliasResultFromConfigModels requestedModel models
                in if trim_space (ar_UpstreamModel result) = [] then unaliased requestedModel else result)"

definition resolveModelAliasResultForUpstream :: "Config \<Rightarrow> Auth \<Rightarrow> string \<Rightarrow> string \<Rightarrow> OAuthModelAliasResult" where
  "resolveModelAliasResultForUpstream cfg auth requestedModel0 upstreamModel0 =
     (let requestedModel = trim_space requestedModel0; upstreamModel = trim_space upstreamModel0
      in if requestedModel = [] \<or> upstreamModel = [] then no_alias
         else let requestResult = ParseSuffix requestedModel;
                  filtered = filter (\<lambda>m. trim_space (al_Name m) \<noteq> []
                      \<and> equal_fold (preserveResolvedModelSuffix (trim_space (al_Name m)) requestResult) upstreamModel)
                    (configuredModelAliasEntries cfg auth)
           in if filtered = [] then no_alias
              else resolveModelAliasResultFromConfigModels requestedModel filtered)"

definition resolveAttemptAliasResult ::
  "model_router \<Rightarrow> Auth \<Rightarrow> string \<Rightarrow> string \<Rightarrow> OAuthModelAliasResult \<Rightarrow> OAuthModelAliasResult"
where
  "resolveAttemptAliasResult rt auth routeModel upstreamModel fallback =
     (if \<not> isConfiguredModelRoutingAuth auth then fallback
      else let requestedModel = rewriteModelForAuth routeModel auth;
               result = resolveModelAliasResultForUpstream (rt_config rt) auth requestedModel upstreamModel
        in if trim_space (ar_UpstreamModel result) = [] then fallback
           else if ar_ForceMapping result \<and> ar_ForceMapping fallback \<and> trim_space (ar_OriginalAlias fallback) \<noteq> []
             then result\<lparr>ar_OriginalAlias := ar_OriginalAlias fallback\<rparr>
           else result)"

section \<open>Model keys of the Home limiter\<close>

text \<open>\<open>utf8.ValidString\<close>: shortest forms only, no surrogates, nothing above U+10FFFF.\<close>

definition byte_in :: "nat \<Rightarrow> nat \<Rightarrow> char \<Rightarrow> bool" where
  "byte_in lo hi c \<longleftrightarrow> lo \<le> of_char c \<and> of_char c \<le> hi"

fun ValidString :: "string \<Rightarrow> bool" where
  "ValidString [] = True"
| "ValidString (a # s) =
     (if byte_in 0 127 a then ValidString s
      else if byte_in 194 223 a then
        (case s of b # s1 \<Rightarrow> byte_in 128 191 b \<and> ValidString s1 | _ \<Rightarrow> False)
      else if byte_in 224 239 a then
        (case s of b # c # s2 \<Rightarrow>
           byte_in (if of_char a = (224 :: nat) then 160 else 128) (if of_char a = (237 :: nat) then 159 else 191) b
           \<and> byte_in 128 191 c \<and> ValidString s2
         | _ \<Rightarrow> False)
      else if byte_in 240 244 a then
        (case s of b # c # d # s3 \<Rightarrow>
           byte_in (if of_char a = (240 :: nat) then 144 else 128) (if of_char a = (244 :: nat) then 143 else 191) b
           \<and> byte_in 128 191 c \<and> byte_in 128 191 d \<and> ValidString s3
         | _ \<Rightarrow> False)
      else False)"

text \<open>The digits loop: a decimal below two to the 31st.\<close>

fun recognized_digits :: "int \<Rightarrow> string \<Rightarrow> bool" where
  "recognized_digits parsed [] = True"
| "recognized_digits parsed (c # s) =
     (if of_char c < (48 :: int) \<or> of_char c > (57 :: int) then False
      else let parsed' = parsed * 10 + (of_char c - 48)
        in if parsed' > 2147483647 then False else recognized_digits parsed' s)"

definition recognizedHomeConcurrencySuffix :: "string \<Rightarrow> bool" where
  "recognizedHomeConcurrencySuffix s =
     (if s = ''-1'' then True
      else if to_lower s \<in> set [''none'', ''auto'', ''minimal'', ''low'', ''medium'', ''high'', ''xhigh'', ''max''] then True
      else if s = [] \<or> length s > 10 then False
      else recognized_digits 0 s)"

definition canonicalHomeConcurrencyModelKey :: "string \<Rightarrow> string" where
  "canonicalHomeConcurrencyModelKey model =
     (if \<not> ValidString model then []
      else let trimmed = to_lower (trim_space model)
        in if \<not> has_suffix trimmed '')'' then trimmed
           else case last_index trimmed CHR ''('' of
             None \<Rightarrow> trimmed
           | Some lparen \<Rightarrow>
               let suffix = drop (lparen + 1) (take (length trimmed - 1) trimmed)
               in if \<not> recognizedHomeConcurrencySuffix suffix then trimmed
                  else let base = trim_space (take lparen trimmed)
                    in if base = [] then trimmed else base)"

section \<open>Candidates of an execution\<close>

definition homeForceMappingAliasResult :: "Auth \<Rightarrow> string \<Rightarrow> OAuthModelAliasResult" where
  "homeForceMappingAliasResult auth requestedModel =
     (if \<not> equal_fold (authAttribute auth ''home_force_mapping'') ''true'' then no_alias
      else let originalAlias = authAttribute auth ''home_original_alias'';
               canonicalOriginalAlias = canonicalHomeConcurrencyModelKey (get_or [] (auth_Attributes auth) ''home_original_alias'');
               canonicalRequestedModel = canonicalHomeConcurrencyModelKey requestedModel
        in if canonicalOriginalAlias = [] \<or> canonicalOriginalAlias \<noteq> canonicalRequestedModel then no_alias
           else let upstreamModel0 = authAttribute auth ''home_upstream_model'';
                    upstreamModel = (if upstreamModel0 = [] then trim_space requestedModel else upstreamModel0)
             in \<lparr>ar_UpstreamModel = upstreamModel, ar_ForceMapping = True, ar_OriginalAlias = originalAlias\<rparr>)"

definition executionAliasPoolModel :: "Auth \<Rightarrow> string \<Rightarrow> OAuthModelAliasResult \<Rightarrow> string" where
  "executionAliasPoolModel auth requestedModel aliasResult =
     (if isConfiguredModelRoutingAuth auth \<and> trim_space requestedModel \<noteq> [] then requestedModel
      else if trim_space (ar_UpstreamModel aliasResult) \<noteq> [] then ar_UpstreamModel aliasResult
      else requestedModel)"

definition resolveExecutionAliasResultForRequested ::
  "alias_decoder \<Rightarrow> model_router \<Rightarrow> Auth \<Rightarrow> string \<Rightarrow> OAuthModelAliasResult"
where
  "resolveExecutionAliasResultForRequested unmarshal rt auth requestedModel =
     (let result = homeForceMappingAliasResult auth requestedModel
      in if ar_ForceMapping result then result
         else if isConfiguredModelRoutingAuth auth
           then resolveAPIKeyModelAliasWithResult (rt_config rt) auth requestedModel
         else applyOAuthModelAliasWithResult unmarshal (rt_oauthModelAlias rt) auth requestedModel)"

definition openAICompatProviderKey :: "Auth \<Rightarrow> string" where
  "openAICompatProviderKey auth =
     (let providerKey = authAttribute auth ''provider_key''; compatName = authAttribute auth ''compat_name''
      in OpenAICompatibleProviderKey
           (if providerKey \<noteq> [] then providerKey else if compatName \<noteq> [] then compatName
            else auth_Provider auth))"

definition openAICompatModelPoolKey :: "Auth \<Rightarrow> string \<Rightarrow> string" where
  "openAICompatModelPoolKey auth requestedModel =
     (let base0 = trim_space (sr_ModelName (ParseSuffix requestedModel));
          base = (if base0 = [] then trim_space requestedModel else base0)
      in to_lower (trim_space (auth_ID auth)) @ ''|'' @ openAICompatProviderKey auth @ ''|'' @ to_lower base)"

definition max_pool_offset :: int where "max_pool_offset = 2147483640"

definition nextModelPoolOffset :: "model_router \<Rightarrow> string \<Rightarrow> nat \<Rightarrow> model_router \<times> nat" where
  "nextModelPoolOffset rt key0 pool_size =
     (if pool_size \<le> 1 then (rt, 0)
      else let key = trim_space key0
        in if key = [] then (rt, 0)
           else let stored = get_or 0 (rt_modelPoolOffsets rt) key;
                    offset = (if stored \<ge> max_pool_offset then 0 else stored)
             in (rt\<lparr>rt_modelPoolOffsets := AList.update key (offset + 1) (rt_modelPoolOffsets rt)\<rparr>,
                 nat (offset mod int pool_size)))"

definition rotateStrings :: "string list \<Rightarrow> nat \<Rightarrow> string list" where
  "rotateStrings xs offset0 =
     (if length xs \<le> 1 then xs
      else if offset0 = 0 then xs
      else let offset = offset0 mod length xs in drop offset xs @ take offset xs)"

definition resolveOpenAICompatUpstreamModelPool :: "Config \<Rightarrow> Auth \<Rightarrow> string \<Rightarrow> string list" where
  "resolveOpenAICompatUpstreamModelPool cfg auth requestedModel0 =
     (if \<not> isConfiguredOpenAICompatAuth auth then []
      else let requestedModel = trim_space requestedModel0
        in if requestedModel = [] then []
           else case resolveOpenAICompatConfigForAuth cfg auth (authAttribute auth ''provider_key'')
                  (authAttribute auth ''compat_name'') of
             None \<Rightarrow> []
           | Some entry \<Rightarrow> resolveModelAliasPoolFromConfigModels requestedModel (oc_Models entry))"

text \<open>The candidates for a model already resolved by the OAuth aliases: the pool, rotated, or one model.\<close>

definition pool_or_alias :: "model_router \<Rightarrow> Auth \<Rightarrow> string \<Rightarrow> model_router \<times> string list" where
  "pool_or_alias rt auth upstreamModel =
     (let pool = resolveOpenAICompatUpstreamModelPool (rt_config rt) auth upstreamModel
      in if pool \<noteq> [] then
           (if length pool = 1 then (rt, pool)
            else case nextModelPoolOffset rt (openAICompatModelPoolKey auth upstreamModel) (length pool) of
              (rt', offset) \<Rightarrow> (rt', rotateStrings pool offset))
         else let resolved = applyAPIKeyModelAlias rt auth upstreamModel
           in (rt, [if trim_space resolved = [] then upstreamModel else resolved]))"

definition executionModelCandidates ::
  "alias_decoder \<Rightarrow> model_router \<Rightarrow> Auth \<Rightarrow> string \<Rightarrow> model_router \<times> string list"
where
  "executionModelCandidates unmarshal rt auth routeModel =
     (let homeModel = authAttribute auth ''home_upstream_model''
      in if homeModel \<noteq> [] then (rt, [homeModel])
         else pool_or_alias rt auth
           (applyOAuthModelAlias unmarshal (rt_oauthModelAlias rt) auth (rewriteModelForAuth routeModel auth)))"

definition executionModelCandidatesWithAlias ::
  "alias_decoder \<Rightarrow> model_router \<Rightarrow> Auth \<Rightarrow> string
   \<Rightarrow> model_router \<times> string list \<times> bool \<times> OAuthModelAliasResult"
where
  "executionModelCandidatesWithAlias unmarshal rt auth routeModel =
     (let requestedModel = rewriteModelForAuth routeModel auth;
          aliasResult0 = resolveExecutionAliasResultForRequested unmarshal rt auth requestedModel;
          aliasResult = (if ar_ForceMapping aliasResult0
              \<and> equal_fold (authAttribute auth ''home_force_mapping'') ''true''
            then aliasResult0\<lparr>ar_OriginalAlias := trim_space routeModel\<rparr> else aliasResult0);
          upstreamModel = executionAliasPoolModel auth requestedModel aliasResult;
          homeModel = authAttribute auth ''home_upstream_model''
      in case (if homeModel \<noteq> [] then (rt, [homeModel]) else pool_or_alias rt auth upstreamModel) of
           (rt', candidates) \<Rightarrow> (rt', candidates, length candidates > 1, aliasResult))"

definition ResolveExecutionModel ::
  "alias_decoder \<Rightarrow> model_router \<Rightarrow> Auth \<Rightarrow> string \<Rightarrow> model_router \<times> string"
where
  "ResolveExecutionModel unmarshal rt auth routeModel0 =
     (let routeModel = trim_space routeModel0
      in case executionModelCandidates unmarshal rt auth routeModel of
           (rt', []) \<Rightarrow> (rt', routeModel)
         | (rt', candidate # _) \<Rightarrow> (rt', if trim_space candidate \<noteq> [] then trim_space candidate else routeModel))"

definition executionResultModel :: "string \<Rightarrow> string \<Rightarrow> bool \<Rightarrow> string" where
  "executionResultModel routeModel upstreamModel pooled =
     (if pooled \<and> trim_space upstreamModel \<noteq> [] then trim_space upstreamModel
      else if trim_space routeModel \<noteq> [] then trim_space routeModel
      else trim_space upstreamModel)"

definition stateModelForExecution ::
  "alias_decoder \<Rightarrow> model_router \<Rightarrow> Auth \<Rightarrow> string \<Rightarrow> string \<Rightarrow> bool \<Rightarrow> string"
where
  "stateModelForExecution unmarshal rt auth routeModel upstreamModel pooled =
     (let homeModel = authAttribute auth ''home_upstream_model''
      in if homeModel \<noteq> [] then (if trim_space upstreamModel \<noteq> [] then trim_space upstreamModel else homeModel)
         else let stateModel = executionResultModel routeModel upstreamModel pooled;
                  selectionModel = selectionModelForAuth unmarshal (rt_oauthModelAlias rt) auth routeModel
           in if canonicalModelKey selectionModel = canonicalModelKey upstreamModel \<and> trim_space selectionModel \<noteq> []
              then trim_space upstreamModel else stateModel)"

definition filterExecutionModels ::
  "alias_decoder \<Rightarrow> model_router \<Rightarrow> Auth \<Rightarrow> string \<Rightarrow> string list \<Rightarrow> bool \<Rightarrow> time \<Rightarrow> string list"
where
  "filterExecutionModels unmarshal rt auth routeModel candidates pooled now =
     filter (\<lambda>upstreamModel. \<not> is_blocked (isAuthBlockedForModel auth
       (stateModelForExecution unmarshal rt auth routeModel upstreamModel pooled) now)) candidates"

definition preparedExecutionModels ::
  "alias_decoder \<Rightarrow> model_router \<Rightarrow> Auth \<Rightarrow> string \<Rightarrow> time \<Rightarrow> model_router \<times> string list \<times> bool"
where
  "preparedExecutionModels unmarshal rt auth routeModel now =
     (case executionModelCandidates unmarshal rt auth routeModel of
        (rt', candidates) \<Rightarrow>
          let pooled = length candidates > 1
          in (rt', filterExecutionModels unmarshal rt' auth routeModel candidates pooled now, pooled))"

definition preparedExecutionModelsWithAlias ::
  "alias_decoder \<Rightarrow> model_router \<Rightarrow> Auth \<Rightarrow> string \<Rightarrow> time
   \<Rightarrow> model_router \<times> string list \<times> bool \<times> OAuthModelAliasResult"
where
  "preparedExecutionModelsWithAlias unmarshal rt auth routeModel now =
     (case executionModelCandidatesWithAlias unmarshal rt auth routeModel of
        (rt', candidates, pooled, aliasResult) \<Rightarrow>
          (rt', filterExecutionModels unmarshal rt' auth routeModel candidates pooled now, pooled, aliasResult))"

section \<open>The rotation of a pool\<close>

lemma trim_space_eq_Nil: "trim_space s = [] \<longleftrightarrow> (\<forall>c \<in> set s. is_space c)"
proof
  assume "trim_space s = []"
  then have "\<forall>c \<in> set (trim_left s). is_space c" by (simp add: trim_space_def trim_left_def)
  then have "trim_left s = []" unfolding trim_left_def by (metis dropWhile_eq_Nil_conv hd_dropWhile hd_in_set)
  then show "\<forall>c \<in> set s. is_space c" by (simp add: trim_left_def)
next
  assume "\<forall>c \<in> set s. is_space c"
  then have "trim_left s = []" by (simp add: trim_left_def)
  then show "trim_space s = []" by (simp add: trim_space_def) (simp add: trim_left_def)
qed

lemma pool_key_ne: "trim_space (openAICompatModelPoolKey auth model) \<noteq> []"
  by (auto simp: openAICompatModelPoolKey_def Let_def trim_space_eq_Nil is_space_def)

lemma rotateStrings_rotate: "rotateStrings xs k = rotate k xs"
proof (cases "length xs \<le> 1")
  case True
  then have "rotate k xs = xs" by (cases xs) (simp_all add: rotate_drop_take)
  with True show ?thesis by (simp add: rotateStrings_def)
qed (simp add: rotateStrings_def Let_def rotate_drop_take)


text \<open>Consecutive executions of one route on one credential.\<close>

fun candidate_run :: "alias_decoder \<Rightarrow> model_router \<Rightarrow> Auth \<Rightarrow> string \<Rightarrow> nat \<Rightarrow> string list list" where
  "candidate_run unmarshal rt auth routeModel 0 = []"
| "candidate_run unmarshal rt auth routeModel (Suc k) =
     (case executionModelCandidates unmarshal rt auth routeModel of
        (rt', candidates) \<Rightarrow> candidates # candidate_run unmarshal rt' auth routeModel k)"

definition pool_model :: "alias_decoder \<Rightarrow> model_router \<Rightarrow> Auth \<Rightarrow> string \<Rightarrow> string" where
  "pool_model unmarshal rt auth routeModel =
     applyOAuthModelAlias unmarshal (rt_oauthModelAlias rt) auth (rewriteModelForAuth routeModel auth)"

definition model_pool :: "alias_decoder \<Rightarrow> model_router \<Rightarrow> Auth \<Rightarrow> string \<Rightarrow> string list" where
  "model_pool unmarshal rt auth routeModel =
     resolveOpenAICompatUpstreamModelPool (rt_config rt) auth (pool_model unmarshal rt auth routeModel)"

definition pool_key :: "alias_decoder \<Rightarrow> model_router \<Rightarrow> Auth \<Rightarrow> string \<Rightarrow> string" where
  "pool_key unmarshal rt auth routeModel =
     trim_space (openAICompatModelPoolKey auth (pool_model unmarshal rt auth routeModel))"

definition pool_offset :: "alias_decoder \<Rightarrow> model_router \<Rightarrow> Auth \<Rightarrow> string \<Rightarrow> int" where
  "pool_offset unmarshal rt auth routeModel =
     get_or 0 (rt_modelPoolOffsets rt) (pool_key unmarshal rt auth routeModel)"

lemma pool_frame [simp]:
  "model_pool unmarshal (rt\<lparr>rt_modelPoolOffsets := offsets\<rparr>) auth route = model_pool unmarshal rt auth route"
  "pool_key unmarshal (rt\<lparr>rt_modelPoolOffsets := offsets\<rparr>) auth route = pool_key unmarshal rt auth route"
  by (simp_all add: model_pool_def pool_key_def pool_model_def)

lemma candidates_step:
  assumes "authAttribute auth ''home_upstream_model'' = []" and "1 < length (model_pool unmarshal rt auth route)"
    and "0 \<le> pool_offset unmarshal rt auth route" and "pool_offset unmarshal rt auth route < max_pool_offset"
  shows "executionModelCandidates unmarshal rt auth route =
    (rt\<lparr>rt_modelPoolOffsets := AList.update (pool_key unmarshal rt auth route)
        (pool_offset unmarshal rt auth route + 1) (rt_modelPoolOffsets rt)\<rparr>,
     rotate (nat (pool_offset unmarshal rt auth route)) (model_pool unmarshal rt auth route))"
proof -
  let ?pool = "model_pool unmarshal rt auth route"
  have ne: "?pool \<noteq> []" "length ?pool \<noteq> 1" "\<not> length ?pool \<le> 1" using assms(2) by auto
  have mod: "nat (k mod int (length ?pool)) = nat k mod length ?pool" if "0 \<le> k" for k
    using that by (simp add: nat_mod_distrib)
  have "rotate (nat k mod length ?pool) ?pool = rotate (nat k) ?pool" for k
    by (metis rotate_conv_mod)
  moreover have "pool_key unmarshal rt auth route \<noteq> []" by (simp add: pool_key_def pool_key_ne)
  ultimately show ?thesis using ne assms
    unfolding executionModelCandidates_def pool_or_alias_def nextModelPoolOffset_def
    by (simp add: Let_def rotateStrings_rotate mod pool_offset_def
        flip: pool_model_def model_pool_def pool_key_def)
qed

lemma candidate_run_rotates:
  assumes "authAttribute auth ''home_upstream_model'' = []" and "1 < length (model_pool unmarshal rt auth route)"
    and "0 \<le> pool_offset unmarshal rt auth route"
    and "pool_offset unmarshal rt auth route + int k \<le> max_pool_offset"
  shows "candidate_run unmarshal rt auth route k =
    List.map (\<lambda>i. rotate (nat (pool_offset unmarshal rt auth route) + i) (model_pool unmarshal rt auth route)) [0..<k]"
  using assms
proof (induction k arbitrary: rt)
  case 0
  then show ?case by simp
next
  case (Suc k)
  let ?rt = "rt\<lparr>rt_modelPoolOffsets := AList.update (pool_key unmarshal rt auth route)
      (pool_offset unmarshal rt auth route + 1) (rt_modelPoolOffsets rt)\<rparr>"
  have off: "pool_offset unmarshal ?rt auth route = pool_offset unmarshal rt auth route + 1"
    by (simp add: pool_offset_def)
  have "candidate_run unmarshal ?rt auth route k =
      List.map (\<lambda>i. rotate (nat (pool_offset unmarshal rt auth route) + Suc i) (model_pool unmarshal rt auth route)) [0..<k]"
    using Suc.IH [of ?rt] Suc.prems by (simp add: off nat_add_distrib)
  moreover note candidates_step [OF Suc.prems(1-3)]
  ultimately show ?case using Suc.prems by (simp add: map_upt_Suc del: upt_Suc)
qed


section \<open>The compiled table and the scan\<close>

text \<open>
  Models as a configuration usually lists them: every entry has a name and an alias, neither carries a
  suffix, and an alias that is also the name of an entry stands for the model of that name.
\<close>

definition plain_models :: "'a alias_entry_scheme list \<Rightarrow> bool" where
  "plain_models models \<longleftrightarrow>
     (\<forall>m \<in> set models. trim_space (al_Name m) \<noteq> [] \<and> trim_space (al_Alias m) \<noteq> []
        \<and> \<not> sr_HasSuffix (ParseSuffix (trim_space (al_Name m)))
        \<and> \<not> sr_HasSuffix (ParseSuffix (trim_space (al_Alias m)))
        \<and> (\<forall>m' \<in> set models. equal_fold (trim_space (al_Alias m)) (trim_space (al_Name m'))
             \<longrightarrow> trim_space (al_Name m) = trim_space (al_Name m')))"

lemma plain_same:
  assumes "plain_models models" and "m \<in> set models" and "m' \<in> set models"
    and "equal_fold (trim_space (al_Alias m)) (trim_space (al_Name m'))"
  shows "trim_space (al_Name m) = trim_space (al_Name m')"
  using assms unfolding plain_models_def by blast

lemma lower_paren: "lower_char c = CHR ''('' \<longleftrightarrow> c = CHR ''(''" "lower_char c = CHR '')'' \<longleftrightarrow> c = CHR '')''"
  by (auto simp: lower_char_def Let_def of_char_eq_iff dest!: arg_cong [where f = "of_char :: char \<Rightarrow> nat"])

lemma last_index_lower: "last_index (to_lower s) CHR ''('' = last_index s CHR ''(''"
  by (induction s) (auto simp: to_lower_def lower_paren split: option.splits)

lemma has_suffix_char: "has_suffix s [c] \<longleftrightarrow> s \<noteq> [] \<and> last s = c"
  by (cases s rule: rev_cases) (auto simp: has_suffix_def)

lemma HasSuffix_lower: "sr_HasSuffix (ParseSuffix (to_lower s)) = sr_HasSuffix (ParseSuffix s)"
proof -
  have "last (to_lower s) = lower_char (last s)" if "s \<noteq> []" using that by (simp add: to_lower_def last_map)
  then have "has_suffix (to_lower s) '')'' = has_suffix s '')''"
    by (cases "s = []") (simp_all add: has_suffix_char lower_paren)
  then show ?thesis by (auto simp: ParseSuffix_def last_index_lower split: option.splits)
qed

lemma HasSuffix_fold: "equal_fold s t \<Longrightarrow> sr_HasSuffix (ParseSuffix s) = sr_HasSuffix (ParseSuffix t)"
  by (metis HasSuffix_lower equal_fold_def)

lemma no_suffix_name: "\<not> sr_HasSuffix (ParseSuffix s) \<Longrightarrow> sr_ModelName (ParseSuffix s) = s"
  by (auto simp: ParseSuffix_def split: option.splits)

lemma add_route_get:
  "map_of (add_route k name out) x =
     (case map_of out x of Some v \<Rightarrow> Some v
      | None \<Rightarrow> if x \<noteq> [] \<and> x = to_lower (trim_space k) then Some name else None)"
  by (auto simp: add_route_def Let_def has_key_def split: option.splits)

definition routes_to :: "string \<Rightarrow> 'a alias_entry_scheme \<Rightarrow> bool" where
  "routes_to x m \<longleftrightarrow> x = to_lower (trim_space (al_Alias m)) \<or> x = to_lower (trim_space (al_Name m))"

lemma compile_get:
  assumes "plain_models models" and "x \<noteq> []"
  shows "map_of (compileAPIKeyModelAliasForModels models) x =
    map_option (\<lambda>m. trim_space (al_Name m)) (List.find (routes_to x) models)"
proof -
  have "map_of (fold compile_model ms out) x =
      (case map_of out x of Some v \<Rightarrow> Some v
       | None \<Rightarrow> map_option (\<lambda>m. trim_space (al_Name m)) (List.find (routes_to x) ms))"
    if "set ms \<subseteq> set models" for ms out using that
  proof (induction ms arbitrary: out)
    case Nil
    then show ?case by (simp split: option.splits)
  next
    case (Cons m ms)
    then have "trim_space (al_Name m) \<noteq> []" "trim_space (al_Alias m) \<noteq> []"
      "sr_ModelName (ParseSuffix (trim_space (al_Name m))) = trim_space (al_Name m)"
      "sr_ModelName (ParseSuffix (trim_space (al_Alias m))) = trim_space (al_Alias m)"
      using assms(1) by (auto simp: plain_models_def no_suffix_name)
    with assms(2) have "map_of (compile_model m out) x =
        (case map_of out x of Some v \<Rightarrow> Some v
         | None \<Rightarrow> if routes_to x m then Some (trim_space (al_Name m)) else None)"
      by (auto simp: compile_model_def Let_def add_route_get routes_to_def split: option.splits)
    with Cons show ?case by (auto split: option.splits)
  qed
  from this [of models "[]"] show ?thesis by (simp add: compileAPIKeyModelAliasForModels_def)
qed

lemma preserve_ne: "trim_space name \<noteq> [] \<Longrightarrow> trim_space (preserveResolvedModelSuffix name r) \<noteq> []"
  using trim_space_eq_Nil [of "trim_space name"]
  by (auto simp: preserveResolvedModelSuffix_def Let_def trim_space_eq_Nil)

lemma pool_loop_hd:
  assumes "plain_models models" and "c \<noteq> []"
  shows "(case pool_loop c r [] models of [] \<Rightarrow> None | p # _ \<Rightarrow> Some p) =
    map_option (\<lambda>m. preserveResolvedModelSuffix (trim_space (al_Name m)) r)
      (List.find (\<lambda>m. equal_fold (trim_space (al_Alias m)) c) models)"
proof -
  have "(case pool_loop c r [] ms of [] \<Rightarrow> None | p # _ \<Rightarrow> Some p) =
      map_option (\<lambda>m. preserveResolvedModelSuffix (trim_space (al_Name m)) r)
        (List.find (\<lambda>m. equal_fold (trim_space (al_Alias m)) c) ms)"
    if "set ms \<subseteq> set models" for ms using that
  proof (induction ms)
    case (Cons m ms)
    then have "trim_space (al_Name m) \<noteq> []" "trim_space (al_Alias m) \<noteq> []"
      using assms(1) by (auto simp: plain_models_def)
    with preserve_ne [of "trim_space (al_Name m)" r] Cons assms(2) show ?case by (auto simp: Let_def)
  qed simp
  then show ?thesis by simp
qed

lemma find_either:
  "List.find A xs = Some a \<Longrightarrow>
   \<exists>f. List.find (\<lambda>x. A x \<or> N x) xs = Some f \<and> f \<in> set xs \<and> (f = a \<or> N f)"
  by (induction xs) (auto split: if_splits)

lemma find_other: "List.find A xs = None \<Longrightarrow> List.find (\<lambda>x. A x \<or> N x) xs = List.find N xs"
  by (induction xs) (auto split: if_splits)

text \<open>One candidate, through the table and through the scan.\<close>

lemma one_candidate:
  assumes plain: "plain_models models" and "c \<noteq> []"
  shows "(case map_of (compileAPIKeyModelAliasForModels models) (to_lower c) of None \<Rightarrow> []
      | Some name \<Rightarrow> preserveResolvedModelSuffix name r) =
    (case (if pool_loop c r [] models \<noteq> [] then pool_loop c r [] models else first_name r models [c]) of
       [] \<Rightarrow> [] | resolved # _ \<Rightarrow> resolved)"
proof -
  let ?A = "\<lambda>m. equal_fold (trim_space (al_Alias m)) c" and ?N = "\<lambda>m. equal_fold (trim_space (al_Name m)) c"
  have F: "List.find (routes_to (to_lower c)) models = List.find (\<lambda>m. ?A m \<or> ?N m) models"
    by (rule find_cong) (auto simp: routes_to_def equal_fold_def)
  note get = compile_get [OF plain, of "to_lower c"] pool_loop_hd [OF assms, of r]
  show ?thesis
  proof (cases "List.find ?A models")
    case (Some a)
    from find_either [OF this, of ?N] obtain f where f: "List.find (\<lambda>m. ?A m \<or> ?N m) models = Some f"
      "f \<in> set models" "f = a \<or> ?N f" by blast
    from Some have a: "a \<in> set models" "?A a" by (auto simp: find_Some_iff)
    have "trim_space (al_Name f) = trim_space (al_Name a)"
    proof (cases "f = a")
      case False
      with f(3) a(2) have "equal_fold (trim_space (al_Alias a)) (trim_space (al_Name f))" by (simp add: equal_fold_def)
      with plain_same [OF plain a(1) f(2)] show ?thesis by simp
    qed simp
    moreover from get(2) Some have "pool_loop c r [] models \<noteq> []"
      "hd (pool_loop c r [] models) = preserveResolvedModelSuffix (trim_space (al_Name a)) r"
      by (simp_all split: list.splits)
    moreover from get(1) F f(1) assms(2)
    have "map_of (compileAPIKeyModelAliasForModels models) (to_lower c) = Some (trim_space (al_Name f))" by simp
    ultimately show ?thesis by (cases "pool_loop c r [] models") simp_all
  next
    case None
    then have N: "List.find (\<lambda>m. ?A m \<or> ?N m) models = List.find ?N models" by (rule find_other)
    have named: "List.find (\<lambda>m. c \<noteq> [] \<and> trim_space (al_Name m) \<noteq> [] \<and> ?N m) models = List.find ?N models"
      by (rule find_cong) (use plain assms(2) in \<open>auto simp: plain_models_def\<close>)
    from get(2) None have "pool_loop c r [] models = []" by (simp split: list.splits)
    moreover from get(1) F N assms(2) have "map_of (compileAPIKeyModelAliasForModels models) (to_lower c) =
        map_option (\<lambda>m. trim_space (al_Name m)) (List.find ?N models)" by simp
    moreover have "first_name r models [c] = (case List.find ?N models of
        Some m \<Rightarrow> [preserveResolvedModelSuffix (trim_space (al_Name m)) r] | None \<Rightarrow> [])"
      by (simp only: first_name.simps named)
    ultimately show ?thesis by (simp split: option.splits)
  qed
qed


lemma no_match_suffix:
  assumes "plain_models models" and "sr_HasSuffix (ParseSuffix requested)" and "requested \<noteq> []"
  shows "map_of (compileAPIKeyModelAliasForModels models) (to_lower requested) = None"
    and "pool_loop requested r [] models = []" and "first_name r models [requested] = []"
proof -
  have no: "\<not> equal_fold (trim_space (al_Alias m)) requested" "\<not> equal_fold (trim_space (al_Name m)) requested"
    if "m \<in> set models" for m using that assms(1,2) HasSuffix_fold unfolding plain_models_def by blast+
  have "\<not> routes_to (to_lower requested) m" if "m \<in> set models" for m
    using no [OF that] by (simp add: routes_to_def equal_fold_def)
  then have "List.find (routes_to (to_lower requested)) models = None" by (auto simp: find_None_iff)
  with compile_get [OF assms(1), of "to_lower requested"] assms(3)
  show "map_of (compileAPIKeyModelAliasForModels models) (to_lower requested) = None" by simp
  from no have "List.find (\<lambda>m. equal_fold (trim_space (al_Alias m)) requested) models = None"
    by (auto simp: find_None_iff)
  with pool_loop_hd [OF assms(1,3), of r] show "pool_loop requested r [] models = []" by (simp split: list.splits)
  from no have "List.find (\<lambda>m. requested \<noteq> [] \<and> trim_space (al_Name m) \<noteq> []
      \<and> equal_fold (trim_space (al_Name m)) requested) models = None"
    by (auto simp: find_None_iff)
  then show "first_name r models [requested] = []" by simp
qed

lemma table_names_trimmed:
  assumes "plain_models models" and "map_of (compileAPIKeyModelAliasForModels models) (to_lower c) = Some name"
    and "c \<noteq> []"
  shows "trim_space name = name" "name \<noteq> []"
proof -
  from compile_get [OF assms(1), of "to_lower c"] assms(2,3)
  have "map_option (\<lambda>m. trim_space (al_Name m)) (List.find (routes_to (to_lower c)) models) = Some name" by simp
  then obtain m where "List.find (routes_to (to_lower c)) models = Some m" and name: "name = trim_space (al_Name m)"
    by (auto simp: map_option_eq_Some)
  then have "m \<in> set models" by (auto simp: find_Some_iff)
  with assms(1) name show "trim_space name = name" "name \<noteq> []" by (auto simp: plain_models_def)
qed

lemma lookup_one:
  assumes "plain_models models" and "c \<noteq> []"
  shows "lookup_routes requested (compileAPIKeyModelAliasForModels models) (to_lower c # keys) =
    (case map_of (compileAPIKeyModelAliasForModels models) (to_lower c) of
       None \<Rightarrow> lookup_routes requested (compileAPIKeyModelAliasForModels models) keys
     | Some name \<Rightarrow> preserveResolvedModelSuffix name (ParseSuffix requested))"
  using table_names_trimmed [OF assms(1) _ assms(2)]
  by (auto simp: get_or_def preserveRequestedModelSuffix_def split: option.splits)

lemma lookup_single:
  assumes "plain_models models" and "c \<noteq> []"
  shows "lookup_routes requested (compileAPIKeyModelAliasForModels models) [to_lower c] =
    (case map_of (compileAPIKeyModelAliasForModels models) (to_lower c) of
       None \<Rightarrow> [] | Some name \<Rightarrow> preserveResolvedModelSuffix name (ParseSuffix requested))"
  unfolding lookup_one [OF assms] by (simp split: option.splits)

definition route_keys :: "string \<Rightarrow> string list" where
  "route_keys requested =
     (let lowered = to_lower requested; baseKey = to_lower (trim_space (sr_ModelName (ParseSuffix requested)))
      in lowered # (if baseKey \<noteq> [] \<and> baseKey \<noteq> lowered then [baseKey] else []))"

lemma suffix_base:
  "sr_HasSuffix (ParseSuffix s) \<Longrightarrow> length (sr_ModelName (ParseSuffix s)) < length s"
  by (auto simp: ParseSuffix_def dest: last_index_less split: option.splits if_splits)

lemma first_of_none: "first_pool r [] candidates = []" "first_name r [] candidates = []"
  by (induction candidates) simp_all

lemma scan_candidates:
  assumes "trim_space requested = requested" and "requested \<noteq> []"
    and "modelAliasLookupCandidates requested = (r, candidates)"
  shows "resolveModelAliasFromConfigModels requested models =
    (case (if first_pool r models candidates \<noteq> [] then first_pool r models candidates
           else first_name r models candidates) of [] \<Rightarrow> [] | resolved # _ \<Rightarrow> resolved)"
  using assms by (cases "models = []")
    (simp_all add: resolveModelAliasFromConfigModels_def resolveModelAliasPoolFromConfigModels_def first_of_none)

lemma lookup_is_scan:
  assumes plain: "plain_models models" and req: "trim_space requested = requested" "requested \<noteq> []"
    and base: "trim_space (sr_ModelName (ParseSuffix requested)) = sr_ModelName (ParseSuffix requested)"
  shows "lookup_routes requested (compileAPIKeyModelAliasForModels models) (route_keys requested) =
    resolveModelAliasFromConfigModels requested models"
proof -
  let ?r = "ParseSuffix requested" and ?table = "compileAPIKeyModelAliasForModels models"
  let ?base = "sr_ModelName ?r"
  have pool_one: "first_pool r models [c] = pool_loop c r [] models" for r c by (simp add: Let_def)
  show ?thesis
  proof (cases "sr_HasSuffix ?r")
    case False
    then have keys: "route_keys requested = [to_lower requested]"
      by (simp add: route_keys_def Let_def no_suffix_name req)
    from False req have "modelAliasLookupCandidates requested = (?r, [requested])"
      by (simp add: modelAliasLookupCandidates_def Let_def no_suffix_name)
    note scan_candidates [OF req this, of models, unfolded pool_one]
    with one_candidate [OF plain req(2), of ?r] lookup_single [OF plain req(2), of requested] keys
    show ?thesis by (simp only:)
  next
    case True
    note none = no_match_suffix [OF plain True req(2)]
    from suffix_base [OF True] have ne: "?base \<noteq> requested" and len: "to_lower ?base \<noteq> to_lower requested"
      by (auto simp: to_lower_def dest!: arg_cong [where f = length])
    show ?thesis
    proof (cases "?base = []")
      case True
      then have "route_keys requested = [to_lower requested]" by (simp add: route_keys_def Let_def)
      moreover from True req have "modelAliasLookupCandidates requested = (?r, [requested])"
        by (simp add: modelAliasLookupCandidates_def Let_def)
      note scan_candidates [OF req this, of models, unfolded pool_one]
      ultimately show ?thesis using none(1) none(2,3) [of ?r] lookup_single [OF plain req(2), of requested]
        by (simp del: first_name.simps(2))
    next
      case False
      with len base have "route_keys requested = [to_lower requested, to_lower ?base]"
        by (simp add: route_keys_def Let_def)
      moreover from False ne req have "modelAliasLookupCandidates requested = (?r, [requested, ?base])"
        by (simp add: modelAliasLookupCandidates_def Let_def)
      note scan_candidates [OF req this, of models]
      moreover have "first_name ?r models [requested, ?base] = first_name ?r models [?base]"
        using none(3) [of ?r] by (simp split: option.splits)
      moreover have "first_pool ?r models [requested, ?base] = pool_loop ?base ?r [] models"
        using none(2) [of ?r] by (simp add: Let_def)
      ultimately show ?thesis
        using one_candidate [OF plain False, of ?r] none(1) lookup_one [OF plain req(2), of requested "[to_lower ?base]"]
          lookup_single [OF plain False, of requested]
        by (simp del: first_name.simps(2))
    qed
  qed
qed


text \<open>The scan of the provider's entry is the scan of the configured models of the credential.\<close>

lemma resolve_entry_models: "resolve_entry requested entry = resolveModelAliasFromConfigModels requested (models_of_entry entry)"
  by (cases entry) (simp_all add: resolve_entry_def models_of_entry_def resolveModelAliasFromConfigModels_def
      resolveModelAliasPoolFromConfigModels_def)

lemma scan_of_no_models [simp]: "resolveModelAliasFromConfigModels requested [] = []"
  by (simp add: resolveModelAliasFromConfigModels_def resolveModelAliasPoolFromConfigModels_def)

lemma scan_upstream_models:
  "scan_upstream cfg auth requested = resolveModelAliasFromConfigModels requested (configuredModelAliasEntries cfg auth)"
  unfolding scan_upstream_def configuredModelAliasEntries_def Let_def
    resolveUpstreamModelForGeminiAPIKey_def resolveUpstreamModelForInteractionsAPIKey_def
    resolveUpstreamModelForClaudeAPIKey_def resolveUpstreamModelForCodexAPIKey_def resolveUpstreamModelForXAIAPIKey_def
    resolveUpstreamModelForVertexAPIKey_def resolveUpstreamModelForMetaAPIKey_def
    resolveUpstreamModelForOpenAICompatAPIKey_def resolve_entry_models
  by (simp split: option.splits)

lemma rebuild_absent: "i \<notin> auth_ID ` set auths \<Longrightarrow> map_of (rebuildAPIKeyModelAliasLocked cfg auths) i = None"
  by (induction auths rule: rev_induct) (auto simp: rebuildAPIKeyModelAliasLocked_def Let_def)

lemma rebuild_get:
  assumes "distinct (List.map auth_ID auths)" and "auth \<in> set auths"
    and "trim_space (auth_ID auth) \<noteq> []" and "isConfiguredModelRoutingAuth auth"
  shows "get_or [] (rebuildAPIKeyModelAliasLocked cfg auths) (auth_ID auth) =
    compileAPIKeyModelAliasForModels (configuredModelAliasEntries cfg auth)"
  using assms(1,2)
proof (induction auths rule: rev_induct)
  case (snoc x auths)
  show ?case
  proof (cases "x = auth")
    case True
    with snoc.prems have "map_of (rebuildAPIKeyModelAliasLocked cfg auths) (auth_ID auth) = None"
      by (intro rebuild_absent) auto
    with True assms(3,4) show ?thesis
      by (simp add: rebuildAPIKeyModelAliasLocked_def Let_def) (simp add: get_or_def)
  next
    case False
    with snoc have "auth \<in> set auths" "auth_ID x \<noteq> auth_ID auth" by force+
    with snoc show ?thesis by (simp add: rebuildAPIKeyModelAliasLocked_def Let_def)
  qed
qed simp

text \<open>
  For plain models the compiled alias table of the API-key credentials is a cache: with the table
  built from the current configuration and credentials, every request resolves to the upstream model
  that the scan of the configuration alone finds.
\<close>

theorem alias_cache_transparent:
  assumes "rt_aliases rt = rebuildAPIKeyModelAliasLocked (rt_config rt) auths"
    and "auth \<in> set auths" and "distinct (List.map auth_ID auths)" and "trim_space (auth_ID auth) = auth_ID auth"
    and "plain_models (configuredModelAliasEntries (rt_config rt) auth)"
    and "trim_space (sr_ModelName (ParseSuffix (trim_space model))) = sr_ModelName (ParseSuffix (trim_space model))"
  shows "applyAPIKeyModelAlias rt auth model = applyAPIKeyModelAlias (rt\<lparr>rt_aliases := []\<rparr>) auth model"
proof (cases "AuthKind auth = ''apikey'' \<and> trim_space model \<noteq> [] \<and> auth_ID auth \<noteq> []")
  case True
  let ?requested = "trim_space model" and ?models = "configuredModelAliasEntries (rt_config rt) auth"
  from True have "isConfiguredModelRoutingAuth auth" by (simp add: isConfiguredModelRoutingAuth_def)
  with rebuild_get [OF assms(3,2)] assms(4) True
  have table: "get_or [] (rt_aliases rt) (auth_ID auth) = compileAPIKeyModelAliasForModels ?models"
    by (simp add: assms(1))
  have "lookupAPIKeyUpstreamModel (rt_aliases rt) (auth_ID auth) ?requested =
      (if compileAPIKeyModelAliasForModels ?models = [] then []
       else lookup_routes ?requested (compileAPIKeyModelAliasForModels ?models) (route_keys ?requested))"
    using True assms(4) by (simp add: lookupAPIKeyUpstreamModel_def Let_def table route_keys_def)
  with lookup_is_scan [OF assms(5), of ?requested] assms(6) True
  have "lookupAPIKeyUpstreamModel (rt_aliases rt) (auth_ID auth) ?requested = []
      \<or> lookupAPIKeyUpstreamModel (rt_aliases rt) (auth_ID auth) ?requested = scan_upstream (rt_config rt) auth ?requested"
    by (simp add: scan_upstream_models)
  moreover have "lookupAPIKeyUpstreamModel [] (auth_ID auth) ?requested = []"
    by (simp add: lookupAPIKeyUpstreamModel_def Let_def)
  ultimately show ?thesis using True by (auto simp: applyAPIKeyModelAlias_def Let_def)
next
  case False
  then show ?thesis using assms(4) by (auto simp: applyAPIKeyModelAlias_def Let_def lookupAPIKeyUpstreamModel_def)
qed

section \<open>Examples\<close>

definition no_config :: Config where
  "no_config = \<lparr>cf_GeminiKey = [], cf_InteractionsKey = [], cf_ClaudeKey = [], cf_CodexKey = [], cf_XAIKey = [],
     cf_VertexCompatAPIKey = [], cf_MetaKey = [], cf_OpenAICompatibility = [],
     cf_OAuthRequestScopedErrors = []\<rparr>"

definition alias_to :: "string \<Rightarrow> string \<Rightarrow> alias_entry" where
  "alias_to alias name = \<lparr>al_Name = name, al_Alias = alias, al_ForceMapping = False\<rparr>"

definition key_auth :: Auth where
  "key_auth = (new_auth ''c1'' ''codex'')\<lparr>auth_Attributes := [(''api_key'', ''k'')]\<rparr>"

definition codex_config :: "alias_entry list \<Rightarrow> Config" where
  "codex_config models = no_config\<lparr>cf_CodexKey :=
     [\<lparr>ke_APIKey = ''k'', ke_BaseURL = [], ke_Prefix = [], ke_ProxyURL = [], ke_Models = models,
       ke_RequestScopedErrors = []\<rparr>]\<rparr>"

definition router_for :: "Config \<Rightarrow> Auth list \<Rightarrow> model_router" where
  "router_for cfg auths = \<lparr>rt_config = cfg, rt_aliases = rebuildAPIKeyModelAliasLocked cfg auths,
     rt_oauthModelAlias = [], rt_modelPoolOffsets = []\<rparr>"

theorem alias_cache_transparent_witness:
  "applyAPIKeyModelAlias (router_for (codex_config [alias_to ''fast'' ''m-5'']) [key_auth]) key_auth ''FAST(low)'' =
     applyAPIKeyModelAlias ((router_for (codex_config [alias_to ''fast'' ''m-5'']) [key_auth])\<lparr>rt_aliases := []\<rparr>)
       key_auth ''FAST(low)''
   \<and> applyAPIKeyModelAlias (router_for (codex_config [alias_to ''fast'' ''m-5'']) [key_auth]) key_auth ''FAST(low)''
     = ''m-5(low)''"
proof
  have "configuredModelAliasEntries (codex_config [alias_to ''fast'' ''m-5'']) key_auth = [alias_to ''fast'' ''m-5'']"
    by code_simp
  moreover have "plain_models [alias_to ''fast'' ''m-5'']" by code_simp
  moreover have "trim_space (auth_ID key_auth) = auth_ID key_auth"
    "trim_space (sr_ModelName (ParseSuffix (trim_space ''FAST(low)''))) = sr_ModelName (ParseSuffix (trim_space ''FAST(low)''))"
    by code_simp+
  ultimately show "applyAPIKeyModelAlias (router_for (codex_config [alias_to ''fast'' ''m-5'']) [key_auth]) key_auth ''FAST(low)'' =
     applyAPIKeyModelAlias ((router_for (codex_config [alias_to ''fast'' ''m-5'']) [key_auth])\<lparr>rt_aliases := []\<rparr>)
       key_auth ''FAST(low)''"
    by (intro alias_cache_transparent [where auths = "[key_auth]"]) (simp_all add: router_for_def)
  show "applyAPIKeyModelAlias (router_for (codex_config [alias_to ''fast'' ''m-5'']) [key_auth]) key_auth ''FAST(low)''
     = ''m-5(low)''" by code_simp
qed

text \<open>
  The compiled table can shadow a configured alias. If an entry lists a model under its own name and a
  later entry makes that name the alias of another model, the table resolves the name to itself, while
  the scan, and the alias result that names the model in the response, resolve it to the other model.
\<close>

theorem alias_table_shadows:
  "let rt = router_for (codex_config [alias_to ''fast'' ''m-5'', alias_to ''m-5'' ''m-6'']) [key_auth]
   in applyAPIKeyModelAlias rt key_auth ''m-5'' = ''m-5''
    \<and> applyAPIKeyModelAlias (rt\<lparr>rt_aliases := []\<rparr>) key_auth ''m-5'' = ''m-6''
    \<and> ar_UpstreamModel (resolveAPIKeyModelAliasWithResult (rt_config rt) key_auth ''m-5'') = ''m-6''"
  by code_simp

definition compat_auth :: Auth where
  "compat_auth = (new_auth ''c2'' ''openrouter'')\<lparr>auth_Attributes := [(''api_key'', ''k''), (''compat_name'', ''router'')]\<rparr>"

definition compat_config :: Config where
  "compat_config = no_config\<lparr>cf_OpenAICompatibility := [\<lparr>oc_Name = ''Router'', oc_Disabled = False,
     oc_Models = [alias_to ''big'' ''a'', alias_to ''big'' ''b'', alias_to ''big'' ''A'', alias_to ''big'' ''c''],
     oc_RequestScopedErrors = []\<rparr>]\<rparr>"


end
