(* ===== verification/Delivery.thy ===== *)
theory Delivery
  imports Dispatch
begin

text \<open>
  What one delivery of a credential changes in the scheduler: which provider lists it and with which
  snapshot, the record of its generation, and the snapshots a shard can hand out. The manager rests on
  these facts.
\<close>

section \<open>Listings\<close>

definition scheduled :: "authScheduler \<Rightarrow> string \<Rightarrow> string \<Rightarrow> Auth option" where
  "scheduled s pk i = (case map_of (as_providers s) pk of
     None \<Rightarrow> None | Some p \<Rightarrow> map_option sm_auth (map_of (ps_auths p) i))"

definition schedulable :: "Auth \<Rightarrow> bool" where
  "schedulable a \<longleftrightarrow> executorKeyFromAuth a \<noteq> [] \<and> \<not> auth_Disabled a \<and> auth_Status a \<noteq> StatusDisabled"

lemma scheduled_listed:
  assumes "listed s" and "trim_space i = i" and "scheduled s pk i \<noteq> None"
  shows "pk \<noteq> []" "map_of (as_authProviders s) i = Some pk"
  using assms listed_at by (fastforce simp: scheduled_def split: option.splits)+

lemma scheduled_drop:
  assumes "listed s"
  shows "scheduled (drop_from_provider s pk0 i) pk j = (if pk = pk0 \<and> i \<noteq> [] \<and> j = i then None else scheduled s pk j)"
proof (cases "map_of (as_providers s) pk")
  case None
  then show ?thesis by (auto simp: scheduled_def drop_get)
next
  case (Some p)
  with assms have "shards_listed p" by (simp add: listed_def)
  from remove_listed(2) [OF this] Some show ?thesis by (auto simp: scheduled_def drop_get)
qed

lemma scheduled_record [simp]: "scheduled (record_generation s i e g u) pk j = scheduled s pk j"
  by (simp add: scheduled_def)

lemma scheduled_frame [simp]:
  "scheduled (s\<lparr>as_authProviders := ap\<rparr>) pk j = scheduled s pk j"
  "scheduled (s\<lparr>as_authGenerations := g\<rparr>) pk j = scheduled s pk j"
  "scheduled (s\<lparr>as_mixedCursors := c\<rparr>) pk j = scheduled s pk j"
  "scheduled (s\<lparr>as_mixedWeightedStates := w\<rparr>) pk j = scheduled s pk j"
  "scheduled (s\<lparr>as_strategy := st\<rparr>) pk j = scheduled s pk j"
  by (simp_all add: scheduled_def)

lemma scheduled_remove:
  assumes "listed s" and "i \<noteq> []" and "trim_space i = i"
  shows "scheduled (removeAuthFromProvidersLocked s i) pk j = (if j = i then None else scheduled s pk j)"
proof (cases "j = i")
  case True
  with remove_from_listed(2) [OF assms] show ?thesis
    by (auto simp: scheduled_def absent_def split: option.split)
next
  case False
  then show ?thesis using scheduled_drop [OF assms(1)] by (simp add: removeAuthFromProvidersLocked_def Let_def)
qed

lemma scheduled_leave:
  assumes "listed s" and "i \<noteq> []" and "trim_space i = i"
  shows "scheduled (leave_previous s i pk0) pk j = (if pk \<noteq> pk0 \<and> j = i then None else scheduled s pk j)"
proof (cases "pk \<noteq> pk0 \<and> j = i")
  case True
  with leave_listed(2) [OF assms(1,2,3)] show ?thesis by (auto simp: scheduled_def split: option.split)
next
  case False
  then show ?thesis using scheduled_drop [OF assms(1)] by (auto simp: leave_previous_def Let_def)
qed

lemma scheduled_install:
  assumes "listed s" and "auth_ID (sm_auth meta) = i"
  shows "scheduled (install s i pk0 meta tg sc now) pk j =
    (if pk = pk0 \<and> j = i then Some (sm_auth meta) else scheduled s pk j)"
proof -
  define p where "p = ensureProviderLocked s pk0"
  have "shards_listed p"
    using assms(1) by (auto simp: p_def ensureProviderLocked_def listed_def shards_listed_def split: option.split)
  from upsert_listed(2) [OF this] assms(2)
  have "map_of (ps_auths (upsertAuthForModelsLocked p meta tg sc now)) j =
      (if j = i then Some meta else map_of (ps_auths p) j)" by simp
  moreover have "map_option sm_auth (map_of (ps_auths p) j) = scheduled s pk0 j"
    by (simp add: p_def ensureProviderLocked_def scheduled_def split: option.split)
  ultimately show ?thesis by (cases "j = i") (simp_all add: install_def scheduled_def p_def)
qed

definition generation_of :: "Auth \<Rightarrow> scheduledGenerationMeta" where
  "generation_of a = \<lparr>sg_epoch = auth_RegistrationEpoch a, sg_generation = auth_Generation a,
     sg_updatedAt = auth_UpdatedAt a\<rparr>"

lemma generations_frame [simp]:
  "as_authGenerations (drop_from_provider s pk i) = as_authGenerations s"
  "as_authGenerations (removeAuthFromProvidersLocked s i) = as_authGenerations s"
  "as_authGenerations (leave_previous s i pk) = as_authGenerations s"
  "as_authGenerations (install s i pk meta tg sc now) = as_authGenerations s"
  by (auto simp: drop_get removeAuthFromProvidersLocked_def leave_previous_def install_def Let_def)

lemma build_sel [simp]: "sm_auth (buildScheduledAuthMetaWithModelSet a ms ep) = a"
  by (simp add: buildScheduledAuthMetaWithModelSet_def)

text \<open>
  A delivery that is not stale, by either path: the credential is listed under its own provider, with
  this snapshot, if it may be scheduled, and nowhere else; other credentials are left alone.
\<close>

definition delivered :: "Auth \<Rightarrow> authScheduler \<Rightarrow> authScheduler \<Rightarrow> bool" where
  "delivered a s s' \<longleftrightarrow>
     (\<forall>pk j. scheduled s' pk j =
        (if j = auth_ID a then (if schedulable a \<and> pk = executorKeyFromAuth a then Some a else None)
         else scheduled s pk j))
     \<and> (\<forall>j. map_of (as_authGenerations s') j =
          (if j = auth_ID a then Some (generation_of a) else map_of (as_authGenerations s) j))"

lemma delivered_install:
  assumes "listed s" and "auth_ID a \<noteq> []" and "trim_space (auth_ID a) = auth_ID a" and "schedulable a"
    and "sm_auth meta = a"
  shows "delivered a s (install (leave_previous (record_generation s (auth_ID a) (auth_RegistrationEpoch a)
      (auth_Generation a) (auth_UpdatedAt a)) (auth_ID a) (executorKeyFromAuth a)) (auth_ID a)
      (executorKeyFromAuth a) meta tg sc now)"
proof -
  have l: "listed (leave_previous (record_generation s (auth_ID a) (auth_RegistrationEpoch a)
      (auth_Generation a) (auth_UpdatedAt a)) (auth_ID a) (executorKeyFromAuth a))"
    using leave_listed(1) [OF _ assms(2)] assms(1) by simp
  have r: "listed (record_generation s i e g u)" for i e g u using assms(1) by simp
  show ?thesis unfolding delivered_def
    using assms(4,5) scheduled_install [OF l] scheduled_leave [OF r assms(2,3)]
    by (auto simp: generation_of_def record_generation_def)
qed

lemma delivered_remove:
  assumes "listed s" and "auth_ID a \<noteq> []" and "trim_space (auth_ID a) = auth_ID a" and "\<not> schedulable a"
  shows "delivered a s (removeAuthFromProvidersLocked (record_generation s (auth_ID a) (auth_RegistrationEpoch a)
      (auth_Generation a) (auth_UpdatedAt a)) (auth_ID a))"
proof -
  have r: "listed (record_generation s i e g u)" for i e g u using assms(1) by simp
  show ?thesis unfolding delivered_def
    using assms(4) scheduled_remove [OF r assms(2,3)] by (auto simp: generation_of_def record_generation_def)
qed

lemma lifecycle_delivered:
  assumes "listed s" and "auth_ID a \<noteq> []" and "trim_space (auth_ID a) = auth_ID a"
    and "\<not> isStaleScheduledAuth s (auth_ID a) (auth_RegistrationEpoch a) (auth_Generation a) (auth_UpdatedAt a)"
  shows "delivered a s (upsertAuthLifecycleLocked registry s a now)"
  using delivered_install [OF assms(1-3)] delivered_remove [OF assms(1-3)] assms(2-4)
  by (auto simp: upsertAuthLifecycleLocked_def Let_def schedulable_def)

lemma result_delivered:
  assumes "listed s" and "auth_ID a \<noteq> []" and "trim_space (auth_ID a) = auth_ID a"
    and "\<not> isStaleScheduledAuth s (auth_ID a) (auth_RegistrationEpoch a) (auth_Generation a) (auth_UpdatedAt a)"
  shows "delivered a s (upsertAuthResultLocked registry s a targets scoped now)"
  using delivered_install [OF assms(1-3)] delivered_remove [OF assms(1-3)] assms(2-4)
  by (auto simp: upsertAuthResultLocked_def Let_def schedulable_def)

lemma tombstone_delivered:
  assumes "listed s" and "i \<noteq> []" and "trim_space i = i"
    and "\<And>g. map_of (as_authGenerations s) i = Some g \<Longrightarrow> sg_epoch g \<le> epoch"
  shows "scheduled (RecordRemovalTombstone s i epoch now) pk j = (if j = i then None else scheduled s pk j)"
    and "map_of (as_authGenerations (RecordRemovalTombstone s i epoch now)) j =
      (if j = i then Some \<lparr>sg_epoch = epoch, sg_generation = 0, sg_updatedAt = now\<rparr>
       else map_of (as_authGenerations s) j)"
proof -
  have r: "RecordRemovalTombstone s i epoch now =
      removeAuthFromProvidersLocked (record_generation s i epoch 0 now) i"
    using assms(2,3,4) by (fastforce simp: RecordRemovalTombstone_def Let_def split: option.split)
  have l: "listed (record_generation s i epoch 0 now)" using assms(1) by simp
  from scheduled_remove [OF l assms(2,3)]
  show "scheduled (RecordRemovalTombstone s i epoch now) pk j = (if j = i then None else scheduled s pk j)"
    by (simp add: r)
  show "map_of (as_authGenerations (RecordRemovalTombstone s i epoch now)) j =
      (if j = i then Some \<lparr>sg_epoch = epoch, sg_generation = 0, sg_updatedAt = now\<rparr>
       else map_of (as_authGenerations s) j)"
    by (simp add: r) (simp add: record_generation_def)
qed

text \<open>Picks change no list.\<close>

lemma kept_scheduled:
  assumes "kept s s'"
  shows "scheduled s' pk j = scheduled s pk j" and "as_authGenerations s' = as_authGenerations s"
proof -
  have "lists_of s' pk = lists_of s pk" using assms by (simp add: kept_def)
  then show "scheduled s' pk j = scheduled s pk j"
    by (auto simp: lists_of_def scheduled_def split: option.splits)
  show "as_authGenerations s' = as_authGenerations s" using assms by (simp add: kept_def)
qed

section \<open>The lists are maps\<close>

definition wf_lists :: "authScheduler \<Rightarrow> bool" where
  "wf_lists s \<longleftrightarrow> (\<forall>pk au. lists_of s pk = Some au \<longrightarrow> wf_map au)"

lemma wf_lists_alt: "wf_lists s \<longleftrightarrow> (\<forall>pk p. map_of (as_providers s) pk = Some p \<longrightarrow> wf_map (ps_auths p))"
  by (auto simp: wf_lists_def lists_of_def)

lemma wf_single [simp]: "wf_map [(k, v)]"
  by (simp add: wf_map_def)

lemma kept_wf: "kept s s' \<Longrightarrow> wf_lists s' = wf_lists s"
  by (simp add: kept_def wf_lists_def)

lemma upsert_auths [simp]:
  "ps_auths (upsertAuthForModelsLocked p meta tg sc now) = AList.update (auth_ID (sm_auth meta)) meta (ps_auths p)"
  by (simp add: upsertAuthForModelsLocked_def updateTargetShardsLocked_def Let_def)

lemma drop_wf: "wf_lists s \<Longrightarrow> wf_lists (drop_from_provider s pk i)"
  by (auto simp: wf_lists_alt drop_get provider_removeAuthLocked_def split: if_splits)

lemma record_wf [simp]: "wf_lists (record_generation s i e g u) = wf_lists s"
  by (simp add: wf_lists_alt)

lemma remove_wf: "wf_lists s \<Longrightarrow> wf_lists (removeAuthFromProvidersLocked s i)"
  using drop_wf by (auto simp: removeAuthFromProvidersLocked_def Let_def wf_lists_alt)

lemma leave_wf: "wf_lists s \<Longrightarrow> wf_lists (leave_previous s i pk)"
  by (simp add: leave_previous_def Let_def drop_wf)

lemma install_wf: "wf_lists s \<Longrightarrow> wf_lists (install s i pk meta tg sc now)"
  by (auto simp: wf_lists_alt install_def ensureProviderLocked_def split: option.split)

lemma lifecycle_wf: "wf_lists s \<Longrightarrow> wf_lists (upsertAuthLifecycleLocked registry s auth now)"
  by (simp add: upsertAuthLifecycleLocked_def Let_def remove_wf install_wf leave_wf)

lemma result_wf: "wf_lists s \<Longrightarrow> wf_lists (upsertAuthResultLocked registry s auth tg sc now)"
proof -
  assume wf: "wf_lists s"
  then have "wf_lists (s\<lparr>as_providers := AList.update pk (upsertAuthForModelsLocked p meta tg sc now) (as_providers s)\<rparr>)"
    if "map_of (as_providers s) pk = Some p" for pk p meta
    using that by (auto simp: wf_lists_alt)
  with wf show ?thesis
    by (auto simp: upsertAuthResultLocked_def Let_def remove_wf install_wf leave_wf split: option.split)
qed

lemma fold_lifecycle_wf: "wf_lists s \<Longrightarrow> wf_lists (fold (\<lambda>auth s. upsertAuthLifecycleLocked registry s auth now) auths s)"
  by (induction auths arbitrary: s) (simp_all add: lifecycle_wf)

lemma sched_reach_wf: "sched_reach t s \<Longrightarrow> wf_lists s"
proof (induction rule: sched_reach.induct)
  case (created t selector)
  then show ?case by (simp add: newAuthScheduler_def wf_lists_alt)
next
  case (selector t s sel)
  then show ?case by (simp add: setSelector_def wf_lists_alt)
next
  case (rebuilt t s now registry auths)
  then show ?case unfolding rebuild_def by (intro fold_lifecycle_wf) (simp add: wf_lists_alt)
next
  case (removed t s now i)
  then show ?case by (simp add: removeAuth_def removeAuthLocked_def Let_def remove_wf)
next
  case (tombstone t s now i e)
  then show ?case by (simp add: RecordRemovalTombstone_def Let_def remove_wf split: option.split)
next
  case (reset t s i)
  then show ?case by (simp add: ResetAuthGeneration_def Let_def wf_lists_alt)
next
  case (single t s now1 now2 now3 provider model req strategy s' r)
  then show ?case using single_kept [OF sched_reach_inv] sched_reach_listed kept_wf by blast
next
  case (mixed t s now1 now2 now3 providers model req strategy s' r')
  then show ?case using mixed_kept [OF sched_reach_inv] sched_reach_listed kept_wf by blast
qed (simp_all add: lifecycle_wf result_wf)

section \<open>The snapshots a shard hands out\<close>

text \<open>
  Every snapshot of the credential that the scheduler could return for the model has the property: the one
  its provider lists, from which a new shard is filled, and the ones in the shards of the model.
\<close>

definition carries :: "authScheduler \<Rightarrow> string \<Rightarrow> string \<Rightarrow> (Auth \<Rightarrow> bool) \<Rightarrow> bool" where
  "carries s i key P \<longleftrightarrow> (\<forall>pk p. map_of (as_providers s) pk = Some p \<longrightarrow>
     (\<forall>meta. map_of (ps_auths p) i = Some meta \<longrightarrow> P (sm_auth meta))
     \<and> (\<forall>m e. map_of (ps_modelShards p) key = Some m \<longrightarrow> map_of (mo_entries m) i = Some e \<longrightarrow> P (sa_auth e)))"

lemma reevaluate_auth [simp]: "sa_auth (reevaluate key now e) = sa_auth e"
  by (simp add: reevaluate_def sa_auth_def split: prod.split)

lemma promoted_auth [simp]: "sa_auth (promoted key now e) = sa_auth e"
  by (simp add: promoted_def renewed_def sa_auth_def)

lemma fold_upsert_carries:
  assumes "\<forall>(j, meta) \<in> set metas. auth_ID (sm_auth meta) = j" and "wf_map metas"
    and "\<forall>e. map_of (mo_entries sh) i = Some e \<longrightarrow> P (sa_auth e)"
    and "\<forall>meta. map_of metas i = Some meta \<longrightarrow> P (sm_auth meta)"
  shows "\<forall>e. map_of (mo_entries (fold (\<lambda>(_, meta) shard.
     if \<not> supportsModel meta k' then shard else upsertEntryLocked shard meta now) metas sh)) i = Some e \<longrightarrow> P (sa_auth e)"
  using assms
proof (induction metas arbitrary: sh)
  case (Cons m metas)
  obtain j meta where m: "m = (j, meta)" by force
  have j: "auth_ID (sm_auth meta) = j" and jn: "j \<notin> fst ` set metas" using Cons.prems m by (auto simp: wf_map_Cons)
  have "\<forall>meta'. map_of metas i = Some meta' \<longrightarrow> P (sm_auth meta')"
  proof (cases "i = j")
    case True
    with jn have "map_of metas i = None" by (simp add: map_of_eq_None_iff)
    then show ?thesis by simp
  next
    case False
    with Cons.prems(4) m show ?thesis by simp
  qed
  moreover have "\<forall>e. map_of (mo_entries (upsertEntryLocked sh meta now)) i = Some e \<longrightarrow> P (sa_auth e)"
    using Cons.prems(3,4) m j by (auto simp: upsert_entries sa_auth_def reevaluate_def split: prod.split if_splits)
  ultimately show ?case using Cons m by (simp add: wf_map_Cons)
qed simp

lemma ensure_carries:
  assumes inv: "sched_inv t s" and wf: "wf_lists s" and c: "carries s i key P" and e: "ensure_shard s pk key0 now = (s', sh)"
  shows "carries s' i key P"
    and "sh = Some m \<Longrightarrow> canonicalModelKey key0 = key \<Longrightarrow> map_of (mo_entries m) i = Some en \<Longrightarrow> P (sa_auth en)"
proof -
  have "carries s' i key P \<and> (\<forall>m en. sh = Some m \<longrightarrow> canonicalModelKey key0 = key \<longrightarrow>
      map_of (mo_entries m) i = Some en \<longrightarrow> P (sa_auth en))"
  proof (cases "map_of (as_providers s) pk")
    case None
    with e c show ?thesis by (auto simp: ensure_shard_def)
  next
    case (Some p)
    let ?k = "canonicalModelKey key0"
    have p: "provider_inv t p" "wf_map (ps_auths p)" using inv wf Some by (auto simp: sched_inv_def wf_lists_alt)
    obtain m where m: "ensureModelLocked p key0 now = (p\<lparr>ps_modelShards := AList.update ?k m (ps_modelShards p)\<rparr>, m)"
      by (auto simp: ensureModelLocked_def Let_def)
    have ids: "\<forall>(j, meta) \<in> set (ps_auths p). auth_ID (sm_auth meta) = j" using p(1) by (auto simp: provider_inv_def)
    have listP: "\<forall>meta. map_of (ps_auths p) i = Some meta \<longrightarrow> P (sm_auth meta)" using c Some by (simp add: carries_def)
    have entry: "P (sa_auth en)" if k: "?k = key" and en: "map_of (mo_entries m) i = Some en" for en
    proof (cases "map_of (ps_modelShards p) ?k")
      case None
      with fold_upsert_carries [OF ids p(2) _ listP, of "empty_shard ?k" ?k now] m en show ?thesis
        by (simp add: ensureModelLocked_def Let_def empty_shard_def)
    next
      case (Some m0)
      then have "shard_inv ?k t m0" using p(1) by (auto simp: provider_inv_def shards_inv_def)
      from promote_entries(1) [OF this, of now i] m en Some
      have "map_option (promoted ?k now) (map_of (mo_entries m0) i) = Some en" by (auto simp: ensureModelLocked_def Let_def)
      then obtain e0 where "map_of (mo_entries m0) i = Some e0" "en = promoted ?k now e0"
        by (auto simp: map_option_eq_Some)
      with Some k c \<open>map_of (as_providers s) pk = Some p\<close> show ?thesis by (auto simp: carries_def)
    qed
    from e Some m have s': "s' = s\<lparr>as_providers := AList.update pk
        (p\<lparr>ps_modelShards := AList.update ?k m (ps_modelShards p)\<rparr>) (as_providers s)\<rparr>" and "sh = Some m"
      by (simp_all add: ensure_shard_def)
    moreover have "carries s' i key P" using c Some entry listP unfolding s' carries_def by auto
    ultimately show ?thesis using entry by auto
  qed
  then show "carries s' i key P"
    "sh = Some m \<Longrightarrow> canonicalModelKey key0 = key \<Longrightarrow> map_of (mo_entries m) i = Some en \<Longrightarrow> P (sa_auth en)"
    by blast+
qed

lemma put_carries:
  assumes "carries s i key P" and "mo_modelKey m = key \<Longrightarrow> \<forall>e. map_of (mo_entries m) i = Some e \<longrightarrow> P (sa_auth e)"
  shows "carries (put_shard s pk m) i key P"
  using assms by (auto simp: carries_def put_shard_def split: option.split)

lemma single_carries:
  assumes inv: "sched_inv t s" and wf: "wf_lists s" and c: "carries s i key P" and time: "t \<le> now1" "now1 \<le> now2"
    and pick: "pickSingleWithStrategy s provider model req strategy0 now1 now2 now3 = (s', r)"
  shows "carries s' i key P"
    and "r = Inr a \<Longrightarrow> auth_ID a = i \<Longrightarrow> canonicalModelKey (canonicalModelKey model) = key \<Longrightarrow> P a"
proof -
  let ?pk = "to_lower (trim_space provider)" and ?k = "canonicalModelKey (canonicalModelKey model)"
  define st where "st = (case strategy0 of None \<Rightarrow> as_strategy s | Some st \<Rightarrow> st)"
  define pred where "pred = scheduledAuthPredicate (rq_eligibility req) (rq_tried req) (rq_pinnedAuthID req)
    (st = schedulerStrategyWeightedRoundRobin)"
  have su: "suits st pred" unfolding pred_def by (rule predicate_suits)
  obtain pw where p: "pick_in_shard s ?pk (canonicalModelKey model) model pw st pred provider now1 now2 now3 = (s', r)"
    using pick by (auto simp: pickSingleWithStrategy_def Let_def st_def pred_def)
  obtain s1 sh where e: "ensure_shard s ?pk (canonicalModelKey model) now1 = (s1, sh)" by force
  note ec = ensure_carries [OF inv wf c e]
  have "carries s' i key P \<and> (\<forall>a. r = Inr a \<longrightarrow> auth_ID a = i \<longrightarrow> ?k = key \<longrightarrow> P a)"
  proof (cases sh)
    case None
    with p e ec(1) show ?thesis by (auto simp: pick_in_shard_def)
  next
    case (Some m)
    obtain m' picked where q: "pickReadyLocked m pw st pred now2 = (m', picked)" by force
    have m: "shard_inv ?k now1 m" "0 \<le> now2"
      using ensure_shard_inv [OF inv time(1) e] Some time(2) by (auto simp: sched_inv_def)
    note pi = shard_inv_pick [OF m(1) time(2) m(2) su q]
    have ent: "P (sa_auth en)" if "?k = key" "map_of (mo_entries m') i = Some en" for en
      using that pi promote_entries(1) [OF m(1), of now2 i] ec(2) [OF Some] by auto
    have "mo_modelKey m' = ?k" using pi by (auto simp: shard_inv_def)
    then have "carries (put_shard s1 ?pk m') i key P" using put_carries [OF ec(1)] ent by metis
    moreover have "P (sa_auth en)" if "picked = Some en" "auth_ID (sa_auth en) = i" "?k = key" for en
      using pickReadyLocked_sound [OF m(1) time(2) m(2) su] q that ent by (auto simp: entry_id_def)
    ultimately show ?thesis using p e Some q by (auto simp: pick_in_shard_def split: option.splits)
  qed
  then show "carries s' i key P"
    "r = Inr a \<Longrightarrow> auth_ID a = i \<Longrightarrow> canonicalModelKey (canonicalModelKey model) = key \<Longrightarrow> P a" by blast+
qed

text \<open>A delivery puts the snapshot into every shard it is meant for.\<close>

lemma sync_entry:
  assumes "map_of (mo_entries (syncShard meta now k m)) (auth_ID (sm_auth meta)) = Some e"
    and "auth_ID (sm_auth meta) \<noteq> []"
  shows "sa_auth e = sm_auth meta"
  using assms
  by (auto simp: syncShard_def removeEntry_get upsert_entries sa_auth_def reevaluate_def split: if_splits prod.splits)

lemma sync_targets_get:
  "map_of (sync_targets meta now seen ms shards) k =
     (if k \<in> canonicalModelKey ` set ms \<and> k \<notin> set seen then map_option (syncShard meta now k) (map_of shards k)
      else map_of shards k)"
  by (induction meta now seen ms shards rule: sync_targets.induct) (auto simp: Let_def split: option.split)

lemma upsert_covers:
  assumes "scoped \<or> targets = [] \<or> key \<in> canonicalModelKey ` set targets" and "auth_ID (sm_auth meta) \<noteq> []"
    and "map_of (ps_modelShards (upsertAuthForModelsLocked p meta targets scoped now)) key = Some m"
    and "map_of (mo_entries m) (auth_ID (sm_auth meta)) = Some e"
  shows "sa_auth e = sm_auth meta"
proof -
  have "\<exists>m0. m = syncShard meta now key m0"
  proof (cases "scoped \<or> targets = []")
    case True
    with assms(3) show ?thesis
      by (auto simp: upsertAuthForModelsLocked_def map_of_map_values [of "\<lambda>k. syncShard meta now k"])
  next
    case False
    with assms(1,3) show ?thesis
      by (auto simp: upsertAuthForModelsLocked_def updateTargetShardsLocked_def Let_def sync_targets_get
          split: option.splits if_splits)
  qed
  with sync_entry assms(2,4) show ?thesis by metis
qed

lemma install_carries:
  assumes l: "listed s" "listed (install s i pk meta tg sc now)" and i: "auth_ID (sm_auth meta) = i" "i \<noteq> []"
    and alone: "\<And>pk'. pk' \<noteq> pk \<Longrightarrow> scheduled s pk' i = None"
    and cover: "sc \<or> tg = [] \<or> key \<in> canonicalModelKey ` set tg" and P: "P (sm_auth meta)"
  shows "carries (install s i pk meta tg sc now) i key P"
  unfolding carries_def
proof (intro allI impI)
  fix pk' p
  assume p: "map_of (as_providers (install s i pk meta tg sc now)) pk' = Some p"
  show "(\<forall>meta. map_of (ps_auths p) i = Some meta \<longrightarrow> P (sm_auth meta)) \<and> (\<forall>m e. map_of (ps_modelShards p) key = Some m
      \<longrightarrow> map_of (mo_entries m) i = Some e \<longrightarrow> P (sa_auth e))"
  proof (cases "pk' = pk")
    case True
    then have q: "p = upsertAuthForModelsLocked (ensureProviderLocked s pk) meta tg sc now"
      using p by (simp add: install_def)
    have "P (sa_auth e)" if "map_of (ps_modelShards p) key = Some m" "map_of (mo_entries m) i = Some e" for m e
      using upsert_covers [OF cover, of meta "ensureProviderLocked s pk" now m e] that i P by (simp add: q)
    with i P show ?thesis by (simp add: q)
  next
    case False
    have "scheduled (install s i pk meta tg sc now) pk' i = None"
      using scheduled_install [OF l(1) i(1)] alone [OF False] False by simp
    then have none: "map_of (ps_auths p) i = None" using p by (simp add: scheduled_def)
    have "shards_listed p" using l(2) p by (simp add: listed_def)
    with none have "map_of (mo_entries m) i = None" if "map_of (ps_modelShards p) key = Some m" for m
      using that unfolding shards_listed_def by blast
    with none show ?thesis by simp
  qed
qed

lemma absent_carries: "absent s i \<Longrightarrow> carries s i key P"
  by (auto simp: absent_def carries_def)

lemma result_installs:
  assumes "schedulable a" and "auth_ID a \<noteq> []" and "trim_space (auth_ID a) = auth_ID a"
    and "\<not> isStaleScheduledAuth s (auth_ID a) (auth_RegistrationEpoch a) (auth_Generation a) (auth_UpdatedAt a)"
  defines "s2 \<equiv> leave_previous (record_generation s (auth_ID a) (auth_RegistrationEpoch a) (auth_Generation a)
      (auth_UpdatedAt a)) (auth_ID a) (executorKeyFromAuth a)"
  shows "\<exists>C meta. sm_auth meta = a \<and> upsertAuthResultLocked registry s a targets scoped now =
    (if C then install s2 (auth_ID a) (executorKeyFromAuth a) meta [] True now
     else install s2 (auth_ID a) (executorKeyFromAuth a) meta targets scoped now)"
proof -
  have "executorKeyFromAuth a \<noteq> []" "\<not> auth_Disabled a" "auth_Status a \<noteq> StatusDisabled"
    using assms(1) by (simp_all add: schedulable_def)
  note c = this assms(2-4)
  show ?thesis
    unfolding upsertAuthResultLocked_def Let_def s2_def c(5) if_not_P [OF c(4)] if_not_P [OF c(6)]
    by (simp only: c if_False simp_thms, rule exI, rule exI, rule conjI [rotated], rule refl, rule build_sel)
qed

lemma result_carries:
  assumes l: "listed s" and inv: "sched_inv t s" and i: "auth_ID a \<noteq> []" "trim_space (auth_ID a) = auth_ID a"
    and fresh: "\<not> isStaleScheduledAuth s (auth_ID a) (auth_RegistrationEpoch a) (auth_Generation a) (auth_UpdatedAt a)"
    and cover: "scoped \<or> targets = [] \<or> key \<in> canonicalModelKey ` set targets" and P: "P a"
  shows "carries (upsertAuthResultLocked registry s a targets scoped now) (auth_ID a) key P"
proof (cases "schedulable a")
  case True
  let ?s2 = "leave_previous (record_generation s (auth_ID a) (auth_RegistrationEpoch a) (auth_Generation a)
      (auth_UpdatedAt a)) (auth_ID a) (executorKeyFromAuth a)"
  have r: "listed (record_generation s j e g u)" for j e g u using l by simp
  have alone: "scheduled ?s2 pk (auth_ID a) = None" if "pk \<noteq> executorKeyFromAuth a" for pk
    using scheduled_leave [OF r i] that by simp
  have carries: "carries (install ?s2 (auth_ID a) (executorKeyFromAuth a) meta tg sc now) (auth_ID a) key P"
    if "sm_auth meta = a" "sc \<or> tg = [] \<or> key \<in> canonicalModelKey ` set tg"
      "listed (install ?s2 (auth_ID a) (executorKeyFromAuth a) meta tg sc now)" for meta tg sc
    by (rule install_carries [OF _ that(3) _ i(1) alone that(2)]) (use leave_listed(1) [OF r i(1)] that P in simp_all)
  have "listed (upsertAuthResultLocked registry s a targets scoped now)" using result_listed [OF l inv] .
  with result_installs [OF True i fresh, of registry targets scoped now] carries cover show ?thesis
    by (auto split: if_splits)
next
  case False
  then have "upsertAuthResultLocked registry s a targets scoped now =
      removeAuthFromProvidersLocked (record_generation s (auth_ID a) (auth_RegistrationEpoch a)
        (auth_Generation a) (auth_UpdatedAt a)) (auth_ID a)"
    using fresh i by (auto simp: upsertAuthResultLocked_def Let_def schedulable_def)
  with remove_from_listed(2) [OF _ i(1,2)] l show ?thesis by (intro absent_carries) simp
qed

end
