(* ===== verification/Manager.thy ===== *)
theory Manager
  imports CooldownStore RegistryListing Dispatch Routing
begin

text \<open>
  The manager (\<open>sdk/cliproxy/auth/conductor*.go\<close>): the credentials it holds, and how a registration,
  an update, a removal or the result of a request reaches the scheduler and the model registry.

  An operation of the manager is one step: what it does under \<open>m.mu\<close>, then the calls of the scheduler
  and of the registry, in the code's order. \<open>now\<close> is the clock reading under the lock and \<open>later\<close>
  the reading of the scheduler. The registry is part of the state, as it is one object per process.

  Parameters: \<open>unmarshal\<close> decodes the aliases of a credential (theory \<open>Aliases\<close>), \<open>jb\<close>
  reads JSON bodies (theory \<open>ErrorClass\<close>), \<open>policy\<close> is the installed result policy (the identity
  where there is none), \<open>fresh\<close> is the identifier \<open>uuid.NewString\<close> draws. Left out are the
  store of the credentials and of the cooldowns, the hooks, the executors, the schedule of refreshes,
  session affinity and the index of a credential. Of the three modes of \<open>updateInternal\<close> the
  replacement is modelled; the merges of refreshed and prepared credentials are not.
\<close>

section \<open>State\<close>

record Manager =
  mg_auths :: "(string, Auth) gomap"
  mg_authEpochs :: "(string, u64) gomap"
  mg_scheduler :: authScheduler
  mg_registry :: ModelRegistry
  mg_router :: model_router
  mg_config :: cooling_config

definition registry_view_of :: "ModelRegistry \<Rightarrow> registry_view" where
  "registry_view_of r =
     \<lparr>rg_models = (\<lambda>authID. List.map mi_ID (fst (GetModelsAndEpochForClient r authID))),
      rg_epoch = (\<lambda>authID. snd (GetModelsAndEpochForClient r authID))\<rparr>"

definition selection_key :: "alias_decoder \<Rightarrow> Manager \<Rightarrow> Auth \<Rightarrow> string \<Rightarrow> string" where
  "selection_key unmarshal m = selectionModelKeyForAuth unmarshal (rt_oauthModelAlias (mg_router m))"

definition cooldownDisabledForAuth :: "Manager \<Rightarrow> Auth \<Rightarrow> bool" where
  "cooldownDisabledForAuth m auth = quotaCooldownDisabledForAuthWithConfig (mg_config m) auth"

definition upsertAuth :: "Manager \<Rightarrow> Auth \<Rightarrow> time \<Rightarrow> Manager" where
  "upsertAuth m auth later =
     m\<lparr>mg_scheduler := upsertAuthLifecycleLocked (registry_view_of (mg_registry m)) (mg_scheduler m) auth later\<rparr>"

definition rebuild_aliases :: "bool \<Rightarrow> Manager \<Rightarrow> Manager" where
  "rebuild_aliases deferred m =
     (if deferred then m
      else m\<lparr>mg_router := (mg_router m)\<lparr>rt_aliases :=
        rebuildAPIKeyModelAliasLocked (rt_config (mg_router m)) (List.map snd (mg_auths m))\<rparr>\<rparr>)"

section \<open>Checks of a credential\<close>

definition CanonicalCredentialMetadataKey :: "string \<Rightarrow> string" where
  "CanonicalCredentialMetadataKey key =
     (if key = ''api-key'' then ''api_key''
      else if key = ''base-url'' then ''base_url''
      else if key = ''disable-cooling'' then ''disable_cooling''
      else if key = ''excluded-models'' then ''excluded_models''
      else if key = ''fingerprint-profile'' then ''fingerprint_profile''
      else if key = ''model-aliases'' then ''model_aliases''
      else if key = ''proxy-url'' then ''proxy_url''
      else if key = ''request-retry'' then ''request_retry''
      else if key = ''request-scoped-errors'' then ''request_scoped_errors''
      else if key = ''tool-prefix-disabled'' then ''tool_prefix_disabled''
      else key)"

definition NormalizeCredentialMetadata :: "(string, any_value) gomap \<Rightarrow> (string, any_value) gomap" where
  "NormalizeCredentialMetadata metadata = fold (\<lambda>(key, v) m.
     let canonical = CanonicalCredentialMetadataKey key
     in if canonical = key then m
        else AList.delete key (if has_key m canonical then m else AList.update canonical v m)) metadata metadata"

definition ValidateAuthWeight :: "Auth \<Rightarrow> weight_error option" where
  "ValidateAuthWeight auth =
     (case (case map_of (auth_Attributes auth) ''weight'' of
              None \<Rightarrow> None
            | Some raw \<Rightarrow> (case ParseString raw of Inl e \<Rightarrow> Some e | Inr _ \<Rightarrow> None)) of
        Some e \<Rightarrow> Some e
      | None \<Rightarrow>
          (case map_of (auth_Metadata auth) ''weight'' of
             None \<Rightarrow> None
           | Some raw \<Rightarrow> (case ParseValue raw of Inl e \<Rightarrow> Some e | Inr _ \<Rightarrow> None)))"

definition authRefreshToken :: "Auth \<Rightarrow> string" where
  "authRefreshToken auth =
     (if authMetadataString auth ''refresh_token'' \<noteq> [] then authMetadataString auth ''refresh_token''
      else authMetadataString auth ''refreshToken'')"

definition auth_id_token :: "Auth \<Rightarrow> string" where
  "auth_id_token auth =
     (if authMetadataString auth ''id_token'' \<noteq> [] then authMetadataString auth ''id_token''
      else authMetadataString auth ''idToken'')"

definition auth_api_key :: "Auth \<Rightarrow> string" where
  "auth_api_key auth =
     (let key = get_or [] (auth_Attributes auth) ''api_key''
      in if key \<noteq> [] then key else authMetadataString auth ''api_key'')"

definition CredentialsChanged :: "Auth \<Rightarrow> Auth \<Rightarrow> bool" where
  "CredentialsChanged existing incoming \<longleftrightarrow>
     authAccessToken existing \<noteq> authAccessToken incoming
     \<or> authRefreshToken existing \<noteq> authRefreshToken incoming
     \<or> auth_id_token existing \<noteq> auth_id_token incoming
     \<or> auth_api_key existing \<noteq> auth_api_key incoming"

text \<open>A refusal: the error, its message rendered by \<open>Error\<close>.\<close>

definition isUnauthorizedError :: "AuthError \<Rightarrow> bool" where
  "isUnauthorizedError e \<longleftrightarrow> er_HTTPStatus e = 401
     \<or> str_contains (to_lower (Error_Error e)) ''status 401'' \<or> str_contains (to_lower (Error_Error e)) ''401 unauthorized''"

definition unauthorized_state :: "ModelState \<Rightarrow> bool" where
  "unauthorized_state state \<longleftrightarrow>
     (case ms_LastError state of
        Some e \<Rightarrow> er_HTTPStatus e = 401 \<or> equal_fold (er_Code e) ''unauthorized'' \<or> isUnauthorizedError e
      | None \<Rightarrow> False)
     \<or> str_contains (to_lower (ms_StatusMessage state)) ''unauthorized''"

definition clearUnauthorizedModelStates :: "time \<Rightarrow> Auth \<Rightarrow> Auth \<times> string list" where
  "clearUnauthorizedModelStates now auth =
     (let resumed = List.map fst (filter (\<lambda>(_, state). unauthorized_state state) (auth_ModelStates auth));
          a = auth\<lparr>auth_ModelStates := List.map (\<lambda>(model, state).
                (model, if unauthorized_state state then resetModelState now state else state)) (auth_ModelStates auth)\<rparr>
      in (if resumed \<noteq> [] then updateAggregatedAvailability now a else a, resumed))"

section \<open>Registration, update, removal\<close>

text \<open>What \<open>Register\<close> and \<open>Update\<close> do to the states of a credential before they store it.\<close>

definition settle_states :: "Manager \<Rightarrow> time \<Rightarrow> Auth \<Rightarrow> Auth" where
  "settle_states m now auth =
     (let a = auth\<lparr>auth_ModelStates := normalizeModelStates (auth_ModelStates auth)\<rparr>
      in if cooldownDisabledForAuth m a \<or> auth_Disabled a \<or> auth_Status a = StatusDisabled
         then fst (clearCooldownStateForAuth now a) else a)"

definition next_epoch_of :: "Manager \<Rightarrow> Auth \<Rightarrow> u64" where
  "next_epoch_of m auth =
     (let e0 = get_or 0 (mg_authEpochs m) (auth_ID auth);
          e1 = (case map_of (mg_auths m) (auth_ID auth) of
                  Some existing \<Rightarrow> if auth_RegistrationEpoch existing > e0 then auth_RegistrationEpoch existing else e0
                | None \<Rightarrow> e0);
          e2 = (if auth_RegistrationEpoch auth > e1 then auth_RegistrationEpoch auth else e1)
      in e2 + 1)"

definition Register ::
  "Manager \<Rightarrow> string \<Rightarrow> bool \<Rightarrow> Auth \<Rightarrow> time \<Rightarrow> time \<Rightarrow> Manager \<times> (weight_error + Auth)"
where
  "Register m fresh deferred auth0 now later =
     (let auth1 = auth0\<lparr>auth_Metadata := NormalizeCredentialMetadata (auth_Metadata auth0)\<rparr>
      in case ValidateAuthWeight auth1 of
           Some e \<Rightarrow> (m, Inl e)
         | None \<Rightarrow>
             let auth2 = (if auth_ID auth1 = [] then auth1\<lparr>auth_ID := fresh\<rparr> else auth1);
                 auth3 = settle_states m now (auth2\<lparr>auth_UpdatedAt := now\<rparr>);
                 epoch = next_epoch_of m auth3;
                 auth = auth3\<lparr>auth_RegistrationEpoch := epoch, auth_Generation := 1\<rparr>;
                 m1 = m\<lparr>mg_authEpochs := AList.update (auth_ID auth) epoch (mg_authEpochs m),
                        mg_auths := AList.update (auth_ID auth) auth (mg_auths m)\<rparr>
             in (upsertAuth (rebuild_aliases deferred m1) auth later, Inr auth))"

text \<open>The recovery of an enabled credential whose tokens changed, and the limit it keeps.\<close>

definition recover_update :: "Auth \<Rightarrow> time \<Rightarrow> Auth \<Rightarrow> Auth" where
  "recover_update existing now auth0 =
     (if auth_Disabled existing \<or> auth_Status existing = StatusDisabled \<or> auth_Disabled auth0
         \<or> auth_Status auth0 = StatusDisabled
      then auth0
      else
        let a1 = (if auth_ModelStates auth0 = [] \<and> auth_ModelStates existing \<noteq> []
                  then auth0\<lparr>auth_ModelStates := auth_ModelStates existing\<rparr> else auth0);
            a2 = (if CredentialsChanged existing a1 then
                    (let a = (if hasUnauthorizedAuthFailure existing
                            \<or> (case auth_LastError a1 of Some e \<Rightarrow> isUnauthorizedError e | None \<Rightarrow> False)
                          then a1\<lparr>auth_Unavailable := False, auth_LastError := None, auth_StatusMessage := [],
                                 auth_Status := StatusActive\<rparr> else a1)
                     in fst (clearUnauthorizedModelStates now a))
                  else a1)
        in if qs_Exceeded (auth_Quota existing) \<and> qs_Reason (auth_Quota existing) = ''credential_quota''
              \<and> qs_NextRecoverAt (auth_Quota existing) > now
           then a2\<lparr>auth_Unavailable := auth_Unavailable existing, auth_NextRetryAfter := auth_NextRetryAfter existing,
                  auth_Quota := auth_Quota existing,
                  auth_Status := (if auth_Status a2 = StatusActive then auth_Status existing else auth_Status a2)\<rparr>
           else a2)"

datatype update_result =
  UpdateUnknown | UpdateInvalid weight_error | UpdateStale u64 u64 | UpdateMoved u64 u64 | Updated Auth

definition raise_epoch :: "Manager \<Rightarrow> string \<Rightarrow> Auth \<Rightarrow> Manager" where
  "raise_epoch m i existing =
     (if auth_RegistrationEpoch existing > get_or 0 (mg_authEpochs m) i
      then m\<lparr>mg_authEpochs := AList.update i (auth_RegistrationEpoch existing) (mg_authEpochs m)\<rparr>
      else m)"

text \<open>The part that all updates share, once the credential is found.\<close>

definition update_core :: "Manager \<Rightarrow> bool \<Rightarrow> Auth \<Rightarrow> Auth \<Rightarrow> time \<Rightarrow> time \<Rightarrow> Manager \<times> update_result" where
  "update_core m deferred existing auth1 now later =
     (let m0 = raise_epoch m (auth_ID auth1) existing;
          e0 = get_or 0 (mg_authEpochs m0) (auth_ID auth1)
      in if auth_RegistrationEpoch auth1 \<noteq> 0 \<and> auth_RegistrationEpoch auth1 < e0
         then (m0, UpdateStale (auth_RegistrationEpoch auth1) e0)
         else
           let epoch = (if auth_RegistrationEpoch auth1 \<ge> e0 then auth_RegistrationEpoch auth1 else e0);
               generation = (if auth_Generation auth1 \<le> auth_Generation existing
                             then auth_Generation existing + 1 else auth_Generation auth1 + 1);
               auth2 = recover_update existing now
                 (auth1\<lparr>auth_RegistrationEpoch := epoch, auth_Success := auth_Success existing,
                    auth_Failed := auth_Failed existing,
                    auth_recentRequests := auth_recentRequests existing,
                    auth_Generation := generation\<rparr>);
               auth = settle_states m now (auth2\<lparr>auth_UpdatedAt := now\<rparr>);
               m1 = m0\<lparr>mg_authEpochs := (if auth_RegistrationEpoch auth1 \<ge> e0
                        then AList.update (auth_ID auth1) epoch (mg_authEpochs m0) else mg_authEpochs m0),
                      mg_auths := AList.update (auth_ID auth1) auth (mg_auths m0)\<rparr>
           in (upsertAuth (rebuild_aliases deferred m1) auth later, Updated auth))"

definition normalized :: "Auth \<Rightarrow> Auth" where
  "normalized auth = auth\<lparr>auth_Metadata := NormalizeCredentialMetadata (auth_Metadata auth)\<rparr>"

definition Update :: "Manager \<Rightarrow> bool \<Rightarrow> Auth \<Rightarrow> time \<Rightarrow> time \<Rightarrow> Manager \<times> update_result" where
  "Update m deferred auth0 now later =
     (if auth_ID auth0 = [] then (m, UpdateUnknown)
      else case ValidateAuthWeight (normalized auth0) of
        Some e \<Rightarrow> (m, UpdateInvalid e)
      | None \<Rightarrow>
          (case map_of (mg_auths m) (auth_ID auth0) of
             None \<Rightarrow> (m, UpdateUnknown)
           | Some existing \<Rightarrow> update_core m deferred existing (normalized auth0) now later))"

text \<open>An update by an executor: the outcome is merged into the record as it is now.\<close>

definition update_merged ::
  "(Auth \<Rightarrow> Auth \<Rightarrow> Auth \<Rightarrow> Auth) \<Rightarrow> Manager \<Rightarrow> bool \<Rightarrow> Auth \<Rightarrow> Auth \<Rightarrow> time \<Rightarrow> time \<Rightarrow> Manager \<times> update_result"
where
  "update_merged merge m deferred base auth0 now later =
     (if auth_ID auth0 = [] then (m, UpdateUnknown)
      else case ValidateAuthWeight (normalized auth0) of
        Some e \<Rightarrow> (m, UpdateInvalid e)
      | None \<Rightarrow>
          (case map_of (mg_auths m) (auth_ID auth0) of
             None \<Rightarrow> (m, UpdateUnknown)
           | Some existing \<Rightarrow>
               if auth_RegistrationEpoch existing \<noteq> auth_RegistrationEpoch base
               then (raise_epoch m (auth_ID auth0) existing,
                     UpdateMoved (auth_RegistrationEpoch base) (auth_RegistrationEpoch existing))
               else update_core m deferred existing (normalized (merge base existing (normalized auth0))) now later))"

definition Remove :: "Manager \<Rightarrow> bool \<Rightarrow> string \<Rightarrow> time \<Rightarrow> Manager" where
  "Remove m deferred id0 later =
     (let authID = trim_space id0
      in if authID = [] then m
         else case map_of (mg_auths m) authID of
           None \<Rightarrow> m
         | Some existing \<Rightarrow>
             let stored = get_or 0 (mg_authEpochs m) authID;
                 tombstone = (if auth_RegistrationEpoch existing > stored then auth_RegistrationEpoch existing
                              else stored) + 1;
                 m1 = m\<lparr>mg_auths := AList.delete authID (mg_auths m),
                        mg_router := (mg_router m)\<lparr>rt_modelPoolOffsets :=
                          AList.delete authID (rt_modelPoolOffsets (mg_router m))\<rparr>,
                        mg_authEpochs := AList.update authID tombstone (mg_authEpochs m)\<rparr>;
                 m2 = rebuild_aliases deferred m1
             in m2\<lparr>mg_scheduler := RecordRemovalTombstone (mg_scheduler m2) authID tombstone later\<rparr>)"

section \<open>Results\<close>

definition existingModelState :: "Auth \<Rightarrow> string \<Rightarrow> ModelState option" where
  "existingModelState auth model0 =
     (let model = canonicalModelKey model0
      in if model = [] then None else map_of (auth_ModelStates auth) model)"

text \<open>What the registry is told of a credential and a model it serves.\<close>

definition clientModelProjectionForAuth ::
  "alias_decoder \<Rightarrow> Manager \<Rightarrow> Auth \<Rightarrow> string \<Rightarrow> time \<Rightarrow> ClientModelProjection"
where
  "clientModelProjectionForAuth unmarshal m auth routeModel now =
     (let targetModel = trim_space routeModel
      in if targetModel = []
         then \<lparr>pj_ModelID = [], pj_Suspended = False, pj_SuspendReason = [], pj_QuotaExceeded = False\<rparr>
         else
           let targetKey0 = selection_key unmarshal m auth targetModel;
               targetKey = (if targetKey0 = [] then canonicalModelKey targetModel else targetKey0);
               state = existingModelState auth targetKey;
               suspended0 = (auth_Disabled auth \<or> auth_Status auth = StatusDisabled
                 \<or> (qs_Exceeded (auth_Quota auth) \<and> qs_Reason (auth_Quota auth) = ''credential_quota''
                    \<and> qs_NextRecoverAt (auth_Quota auth) > now));
               suspended1 = (suspended0 \<or> (case state of None \<Rightarrow> False
                 | Some s \<Rightarrow> ms_Status s = StatusDisabled \<or> ms_Unavailable s
                     \<or> (ms_NextRetryAfter s \<noteq> zero_time \<and> ms_NextRetryAfter s > now)));
               quotaExceeded = (case state of None \<Rightarrow> False
                 | Some s \<Rightarrow> qs_Exceeded (ms_Quota s)
                     \<and> (qs_NextRecoverAt (ms_Quota s) = zero_time \<or> qs_NextRecoverAt (ms_Quota s) > now));
               reason0 = (case state of None \<Rightarrow> []
                 | Some s \<Rightarrow> if suspended1 then cooldownReason (ms_StatusMessage s) (ms_Quota s) (ms_LastError s) else []);
               suspended = (suspended1 \<or> (auth_ModelStates auth = [] \<and> auth_Unavailable auth
                 \<and> auth_NextRetryAfter auth > now));
               reason = (if suspended \<and> reason0 = []
                 then cooldownReason (auth_StatusMessage auth) (auth_Quota auth) (auth_LastError auth) else reason0)
           in \<lparr>pj_ModelID = targetModel, pj_Suspended = suspended, pj_SuspendReason = reason,
                pj_QuotaExceeded = quotaExceeded\<rparr>)"

definition model_projections ::
  "alias_decoder \<Rightarrow> Manager \<Rightarrow> Auth \<Rightarrow> ModelInfo list \<Rightarrow> time \<Rightarrow> ClientModelProjection list"
where
  "model_projections unmarshal m auth supported now =
     List.map (\<lambda>sm. clientModelProjectionForAuth unmarshal m auth (mi_ID sm) now)
       (filter (\<lambda>sm. trim_space (mi_ID sm) \<noteq> []) supported)"

definition project_registry :: "alias_decoder \<Rightarrow> Manager \<Rightarrow> string \<Rightarrow> Auth \<Rightarrow> time \<Rightarrow> Manager" where
  "project_registry unmarshal m authID auth now =
     (case GetModelsAndEpochForClient (mg_registry m) authID of
        (supported, regEpoch) \<Rightarrow>
          m\<lparr>mg_registry := fst (ApplyClientModelProjections authID regEpoch (auth_Generation auth)
              (model_projections unmarshal m auth supported now) now (mg_registry m))\<rparr>)"

text \<open>The models whose shards the scheduler updates; none means all.\<close>

definition result_targets :: "string \<Rightarrow> result \<Rightarrow> string list" where
  "result_targets modelKey r =
     (let routeKey = canonicalModelKey (rs_RouteModel r)
      in if \<not> rs_CredentialScope r \<and> modelKey \<noteq> []
         then modelKey # (if routeKey \<noteq> [] \<and> routeKey \<noteq> modelKey then [routeKey] else []) else [])"

definition MarkResult ::
  "alias_decoder \<Rightarrow> json_bodies \<Rightarrow> (result \<Rightarrow> result) \<Rightarrow> Manager \<Rightarrow> result \<Rightarrow> (string \<times> string list) list
   \<Rightarrow> time \<Rightarrow> time \<Rightarrow> Manager"
where
  "MarkResult unmarshal jb policy m result0 headers now later =
     (if rs_AuthID result0 = [] then m
      else let r = policy result0
        in if rs_AuthID r = [] then m
           else case map_of (mg_auths m) (rs_AuthID r) of
             None \<Rightarrow> m
           | Some auth0 \<Rightarrow>
               let auth = mark_auth (mg_config m) jb (selection_key unmarshal m) headers r now auth0;
                   modelKey = result_model (selection_key unmarshal m) r auth0;
                   targets = result_targets modelKey r;
                   m1 = m\<lparr>mg_auths := AList.update (rs_AuthID r) auth (mg_auths m)\<rparr>;
                   m2 = m1\<lparr>mg_scheduler := upsertAuthResultLocked (registry_view_of (mg_registry m1)) (mg_scheduler m1)
                            auth targets (rs_CredentialScope r) later\<rparr>
               in project_registry unmarshal m2 (rs_AuthID r) auth now)"

definition recordAvailabilityNeutralResult :: "Manager \<Rightarrow> result \<Rightarrow> time \<Rightarrow> Manager" where
  "recordAvailabilityNeutralResult m r now =
     (if rs_AuthID r = [] then m
      else case map_of (mg_auths m) (rs_AuthID r) of
        None \<Rightarrow> m
      | Some auth0 \<Rightarrow>
          let auth = count_result r now auth0
          in m\<lparr>mg_auths := AList.update (rs_AuthID r)
               (auth\<lparr>auth_Generation := auth_Generation auth + 1, auth_UpdatedAt := now\<rparr>) (mg_auths m)\<rparr>)"

definition RefreshSchedulerEntry :: "Manager \<Rightarrow> string \<Rightarrow> time \<Rightarrow> Manager" where
  "RefreshSchedulerEntry m authID later =
     (if authID = [] then m
      else case map_of (mg_auths m) authID of None \<Rightarrow> m | Some auth \<Rightarrow> upsertAuth m auth later)"

definition RefreshSchedulerAll :: "Manager \<Rightarrow> time \<Rightarrow> Manager" where
  "RefreshSchedulerAll m later = fold (\<lambda>(i, _) m. RefreshSchedulerEntry m i later) (mg_auths m) m"

definition reset_quota :: "alias_decoder \<Rightarrow> Manager \<Rightarrow> string \<Rightarrow> time \<Rightarrow> time \<Rightarrow> Manager \<times> string list" where
  "reset_quota unmarshal m id0 now later =
     (let authID = trim_space id0
      in if authID = [] then (m, [])
         else case map_of (mg_auths m) authID of
           None \<Rightarrow> (m, [])
         | Some auth0 \<Rightarrow>
             (case ResetQuota now (List.map mi_ID (fst (GetModelsAndEpochForClient (mg_registry m) authID))) auth0 of
                (auth, models) \<Rightarrow>
                  (upsertAuth (project_registry unmarshal
                     (m\<lparr>mg_auths := AList.update authID auth (mg_auths m)\<rparr>) authID auth now) auth later, models)))"

section \<open>Reconciliation with the registry\<close>

text \<open>
  The targets of the registered routes, and the route keys that lead to them: states kept under a route
  key that is not itself a target move to the target of the route.
\<close>

definition route_target :: "alias_decoder \<Rightarrow> Manager \<Rightarrow> Auth \<Rightarrow> string \<Rightarrow> string" where
  "route_target unmarshal m auth routeID =
     (let key = selection_key unmarshal m auth routeID in if key = [] then canonicalModelKey routeID else key)"

definition route_step ::
  "alias_decoder \<Rightarrow> Manager \<Rightarrow> Auth \<Rightarrow> string \<Rightarrow> string list \<times> (string, string) gomap
   \<Rightarrow> string list \<times> (string, string) gomap"
where
  "route_step unmarshal m auth routeID acc =
     (case acc of (targets, routeToTarget) \<Rightarrow>
        let canonicalRoute = canonicalModelKey routeID; targetKey = route_target unmarshal m auth routeID
        in (if targetKey \<noteq> [] then targetKey # targets else targets,
            if canonicalRoute \<noteq> [] then AList.update canonicalRoute targetKey routeToTarget else routeToTarget))"

definition migrate_alias ::
  "time \<Rightarrow> string \<Rightarrow> string \<Rightarrow> (string, ModelState) gomap \<times> bool \<Rightarrow> (string, ModelState) gomap \<times> bool"
where
  "migrate_alias now targetKey aliasKey acc =
     (case acc of (states, changed) \<Rightarrow>
        (case map_of states aliasKey of
           None \<Rightarrow> acc
         | Some state \<Rightarrow>
             let moved = (if \<not> modelStateIsClean state \<or> isModelStateActiveCooldown state now
                 then AList.update targetKey (case map_of states targetKey of
                        Some existingTarget \<Rightarrow> mergeModelState existingTarget state | None \<Rightarrow> state) states
                 else states)
             in (AList.delete aliasKey moved, True)))"

definition migrate_route ::
  "time \<Rightarrow> string list \<Rightarrow> (string, string) gomap \<Rightarrow> string
   \<Rightarrow> (string, ModelState) gomap \<times> bool \<Rightarrow> (string, ModelState) gomap \<times> bool"
where
  "migrate_route now targets routeToTarget routeID acc =
     (let canonicalRoute = canonicalModelKey routeID; targetKey = get_or [] routeToTarget canonicalRoute
      in if targetKey = [] \<or> canonicalRoute = [] then acc
         else if canonicalRoute \<noteq> targetKey \<and> canonicalRoute \<notin> set targets then
           fold (migrate_alias now targetKey)
             (canonicalRoute # (if routeID \<noteq> canonicalRoute then [routeID] else [])) acc
         else acc)"

text \<open>States of models no longer served go; states that hold nothing any more are reset.\<close>

definition prune_state :: "time \<Rightarrow> string list \<Rightarrow> string \<times> ModelState \<Rightarrow> (string \<times> ModelState) option" where
  "prune_state now supported kv =
     (case kv of (modelKey, state) \<Rightarrow>
        let baseModel = (if canonicalModelKey modelKey = [] then trim_space modelKey else canonicalModelKey modelKey)
        in if baseModel \<notin> set supported then None
           else if modelStateIsClean state \<or> isModelStateActiveCooldown state now then Some (modelKey, state)
           else Some (modelKey, resetModelState now state))"

definition reconciled_states ::
  "alias_decoder \<Rightarrow> Manager \<Rightarrow> Auth \<Rightarrow> string list \<Rightarrow> time \<Rightarrow> (string, ModelState) gomap \<times> bool"
where
  "reconciled_states unmarshal m auth registered now =
     (let states0 = normalizeModelStates (auth_ModelStates auth);
          changed0 = (states0 \<noteq> auth_ModelStates auth);
          routes = List.map trim_space (filter (\<lambda>i. trim_space i \<noteq> []) registered);
          (targets, routeToTarget) = fold (route_step unmarshal m auth) routes ([], []);
          (states1, changed1) = (if states0 = [] \<or> registered = [] then (states0, changed0)
            else fold (migrate_route now targets routeToTarget) routes (states0, changed0));
          supported = filter (\<lambda>k. k \<noteq> []) (List.map (route_target unmarshal m auth)
            (filter (\<lambda>i. trim_space i \<noteq> []) registered));
          states2 = List.map_filter (prune_state now supported) states1
      in (states2, changed1 \<or> states2 \<noteq> states1))"

definition ReconcileRegistryModelStates :: "alias_decoder \<Rightarrow> Manager \<Rightarrow> string \<Rightarrow> time \<Rightarrow> time \<Rightarrow> Manager" where
  "ReconcileRegistryModelStates unmarshal m authID now later =
     (case map_of (mg_auths m) authID of
        None \<Rightarrow> m
      | Some auth0 \<Rightarrow>
          if authID = [] then m
          else case reconciled_states unmarshal m auth0
              (List.map mi_ID (fst (GetModelsAndEpochForClient (mg_registry m) authID))) now of
            (states, changed) \<Rightarrow>
              let auth1 = auth0\<lparr>auth_ModelStates := states\<rparr>;
                  auth2 = updateAggregatedAvailability now auth1;
                  auth3 = (if hasModelError auth2 now then auth2
                    else auth2\<lparr>auth_LastError := None, auth_StatusMessage := [], auth_Status := StatusActive\<rparr>);
                  auth = (if changed then auth3\<lparr>auth_Generation := auth_Generation auth3 + 1, auth_UpdatedAt := now\<rparr>
                          else auth1)
              in upsertAuth (project_registry unmarshal
                   (m\<lparr>mg_auths := AList.update authID auth (mg_auths m)\<rparr>) authID auth now) auth later)"

section \<open>Loading the store\<close>

definition load_auth ::
  "Auth \<Rightarrow> (string, Auth) gomap \<times> (string, u64) gomap \<Rightarrow> (string, Auth) gomap \<times> (string, u64) gomap"
where
  "load_auth auth0 acc =
     (case acc of (auths, epochs) \<Rightarrow>
        if auth_ID auth0 = [] then acc
        else let auth1 = auth0\<lparr>auth_Metadata := NormalizeCredentialMetadata (auth_Metadata auth0)\<rparr>
          in case ValidateAuthWeight auth1 of
               Some _ \<Rightarrow> acc
             | None \<Rightarrow>
                 let epoch = max (get_or 0 epochs (auth_ID auth1)) (auth_RegistrationEpoch auth1) + 1
                 in (AList.update (auth_ID auth1) (auth1\<lparr>auth_RegistrationEpoch := epoch, auth_Generation := 1\<rparr>) auths,
                     AList.update (auth_ID auth1) epoch epochs))"

definition Load :: "Manager \<Rightarrow> Auth list \<Rightarrow> time \<Rightarrow> Manager" where
  "Load m items later =
     (case fold load_auth items ([], mg_authEpochs m) of
        (auths, epochs0) \<Rightarrow>
          let removed = filter (\<lambda>i. \<not> has_key auths i) (List.map fst (mg_auths m));
              epochs = fold (\<lambda>i e. AList.update i (get_or 0 e i + 1) e) removed epochs0;
              m1 = rebuild_aliases False (m\<lparr>mg_auths := auths, mg_authEpochs := epochs\<rparr>);
              s = fold (\<lambda>i s. RecordRemovalTombstone s i (get_or 0 epochs i) later) removed (mg_scheduler m1)
          in m1\<lparr>mg_scheduler := rebuild (registry_view_of (mg_registry m1)) s (List.map snd auths) later\<rparr>)"

end
