(* ===== verification/Lockstep.thy ===== *)
theory Lockstep
  imports Delivery Manager Results
begin

section \<open>What an operation keeps of a credential\<close>

definition same_identity :: "Auth \<Rightarrow> Auth \<Rightarrow> bool" where
  "same_identity a b \<longleftrightarrow> auth_ID b = auth_ID a \<and> auth_RegistrationEpoch b = auth_RegistrationEpoch a
     \<and> auth_Generation b = auth_Generation a"

lemma identity_aggregated [simp]:
  "auth_ID (updateAggregatedAvailability now a) = auth_ID a"
  "auth_RegistrationEpoch (updateAggregatedAvailability now a) = auth_RegistrationEpoch a"
  "auth_Generation (updateAggregatedAvailability now a) = auth_Generation a"
  by (simp_all add: updateAggregatedAvailability_def clearAggregatedAvailability_def Let_def)

lemma identity_count [simp]:
  "auth_ID (count_result r now a) = auth_ID a"
  "auth_RegistrationEpoch (count_result r now a) = auth_RegistrationEpoch a"
  "auth_Generation (count_result r now a) = auth_Generation a"
  by (simp_all add: count_result_def Let_def)

lemma identity_note [simp]:
  "auth_ID (note_auth jb r a) = auth_ID a"
  "auth_RegistrationEpoch (note_auth jb r a) = auth_RegistrationEpoch a"
  "auth_Generation (note_auth jb r a) = auth_Generation a"
  by (simp_all add: note_auth_def Let_def split: option.split)

lemma identity_propagate [simp]:
  "auth_ID (propagate_auth now next a) = auth_ID a"
  "auth_RegistrationEpoch (propagate_auth now next a) = auth_RegistrationEpoch a"
  "auth_Generation (propagate_auth now next a) = auth_Generation a"
  by (simp_all add: propagate_auth_def Let_def)

lemma identity_status [simp]:
  "auth_ID (auth_failure_by_status cfg st ra now d a) = auth_ID a"
  "auth_RegistrationEpoch (auth_failure_by_status cfg st ra now d a) = auth_RegistrationEpoch a"
  "auth_Generation (auth_failure_by_status cfg st ra now d a) = auth_Generation a"
  by (simp_all add: auth_failure_by_status_def Let_def split: prod.split)

lemma identity_failure [simp]:
  "auth_ID (applyAuthFailureState cfg jb e ra now d a) = auth_ID a"
  "auth_RegistrationEpoch (applyAuthFailureState cfg jb e ra now d a) = auth_RegistrationEpoch a"
  "auth_Generation (applyAuthFailureState cfg jb e ra now d a) = auth_Generation a"
  by (simp_all add: applyAuthFailureState_def Let_def split: option.split prod.split)

lemma identity_fail_model [simp]:
  "auth_ID (fail_model cfg jb r now d k a) = auth_ID a"
  "auth_RegistrationEpoch (fail_model cfg jb r now d k a) = auth_RegistrationEpoch a"
  "auth_Generation (fail_model cfg jb r now d k a) = auth_Generation a"
  by (simp_all add: fail_model_def Let_def split: prod.split)

lemma identity_apply [simp]:
  "auth_ID (apply_result cfg jb r now k a) = auth_ID a"
  "auth_RegistrationEpoch (apply_result cfg jb r now k a) = auth_RegistrationEpoch a"
  "auth_Generation (apply_result cfg jb r now k a) = auth_Generation a"
  by (simp_all add: apply_result_def succeed_model_def clearAuthStateOnSuccess_def Let_def split: prod.split)

lemma identity_mark [simp]:
  "auth_ID (mark_auth cfg jb sk h r now a) = auth_ID a"
  "auth_RegistrationEpoch (mark_auth cfg jb sk h r now a) = auth_RegistrationEpoch a"
  "auth_Generation (mark_auth cfg jb sk h r now a) = auth_Generation a + 1"
  by (simp_all add: mark_auth_def observe_result_def Let_def)

lemma identity_clear:
  "auth_ID (fst (clearCooldownStateForAuth now a)) = auth_ID a"
  "auth_RegistrationEpoch (fst (clearCooldownStateForAuth now a)) = auth_RegistrationEpoch a"
  "auth_Generation (fst (clearCooldownStateForAuth now a)) = auth_Generation a
    \<or> auth_Generation (fst (clearCooldownStateForAuth now a)) = auth_Generation a + 1"
  by (simp_all add: clearCooldownStateForAuth_def Let_def)

lemma identity_settle:
  "auth_ID (settle_states m now a) = auth_ID a"
  "auth_RegistrationEpoch (settle_states m now a) = auth_RegistrationEpoch a"
  "auth_Generation (settle_states m now a) = auth_Generation a
    \<or> auth_Generation (settle_states m now a) = auth_Generation a + 1"
  using identity_clear [of now "a\<lparr>auth_ModelStates := normalizeModelStates (auth_ModelStates a)\<rparr>"]
  by (simp_all add: settle_states_def Let_def)

lemma identity_unauthorized [simp]:
  "auth_ID (fst (clearUnauthorizedModelStates now a)) = auth_ID a"
  "auth_RegistrationEpoch (fst (clearUnauthorizedModelStates now a)) = auth_RegistrationEpoch a"
  "auth_Generation (fst (clearUnauthorizedModelStates now a)) = auth_Generation a"
  by (simp_all add: clearUnauthorizedModelStates_def Let_def)

lemma identity_recover [simp]:
  "auth_ID (recover_update e now a) = auth_ID a"
  "auth_RegistrationEpoch (recover_update e now a) = auth_RegistrationEpoch a"
  "auth_Generation (recover_update e now a) = auth_Generation a"
  by (simp_all add: recover_update_def Let_def)

lemma identity_reset:
  "auth_ID (fst (ResetQuota now ids a)) = auth_ID a"
  "auth_RegistrationEpoch (fst (ResetQuota now ids a)) = auth_RegistrationEpoch a"
  "auth_Generation (fst (ResetQuota now ids a)) = auth_Generation a + 1
    \<or> auth_Generation (fst (ResetQuota now ids a)) = auth_Generation a + 1 + 1"
proof -
  note c = identity_clear [of now "reset_states now a"]
  obtain b changed where b: "clearCooldownStateForAuth now (reset_states now a) = (b, changed)" by force
  have "auth_ID (reset_states now a) = auth_ID a" "auth_RegistrationEpoch (reset_states now a) = auth_RegistrationEpoch a"
    "auth_Generation (reset_states now a) = auth_Generation a" by (simp_all add: reset_states_def)
  with c b show "auth_ID (fst (ResetQuota now ids a)) = auth_ID a"
    "auth_RegistrationEpoch (fst (ResetQuota now ids a)) = auth_RegistrationEpoch a"
    "auth_Generation (fst (ResetQuota now ids a)) = auth_Generation a + 1
      \<or> auth_Generation (fst (ResetQuota now ids a)) = auth_Generation a + 1 + 1"
    by (auto simp: ResetQuota_def Let_def)
qed

lemma room_next:
  fixes x :: u64
  assumes "x < 2 ^ 63"
  shows "x < x + 1" "x < x + 1 + 1"
proof -
  have "unat x < 2 ^ 63" using assms by (simp add: word_less_nat_alt)
  then show "x < x + 1" "x < x + 1 + 1" by (simp_all add: word_less_nat_alt unat_word_ariths)
qed

section \<open>The manager and the scheduler in step\<close>

text \<open>
  \<open>snapshot_of b a\<close>: \<open>b\<close> is \<open>a\<close> but for its counters, which a result that says nothing of the
  availability moves on without telling the scheduler.
\<close>

definition uncounted :: "Auth \<Rightarrow> Auth" where
  "uncounted a = a\<lparr>auth_Success := 0, auth_Failed := 0, auth_recentRequests := empty_ring, auth_Generation := 0,
     auth_UpdatedAt := 0\<rparr>"

definition snapshot_of :: "Auth \<Rightarrow> Auth \<Rightarrow> bool" where
  "snapshot_of b a \<longleftrightarrow> uncounted b = uncounted a"

definition sound_auths :: "(string, Auth) gomap \<Rightarrow> (string, u64) gomap \<Rightarrow> bool" where
  "sound_auths auths epochs \<longleftrightarrow> (\<forall>i a. map_of auths i = Some a \<longrightarrow>
     auth_ID a = i \<and> i \<noteq> [] \<and> trim_space i = i \<and> auth_RegistrationEpoch a = get_or 0 epochs i)"

definition bounded_epochs :: "authScheduler \<Rightarrow> (string, u64) gomap \<Rightarrow> bool" where
  "bounded_epochs s epochs \<longleftrightarrow>
     (\<forall>i g. map_of (as_authGenerations s) i = Some g \<longrightarrow> sg_epoch g \<le> get_or 0 epochs i)"

definition up_to_date :: "authScheduler \<Rightarrow> Auth \<Rightarrow> bool" where
  "up_to_date s a \<longleftrightarrow>
     \<not> isStaleScheduledAuth s (auth_ID a) (auth_RegistrationEpoch a) (auth_Generation a) (auth_UpdatedAt a)"

text \<open>Under one provider: an absent or unschedulable credential is not listed, another one is.\<close>

definition mirrored :: "Auth option \<Rightarrow> string \<Rightarrow> Auth option \<Rightarrow> bool" where
  "mirrored stored pk entry \<longleftrightarrow> (case stored of
       None \<Rightarrow> entry = None
     | Some a \<Rightarrow> if schedulable a \<and> pk = executorKeyFromAuth a then \<exists>b. entry = Some b \<and> snapshot_of b a
         else entry = None)"

definition mirrors :: "authScheduler \<Rightarrow> (string, Auth) gomap \<Rightarrow> bool" where
  "mirrors s auths \<longleftrightarrow> (\<forall>pk i. mirrored (map_of auths i) pk (scheduled s pk i))"

definition in_step :: "(string, Auth) gomap \<Rightarrow> (string, u64) gomap \<Rightarrow> authScheduler \<Rightarrow> bool" where
  "in_step auths epochs s \<longleftrightarrow> sound_auths auths epochs \<and> bounded_epochs s epochs
     \<and> (\<forall>i a. map_of auths i = Some a \<longrightarrow> up_to_date s a) \<and> mirrors s auths"

lemma snapshot_refl [simp]: "snapshot_of a a"
  by (simp add: snapshot_of_def)

lemma mirrored_absent [simp]: "mirrored None pk None"
  by (simp add: mirrored_def)

lemma mirrored_own:
  "mirrored (Some a) (executorKeyFromAuth a) (Some a) = schedulable a"
  "mirrored (Some a) pk None = (\<not> (schedulable a \<and> pk = executorKeyFromAuth a))"
  by (simp_all add: mirrored_def)

lemma up_to_date_next:
  assumes "up_to_date s a" and "auth_ID b = auth_ID a" and "auth_RegistrationEpoch b = auth_RegistrationEpoch a"
    and "auth_Generation a < auth_Generation b"
  shows "up_to_date s b"
  using assms by (auto simp: up_to_date_def isStaleScheduledAuth_def split: option.splits)

lemma up_to_date_epoch:
  assumes "bounded_epochs s epochs" and "get_or 0 epochs (auth_ID b) < auth_RegistrationEpoch b"
  shows "up_to_date s b"
  using assms by (fastforce simp: up_to_date_def isStaleScheduledAuth_def bounded_epochs_def split: option.splits)

lemma deliver_in_step:
  assumes "in_step auths epochs s" and "delivered a s s'" and "auth_ID a = i" "i \<noteq> []" "trim_space i = i"
    and "auth_RegistrationEpoch a = get_or 0 epochs' i" and "\<And>j. j \<noteq> i \<Longrightarrow> get_or 0 epochs' j = get_or 0 epochs j"
  shows "in_step (AList.update i a auths) epochs' s'"
proof -
  from assms(2,3) have sch: "scheduled s' pk j = (if j = i then (if schedulable a \<and> pk = executorKeyFromAuth a
        then Some a else None) else scheduled s pk j)"
    and gen: "map_of (as_authGenerations s') j =
      (if j = i then Some (generation_of a) else map_of (as_authGenerations s) j)" for pk j
    by (simp_all add: delivered_def)
  have "sound_auths (AList.update i a auths) epochs'"
    using assms(1,3-7) by (auto simp: in_step_def sound_auths_def split: if_splits)
  moreover have "bounded_epochs s' epochs'"
    using assms(1,6,7) gen by (auto simp: in_step_def bounded_epochs_def generation_of_def split: if_splits)
  moreover have "up_to_date s' a" using gen assms(3) by (simp add: up_to_date_def isStaleScheduledAuth_def generation_of_def)
  moreover have "up_to_date s' b" if "up_to_date s b" "auth_ID b \<noteq> i" for b
    using that gen by (simp add: up_to_date_def isStaleScheduledAuth_def)
  moreover have "mirrors s' (AList.update i a auths)"
    using assms(1) by (simp add: in_step_def mirrors_def mirrored_own sch)
  moreover have "auth_ID b = j \<and> up_to_date s b" if "map_of auths j = Some b" for j b
    using assms(1) that by (simp add: in_step_def sound_auths_def)
  ultimately show ?thesis unfolding in_step_def by (metis map_of_update option.inject)
qed

lemma remove_in_step:
  assumes "in_step auths epochs s" and "listed s" and "i \<noteq> []" "trim_space i = i" and "get_or 0 epochs i \<le> e"
  shows "in_step (AList.delete i auths) (AList.update i e epochs) (RecordRemovalTombstone s i e now)"
proof -
  have "sg_epoch g \<le> e" if "map_of (as_authGenerations s) i = Some g" for g
    using assms(1,5) that by (auto simp: in_step_def bounded_epochs_def intro: order_trans)
  note t = tombstone_delivered [OF assms(2-4) this]
  have "sound_auths (AList.delete i auths) (AList.update i e epochs)"
    using assms(1) by (auto simp: in_step_def sound_auths_def delete_conv' split: if_splits)
  moreover have "bounded_epochs (RecordRemovalTombstone s i e now) (AList.update i e epochs)"
    using assms(1) t(2) by (auto simp: in_step_def bounded_epochs_def split: if_splits)
  moreover have "up_to_date (RecordRemovalTombstone s i e now) b" if "up_to_date s b" "auth_ID b \<noteq> i" for b
    using that t(2) by (simp add: up_to_date_def isStaleScheduledAuth_def)
  moreover have "mirrors (RecordRemovalTombstone s i e now) (AList.delete i auths)"
    using assms(1) by (simp add: in_step_def mirrors_def t(1) delete_conv')
  moreover have "auth_ID b = j \<and> up_to_date s b" if "map_of auths j = Some b" for j b
    using assms(1) that by (simp add: in_step_def sound_auths_def)
  ultimately show ?thesis unfolding in_step_def by (metis map_of_delete option.distinct(1))
qed

lemma kept_in_step:
  assumes "in_step auths epochs s" and "kept s s'"
  shows "in_step auths epochs s'"
proof -
  note k = kept_scheduled [OF assms(2)]
  have "mirrors s' auths = mirrors s auths" by (simp only: mirrors_def k(1))
  moreover have "bounded_epochs s' epochs = bounded_epochs s epochs" by (simp only: bounded_epochs_def k(2))
  moreover have "up_to_date s' a = up_to_date s a" for a by (simp add: up_to_date_def isStaleScheduledAuth_def k(2))
  ultimately show ?thesis using assms(1) by (simp add: in_step_def)
qed

lemma in_step_cong:
  assumes "map_of auths' = map_of auths"
  shows "in_step auths' epochs s = in_step auths epochs s"
  by (simp add: in_step_def sound_auths_def mirrors_def assms)

lemma in_step_get:
  assumes "in_step auths epochs s" and "map_of auths i = Some a"
  shows "auth_ID a = i" "i \<noteq> []" "trim_space i = i" "auth_RegistrationEpoch a = get_or 0 epochs i" "up_to_date s a"
  using assms by (auto simp: in_step_def sound_auths_def)

text \<open>A later state of a stored credential, delivered.\<close>

lemma next_in_step:
  assumes "in_step auths epochs s" and "map_of auths i = Some a" and "auth_ID b = auth_ID a"
    and "auth_RegistrationEpoch b = auth_RegistrationEpoch a" and "delivered b s s'"
  shows "in_step (AList.update i b auths) epochs s'"
  using deliver_in_step [OF assms(1,5)] in_step_get [OF assms(1,2)] assms(3,4) by simp

text \<open>A stored credential whose counters moved on: the scheduler need not be told.\<close>

lemma counted_in_step:
  assumes "in_step auths epochs s" and "map_of auths i = Some a" and "auth_ID b = auth_ID a"
    and "auth_RegistrationEpoch b = auth_RegistrationEpoch a" and "auth_Generation a < auth_Generation b"
    and "schedulable b = schedulable a" "executorKeyFromAuth b = executorKeyFromAuth a"
    and "\<And>c. snapshot_of c a \<Longrightarrow> snapshot_of c b"
  shows "in_step (AList.update i b auths) epochs s"
proof -
  note g = in_step_get [OF assms(1,2)]
  have "up_to_date s b" using up_to_date_next [OF g(5) assms(3-5)] .
  moreover have "sound_auths (AList.update i b auths) epochs"
    using assms(1-4) by (auto simp: in_step_def sound_auths_def)
  moreover have "mirrored (Some b) pk (scheduled s pk i)" for pk
  proof -
    have "mirrored (Some a) pk (scheduled s pk i)" using assms(1,2) by (metis in_step_def mirrors_def)
    then show ?thesis using assms(6-8) by (auto simp: mirrored_def split: if_splits)
  qed
  ultimately show ?thesis using assms(1) by (auto simp: in_step_def mirrors_def)
qed

lemma delivered_other:
  "delivered a s s' \<Longrightarrow> auth_ID b \<noteq> auth_ID a \<Longrightarrow> up_to_date s' b = up_to_date s b"
  by (simp add: delivered_def up_to_date_def isStaleScheduledAuth_def)

section \<open>A rebuilt scheduler\<close>

lemma rebuilt_in_step:
  assumes "in_step stored epochs s" and "sched_reach t s" and "t \<le> now" and "distinct (List.map fst todo)"
    and "\<And>i a. (i, a) \<in> set todo \<Longrightarrow> auth_ID a = i \<and> i \<noteq> [] \<and> trim_space i = i
      \<and> auth_RegistrationEpoch a = get_or 0 epochs i \<and> up_to_date s a"
  shows "in_step (fold (\<lambda>(i, a). AList.update i a) todo stored) epochs
    (fold (\<lambda>a s. upsertAuthLifecycleLocked registry s a now) (List.map snd todo) s)"
  using assms
proof (induction todo arbitrary: stored s t)
  case (Cons e todo)
  obtain i a where e: "e = (i, a)" by force
  have a: "auth_ID a = i" "i \<noteq> []" "trim_space i = i" "auth_RegistrationEpoch a = get_or 0 epochs i" "up_to_date s a"
    using Cons.prems(5) [of i a] e by simp_all
  let ?s = "upsertAuthLifecycleLocked registry s a now"
  have d: "delivered a s ?s"
    by (rule lifecycle_delivered [OF sched_reach_listed [OF Cons.prems(2)]]) (use a in \<open>simp_all add: up_to_date_def\<close>)
  have "in_step (AList.update i a stored) epochs ?s" using deliver_in_step [OF Cons.prems(1) d a(1-4)] by simp
  moreover have "sched_reach now ?s" using Cons.prems(2,3) by (rule sched_reach.lifecycle)
  moreover have "distinct (List.map fst todo)" using Cons.prems(4) by simp
  moreover have "auth_ID b = j \<and> j \<noteq> [] \<and> trim_space j = j \<and> auth_RegistrationEpoch b = get_or 0 epochs j
      \<and> up_to_date ?s b" if "(j, b) \<in> set todo" for j b
  proof -
    have "j \<noteq> i" using that Cons.prems(4) e by force
    moreover note b = Cons.prems(5) [of j b, OF list.set_intros(2) [OF that]]
    ultimately show ?thesis using delivered_other [OF d] a(1) by simp
  qed
  ultimately have "in_step (fold (\<lambda>(i, a). AList.update i a) todo (AList.update i a stored)) epochs
      (fold (\<lambda>a s. upsertAuthLifecycleLocked registry s a now) (List.map snd todo) ?s)"
    by (rule Cons.IH [OF _ _ order.refl])
  then show ?case by (simp add: e)
qed simp

lemma map_of_fold_update:
  "distinct (List.map fst todo) \<Longrightarrow> map_of (fold (\<lambda>(i, a). AList.update i a) todo stored) =
     (\<lambda>j. case map_of todo j of None \<Rightarrow> map_of stored j | Some a \<Rightarrow> Some a)"
proof (induction todo arbitrary: stored)
  case (Cons e todo)
  obtain i a where e: "e = (i, a)" by force
  then have "map_of todo i = None" using Cons.prems by (simp add: map_of_eq_None_iff)
  then have "(case map_of todo j of None \<Rightarrow> map_of (AList.update i a stored) j | Some b \<Rightarrow> Some b) =
      (case map_of (e # todo) j of None \<Rightarrow> map_of stored j | Some b \<Rightarrow> Some b)" for j
    using e by (cases "j = i") (simp_all split: option.split)
  with Cons e show ?case by simp
qed simp

lemma sched_reach_mono: "sched_reach t s \<Longrightarrow> t \<le> t' \<Longrightarrow> sched_reach t' s"
  using sched_reach.tombstone [of t s t' "[]" 0] by (simp add: RecordRemovalTombstone_def Let_def)

end
