(* ===== verification/Merge.thy ===== *)
theory Merge
  imports Manager
begin

text \<open>
  The three-way merge of a credential (\<open>sdk/cliproxy/auth/metadata_merge.go\<close>): an executor refreshes
  or prepares a copy of a credential while the record the manager holds may change, so the outcome is
  merged into the current record against the base both started from. The executor's maps are not \<open>nil\<close>, as
  it changes a clone of the base. The readings of the clock within a merge are one instant. Left out are the
  fields the record \<open>Auth\<close> has not: the storage, the runtime and the time of the last refresh.
\<close>

section \<open>Maps\<close>

text \<open>
  The merge of a map, the same for the metadata, the attributes and the model states: \<open>owned\<close> are the keys
  whose value the executor decides, \<open>ignored\<close> the keys that are merged elsewhere.
\<close>

definition changed_by_executor :: "('k, 'v) gomap \<Rightarrow> 'k \<Rightarrow> 'v \<Rightarrow> bool" where
  "changed_by_executor base k v \<longleftrightarrow> map_of base k \<noteq> Some v"

definition changed_by_user :: "('k, 'v) gomap \<Rightarrow> ('k, 'v) gomap \<Rightarrow> 'k \<Rightarrow> bool" where
  "changed_by_user base current k \<longleftrightarrow> map_of base k \<noteq> map_of current k"

definition merge_sets ::
  "('k \<Rightarrow> bool) \<Rightarrow> ('k \<Rightarrow> bool) \<Rightarrow> ('k, 'v) gomap \<Rightarrow> ('k, 'v) gomap \<Rightarrow> ('k, 'v) gomap \<Rightarrow> ('k, 'v) gomap"
where
  "merge_sets owned ignored base current updated =
     fold (\<lambda>(k, v) merged.
         if ignored k then merged
         else if changed_by_executor base k v \<and> (\<not> changed_by_user base current k \<or> owned k)
           then AList.update k v merged
         else merged) updated current"

definition merge_deletions ::
  "('k \<Rightarrow> bool) \<Rightarrow> ('k, 'v) gomap \<Rightarrow> ('k, 'v) gomap \<Rightarrow> ('k, 'v) gomap \<Rightarrow> ('k, 'v) gomap \<Rightarrow> ('k, 'v) gomap"
where
  "merge_deletions ignored base current updated merged0 =
     fold (\<lambda>(k, baseVal) merged.
         if ignored k then merged
         else if \<not> has_key updated k \<and> map_of current k = Some baseVal then AList.delete k merged
         else merged) base merged0"

definition merge_map ::
  "('k \<Rightarrow> bool) \<Rightarrow> ('k \<Rightarrow> bool) \<Rightarrow> ('k, 'v) gomap \<Rightarrow> ('k, 'v) gomap \<Rightarrow> ('k, 'v) gomap \<Rightarrow> ('k, 'v) gomap"
where
  "merge_map owned ignored base current updated =
     merge_deletions ignored base current updated (merge_sets owned ignored base current updated)"

section \<open>Credentials\<close>

definition IsAuthTokenPayloadKey :: "string \<Rightarrow> bool" where
  "IsAuthTokenPayloadKey key =
     (to_lower (trim_space key) \<in> set [''access_token'', ''refresh_token'', ''id_token'', ''session_id'',
        ''expired'', ''last_refresh'', ''expires_in'', ''timestamp'', ''token_type'', ''user_code'',
        ''verification_uri'', ''verification_uri_complete''])"

definition is_proxy_key :: "string \<Rightarrow> bool" where
  "is_proxy_key k = equal_fold (trim_space k) ''proxy_url''"

definition meta_proxy :: "Auth \<Rightarrow> string" where
  "meta_proxy auth = (case map_of (auth_Metadata auth) ''proxy_url'' of Some (AString s) \<Rightarrow> trim_space s | _ \<Rightarrow> [])"

text \<open>The proxy: a field and a metadata key, of which the one that changed decides.\<close>

definition merge_proxy :: "Auth \<Rightarrow> Auth \<Rightarrow> Auth \<Rightarrow> string" where
  "merge_proxy base current updated =
     (let baseStruct = trim_space (auth_ProxyURL base);
          currentStruct = trim_space (auth_ProxyURL current);
          updatedStruct = trim_space (auth_ProxyURL updated);
          userChangedStruct = (currentStruct \<noteq> baseStruct);
          userChangedMeta = (meta_proxy current \<noteq> meta_proxy base);
          execChangedStruct = (updatedStruct \<noteq> baseStruct);
          execChangedMeta = (meta_proxy updated \<noteq> meta_proxy base)
      in if userChangedStruct \<or> userChangedMeta then
           (if userChangedStruct \<and> \<not> userChangedMeta then currentStruct
            else if userChangedMeta \<and> \<not> userChangedStruct then meta_proxy current
            else if currentStruct \<noteq> [] then currentStruct
            else meta_proxy current)
         else if execChangedStruct \<or> execChangedMeta then
           (if execChangedStruct \<and> \<not> execChangedMeta then updatedStruct
            else if execChangedMeta \<and> \<not> execChangedStruct then meta_proxy updated
            else if updatedStruct \<noteq> [] then updatedStruct
            else meta_proxy updated)
         else if meta_proxy current \<noteq> [] \<and> currentStruct = [] then meta_proxy current
         else currentStruct)"

definition set_proxy :: "string \<Rightarrow> Auth \<Rightarrow> Auth" where
  "set_proxy finalProxy merged =
     (if finalProxy \<noteq> [] then
        merged\<lparr>auth_ProxyURL := finalProxy,
               auth_Metadata := AList.update ''proxy_url'' (AString finalProxy) (auth_Metadata merged)\<rparr>
      else merged\<lparr>auth_ProxyURL := [], auth_Metadata := AList.delete ''proxy_url'' (auth_Metadata merged)\<rparr>)"

definition merge_prefix :: "Auth \<Rightarrow> Auth \<Rightarrow> Auth \<Rightarrow> string" where
  "merge_prefix base current updated =
     (let basePrefix = trim_space (auth_Prefix base);
          currentPrefix = trim_space (auth_Prefix current);
          updatedPrefix = trim_space (auth_Prefix updated)
      in if updatedPrefix \<noteq> basePrefix \<and> currentPrefix = basePrefix then updatedPrefix else currentPrefix)"

text \<open>\<open>expiry\<close> reads when the access token among the metadata ends (\<open>AccessTokenExpirationTime\<close>).\<close>

type_synonym expiry_reader = "(string, any_value) gomap \<Rightarrow> time option"

definition mergeAuthContent :: "expiry_reader \<Rightarrow> Auth \<Rightarrow> Auth \<Rightarrow> Auth \<Rightarrow> Auth" where
  "mergeAuthContent expiry base current updated =
     (if auth_RegistrationEpoch current \<noteq> auth_RegistrationEpoch base then current
      else
        let m1 = current\<lparr>auth_Metadata :=
              merge_map IsAuthTokenPayloadKey is_proxy_key (auth_Metadata base) (auth_Metadata current) (auth_Metadata updated)\<rparr>;
            m2 = set_proxy (merge_proxy base current updated) m1
        in m2\<lparr>auth_tokenExpiry := expiry (auth_Metadata m2),
              auth_Prefix := merge_prefix base current updated,
              auth_Attributes := merge_map (\<lambda>_. False) (\<lambda>_. False)
                (auth_Attributes base) (auth_Attributes current) (auth_Attributes updated)\<rparr>)"

definition MergePreparedAuth :: "expiry_reader \<Rightarrow> Auth \<Rightarrow> Auth \<Rightarrow> Auth \<Rightarrow> Auth" where
  "MergePreparedAuth = mergeAuthContent"

definition is_disabled :: "Auth \<Rightarrow> bool" where
  "is_disabled auth = (auth_Disabled auth \<or> auth_Status auth = StatusDisabled)"

definition final_disabled :: "Auth \<Rightarrow> Auth \<Rightarrow> Auth \<Rightarrow> bool" where
  "final_disabled base current updated =
     (let disabledChangedByExecutor = (is_disabled updated \<noteq> is_disabled base);
          disabledChangedByUser = (is_disabled current \<noteq> is_disabled base)
      in if disabledChangedByExecutor \<and> \<not> disabledChangedByUser then is_disabled updated else is_disabled current)"

definition error_message :: "Auth \<Rightarrow> string" where
  "error_message auth = (case auth_LastError auth of Some e \<Rightarrow> er_Message e | None \<Rightarrow> [])"

text \<open>The status of an enabled credential: a failure that came in meanwhile, or a rest that still runs, is kept.\<close>

definition merge_status :: "Auth \<Rightarrow> Auth \<Rightarrow> Auth \<Rightarrow> time \<Rightarrow> Auth \<Rightarrow> Auth" where
  "merge_status base current updated now merged =
     (if error_message current \<noteq> [] \<and> error_message current \<noteq> error_message base then
        merged\<lparr>auth_LastError := auth_LastError current, auth_Status := auth_Status current,
               auth_Unavailable := auth_Unavailable current, auth_StatusMessage := auth_StatusMessage current\<rparr>
      else if qs_Exceeded (auth_Quota current) \<and> qs_Reason (auth_Quota current) = ''credential_quota''
              \<and> qs_NextRecoverAt (auth_Quota current) > now
           \<or> auth_Unavailable current \<and> auth_NextRetryAfter current > now then
        merged\<lparr>auth_Unavailable := auth_Unavailable current, auth_Status := auth_Status current,
               auth_StatusMessage := auth_StatusMessage current\<rparr>
      else if auth_Status updated = StatusActive \<or> auth_Status updated = StatusUnset then
        merged\<lparr>auth_Status := StatusActive, auth_Unavailable := False, auth_StatusMessage := [], auth_LastError := None\<rparr>
      else merged)"

definition MergeRefreshedAuth :: "expiry_reader \<Rightarrow> Auth \<Rightarrow> Auth \<Rightarrow> Auth \<Rightarrow> time \<Rightarrow> Auth" where
  "MergeRefreshedAuth expiry base current updated now =
     (let merged0 = mergeAuthContent expiry base current updated
      in if auth_RegistrationEpoch current \<noteq> auth_RegistrationEpoch base then merged0
         else
           let m1 = (if auth_NextRefreshAfter updated \<noteq> zero_time \<or> auth_NextRefreshAfter base \<noteq> zero_time
                     then merged0\<lparr>auth_NextRefreshAfter := auth_NextRefreshAfter updated\<rparr> else merged0);
               m2 = (if final_disabled base current updated then
                       m1\<lparr>auth_Disabled := True, auth_Status := StatusDisabled,
                          auth_Metadata := AList.update ''disabled'' (ABool True) (auth_Metadata m1)\<rparr>
                     else merge_status base current updated now
                       (m1\<lparr>auth_Disabled := False,
                           auth_Status := (if auth_Status m1 = StatusDisabled then StatusActive else auth_Status m1),
                           auth_Metadata := AList.update ''disabled'' (ABool False) (auth_Metadata m1)\<rparr>))
           in m2\<lparr>auth_ModelStates := merge_map (\<lambda>_. False) (\<lambda>_. False)
                  (auth_ModelStates base) (auth_ModelStates current) (auth_ModelStates updated)\<rparr>)"

text \<open>The settings of an existing file that a newly acquired credential inherits.\<close>

definition MergeExistingAuthMetadata :: "Auth \<Rightarrow> (string, any_value) gomap \<Rightarrow> Auth" where
  "MergeExistingAuthMetadata target existing =
     (let t1 = (if has_key (auth_Metadata target) ''disabled'' then target
                else case map_of existing ''disabled'' of
                  Some (ABool b) \<Rightarrow> target\<lparr>auth_Disabled := b\<rparr> | _ \<Rightarrow> target)
      in t1\<lparr>auth_Metadata := fold (\<lambda>(k, v) meta.
            if IsAuthTokenPayloadKey k then meta
            else if equal_fold (trim_space (auth_Provider t1)) ''meta''
                 \<and> CanonicalCredentialMetadataKey k \<in> set [''api_key'', ''dca_token'', ''dca_expired'', ''dca_expires_at''] then meta
            else if has_key meta k then meta else AList.update k v meta) existing (auth_Metadata t1)\<rparr>)"

section \<open>What a merge gives\<close>

lemma merge_sets_get:
  assumes "wf_map updated"
  shows "map_of (fold (\<lambda>(k, v) merged.
      if ignored k then merged
      else if changed_by_executor base k v \<and> (\<not> changed_by_user base current k \<or> owned k)
        then AList.update k v merged
      else merged) updated m) k =
    (case map_of updated k of
       Some v \<Rightarrow> if \<not> ignored k \<and> map_of base k \<noteq> Some v \<and> (map_of base k = map_of current k \<or> owned k)
                 then Some v else map_of m k
     | None \<Rightarrow> map_of m k)"
  using assms
  by (induction updated arbitrary: m)
    (auto simp: wf_map_Cons changed_by_executor_def changed_by_user_def map_of_update has_key_def
      dest!: map_of_eq_None_iff [THEN iffD2] split: option.splits)

lemma merge_deletions_get:
  assumes "wf_map base"
  shows "map_of (merge_deletions ignored base current updated m) k =
    (if \<not> ignored k \<and> map_of updated k = None \<and> map_of base k \<noteq> None \<and> map_of current k = map_of base k
     then None else map_of m k)"
  using assms unfolding merge_deletions_def
  by (induction base arbitrary: m) (auto simp: wf_map_Cons map_of_delete has_key_def
      dest!: map_of_eq_None_iff [THEN iffD2] split: option.splits)

text \<open>The abstract merge: the side that changed a value decides; where both did, the user, but for owned keys.\<close>

definition three_way :: "bool \<Rightarrow> 'v option \<Rightarrow> 'v option \<Rightarrow> 'v option \<Rightarrow> 'v option" where
  "three_way owned base current updated =
     (if current = base then updated
      else if owned \<and> updated \<noteq> base \<and> updated \<noteq> None then updated
      else current)"

lemma merge_map_get:
  assumes "wf_map base" and "wf_map updated"
  shows "map_of (merge_map owned ignored base current updated) k =
    (if ignored k then map_of current k
     else three_way (owned k) (map_of base k) (map_of current k) (map_of updated k))"
  using assms
  by (auto simp: merge_map_def merge_sets_def merge_deletions_get merge_sets_get three_way_def split: option.splits)

lemma set_proxy_simps [simp]:
  "auth_ModelStates (set_proxy p a) = auth_ModelStates a" "auth_Attributes (set_proxy p a) = auth_Attributes a"
  "auth_RegistrationEpoch (set_proxy p a) = auth_RegistrationEpoch a" "auth_Generation (set_proxy p a) = auth_Generation a"
  "auth_ID (set_proxy p a) = auth_ID a" "auth_Status (set_proxy p a) = auth_Status a"
  "auth_Disabled (set_proxy p a) = auth_Disabled a" "auth_Unavailable (set_proxy p a) = auth_Unavailable a"
  "auth_LastError (set_proxy p a) = auth_LastError a" "auth_Quota (set_proxy p a) = auth_Quota a"
  "auth_NextRetryAfter (set_proxy p a) = auth_NextRetryAfter a" "auth_StatusMessage (set_proxy p a) = auth_StatusMessage a"
  "auth_NextRefreshAfter (set_proxy p a) = auth_NextRefreshAfter a"
  by (simp_all add: set_proxy_def)

lemma set_proxy_get [simp]:
  "\<not> is_proxy_key k \<Longrightarrow> map_of (auth_Metadata (set_proxy p a)) k = map_of (auth_Metadata a) k"
proof -
  have "is_proxy_key ''proxy_url''" by code_simp
  then show "\<not> is_proxy_key k \<Longrightarrow> ?thesis" by (auto simp: set_proxy_def map_of_update map_of_delete)
qed

lemma merge_status_simps [simp]:
  "auth_Metadata (merge_status b c u now a) = auth_Metadata a"
  "auth_Attributes (merge_status b c u now a) = auth_Attributes a"
  "auth_ModelStates (merge_status b c u now a) = auth_ModelStates a"
  "auth_ID (merge_status b c u now a) = auth_ID a"
  "auth_RegistrationEpoch (merge_status b c u now a) = auth_RegistrationEpoch a"
  "auth_Generation (merge_status b c u now a) = auth_Generation a"
  "auth_Disabled (merge_status b c u now a) = auth_Disabled a"
  "auth_Quota (merge_status b c u now a) = auth_Quota a"
  "auth_NextRetryAfter (merge_status b c u now a) = auth_NextRetryAfter a"
  "auth_tokenExpiry (merge_status b c u now a) = auth_tokenExpiry a"
  by (simp_all add: merge_status_def)

lemma merged_identity [simp]:
  "auth_ID (MergeRefreshedAuth expiry b c u now) = auth_ID c"
  "auth_RegistrationEpoch (MergeRefreshedAuth expiry b c u now) = auth_RegistrationEpoch c"
  "auth_Generation (MergeRefreshedAuth expiry b c u now) = auth_Generation c"
  "auth_ID (MergePreparedAuth expiry b c u) = auth_ID c"
  "auth_RegistrationEpoch (MergePreparedAuth expiry b c u) = auth_RegistrationEpoch c"
  "auth_Generation (MergePreparedAuth expiry b c u) = auth_Generation c"
  by (simp_all add: MergeRefreshedAuth_def MergePreparedAuth_def mergeAuthContent_def Let_def)


section \<open>What a refresh leaves alone\<close>

lemma merge_sets_unchanged:
  "(\<And>k v. (k, v) \<in> set updated \<Longrightarrow> map_of base k = Some v) \<Longrightarrow>
   fold (\<lambda>(k, v) merged.
      if ignored k then merged
      else if changed_by_executor base k v \<and> (\<not> changed_by_user base current k \<or> owned k)
        then AList.update k v merged
      else merged) updated m = m"
  by (induction updated) (auto simp: changed_by_executor_def)

lemma merge_map_unchanged:
  assumes "wf_map base"
  shows "merge_map owned ignored base current base = current"
proof -
  have k: "has_key base k" if "(k, v) \<in> set base" for k v
    using that by (force simp: has_key_set)
  have "merge_sets owned ignored base current base = current"
    unfolding merge_sets_def using assms by (intro merge_sets_unchanged) (simp add: wf_map_def)
  moreover have d: "fold (\<lambda>(k, baseVal) merged.
      if ignored k then merged
      else if \<not> has_key base k \<and> map_of current k = Some baseVal then AList.delete k merged
      else merged) xs m = m" if "set xs \<subseteq> set base" for xs m
    using that k by (induction xs) auto
  ultimately show ?thesis using d [OF order_refl, of current] by (simp only: merge_map_def merge_deletions_def)
qed

text \<open>A rest that still runs at \<open>now\<close>.\<close>

definition resting :: "Auth \<Rightarrow> time \<Rightarrow> bool" where
  "resting a now \<longleftrightarrow> credential_quota_active a now \<or> (auth_Unavailable a \<and> now < auth_NextRetryAfter a)"

definition refused_tokens :: "Auth \<Rightarrow> bool" where
  "refused_tokens a = (case auth_LastError a of
     Some e \<Rightarrow> er_HTTPStatus e = 401 \<or> equal_fold (er_Code e) ''unauthorized'' | None \<Rightarrow> False)"


text \<open>
  The user's switch wins: if a credential was disabled or enabled while its refresh ran, it is
  disabled or enabled afterwards, whatever the executor returns.
\<close>

theorem refresh_keeps_switch:
  assumes "is_disabled current \<noteq> is_disabled base"
  shows "is_disabled (MergeRefreshedAuth expiry base current updated now) = is_disabled current"
proof (cases "auth_RegistrationEpoch current = auth_RegistrationEpoch base")
  case True
  have "final_disabled base current updated = is_disabled current" using assms by (simp add: final_disabled_def)
  with True assms show ?thesis
    by (auto simp: MergeRefreshedAuth_def mergeAuthContent_def Let_def merge_status_def is_disabled_def)
qed (simp add: MergeRefreshedAuth_def mergeAuthContent_def Let_def is_disabled_def)

section \<open>Examples\<close>

definition switched :: "bool \<Rightarrow> Auth" where
  "switched disabled = (new_auth ''a'' ''codex'')\<lparr>auth_Disabled := disabled,
     auth_Metadata := [(''note'', AString ''old''), (''access_token'', AString ''t1'')]\<rparr>"

definition new_token :: Auth where
  "new_token = (switched False)\<lparr>auth_Metadata := [(''note'', AString ''executor''), (''access_token'', AString ''t2'')]\<rparr>"

definition edited :: Auth where
  "edited = (switched False)\<lparr>auth_Metadata := [(''note'', AString ''user''), (''access_token'', AString ''t1'')]\<rparr>"


definition failed_until :: "time \<Rightarrow> Auth" where
  "failed_until t = (new_auth ''a'' ''codex'')\<lparr>auth_Unavailable := True, auth_Status := StatusError, auth_NextRetryAfter := t\<rparr>"


theorem refresh_keeps_switch_witness:
  "is_disabled (MergeRefreshedAuth (\<lambda>_. None) (switched False) (switched True) new_token 5)"
proof -
  have "is_disabled (switched True) \<noteq> is_disabled (switched False)" by code_simp
  from refresh_keeps_switch [OF this] show ?thesis by (simp add: is_disabled_def switched_def)
qed

text \<open>
  An executor that enables a credential does not get its way while the credential rests: the merge
  drops the disabled status and then takes the status over from the record, which is the disabled one.
\<close>

theorem enabled_stays_disabled:
  "\<not> final_disabled ((failed_until 100)\<lparr>auth_Status := StatusDisabled\<rparr>)
       ((failed_until 100)\<lparr>auth_Status := StatusDisabled\<rparr>) (switched False)
   \<and> is_disabled (MergeRefreshedAuth (\<lambda>_. None) ((failed_until 100)\<lparr>auth_Status := StatusDisabled\<rparr>)
       ((failed_until 100)\<lparr>auth_Status := StatusDisabled\<rparr>) (switched False) 5)"
  by code_simp

end
