(* ===== verification/GoErrors.thy ===== *)
theory GoErrors
  imports ErrorClass
begin

text \<open>
  The errors that requests end with (\<open>sdk/cliproxy/auth/errors.go\<close> and the classification of errors in
  \<open>conductor_cooldown.go\<close>, \<open>conductor_execution.go\<close> and \<open>conductor_request_scoped_errors.go\<close>). A Go error
  is a tree: what the error itself offers to \<open>errors.As\<close> and \<open>errors.Is\<close>, and the errors it wraps.
  The \<open>nil\<close> error is the absence of an error and never a node.
\<close>

section \<open>Error trees\<close>

datatype sentinel = ContextCanceled | DeadlineExceeded | EndOfFile | UnexpectedEndOfFile

datatype errno =
  ECONNREFUSED | ECONNRESET | ECONNABORTED | ETIMEDOUT | EHOSTUNREACH | ENETUNREACH | EPIPE | OtherErrno

text \<open>
  One error: its text, the \<open>*Error\<close> it is or stands for, the answers of the optional methods
  \<open>StatusCode\<close>, \<open>RetryAfter\<close>, \<open>IsRequestScoped\<close>, \<open>IsCredentialScoped\<close> and \<open>ResponseBody\<close>, the typed
  failures of the network libraries, and whether it is one of the wrappers of the manager.
\<close>

record error_face =
  fc_text :: string
  fc_auth :: "AuthError option"
  fc_status :: "int option"
  fc_retryAfter :: "duration option option"
  fc_requestScoped :: "bool option"
  fc_credentialScoped :: "bool option"
  fc_body :: "string option"
  fc_sentinel :: "sentinel option"
  fc_close :: "int option"
  fc_dns :: "bool option"
  fc_timeout :: "bool option"
  fc_errno :: "errno option"
  fc_op :: bool
  fc_requestStop :: bool
  fc_terminated :: bool
  fc_attempted :: bool

datatype go_error = GoError (error_face: error_face) (error_wrapped: "go_error list")

definition plain_face :: "string \<Rightarrow> error_face" where
  "plain_face text = \<lparr>fc_text = text, fc_auth = None, fc_status = None, fc_retryAfter = None, fc_requestScoped = None,
     fc_credentialScoped = None, fc_body = None, fc_sentinel = None, fc_close = None, fc_dns = None, fc_timeout = None,
     fc_errno = None, fc_op = False, fc_requestStop = False, fc_terminated = False, fc_attempted = False\<rparr>"

definition error_text :: "go_error \<Rightarrow> string" where
  "error_text e = fc_text (error_face e)"

text \<open>The walk of \<open>errors.As\<close> and \<open>errors.Is\<close>: the first error, the error itself before those it wraps.\<close>

fun as_first :: "(error_face \<Rightarrow> 'a option) \<Rightarrow> go_error \<Rightarrow> 'a option"
  and as_first_of :: "(error_face \<Rightarrow> 'a option) \<Rightarrow> go_error list \<Rightarrow> 'a option"
where
  "as_first f (GoError face wrapped) = (case f face of Some x \<Rightarrow> Some x | None \<Rightarrow> as_first_of f wrapped)"
| "as_first_of f [] = None"
| "as_first_of f (e # es) = (case as_first f e of Some x \<Rightarrow> Some x | None \<Rightarrow> as_first_of f es)"

definition some_if :: "bool \<Rightarrow> unit option" where
  "some_if b = (if b then Some () else None)"

definition errors_Is :: "sentinel \<Rightarrow> go_error \<Rightarrow> bool" where
  "errors_Is target e = (as_first (\<lambda>face. some_if (fc_sentinel face = Some target)) e \<noteq> None)"

definition errors_New :: "string \<Rightarrow> go_error" where
  "errors_New text = GoError (plain_face text) []"

text \<open>An \<open>*Error\<close>, and the wrappers that hand one out together with a cause (\<open>WithCause\<close>).\<close>

definition auth_face :: "AuthError \<Rightarrow> string \<Rightarrow> error_face" where
  "auth_face err text = (plain_face text)\<lparr>fc_auth := Some err, fc_status := Some (er_HTTPStatus err),
     fc_requestScoped := Some (er_Code err = ErrorCodeRequestScoped)\<rparr>"

definition value_error :: "AuthError \<Rightarrow> go_error" where
  "value_error err = GoError (auth_face err (Error_Error err)) []"

text \<open>\<open>ExtractUpstreamErrorSummary\<close>, the redaction of an upstream message, is the parameter \<open>summary\<close>.\<close>

definition text_with_cause :: "(string \<Rightarrow> string) \<Rightarrow> string \<Rightarrow> go_error \<Rightarrow> string" where
  "text_with_cause summary base cause =
     (let found = summary (error_text cause)
      in if found \<noteq> [] \<and> \<not> str_contains base found then base @ '' (last upstream error: '' @ found @ '')'' else base)"

definition WithCause :: "(string \<Rightarrow> string) \<Rightarrow> AuthError \<Rightarrow> go_error option \<Rightarrow> go_error" where
  "WithCause summary err cause =
     (case cause of
        None \<Rightarrow> value_error err
      | Some c \<Rightarrow> GoError (auth_face err (text_with_cause summary (Error_Error err) c)) [c])"

definition NewRequestScopedError :: "string \<Rightarrow> int \<Rightarrow> AuthError" where
  "NewRequestScopedError message httpStatus =
     \<lparr>er_Code = ErrorCodeRequestScoped, er_Message = message, er_Retryable = False, er_HTTPStatus = httpStatus\<rparr>"

section \<open>What an error says\<close>

definition statusCodeFromError :: "go_error \<Rightarrow> int" where
  "statusCodeFromError e = (case as_first fc_status e of Some s \<Rightarrow> s | None \<Rightarrow> 0)"

definition retryAfterFromError :: "go_error \<Rightarrow> duration option" where
  "retryAfterFromError e = (case as_first fc_retryAfter e of Some r \<Rightarrow> r | None \<Rightarrow> None)"

definition isRequestScopedError :: "go_error \<Rightarrow> bool" where
  "isRequestScopedError e = (as_first fc_requestScoped e = Some True)"

definition isCredentialScopedError :: "go_error \<Rightarrow> bool" where
  "isCredentialScopedError e = (as_first fc_credentialScoped e = Some True)"

definition isRequestTerminatedError :: "go_error \<Rightarrow> bool" where
  "isRequestTerminatedError e = (as_first (\<lambda>face. some_if (fc_terminated face)) e \<noteq> None)"

definition isRequestStopError :: "go_error \<Rightarrow> bool" where
  "isRequestStopError e = (as_first (\<lambda>face. some_if (fc_requestStop face)) e \<noteq> None)"

fun isExplicitModelNotFoundError_any :: "json_bodies \<Rightarrow> string \<Rightarrow> go_error \<Rightarrow> bool" where
  "isExplicitModelNotFoundError_any jb requestedModel (GoError face wrapped) =
     ((case as_first fc_auth (GoError face wrapped) of
         Some a \<Rightarrow> isExplicitModelNotFoundError jb a requestedModel
       | None \<Rightarrow> isStructuredModelNotFoundError jb (fc_text face) requestedModel)
      \<or> list_ex (isExplicitModelNotFoundError_any jb requestedModel) wrapped)"

definition isModelSupportError_any :: "json_bodies \<Rightarrow> go_error \<Rightarrow> bool" where
  "isModelSupportError_any jb e =
     (isExplicitModelNotFoundError_any jb [] e
      \<or> (model_support_status (statusCodeFromError e) \<and> isModelSupportErrorMessage (error_text e)))"

definition isInvalidGrantError_any :: "go_error \<Rightarrow> bool" where
  "isInvalidGrantError_any e = (statusCodeFromError e \<in> set [400, 401] \<and> isInvalidGrantErrorMessage (error_text e))"

definition isCloudflareChallengeError_any :: "go_error \<Rightarrow> bool" where
  "isCloudflareChallengeError_any e =
     (\<not> statusCodeFromError e \<ge> 500 \<and> isCloudflareChallengeErrorMessage (error_text e))"

text \<open>\<open>clienterror.IsRequestFault\<close> of an error, with the status the caller read from it.\<close>

definition error_request_fault :: "json_bodies \<Rightarrow> go_error \<Rightarrow> bool" where
  "error_request_fault jb e =
     IsRequestFault jb (statusCodeFromError e) (as_first fc_status e) (error_text e)"

definition isRequestInvalidError_any :: "json_bodies \<Rightarrow> go_error \<Rightarrow> bool" where
  "isRequestInvalidError_any jb e =
     (if isRequestScopedError e then True
      else if isCloudflareChallengeError_any e then False
      else if isInvalidGrantError_any e then False
      else if isModelSupportError_any jb e then False
      else if error_request_fault jb e then True
      else case as_first fc_auth e of
        Some a \<Rightarrow> er_Message a \<noteq> [] \<and> IsRequestFault jb (statusCodeFromError e) None (er_Message a)
      | None \<Rightarrow> False)"

definition isConnectionLifecycleError :: "go_error \<Rightarrow> bool" where
  "isConnectionLifecycleError e =
     (if (case as_first fc_close e of Some code \<Rightarrow> code \<in> set [1000, 1001, 1006] | None \<Rightarrow> False) then True
      else if statusCodeFromError e \<noteq> 0 then False
      else if errors_Is ContextCanceled e \<or> errors_Is DeadlineExceeded e \<or> errors_Is EndOfFile e
           \<or> errors_Is UnexpectedEndOfFile e then True
      else isConnectionLifecycleMessage (error_text e))"

definition isTransientSyscallError :: "go_error \<Rightarrow> bool" where
  "isTransientSyscallError e = (case as_first fc_errno e of Some n \<Rightarrow> n \<noteq> OtherErrno | None \<Rightarrow> False)"

definition isTransientTransportError :: "go_error \<Rightarrow> bool" where
  "isTransientTransportError e =
     (if statusCodeFromError e \<noteq> 0 then False
      else if errors_Is ContextCanceled e \<or> errors_Is DeadlineExceeded e then False
      else if errors_Is EndOfFile e \<or> errors_Is UnexpectedEndOfFile e then True
      else if as_first fc_dns e = Some True then True
      else if as_first fc_timeout e = Some True then True
      else if isTransientSyscallError e then True
      else if as_first (\<lambda>face. some_if (fc_op face)) e \<noteq> None then True
      else isTransientTransportMessage (error_text e))"

definition isUnauthorizedError_any :: "go_error \<Rightarrow> bool" where
  "isUnauthorizedError_any e =
     (statusCodeFromError e = 401
      \<or> str_contains (to_lower (error_text e)) ''status 401''
      \<or> str_contains (to_lower (error_text e)) ''401 unauthorized'')"

definition extractErrorBody :: "go_error \<Rightarrow> string" where
  "extractErrorBody e =
     (case as_first fc_body e of
        Some (c # b) \<Rightarrow> c # b
      | _ \<Rightarrow> (case as_first fc_auth e of
                Some a \<Rightarrow> if er_Message a \<noteq> [] then er_Message a else error_text e
              | None \<Rightarrow> error_text e))"

section \<open>The error of a result\<close>

definition result_error_base :: "go_error \<Rightarrow> AuthError" where
  "result_error_base e =
     (let source = (case as_first fc_auth e of
            Some a \<Rightarrow> a
          | None \<Rightarrow> \<lparr>er_Code = [], er_Message = error_text e, er_Retryable = False, er_HTTPStatus = 0\<rparr>)
      in if er_HTTPStatus source = 0 then source\<lparr>er_HTTPStatus := statusCodeFromError e\<rparr> else source)"

definition resultErrorFromError :: "json_bodies \<Rightarrow> go_error \<Rightarrow> AuthError" where
  "resultErrorFromError jb e =
     (let err = result_error_base e
      in if isExplicitModelNotFoundError_any jb [] e then
           (if er_Code err \<in> set [[], ErrorCodeRequestScoped] then err\<lparr>er_Code := ''model_not_found''\<rparr> else err)
         else if isRequestScopedError e \<or> isRequestInvalidError_any jb e then err\<lparr>er_Code := ErrorCodeRequestScoped\<rparr>
         else if isConnectionLifecycleError e then
           (if er_Code err \<in> set [[], connectionLifecycleErrorCode] then err\<lparr>er_Code := connectionLifecycleErrorCode\<rparr> else err)
         else if isTransientTransportError e then
           (if er_Code err \<in> set [[], transientTransportErrorCode] then err\<lparr>er_Code := transientTransportErrorCode\<rparr> else err)
         else err)"

section \<open>The wrappers of an execution\<close>

text \<open>An error of a request that reached the upstream is marked, so that it is preferred over a later local one.\<close>

definition hasUpstreamExecutionAttempt :: "go_error \<Rightarrow> bool" where
  "hasUpstreamExecutionAttempt e = (as_first (\<lambda>face. some_if (fc_attempted face)) e \<noteq> None)"

definition markUpstreamExecutionAttempt :: "go_error \<Rightarrow> go_error" where
  "markUpstreamExecutionAttempt e =
     (if hasUpstreamExecutionAttempt e then e
      else GoError ((plain_face (error_text e))\<lparr>fc_attempted := True\<rparr>) [e])"

definition markUpstreamExecutionAttemptFromContext :: "bool \<Rightarrow> go_error \<Rightarrow> go_error" where
  "markUpstreamExecutionAttemptFromContext attempted e = (if \<not> attempted then e else markUpstreamExecutionAttempt e)"

definition unwrapUpstreamExecutionAttempt :: "go_error \<Rightarrow> go_error" where
  "unwrapUpstreamExecutionAttempt e =
     (case e of GoError face (cause # _) \<Rightarrow> if fc_attempted face then cause else e | _ \<Rightarrow> e)"

text \<open>Without a Home round to preserve: a cancellation wins, then the last error that reached the upstream.\<close>

definition preferredExecutionAttemptError :: "go_error \<Rightarrow> go_error option \<Rightarrow> go_error" where
  "preferredExecutionAttemptError fallback upstream =
     (if errors_Is ContextCanceled fallback \<or> errors_Is DeadlineExceeded fallback then fallback
      else case upstream of None \<Rightarrow> fallback | Some u \<Rightarrow> markUpstreamExecutionAttempt u)"

text \<open>The error a matching rule stops the request with.\<close>

fun stop_cause :: "go_error \<Rightarrow> go_error option"
  and stop_cause_of :: "go_error list \<Rightarrow> go_error option"
where
  "stop_cause (GoError face wrapped) =
     (if fc_requestStop face then (case wrapped of cause # _ \<Rightarrow> Some cause | [] \<Rightarrow> None) else stop_cause_of wrapped)"
| "stop_cause_of [] = None"
| "stop_cause_of (e # es) = (case stop_cause e of Some c \<Rightarrow> Some c | None \<Rightarrow> stop_cause_of es)"

definition unwrapRequestStopError :: "go_error \<Rightarrow> go_error" where
  "unwrapRequestStopError e = (case stop_cause e of Some c \<Rightarrow> c | None \<Rightarrow> e)"

definition wrapRequestStopError :: "go_error \<Rightarrow> go_error" where
  "wrapRequestStopError e =
     (let cause = unwrapRequestStopError e
      in GoError ((plain_face (error_text cause))\<lparr>fc_requestStop := True\<rparr>) [cause])"

definition unwrapExecutionBoundaryError :: "go_error \<Rightarrow> go_error" where
  "unwrapExecutionBoundaryError e = unwrapUpstreamExecutionAttempt (unwrapRequestStopError e)"

section \<open>The two forms of an error agree\<close>

text \<open>A result carries an \<open>AuthError\<close>; read as an error it is classified alike.\<close>

lemma as_first_value_error [simp]: "as_first f (value_error a) = f (auth_face a (Error_Error a))"
  by (simp add: value_error_def split: option.split)

lemma value_error_facts [simp]:
  "error_text (value_error a) = Error_Error a"
  "statusCodeFromError (value_error a) = er_HTTPStatus a"
  "retryAfterFromError (value_error a) = None"
  "isRequestScopedError (value_error a) = (er_Code a = ErrorCodeRequestScoped)"
  "isCredentialScopedError (value_error a) = False"
  by (simp_all add: error_text_def value_error_def auth_face_def plain_face_def statusCodeFromError_def
      retryAfterFromError_def isRequestScopedError_def isCredentialScopedError_def)

lemma classified_alike:
  "isExplicitModelNotFoundError_any jb model (value_error a) = isExplicitModelNotFoundError jb a model"
  "isModelSupportError_any jb (value_error a) = isModelSupportError jb a"
  "isInvalidGrantError_any (value_error a) = isInvalidGrantError a"
  "isCloudflareChallengeError_any (value_error a) = isCloudflareChallengeError a"
proof -
  show *: "isExplicitModelNotFoundError_any jb m (value_error a) = isExplicitModelNotFoundError jb a m" for m
    by (simp add: value_error_def auth_face_def plain_face_def)
  show "isModelSupportError_any jb (value_error a) = isModelSupportError jb a"
    by (simp add: isModelSupportError_any_def isModelSupportError_def *)
  show "isInvalidGrantError_any (value_error a) = isInvalidGrantError a"
    by (simp add: isInvalidGrantError_any_def isInvalidGrantError_def)
  show "isCloudflareChallengeError_any (value_error a) = isCloudflareChallengeError a"
    by (simp add: isCloudflareChallengeError_any_def isCloudflareChallengeError_def)
qed

lemma request_invalid_alike: "isRequestInvalidError_any jb (value_error a) = isRequestInvalidError jb a"
  by (simp add: isRequestInvalidError_any_def isRequestInvalidError_def classified_alike error_request_fault_def
      auth_face_def plain_face_def)

section \<open>Marking an error changes nothing else\<close>

text \<open>What a wrapper leaves visible: the text, and everything it does not answer itself.\<close>

definition transparent :: "go_error \<Rightarrow> go_error \<Rightarrow> bool" where
  "transparent outer e \<longleftrightarrow> error_wrapped outer = [e] \<and> error_text outer = error_text e
     \<and> (let face = error_face outer
        in fc_auth face = None \<and> fc_status face = None \<and> fc_retryAfter face = None \<and> fc_requestScoped face = None
           \<and> fc_credentialScoped face = None \<and> fc_body face = None \<and> fc_sentinel face = None \<and> fc_close face = None
           \<and> fc_dns face = None \<and> fc_timeout face = None \<and> fc_errno face = None \<and> \<not> fc_op face)"

lemma transparent_as_first:
  "f (error_face outer) = None \<Longrightarrow> error_wrapped outer = [e] \<Longrightarrow> as_first f outer = as_first f e"
  by (cases outer) (simp split: option.split)

lemma not_found_walk: "isExplicitModelNotFoundError_any jb m e \<longleftrightarrow>
    (case as_first fc_auth e of Some a \<Rightarrow> isExplicitModelNotFoundError jb a m
      | None \<Rightarrow> isStructuredModelNotFoundError jb (error_text e) m)
    \<or> list_ex (isExplicitModelNotFoundError_any jb m) (error_wrapped e)"
proof (cases e)
  case (GoError face wrapped)
  then show ?thesis by (simp add: error_text_def cong: option.case_cong)
qed

lemma transparent_facts:
  assumes "transparent outer e"
  shows "statusCodeFromError outer = statusCodeFromError e"
    "retryAfterFromError outer = retryAfterFromError e"
    "isRequestScopedError outer = isRequestScopedError e"
    "isCredentialScopedError outer = isCredentialScopedError e"
    "errors_Is target outer = errors_Is target e"
    "isRequestInvalidError_any jb outer = isRequestInvalidError_any jb e"
    "isTransientTransportError outer = isTransientTransportError e"
    "isConnectionLifecycleError outer = isConnectionLifecycleError e"
    "extractErrorBody outer = extractErrorBody e"
    "resultErrorFromError jb outer = resultErrorFromError jb e"
proof -
  note as = transparent_as_first [of _ outer e]
  have w: "error_wrapped outer = [e]" and t: "error_text outer = error_text e" using assms by (simp_all add: transparent_def)
  have f: "as_first fc_auth outer = as_first fc_auth e" "as_first fc_status outer = as_first fc_status e"
    "as_first fc_retryAfter outer = as_first fc_retryAfter e" "as_first fc_requestScoped outer = as_first fc_requestScoped e"
    "as_first fc_credentialScoped outer = as_first fc_credentialScoped e" "as_first fc_body outer = as_first fc_body e"
    "as_first fc_close outer = as_first fc_close e" "as_first fc_dns outer = as_first fc_dns e"
    "as_first fc_timeout outer = as_first fc_timeout e" "as_first fc_errno outer = as_first fc_errno e"
    using assms by (simp_all add: as transparent_def Let_def)
  have op: "as_first (\<lambda>face. some_if (fc_op face)) outer = as_first (\<lambda>face. some_if (fc_op face)) e"
    by (rule as) (use assms in \<open>simp_all add: transparent_def Let_def some_if_def\<close>)
  show ss: "errors_Is target outer = errors_Is target e" for target
  proof -
    have "as_first (\<lambda>face. some_if (fc_sentinel face = Some target)) outer
        = as_first (\<lambda>face. some_if (fc_sentinel face = Some target)) e"
      by (rule as) (use assms in \<open>simp_all add: transparent_def Let_def some_if_def\<close>)
    then show ?thesis by (simp add: errors_Is_def)
  qed
  show s: "statusCodeFromError outer = statusCodeFromError e" by (simp add: statusCodeFromError_def f)
  show "retryAfterFromError outer = retryAfterFromError e" by (simp add: retryAfterFromError_def f)
  show rs: "isRequestScopedError outer = isRequestScopedError e" by (simp add: isRequestScopedError_def f)
  show "isCredentialScopedError outer = isCredentialScopedError e" by (simp add: isCredentialScopedError_def f)
  have nf: "isExplicitModelNotFoundError_any jb m outer = isExplicitModelNotFoundError_any jb m e" for m
  proof -
    have "isExplicitModelNotFoundError_any jb m outer \<longleftrightarrow>
      (case as_first fc_auth e of Some a \<Rightarrow> isExplicitModelNotFoundError jb a m
        | None \<Rightarrow> isStructuredModelNotFoundError jb (error_text e) m) \<or> isExplicitModelNotFoundError_any jb m e"
      using not_found_walk [of jb m outer] by (simp add: w t f(1) cong: option.case_cong)
    then show ?thesis using not_found_walk [of jb m e] by blast
  qed
  show ri: "isRequestInvalidError_any jb outer = isRequestInvalidError_any jb e"
    by (simp add: isRequestInvalidError_any_def isCloudflareChallengeError_any_def isInvalidGrantError_any_def
        isModelSupportError_any_def error_request_fault_def s t f rs nf cong: option.case_cong)
  show tt: "isTransientTransportError outer = isTransientTransportError e"
    by (simp only: isTransientTransportError_def isTransientSyscallError_def s t f op ss)
  show cl: "isConnectionLifecycleError outer = isConnectionLifecycleError e"
    by (simp only: isConnectionLifecycleError_def s t f ss)
  show "extractErrorBody outer = extractErrorBody e" by (simp add: extractErrorBody_def t f cong: option.case_cong list.case_cong if_cong)
  show "resultErrorFromError jb outer = resultErrorFromError jb e"
    by (simp only: resultErrorFromError_def result_error_base_def s t f nf rs ri cl tt cong: option.case_cong)
qed

lemma mark_transparent: "hasUpstreamExecutionAttempt e \<or> transparent (markUpstreamExecutionAttempt e) e"
  by (simp add: markUpstreamExecutionAttempt_def transparent_def plain_face_def error_text_def)

lemma mark_marks: "hasUpstreamExecutionAttempt (markUpstreamExecutionAttempt e)"
  by (simp add: markUpstreamExecutionAttempt_def hasUpstreamExecutionAttempt_def some_if_def)

lemma unwrap_mark:
  "\<not> hasUpstreamExecutionAttempt e \<Longrightarrow> unwrapUpstreamExecutionAttempt (markUpstreamExecutionAttempt e) = e"
  by (simp add: markUpstreamExecutionAttempt_def unwrapUpstreamExecutionAttempt_def)

lemma unwrap_stop: "unwrapRequestStopError (wrapRequestStopError e) = unwrapRequestStopError e"
  by (simp add: unwrapRequestStopError_def wrapRequestStopError_def Let_def)

lemma stop_is_stop: "isRequestStopError (wrapRequestStopError e)"
  by (simp add: isRequestStopError_def wrapRequestStopError_def Let_def some_if_def)

section \<open>What a failure is charged with\<close>

lemma mark_charged_alike:
  "resultErrorFromError jb (markUpstreamExecutionAttempt e) = resultErrorFromError jb e"
  "isRequestInvalidError_any jb (markUpstreamExecutionAttempt e) = isRequestInvalidError_any jb e"
  "isCredentialScopedError (markUpstreamExecutionAttempt e) = isCredentialScopedError e"
  "retryAfterFromError (markUpstreamExecutionAttempt e) = retryAfterFromError e"
  using mark_transparent [of e] transparent_facts [of "markUpstreamExecutionAttempt e" e]
  by (auto simp: markUpstreamExecutionAttempt_def)

lemma aborted_not_charged:
  assumes "statusCodeFromError e = 0" and "result_error_base e = err" and "er_Code err = []" and "er_HTTPStatus err = 0"
    and "\<not> isExplicitModelNotFoundError_any jb [] e"
    and "isRequestScopedError e \<or> isConnectionLifecycleError e \<or> isTransientTransportError e"
  shows "shouldSkipCredentialCooldown jb (Some (resultErrorFromError jb e))"
  using assms by (auto simp: resultErrorFromError_def skip_defs error_codes)

end
