(* ===== verification/Refreshing.thy ===== *)
theory Refreshing
  imports Merge GoErrors
begin

text \<open>
  The refresh of a credential by its executor and its preparation before a request
  (\<open>refreshAuthForRequest\<close> and \<open>tryRefreshAfterUnauthorized\<close> in \<open>conductor_refresh.go\<close>,
  \<open>PrepareRequestAuth\<close> in \<open>conductor_execution.go\<close>, the two merging modes of \<open>updateInternal\<close> in
  \<open>conductor_lifecycle.go\<close>). The executor's answer is an argument. \<open>shouldRefresh\<close>, which decides whether a
  refreshed credential is due again, is an argument too: the loop that schedules refreshes is not modelled,
  and neither is the store into which a minted key of the provider \<open>meta\<close> has to go first.
\<close>

section \<open>Updates by an executor\<close>

definition UpdateRefreshedAuth ::
  "expiry_reader \<Rightarrow> Manager \<Rightarrow> bool \<Rightarrow> Auth \<Rightarrow> Auth \<Rightarrow> time \<Rightarrow> time \<Rightarrow> Manager \<times> update_result"
where
  "UpdateRefreshedAuth expiry m deferred base updated now later =
     update_merged (\<lambda>b c u. MergeRefreshedAuth expiry b c u now) m deferred base updated now later"

definition UpdatePreparedAuth ::
  "expiry_reader \<Rightarrow> Manager \<Rightarrow> bool \<Rightarrow> Auth \<Rightarrow> Auth \<Rightarrow> time \<Rightarrow> time \<Rightarrow> Manager \<times> update_result"
where
  "UpdatePreparedAuth expiry m deferred base updated now later =
     update_merged (MergePreparedAuth expiry) m deferred base updated now later"

section \<open>A refresh\<close>

definition refreshFailureBackoff :: duration where "refreshFailureBackoff = 5 * minute_ns"
definition refreshIneffectiveBackoff :: duration where "refreshIneffectiveBackoff = 30 * second_ns"

definition authHasRefreshCredential :: "Auth \<Rightarrow> bool" where
  "authHasRefreshCredential auth =
     (authMetadataString auth ''refresh_token'' \<noteq> [] \<or> authMetadataString auth ''refreshToken'' \<noteq> []
      \<or> (equal_fold (trim_space (auth_Provider auth)) ''meta''
         \<and> (authMetadataString auth ''dca_token'' \<noteq> []
            \<or> trim_space (get_or [] (auth_Attributes auth) ''dca_token'') \<noteq> [])))"

definition refreshErrorFromError :: "go_error \<Rightarrow> AuthError" where
  "refreshErrorFromError err =
     (let code = statusCodeFromError err;
          statusCode = (if code = 0 \<and> isUnauthorizedError_any err then 401 else code)
      in \<lparr>er_Code = (if statusCode = 401 then ''unauthorized'' else []), er_Message = error_text err,
           er_Retryable = False, er_HTTPStatus = statusCode\<rparr>)"

text \<open>A refresh that failed: without a valid access token the credential is out of service.\<close>

definition refresh_failed :: "go_error \<Rightarrow> time \<Rightarrow> Auth \<Rightarrow> Auth" where
  "refresh_failed err now current0 =
     (let current = current0\<lparr>auth_Generation := auth_Generation current0 + 1, auth_UpdatedAt := now,
            auth_LastError := Some (refreshErrorFromError err)\<rparr>
      in if \<not> HasValidAccessToken current now then
           (if isUnauthorizedError_any err
            then current\<lparr>auth_Unavailable := True, auth_Status := StatusError, auth_NextRefreshAfter := zero_time,
                         auth_StatusMessage := ''unauthorized''\<rparr>
            else current\<lparr>auth_Unavailable := True, auth_Status := StatusError,
                         auth_NextRefreshAfter := now + refreshFailureBackoff, auth_StatusMessage := ''token expired''\<rparr>)
         else
           let nextRetry = now + refreshFailureBackoff
           in current\<lparr>auth_NextRefreshAfter :=
                (case auth_tokenExpiry current of
                   Some expires \<Rightarrow> if authAccessToken current \<noteq> [] \<and> expires \<noteq> zero_time \<and> nextRetry > expires then expires else nextRetry
                 | None \<Rightarrow> nextRetry)\<rparr>)"

definition refresh_succeeded :: "(Auth \<Rightarrow> time \<Rightarrow> bool) \<Rightarrow> time \<Rightarrow> Auth \<Rightarrow> Auth" where
  "refresh_succeeded shouldRefresh now updated0 =
     (let updated = updated0\<lparr>auth_NextRefreshAfter := zero_time, auth_LastError := None, auth_StatusMessage := [],
            auth_Unavailable := False,
            auth_Status := (if auth_Status updated0 \<in> set [StatusError, StatusUnset] then StatusActive
                            else auth_Status updated0),
            auth_UpdatedAt := now\<rparr>;
          cleared = fst (clearUnauthorizedModelStates now updated)
      in if shouldRefresh cleared now then cleared\<lparr>auth_NextRefreshAfter := now + refreshIneffectiveBackoff\<rparr>
         else cleared)"

text \<open>What the executor returns: an error, no credential, or a credential.\<close>

type_synonym refresh_answer = "go_error + Auth option"

definition refreshAuthForRequest ::
  "alias_decoder \<Rightarrow> expiry_reader \<Rightarrow> (Auth \<Rightarrow> time \<Rightarrow> bool) \<Rightarrow> string list \<Rightarrow> Manager \<Rightarrow> bool \<Rightarrow> string \<Rightarrow> string
   \<Rightarrow> refresh_answer \<Rightarrow> time \<Rightarrow> time \<Rightarrow> Manager \<times> Auth option"
where
  "refreshAuthForRequest unmarshal expiry shouldRefresh executors m deferred id0 failedAccessToken answer now later =
     (let authID = trim_space id0
      in if authID = [] then (m, None)
         else case map_of (mg_auths m) authID of
           None \<Rightarrow> (m, None)
         | Some auth \<Rightarrow>
             if executorKeyFromAuth auth \<notin> set executors then (m, None)
             else if failedAccessToken \<noteq> [] \<and> authAccessToken auth \<noteq> [] \<and> authAccessToken auth \<noteq> failedAccessToken
             then (m, Some auth)
             else case answer of
               Inl err \<Rightarrow>
                 if errors_Is ContextCanceled err then (m, None)
                 else let current = refresh_failed err now auth
                   in (upsertAuth (m\<lparr>mg_auths := AList.update authID current (mg_auths m)\<rparr>) current later, None)
             | Inr updated0 \<Rightarrow>
                 let updated = refresh_succeeded shouldRefresh now (case updated0 of Some u \<Rightarrow> u | None \<Rightarrow> auth)
                 in case UpdateRefreshedAuth expiry m deferred auth updated now later of
                      (m1, Updated saved) \<Rightarrow> (project_registry unmarshal m1 authID saved now, Some saved)
                    | (m1, _) \<Rightarrow> (m1, None))"

definition tryRefreshAfterUnauthorized ::
  "alias_decoder \<Rightarrow> expiry_reader \<Rightarrow> (Auth \<Rightarrow> time \<Rightarrow> bool) \<Rightarrow> string list \<Rightarrow> Manager \<Rightarrow> bool \<Rightarrow> Auth \<Rightarrow> go_error \<Rightarrow> bool
   \<Rightarrow> refresh_answer \<Rightarrow> time \<Rightarrow> time \<Rightarrow> Manager \<times> Auth option"
where
  "tryRefreshAfterUnauthorized unmarshal expiry shouldRefresh executors m deferred auth execErr alreadyTried answer now later =
     (if alreadyTried \<or> isRequestScopedError execErr then (m, None)
      else if \<not> isUnauthorizedError_any execErr \<or> \<not> authHasRefreshCredential auth then (m, None)
      else refreshAuthForRequest unmarshal expiry shouldRefresh executors m deferred (auth_ID auth) (authAccessToken auth)
             answer now later)"

section \<open>A preparation\<close>

text \<open>
  What an executor that prepares credentials answers. A credential is prepared twice over: as picked, and
  as the manager holds it.
\<close>

definition weight_error_text :: "weight_error \<Rightarrow> string" where
  "weight_error_text e =
     (case e of WeightExceedsMax \<Rightarrow> ''weight must not exceed 1000000'' | WeightNotInteger \<Rightarrow> ''weight must be an integer'')"

text \<open>The text of a refused update, but for the name of the source of an invalid weight.\<close>

definition update_error :: "string \<Rightarrow> update_result \<Rightarrow> string" where
  "update_error authID r =
     (let stale = ''update auth '' @ authID @ '': stale registration epoch ''
      in case r of
           UpdateInvalid e \<Rightarrow> ''update auth: '' @ weight_error_text e
         | UpdateStale incoming stored \<Rightarrow> stale @ itoa (uint incoming) @ '' < '' @ itoa (uint stored)
         | UpdateMoved base existing \<Rightarrow> stale @ itoa (uint base) @ '' != '' @ itoa (uint existing)
         | _ \<Rightarrow> [])"

record preparer =
  pr_should :: "Auth \<Rightarrow> bool"
  pr_answer :: "Auth \<Rightarrow> refresh_answer"

text \<open>The credential returned, if any, and the error. An update that is refused returns an error and no credential.\<close>

definition PrepareRequestAuth ::
  "expiry_reader \<Rightarrow> preparer \<Rightarrow> Manager \<Rightarrow> bool \<Rightarrow> Auth \<Rightarrow> time \<Rightarrow> time \<Rightarrow> Manager \<times> Auth option \<times> go_error option"
where
  "PrepareRequestAuth expiry prep m deferred auth now later =
     (if \<not> pr_should prep auth then (m, Some auth, None)
      else let authID = trim_space (auth_ID auth)
        in if authID = [] then
             (m, case pr_answer prep auth of Inl err \<Rightarrow> (None, Some err) | Inr u \<Rightarrow> (u, None))
           else
             let found = map_of (mg_auths m) authID;
                 target = (case found of Some current \<Rightarrow> current | None \<Rightarrow> auth);
                 meta = equal_fold (trim_space (auth_Provider auth)) ''meta''
             in if found = None \<and> meta
                then (m, None, Some (errors_New ''prepare meta auth: credential no longer registered''))
                else if \<not> pr_should prep target then (m, Some target, None)
                else case pr_answer prep target of
                  Inl err \<Rightarrow> (m, Some auth, Some err)
                | Inr None \<Rightarrow> (m, Some target, None)
                | Inr (Some updated) \<Rightarrow>
                    (case UpdatePreparedAuth expiry m deferred target updated now later of
                       (m1, Updated saved) \<Rightarrow> (m1, Some saved, None)
                     | (m1, UpdateUnknown) \<Rightarrow>
                         (m1, if meta then (None, Some (errors_New ''prepare meta auth: credential removed during mint''))
                              else (Some target, None))
                     | (m1, refused) \<Rightarrow> (m1, None, Some (errors_New (update_error authID refused)))))"

end
