(* ===== verification/ManagerInv.thy ===== *)
theory ManagerInv
  imports Lockstep Refreshing
begin

text \<open>
  The reachable states of the manager and what holds in all of them: the scheduler lists exactly the
  credentials that may be scheduled. A step is an operation of the manager or a pick; between steps
  the registry, the model routes and the settings of the cooldowns change in any way.

  \<open>t\<close> is the latest reading of the scheduler's clock. The premises on identifiers say that they carry
  no surrounding white space (a finding shows that the scheduler loses track of one that does), the
  premises on counters that they have not come near the end of their 64 bits.
\<close>

section \<open>Reachable states\<close>

definition new_manager :: "selector_kind \<Rightarrow> ModelRegistry \<Rightarrow> model_router \<Rightarrow> cooling_config \<Rightarrow> Manager" where
  "new_manager selector registry router cfg =
     \<lparr>mg_auths = [], mg_authEpochs = [], mg_scheduler = newAuthScheduler selector, mg_registry = registry,
      mg_router = router, mg_config = cfg\<rparr>"

definition plain_id :: "string \<Rightarrow> bool" where
  "plain_id i \<longleftrightarrow> i \<noteq> [] \<and> trim_space i = i"

definition auth_room :: "Auth \<Rightarrow> bool" where
  "auth_room a \<longleftrightarrow> auth_RegistrationEpoch a < 2 ^ 62 \<and> auth_Generation a < 2 ^ 62"

definition room :: "Manager \<Rightarrow> bool" where
  "room m \<longleftrightarrow> (\<forall>i a. map_of (mg_auths m) i = Some a \<longrightarrow> auth_Generation a < 2 ^ 62)
     \<and> (\<forall>i e. map_of (mg_authEpochs m) i = Some e \<longrightarrow> e < 2 ^ 62)"

inductive manager_reach :: "alias_decoder \<Rightarrow> json_bodies \<Rightarrow> (result \<Rightarrow> result) \<Rightarrow> time \<Rightarrow> Manager \<Rightarrow> bool"
  for unmarshal :: alias_decoder and jb :: json_bodies and policy :: "result \<Rightarrow> result"
where
  created: "0 \<le> t \<Longrightarrow> manager_reach unmarshal jb policy t (new_manager selector registry router cfg)"
| changed: "manager_reach unmarshal jb policy t m \<Longrightarrow>
    manager_reach unmarshal jb policy t (m\<lparr>mg_registry := registry, mg_router := router, mg_config := cfg\<rparr>)"
| registered: "manager_reach unmarshal jb policy t m \<Longrightarrow> t \<le> later \<Longrightarrow> room m \<Longrightarrow> auth_room auth \<Longrightarrow>
    auth_ID auth = [] \<or> plain_id (auth_ID auth) \<Longrightarrow> plain_id fresh \<Longrightarrow>
    manager_reach unmarshal jb policy later (fst (Register m fresh deferred auth now later))"
| updated: "manager_reach unmarshal jb policy t m \<Longrightarrow> t \<le> later \<Longrightarrow> room m \<Longrightarrow> auth_room auth \<Longrightarrow>
    manager_reach unmarshal jb policy later (fst (Update m deferred auth now later))"
| removed: "manager_reach unmarshal jb policy t m \<Longrightarrow> t \<le> later \<Longrightarrow> room m \<Longrightarrow>
    manager_reach unmarshal jb policy later (Remove m deferred i later)"
| marked: "manager_reach unmarshal jb policy t m \<Longrightarrow> t \<le> later \<Longrightarrow> room m \<Longrightarrow>
    manager_reach unmarshal jb policy later (MarkResult unmarshal jb policy m result headers now later)"
| neutral: "manager_reach unmarshal jb policy t m \<Longrightarrow> room m \<Longrightarrow>
    manager_reach unmarshal jb policy t (recordAvailabilityNeutralResult m result now)"
| refreshed: "manager_reach unmarshal jb policy t m \<Longrightarrow> t \<le> later \<Longrightarrow>
    manager_reach unmarshal jb policy later (RefreshSchedulerEntry m i later)"
| token_refreshed: "manager_reach unmarshal jb policy t m \<Longrightarrow> t \<le> later \<Longrightarrow> room m \<Longrightarrow>
    manager_reach unmarshal jb policy later
      (fst (refreshAuthForRequest unmarshal expiry shouldRefresh executors m deferred i token answer now later))"
| prepared: "manager_reach unmarshal jb policy t m \<Longrightarrow> t \<le> later \<Longrightarrow> room m \<Longrightarrow>
    manager_reach unmarshal jb policy later (fst (PrepareRequestAuth expiry prep m deferred auth now later))"
| reconciled: "manager_reach unmarshal jb policy t m \<Longrightarrow> t \<le> later \<Longrightarrow> room m \<Longrightarrow>
    manager_reach unmarshal jb policy later (ReconcileRegistryModelStates unmarshal m i now later)"
| quota_reset: "manager_reach unmarshal jb policy t m \<Longrightarrow> t \<le> later \<Longrightarrow> room m \<Longrightarrow>
    manager_reach unmarshal jb policy later (fst (reset_quota unmarshal m i now later))"
| loaded: "manager_reach unmarshal jb policy t m \<Longrightarrow> t \<le> later \<Longrightarrow> room m \<Longrightarrow>
    list_all (\<lambda>a. auth_room a \<and> (auth_ID a = [] \<or> plain_id (auth_ID a))) items \<Longrightarrow> length items < 2 ^ 61 \<Longrightarrow>
    manager_reach unmarshal jb policy later (Load m items later)"
| strategy: "manager_reach unmarshal jb policy t m \<Longrightarrow>
    manager_reach unmarshal jb policy t (m\<lparr>mg_scheduler := setSelector (mg_scheduler m) selector\<rparr>)"
| single: "manager_reach unmarshal jb policy t m \<Longrightarrow> t \<le> now1 \<Longrightarrow> now1 \<le> now2 \<Longrightarrow> now2 \<le> now3 \<Longrightarrow>
    pickSingleWithStrategy (mg_scheduler m) provider model req chosen now1 now2 now3 = (s, r) \<Longrightarrow>
    manager_reach unmarshal jb policy now3 (m\<lparr>mg_scheduler := s\<rparr>)"
| mixed: "manager_reach unmarshal jb policy t m \<Longrightarrow> t \<le> now1 \<Longrightarrow> now1 \<le> now2 \<Longrightarrow> now2 \<le> now3 \<Longrightarrow>
    pickMixedWithStrategy (mg_scheduler m) providers model req chosen now1 now2 now3 = (s, r') \<Longrightarrow>
    manager_reach unmarshal jb policy now3 (m\<lparr>mg_scheduler := s\<rparr>)"

inductive_cases manager_reachE: "manager_reach unmarshal jb policy t m"

section \<open>The invariant\<close>

definition manager_inv :: "time \<Rightarrow> Manager \<Rightarrow> bool" where
  "manager_inv t m \<longleftrightarrow> sched_reach t (mg_scheduler m) \<and> wf_map (mg_auths m)
     \<and> in_step (mg_auths m) (mg_authEpochs m) (mg_scheduler m)"

lemma manager_inv_frame [simp]:
  "manager_inv t (m\<lparr>mg_registry := registry\<rparr>) = manager_inv t m"
  "manager_inv t (m\<lparr>mg_router := router\<rparr>) = manager_inv t m"
  "manager_inv t (m\<lparr>mg_config := cfg\<rparr>) = manager_inv t m"
  "manager_inv t (project_registry unmarshal m i a now) = manager_inv t m"
  "manager_inv t (rebuild_aliases deferred m) = manager_inv t m"
  by (simp_all add: manager_inv_def project_registry_def rebuild_aliases_def split: prod.split)

lemma manager_inv_mono: "manager_inv t m \<Longrightarrow> t \<le> t' \<Longrightarrow> manager_inv t' m"
  using sched_reach_mono by (auto simp: manager_inv_def)

lemma project_frame [simp]:
  "mg_auths (project_registry unmarshal m i a now) = mg_auths m"
  "mg_authEpochs (project_registry unmarshal m i a now) = mg_authEpochs m"
  "mg_scheduler (project_registry unmarshal m i a now) = mg_scheduler m"
  "mg_registry (m\<lparr>mg_auths := auths\<rparr>) = mg_registry m"
  by (simp_all add: project_registry_def split: prod.split)

lemma rebuild_frame [simp]:
  "mg_auths (rebuild_aliases deferred m) = mg_auths m"
  "mg_authEpochs (rebuild_aliases deferred m) = mg_authEpochs m"
  "mg_scheduler (rebuild_aliases deferred m) = mg_scheduler m"
  by (simp_all add: rebuild_aliases_def)

lemma room_bounds:
  fixes x :: u64
  assumes "x < 2 ^ 62"
  shows "x < x + 1" "x < x + 1 + 1"
proof -
  have "x < 2 ^ 63" using assms by (rule order_less_trans) simp
  then show "x < x + 1" "x < x + 1 + 1" by (rule room_next)+
qed

lemma room_suc:
  fixes x :: u64
  assumes "x < 2 ^ 62"
  shows "x + 1 < 2 ^ 63"
proof -
  have "unat x < 2 ^ 62" using assms by (simp add: word_less_nat_alt)
  then show ?thesis by (simp add: word_less_nat_alt unat_word_ariths)
qed

lemma room_auth: "room m \<Longrightarrow> map_of (mg_auths m) i = Some a \<Longrightarrow> auth_Generation a < 2 ^ 62"
  by (simp add: room_def)

lemma room_epoch: "room m \<Longrightarrow> get_or 0 (mg_authEpochs m) i < 2 ^ 62"
  by (auto simp: room_def get_or_def split: option.split)

text \<open>An operation that stores a later state of a credential and hands it to the scheduler.\<close>

lemma store_next:
  assumes "manager_inv t m" and "t \<le> later" and "map_of (mg_auths m) i = Some a" and "auth_ID b = auth_ID a"
    and "auth_RegistrationEpoch b = auth_RegistrationEpoch a" and "auth_Generation a < auth_Generation b \<or> b = a"
    and "mg_auths m' = AList.update i b (mg_auths m)" "get_or 0 (mg_authEpochs m') = get_or 0 (mg_authEpochs m)"
    and "mg_scheduler m' \<in> {upsertAuthLifecycleLocked registry (mg_scheduler m) b later,
      upsertAuthResultLocked registry (mg_scheduler m) b targets scoped later}"
  shows "manager_inv later m'"
proof -
  from assms(1) have r: "sched_reach t (mg_scheduler m)"
    and s: "in_step (mg_auths m) (mg_authEpochs m) (mg_scheduler m)" and wf: "wf_map (mg_auths m)"
    by (simp_all add: manager_inv_def)
  note l = sched_reach_listed [OF r] and g = in_step_get [OF s assms(3)]
  have "up_to_date (mg_scheduler m) b" using up_to_date_next [OF g(5) assms(4,5)] assms(6) g(5) by blast
  then have fresh: "\<not> isStaleScheduledAuth (mg_scheduler m) (auth_ID b) (auth_RegistrationEpoch b) (auth_Generation b)
      (auth_UpdatedAt b)" by (simp add: up_to_date_def)
  have i: "auth_ID b \<noteq> []" "trim_space (auth_ID b) = auth_ID b" using g assms(4) by simp_all
  have "delivered b (mg_scheduler m) (mg_scheduler m')"
    using assms(9) lifecycle_delivered [OF l i fresh] result_delivered [OF l i fresh] by auto
  then have "in_step (mg_auths m') (mg_authEpochs m') (mg_scheduler m')"
    using deliver_in_step [OF s _ _ g(2,3), of b] assms(4,5) g(1,4) by (simp add: assms(7,8))
  moreover have "sched_reach later (mg_scheduler m')"
    using assms(9) sched_reach.lifecycle [OF r assms(2)] sched_reach.result [OF r assms(2)] by auto
  ultimately show ?thesis using wf by (simp add: manager_inv_def assms(7) wf_map_update)
qed

lemma store_upsert:
  assumes "manager_inv t m" and "t \<le> later" and "map_of (mg_auths m) i = Some a" and "auth_ID b = auth_ID a"
    and "auth_RegistrationEpoch b = auth_RegistrationEpoch a" and "auth_Generation a < auth_Generation b \<or> b = a"
    and "mg_auths m' = AList.update i b (mg_auths m)" "get_or 0 (mg_authEpochs m') = get_or 0 (mg_authEpochs m)"
      "mg_scheduler m' = mg_scheduler m"
  shows "manager_inv later (upsertAuth m' b later)"
  by (rule store_next [OF assms(1-6), of _ "registry_view_of (mg_registry m')" "[]" False])
     (simp_all add: upsertAuth_def assms(7-9))

section \<open>Every operation keeps the invariant\<close>

lemma refresh_inv:
  assumes "manager_inv t m" and "t \<le> later"
  shows "manager_inv later (RefreshSchedulerEntry m i later)"
proof (cases "i = [] \<or> map_of (mg_auths m) i = None")
  case True
  then show ?thesis using manager_inv_mono [OF assms] by (auto simp: RefreshSchedulerEntry_def)
next
  case False
  then obtain a where a: "map_of (mg_auths m) i = Some a" by blast
  have "manager_inv later (upsertAuth (m\<lparr>mg_auths := AList.update i a (mg_auths m)\<rparr>) a later)"
    by (rule store_upsert [OF assms a]) simp_all
  moreover have "map_of (AList.update i a (mg_auths m)) = map_of (mg_auths m)" using a by (simp add: fun_eq_iff)
  ultimately have "manager_inv later (upsertAuth m a later)"
    using in_step_cong [of "AList.update i a (mg_auths m)" "mg_auths m"] assms(1) by (simp add: manager_inv_def upsertAuth_def)
  with False a show ?thesis by (simp add: RefreshSchedulerEntry_def)
qed

lemma neutral_inv:
  assumes "manager_inv t m" and "room m"
  shows "manager_inv t (recordAvailabilityNeutralResult m r now)"
proof (cases "map_of (mg_auths m) (rs_AuthID r)")
  case None
  with assms(1) show ?thesis by (simp add: recordAvailabilityNeutralResult_def)
next
  case (Some a)
  define b where "b = (count_result r now a)\<lparr>auth_Generation := auth_Generation (count_result r now a) + 1,
    auth_UpdatedAt := now\<rparr>"
  have b: "auth_ID b = auth_ID a" "auth_RegistrationEpoch b = auth_RegistrationEpoch a"
    "auth_Generation a < auth_Generation b"
    using room_bounds(1) [OF room_auth [OF assms(2) Some]] by (simp_all add: b_def)
  have c: "schedulable b = schedulable a" "executorKeyFromAuth b = executorKeyFromAuth a"
    by (simp_all add: b_def count_result_def schedulable_def executorKeyFromAuth_def authAttribute_def Let_def)
  have "uncounted b = uncounted a" by (simp add: uncounted_def b_def count_result_def Let_def)
  then have "snapshot_of c b" if "snapshot_of c a" for c using that by (simp add: snapshot_of_def)
  with assms(1) Some b c have "in_step (AList.update (rs_AuthID r) b (mg_auths m)) (mg_authEpochs m) (mg_scheduler m)"
    using counted_in_step [OF _ Some b c] by (simp add: manager_inv_def)
  with assms(1) Some show ?thesis
    by (simp add: recordAvailabilityNeutralResult_def manager_inv_def b_def Let_def)
qed

lemma mark_inv:
  assumes "manager_inv t m" and "t \<le> later" and "room m"
  shows "manager_inv later (MarkResult unmarshal jb policy m result headers now later)"
proof (cases "rs_AuthID result = [] \<or> rs_AuthID (policy result) = [] \<or> map_of (mg_auths m) (rs_AuthID (policy result)) = None")
  case True
  then show ?thesis using manager_inv_mono [OF assms(1,2)] by (auto simp: MarkResult_def Let_def)
next
  case False
  then obtain a where a: "map_of (mg_auths m) (rs_AuthID (policy result)) = Some a" by blast
  define b where "b = mark_auth (mg_config m) jb (selection_key unmarshal m) headers (policy result) now a"
  have gen: "auth_Generation a < auth_Generation b"
    using room_bounds(1) [OF room_auth [OF assms(3) a]] by (simp add: b_def)
  have ne: "rs_AuthID result \<noteq> []" "rs_AuthID (policy result) \<noteq> []" using False by simp_all
  define targets where "targets = result_targets (result_model (selection_key unmarshal m) (policy result) a) (policy result)"
  have m: "MarkResult unmarshal jb policy m result headers now later = project_registry unmarshal
      (m\<lparr>mg_auths := AList.update (rs_AuthID (policy result)) b (mg_auths m), mg_scheduler :=
        upsertAuthResultLocked (registry_view_of (mg_registry m)) (mg_scheduler m) b targets
          (rs_CredentialScope (policy result)) later\<rparr>) (rs_AuthID (policy result)) b now"
    using ne a by (simp add: MarkResult_def Let_def b_def targets_def)
  show ?thesis unfolding m
    by (rule store_next [OF assms(1,2) a, of b _ "registry_view_of (mg_registry m)" targets
        "rs_CredentialScope (policy result)"]) (use gen in \<open>simp_all add: b_def\<close>)
qed

lemma reset_inv:
  assumes "manager_inv t m" and "t \<le> later" and "room m"
  shows "manager_inv later (fst (reset_quota unmarshal m i now later))"
proof (cases "trim_space i = [] \<or> map_of (mg_auths m) (trim_space i) = None")
  case True
  then show ?thesis using manager_inv_mono [OF assms(1,2)] by (auto simp: reset_quota_def Let_def)
next
  case False
  then obtain a where a: "map_of (mg_auths m) (trim_space i) = Some a" by blast
  let ?r = "ResetQuota now (List.map mi_ID (fst (GetModelsAndEpochForClient (mg_registry m) (trim_space i)))) a"
  obtain b models where b: "?r = (b, models)" by force
  have "auth_Generation a < auth_Generation b" "auth_ID b = auth_ID a" "auth_RegistrationEpoch b = auth_RegistrationEpoch a"
    using identity_reset [of now "List.map mi_ID (fst (GetModelsAndEpochForClient (mg_registry m) (trim_space i)))" a]
      room_bounds [OF room_auth [OF assms(3) a]] b by auto
  with False a b show ?thesis
    by (simp add: reset_quota_def Let_def) (rule store_upsert [OF assms(1,2) a, of b]; simp)
qed

text \<open>A reconciliation that reports no change leaves the states as they are.\<close>

definition idle :: "('a \<times> bool \<Rightarrow> 'a \<times> bool) \<Rightarrow> bool" where
  "idle f \<longleftrightarrow> (\<forall>acc. \<not> snd (f acc) \<longrightarrow> f acc = acc)"

lemma idle_fold: "(\<And>x. x \<in> set xs \<Longrightarrow> idle (f x)) \<Longrightarrow> idle (fold f xs)"
proof (induction xs)
  case (Cons x xs)
  then have "idle (fold f xs)" "idle (f x)" by simp_all
  then show ?case unfolding idle_def fold_simps comp_apply by metis
qed (simp add: idle_def)

lemma idle_if: "idle f \<Longrightarrow> idle (\<lambda>acc. if P then acc else if Q then f acc else acc)"
  by (simp add: idle_def)

lemma idle_route: "idle (migrate_route now targets table route)"
proof -
  have "idle (migrate_alias now target k)" for target k
    by (auto simp: idle_def migrate_alias_def Let_def split: option.split prod.split)
  then have f: "idle (fold (migrate_alias now target) ks)" for target ks by (rule idle_fold)
  have "migrate_route now targets table route = (\<lambda>acc.
      if get_or [] table (canonicalModelKey route) = [] \<or> canonicalModelKey route = [] then acc
      else if canonicalModelKey route \<noteq> get_or [] table (canonicalModelKey route) \<and> canonicalModelKey route \<notin> set targets
        then fold (migrate_alias now (get_or [] table (canonicalModelKey route)))
          (canonicalModelKey route # (if route \<noteq> canonicalModelKey route then [route] else [])) acc
      else acc)"
    by (rule ext) (simp only: migrate_route_def Let_def)
  with idle_if [OF f] show ?thesis by (simp only:)
qed

lemma reconciled_unchanged:
  assumes "reconciled_states unmarshal m a registered now = (states, False)"
  shows "states = auth_ModelStates a"
proof -
  have id: "idle (fold (migrate_route now targets table) routes)" for targets table routes
    by (rule idle_fold) (rule idle_route)
  have "fst acc = x" if "fold (migrate_route now targets table) routes (x, False) = acc" "\<not> snd acc"
    for targets table routes acc x
    using id that unfolding idle_def by (metis fst_conv)
  note keep = this
  obtain targets table where tt: "fold (route_step unmarshal m a)
      (List.map trim_space (filter (\<lambda>i. trim_space i \<noteq> []) registered)) ([], []) = (targets, table)" by force
  let ?s = "normalizeModelStates (auth_ModelStates a)"
  let ?c = "?s \<noteq> auth_ModelStates a"
  define acc where "acc = (if ?s = [] \<or> registered = [] then (?s, ?c)
    else fold (migrate_route now targets table) (List.map trim_space (filter (\<lambda>i. trim_space i \<noteq> []) registered)) (?s, ?c))"
  have st: "states = fst acc" "\<not> snd acc"
    using assms by (auto simp: reconciled_states_def Let_def tt acc_def [symmetric] split: prod.splits)
  have "snd acc" if "?c"
  proof (rule ccontr)
    let ?f = "fold (migrate_route now targets table)
      (List.map trim_space (filter (\<lambda>i. trim_space i \<noteq> []) registered))"
    assume n: "\<not> snd acc"
    with that have acc: "acc = ?f (?s, ?c)" by (auto simp: acc_def split: if_splits)
    with id n have "acc = (?s, ?c)" unfolding idle_def by metis
    with that n show False by simp
  qed
  with st(2) have c: "?s = auth_ModelStates a" by blast
  have "fst acc = ?s"
  proof (cases "?s = [] \<or> registered = []")
    case False
    then have "acc = fold (migrate_route now targets table)
        (List.map trim_space (filter (\<lambda>i. trim_space i \<noteq> []) registered)) (?s, False)" using c by (simp add: acc_def)
    from keep [OF this [symmetric] st(2)] show ?thesis .
  qed (simp add: acc_def)
  with st(1) c show ?thesis by simp
qed

lemma reconcile_inv:
  assumes "manager_inv t m" and "t \<le> later" and "room m"
  shows "manager_inv later (ReconcileRegistryModelStates unmarshal m i now later)"
proof (cases "i = [] \<or> map_of (mg_auths m) i = None")
  case True
  then show ?thesis using manager_inv_mono [OF assms(1,2)]
    by (auto simp: ReconcileRegistryModelStates_def split: option.split)
next
  case False
  then obtain a where a: "map_of (mg_auths m) i = Some a" by blast
  obtain states changed where st: "reconciled_states unmarshal m a
      (List.map mi_ID (fst (GetModelsAndEpochForClient (mg_registry m) i))) now = (states, changed)" by force
  define a1 where "a1 = a\<lparr>auth_ModelStates := states\<rparr>"
  define a2 where "a2 = updateAggregatedAvailability now a1"
  define a3 where "a3 = (if hasModelError a2 now then a2
    else a2\<lparr>auth_LastError := None, auth_StatusMessage := [], auth_Status := StatusActive\<rparr>)"
  define b where "b = (if changed then a3\<lparr>auth_Generation := auth_Generation a3 + 1, auth_UpdatedAt := now\<rparr> else a1)"
  have "a1 = a" if "\<not> changed" using reconciled_unchanged [of unmarshal m a] st that by (simp add: a1_def)
  then have b: "auth_ID b = auth_ID a" "auth_RegistrationEpoch b = auth_RegistrationEpoch a"
    "auth_Generation a < auth_Generation b \<or> b = a"
    using room_bounds(1) [OF room_auth [OF assms(3) a]]
    by (simp_all add: b_def a3_def a2_def a1_def)
  have "ReconcileRegistryModelStates unmarshal m i now later = upsertAuth (project_registry unmarshal
      (m\<lparr>mg_auths := AList.update i b (mg_auths m)\<rparr>) i b now) b later"
    using False a st by (simp add: ReconcileRegistryModelStates_def Let_def b_def a3_def a2_def a1_def)
  also have "manager_inv later \<dots>" by (rule store_upsert [OF assms(1,2) a b]) simp_all
  finally show ?thesis .
qed

text \<open>A credential stored under a new registration.\<close>

lemma store_registered:
  assumes "manager_inv t m" and "t \<le> later" and "plain_id (auth_ID b)" and "auth_RegistrationEpoch b = e"
    and "get_or 0 (mg_authEpochs m) (auth_ID b) < e"
    and "mg_auths m' = AList.update (auth_ID b) b (mg_auths m)"
      "mg_authEpochs m' = AList.update (auth_ID b) e (mg_authEpochs m)" "mg_scheduler m' = mg_scheduler m"
  shows "manager_inv later (upsertAuth m' b later)"
proof -
  from assms(1) have r: "sched_reach t (mg_scheduler m)"
    and s: "in_step (mg_auths m) (mg_authEpochs m) (mg_scheduler m)" and wf: "wf_map (mg_auths m)"
    by (simp_all add: manager_inv_def)
  have "up_to_date (mg_scheduler m) b"
    using s assms(4,5) by (intro up_to_date_epoch) (simp_all add: in_step_def)
  then have "delivered b (mg_scheduler m) (mg_scheduler (upsertAuth m' b later))"
    using lifecycle_delivered [OF sched_reach_listed [OF r]] assms(3,8)
    by (simp add: up_to_date_def plain_id_def upsertAuth_def)
  from deliver_in_step [OF s this refl] assms(3-8)
  have "in_step (mg_auths m') (mg_authEpochs m') (mg_scheduler (upsertAuth m' b later))"
    by (simp add: plain_id_def)
  with sched_reach.lifecycle [OF r assms(2)] assms(6,8) wf show ?thesis
    by (simp add: manager_inv_def upsertAuth_def wf_map_update)
qed

lemma next_epoch_bound:
  assumes "room m" and "manager_inv t m" and "auth_RegistrationEpoch a < 2 ^ 62"
  shows "get_or 0 (mg_authEpochs m) (auth_ID a) < next_epoch_of m a"
proof -
  let ?e = "get_or 0 (mg_authEpochs m) (auth_ID a)"
  have e: "?e < 2 ^ 62" using room_epoch [OF assms(1)] .
  have same: "auth_RegistrationEpoch x = ?e" if "map_of (mg_auths m) (auth_ID a) = Some x" for x
    using assms(2) in_step_get(4) that by (metis manager_inv_def)
  define e2 where "e2 = (if auth_RegistrationEpoch a > ?e then auth_RegistrationEpoch a else ?e)"
  have "next_epoch_of m a = e2 + 1"
    using same by (auto simp: next_epoch_of_def e2_def Let_def split: option.split)
  moreover have "e2 < e2 + 1" using room_bounds(1) [of e2] e assms(3) by (simp add: e2_def)
  moreover have "?e \<le> e2" by (auto simp: e2_def)
  ultimately show ?thesis by simp
qed

lemma register_inv:
  assumes "manager_inv t m" and "t \<le> later" and "room m" and "auth_room auth"
    and "auth_ID auth = [] \<or> plain_id (auth_ID auth)" and "plain_id fresh"
  shows "manager_inv later (fst (Register m fresh deferred auth now later))"
proof (cases "ValidateAuthWeight (auth\<lparr>auth_Metadata := NormalizeCredentialMetadata (auth_Metadata auth)\<rparr>)")
  case (Some e)
  then show ?thesis using manager_inv_mono [OF assms(1,2)] by (simp add: Register_def Let_def)
next
  case None
  define a1 where "a1 = auth\<lparr>auth_Metadata := NormalizeCredentialMetadata (auth_Metadata auth)\<rparr>"
  define a2 where "a2 = (if auth_ID a1 = [] then a1\<lparr>auth_ID := fresh\<rparr> else a1)"
  define a3 where "a3 = settle_states m now (a2\<lparr>auth_UpdatedAt := now\<rparr>)"
  define b where "b = a3\<lparr>auth_RegistrationEpoch := next_epoch_of m a3, auth_Generation := 1\<rparr>"
  have a3: "auth_ID a3 = auth_ID a2" "auth_RegistrationEpoch a3 = auth_RegistrationEpoch auth"
    by (simp_all add: a3_def a2_def a1_def identity_settle(1,2))
  have id: "plain_id (auth_ID b)" using assms(5,6) a3(1) by (auto simp: b_def a2_def a1_def)
  have e: "get_or 0 (mg_authEpochs m) (auth_ID b) < next_epoch_of m a3"
    using next_epoch_bound [OF assms(3,1), of a3] assms(4) a3(2) by (simp add: b_def auth_room_def)
  have "fst (Register m fresh deferred auth now later) = upsertAuth (rebuild_aliases deferred
      (m\<lparr>mg_authEpochs := AList.update (auth_ID b) (next_epoch_of m a3) (mg_authEpochs m),
         mg_auths := AList.update (auth_ID b) b (mg_auths m)\<rparr>)) b later"
    using None by (simp add: Register_def Let_def b_def a3_def a2_def a1_def)
  also have "manager_inv later \<dots>" by (rule store_registered [OF assms(1,2) id _ e]) (simp_all add: b_def)
  finally show ?thesis .
qed

lemma remove_inv_manager:
  assumes "manager_inv t m" and "t \<le> later" and "room m"
  shows "manager_inv later (Remove m deferred i later)"
proof (cases "trim_space i = [] \<or> map_of (mg_auths m) (trim_space i) = None")
  case True
  then show ?thesis using manager_inv_mono [OF assms(1,2)] by (auto simp: Remove_def Let_def)
next
  case False
  let ?i = "trim_space i"
  from False obtain a where a: "map_of (mg_auths m) ?i = Some a" by blast
  from assms(1) have r: "sched_reach t (mg_scheduler m)"
    and s: "in_step (mg_auths m) (mg_authEpochs m) (mg_scheduler m)" and wf: "wf_map (mg_auths m)"
    by (simp_all add: manager_inv_def)
  let ?e = "get_or 0 (mg_authEpochs m) ?i"
  have "?e < ?e + 1" using room_bounds(1) [OF room_epoch [OF assms(3)]] .
  then have "in_step (AList.delete ?i (mg_auths m)) (AList.update ?i (?e + 1) (mg_authEpochs m))
      (RecordRemovalTombstone (mg_scheduler m) ?i (?e + 1) later)"
    using remove_in_step [OF s sched_reach_listed [OF r], of ?i "?e + 1"] False by simp
  with False a in_step_get(4) [OF s a] sched_reach.tombstone [OF r assms(2)] wf show ?thesis
    by (simp add: Remove_def Let_def manager_inv_def wf_map_delete)
qed

lemma raise_epoch_same:
  "in_step auths epochs sched \<Longrightarrow> auths = mg_auths m \<Longrightarrow> epochs = mg_authEpochs m \<Longrightarrow>
   map_of (mg_auths m) i = Some x \<Longrightarrow> raise_epoch m i x = m"
  using in_step_get(4) [of auths epochs sched i x] by (simp add: raise_epoch_def)

lemma core_inv:
  assumes "manager_inv t m" and "t \<le> later" and "room m" and "auth_room a1"
    and x: "map_of (mg_auths m) (auth_ID a1) = Some x"
  shows "manager_inv later (fst (update_core m deferred x a1 now later))"
proof -
  let ?e = "get_or 0 (mg_authEpochs m) (auth_ID a1)" and ?r = "auth_RegistrationEpoch a1"
  have s: "in_step (mg_auths m) (mg_authEpochs m) (mg_scheduler m)" using assms(1) by (simp add: manager_inv_def)
  note g = in_step_get [OF s x]
  define generation where "generation = (if auth_Generation a1 \<le> auth_Generation x then auth_Generation x + 1
    else auth_Generation a1 + 1)"
  define b0 where "b0 = (recover_update x now
      (a1\<lparr>auth_RegistrationEpoch := (if ?r \<ge> ?e then ?r else ?e), auth_Success := auth_Success x,
          auth_Failed := auth_Failed x, auth_recentRequests := auth_recentRequests x,
          auth_Generation := generation\<rparr>))\<lparr>auth_UpdatedAt := now\<rparr>"
  define b where "b = settle_states m now b0"
  define m' where "m' = rebuild_aliases deferred (m\<lparr>mg_authEpochs := (if ?r \<ge> ?e
      then AList.update (auth_ID a1) (if ?r \<ge> ?e then ?r else ?e) (mg_authEpochs m) else mg_authEpochs m),
      mg_auths := AList.update (auth_ID a1) b (mg_auths m)\<rparr>)"
  have b: "auth_ID b = auth_ID a1" "auth_RegistrationEpoch b = (if ?r \<ge> ?e then ?r else ?e)"
    by (simp_all add: b_def b0_def identity_settle(1,2))
  have m': "mg_auths m' = AList.update (auth_ID a1) b (mg_auths m)" "mg_scheduler m' = mg_scheduler m"
    by (simp_all add: m'_def)
  have upd: "fst (update_core m deferred x a1 now later) = (if ?r \<noteq> 0 \<and> ?r < ?e then m else upsertAuth m' b later)"
    by (simp add: update_core_def Let_def raise_epoch_same [OF s refl refl x] b_def b0_def m'_def generation_def)
  show ?thesis
  proof (cases "?e < ?r")
    case True
    then have ep: "auth_RegistrationEpoch b = ?r" "mg_authEpochs m' = AList.update (auth_ID b) ?r (mg_authEpochs m)"
      using b by (auto simp: m'_def)
    have "manager_inv later (upsertAuth m' b later)"
      by (rule store_registered [OF assms(1,2) _ ep(1) _ _ ep(2)])
         (use True b(1) m' g in \<open>simp_all add: plain_id_def\<close>)
    with True manager_inv_mono [OF assms(1,2)] show ?thesis by (simp add: upd)
  next
    case False
    have gx: "auth_Generation x < 2 ^ 62" "auth_Generation a1 < 2 ^ 62"
      using room_auth [OF assms(3) x] assms(4) by (simp_all add: auth_room_def)
    then have "auth_Generation x < generation"
      using room_bounds(1) [of "auth_Generation x"] room_bounds(1) [of "auth_Generation a1"]
      by (auto simp: generation_def)
    moreover have "generation < generation + 1"
      using room_next(1) [of generation] room_suc gx by (simp add: generation_def)
    ultimately have "auth_Generation x < auth_Generation b"
      using identity_settle(3) [of m now b0] by (auto simp: b_def b0_def)
    then have "manager_inv later (upsertAuth m' b later)"
      by (intro store_upsert [OF assms(1,2) x])
         (use False b m' g in \<open>auto simp: m'_def fun_eq_iff get_or_def split: option.split\<close>)
    with manager_inv_mono [OF assms(1,2)] show ?thesis by (simp add: upd)
  qed
qed

lemma normalized_simps [simp]:
  "auth_ID (normalized a) = auth_ID a" "auth_RegistrationEpoch (normalized a) = auth_RegistrationEpoch a"
  "auth_Generation (normalized a) = auth_Generation a" "auth_room (normalized a) = auth_room a"
  by (simp_all add: normalized_def auth_room_def)

lemma update_inv:
  assumes "manager_inv t m" and "t \<le> later" and "room m" and "auth_room auth"
  shows "manager_inv later (fst (Update m deferred auth now later))"
  using core_inv [OF assms(1-3), of "normalized auth"] assms(4) manager_inv_mono [OF assms(1,2)]
  by (auto simp: Update_def split: option.split)

text \<open>What an executor hands back is merged into a record that keeps its identity.\<close>

lemma update_merged_inv:
  assumes "manager_inv t m" and "t \<le> later" and "room m"
    and "\<And>x u. auth_ID (merge base x u) = auth_ID x \<and> auth_RegistrationEpoch (merge base x u) = auth_RegistrationEpoch x
        \<and> auth_Generation (merge base x u) = auth_Generation x"
  shows "manager_inv later (fst (update_merged merge m deferred base auth now later))"
proof (cases "map_of (mg_auths m) (auth_ID auth)")
  case None
  then show ?thesis using manager_inv_mono [OF assms(1,2)] by (auto simp: update_merged_def split: option.split)
next
  case (Some x)
  have s: "in_step (mg_auths m) (mg_authEpochs m) (mg_scheduler m)" using assms(1) by (simp add: manager_inv_def)
  note g = in_step_get [OF s Some]
  let ?a = "normalized (merge base x (normalized auth))"
  have "get_or 0 (mg_authEpochs m) (auth_ID auth) < 2 ^ 62" "auth_Generation x < 2 ^ 62"
    using room_epoch [OF assms(3)] room_auth [OF assms(3) Some] by blast+
  then have "auth_room ?a" using g(4) by (simp add: auth_room_def assms(4))
  then have "manager_inv later (fst (update_core m deferred x ?a now later))"
    by (intro core_inv [OF assms(1-3)]) (use Some g(1) assms(4) in simp_all)
  with Some manager_inv_mono [OF assms(1,2)] raise_epoch_same [OF s refl refl Some] show ?thesis
    by (auto simp: update_merged_def split: option.split)
qed

lemma refresh_request_inv:
  assumes "manager_inv t m" and "t \<le> later" and "room m"
  shows "manager_inv later
    (fst (refreshAuthForRequest unmarshal expiry shouldRefresh executors m deferred i token answer now later))"
proof (cases "map_of (mg_auths m) (trim_space i)")
  case None
  then show ?thesis using manager_inv_mono [OF assms(1,2)] by (simp add: refreshAuthForRequest_def Let_def)
next
  case (Some a)
  have same: "manager_inv later m" by (rule manager_inv_mono [OF assms(1,2)])
  let ?failed = "\<lambda>err. refresh_failed err now a"
  have failed: "manager_inv later (upsertAuth (m\<lparr>mg_auths := AList.update (trim_space i) (?failed err) (mg_auths m)\<rparr>)
      (?failed err) later)" for err
    by (rule store_upsert [OF assms(1,2) Some])
       (use room_bounds(1) [OF room_auth [OF assms(3) Some]] in \<open>simp_all add: refresh_failed_def Let_def\<close>)
  have "manager_inv later (fst (UpdateRefreshedAuth expiry m deferred a updated now later))" for updated
    unfolding UpdateRefreshedAuth_def by (rule update_merged_inv [OF assms]) simp
  then have "manager_inv later m1" if "UpdateRefreshedAuth expiry m deferred a updated now later = (m1, r)" for updated m1 r
    using that by (metis fst_conv)
  with Some same failed show ?thesis
    by (auto simp: refreshAuthForRequest_def Let_def split: sum.split prod.split update_result.split)
qed

lemma prepare_inv:
  assumes "manager_inv t m" and "t \<le> later" and "room m"
  shows "manager_inv later (fst (PrepareRequestAuth expiry prep m deferred auth now later))"
proof -
  have same: "manager_inv later m" by (rule manager_inv_mono [OF assms(1,2)])
  have "manager_inv later (fst (UpdatePreparedAuth expiry m deferred base updated now later))" for base updated
    unfolding UpdatePreparedAuth_def by (rule update_merged_inv [OF assms]) simp
  then have "manager_inv later m1" if "UpdatePreparedAuth expiry m deferred base updated now later = (m1, r)" for base updated m1 r
    using that by (metis fst_conv)
  with same show ?thesis
    by (auto simp: PrepareRequestAuth_def Let_def split: sum.split prod.split option.split update_result.split)
qed

definition epochs_within :: "nat \<Rightarrow> (string, u64) gomap \<Rightarrow> bool" where
  "epochs_within n epochs \<longleftrightarrow> (\<forall>i. unat (get_or 0 epochs i) \<le> 2 ^ 62 + n)"

lemma epochs_within_mono: "epochs_within n epochs \<Longrightarrow> epochs_within (Suc n) epochs"
  unfolding epochs_within_def by (metis add_Suc_right le_SucI)

lemma epochs_within_update:
  "epochs_within n epochs \<Longrightarrow> unat e \<le> 2 ^ 62 + n \<Longrightarrow> epochs_within n (AList.update i e epochs)"
  by (simp add: epochs_within_def)

text \<open>What a load leaves in the maps, \<open>n\<close> items on.\<close>

definition loaded_maps :: "(string, u64) gomap \<Rightarrow> nat \<Rightarrow> (string, Auth) gomap \<times> (string, u64) gomap \<Rightarrow> bool" where
  "loaded_maps epochs0 n acc \<longleftrightarrow> (case acc of (auths, epochs) \<Rightarrow>
     wf_map auths
     \<and> (\<forall>i a. map_of auths i = Some a \<longrightarrow> auth_ID a = i \<and> plain_id i
          \<and> auth_RegistrationEpoch a = get_or 0 epochs i \<and> get_or 0 epochs0 i < get_or 0 epochs i)
     \<and> (\<forall>i. get_or 0 epochs0 i \<le> get_or 0 epochs i) \<and> epochs_within n epochs)"

lemma loaded_mono: "loaded_maps epochs0 n acc \<Longrightarrow> loaded_maps epochs0 (Suc n) acc"
  by (auto simp: loaded_maps_def intro: epochs_within_mono)

lemma load_epoch:
  fixes x y :: u64
  assumes "unat x \<le> 2 ^ 62 + n" and "y < 2 ^ 62" and "n < 2 ^ 61"
  shows "x < max x y + 1" and "unat (max x y + 1) \<le> 2 ^ 62 + Suc n"
proof -
  have "unat (max x y) \<le> 2 ^ 62 + n" using assms by (simp add: max_def word_less_nat_alt)
  then have s: "unat (max x y + 1) = Suc (unat (max x y))" using assms(3) by (simp add: unat_word_ariths)
  moreover have "unat x \<le> unat (max x y)" by (simp add: max_def word_le_nat_alt)
  ultimately show "x < max x y + 1" by (simp add: word_less_nat_alt)
  show "unat (max x y + 1) \<le> 2 ^ 62 + Suc n" using s \<open>unat (max x y) \<le> 2 ^ 62 + n\<close> by simp
qed

lemma load_step:
  assumes "loaded_maps epochs0 n acc" and "n < 2 ^ 61" and "auth_room a" and "auth_ID a = [] \<or> plain_id (auth_ID a)"
  shows "loaded_maps epochs0 (Suc n) (load_auth a acc)"
proof -
  obtain auths epochs where acc: "acc = (auths, epochs)" by force
  let ?a = "a\<lparr>auth_Metadata := NormalizeCredentialMetadata (auth_Metadata a)\<rparr>" and ?i = "auth_ID a"
  let ?e = "max (get_or 0 epochs ?i) (auth_RegistrationEpoch a) + 1"
  have le: "get_or 0 epochs0 i \<le> get_or 0 epochs i" "unat (get_or 0 epochs i) \<le> 2 ^ 62 + n" for i
    using assms(1) acc by (simp_all add: loaded_maps_def epochs_within_def)
  have e: "get_or 0 epochs ?i < ?e" "unat ?e \<le> 2 ^ 62 + Suc n"
    using load_epoch [OF le(2) _ assms(2)] assms(3) by (simp_all add: auth_room_def)
  show ?thesis
  proof (cases "?i = [] \<or> ValidateAuthWeight ?a \<noteq> None")
    case True
    then have "load_auth a acc = acc" using acc by (auto simp: load_auth_def Let_def split: option.split)
    with loaded_mono [OF assms(1)] show ?thesis by simp
  next
    case False
    then have "load_auth a acc = (AList.update ?i (?a\<lparr>auth_RegistrationEpoch := ?e, auth_Generation := 1\<rparr>) auths,
        AList.update ?i ?e epochs)" using acc by (simp add: load_auth_def Let_def)
    moreover have "get_or 0 epochs0 ?i < ?e" using le(1) e(1) by (rule order_le_less_trans)
    moreover have "epochs_within (Suc n) (AList.update ?i ?e epochs)"
      using assms(1) acc e(2) by (intro epochs_within_update epochs_within_mono) (simp_all add: loaded_maps_def)
    ultimately show ?thesis using False assms(1,4) acc
      by (auto simp: loaded_maps_def less_imp_le)
  qed
qed

lemma load_fold:
  assumes "loaded_maps epochs0 n acc" and "n + length items < 2 ^ 61"
    and "list_all (\<lambda>a. auth_room a \<and> (auth_ID a = [] \<or> plain_id (auth_ID a))) items"
  shows "loaded_maps epochs0 (n + length items) (fold load_auth items acc)"
  using assms
proof (induction items arbitrary: n acc)
  case (Cons a items)
  then show ?case using Cons.IH [OF load_step [OF Cons.prems(1)]] by simp
qed simp

lemma fold_bump_get:
  "distinct ids \<Longrightarrow> get_or 0 (fold (\<lambda>i e. AList.update i (get_or 0 e i + 1) e) ids (epochs :: (string, u64) gomap)) j =
     (if j \<in> set ids then get_or 0 epochs j + 1 else get_or 0 epochs j)"
  by (induction ids arbitrary: epochs) auto

text \<open>The tombstones of the credentials that are gone.\<close>

lemma fold_tombstones:
  assumes "sched_reach t s" and "t \<le> now" and "bounded_epochs s epochs" and "\<forall>i \<in> set ids. plain_id i"
  shows "sched_reach now (fold (\<lambda>i s. RecordRemovalTombstone s i (get_or 0 epochs i) now) ids s)
    \<and> bounded_epochs (fold (\<lambda>i s. RecordRemovalTombstone s i (get_or 0 epochs i) now) ids s) epochs
    \<and> (\<forall>j. j \<notin> set ids \<longrightarrow> map_of (as_authGenerations (fold (\<lambda>i s. RecordRemovalTombstone s i (get_or 0 epochs i) now) ids s)) j
         = map_of (as_authGenerations s) j)"
  using assms
proof (induction ids arbitrary: s t)
  case Nil
  then show ?case using sched_reach_mono by auto
next
  case (Cons i ids)
  let ?s = "RecordRemovalTombstone s i (get_or 0 epochs i) now"
  have i: "i \<noteq> []" "trim_space i = i" using Cons.prems(4) by (simp_all add: plain_id_def)
  have "sg_epoch g \<le> get_or 0 epochs i" if "map_of (as_authGenerations s) i = Some g" for g
    using Cons.prems(3) that by (simp add: bounded_epochs_def)
  note g = tombstone_delivered(2) [OF sched_reach_listed [OF Cons.prems(1)] i this]
  have "sched_reach now ?s" using Cons.prems(1,2) by (rule sched_reach.tombstone)
  have "bounded_epochs ?s epochs" using Cons.prems(3) g by (simp add: bounded_epochs_def)
  from Cons.IH [OF \<open>sched_reach now ?s\<close> order.refl \<open>bounded_epochs ?s epochs\<close>] Cons.prems(4)
  show ?case using g by simp
qed

lemma load_result:
  assumes "room m" and "length items < 2 ^ 61"
    and "list_all (\<lambda>a. auth_room a \<and> (auth_ID a = [] \<or> plain_id (auth_ID a))) items"
    and "fold load_auth items ([], mg_authEpochs m) = (auths, epochs)"
  shows "wf_map auths" and "get_or 0 (mg_authEpochs m) j \<le> get_or 0 epochs j"
    and "unat (get_or 0 epochs j) < 2 ^ 64 - 1"
    and "map_of auths i = Some a \<Longrightarrow> auth_ID a = i \<and> i \<noteq> [] \<and> trim_space i = i
      \<and> auth_RegistrationEpoch a = get_or 0 epochs i \<and> get_or 0 (mg_authEpochs m) i < get_or 0 epochs i"
proof -
  have "unat (get_or 0 (mg_authEpochs m) i) \<le> 2 ^ 62" for i
    using room_epoch [OF assms(1), of i] by (simp add: word_less_nat_alt)
  then have "loaded_maps (mg_authEpochs m) 0 ([], mg_authEpochs m)" by (simp add: loaded_maps_def epochs_within_def)
  from load_fold [OF this _ assms(3)] assms(2,4)
  have l: "loaded_maps (mg_authEpochs m) (length items) (auths, epochs)" by simp
  then show "wf_map auths" "get_or 0 (mg_authEpochs m) j \<le> get_or 0 epochs j"
    "map_of auths i = Some a \<Longrightarrow> auth_ID a = i \<and> i \<noteq> [] \<and> trim_space i = i
      \<and> auth_RegistrationEpoch a = get_or 0 epochs i \<and> get_or 0 (mg_authEpochs m) i < get_or 0 epochs i"
    by (simp_all add: loaded_maps_def plain_id_def)
  have "unat (get_or 0 epochs j) \<le> 2 ^ 62 + length items" using l by (simp add: loaded_maps_def epochs_within_def)
  with assms(2) show "unat (get_or 0 epochs j) < 2 ^ 64 - 1" by simp
qed

text \<open>The credentials that are gone, and the epochs and tombstones they leave.\<close>

definition gone :: "(string, Auth) gomap \<Rightarrow> (string, Auth) gomap \<Rightarrow> string list" where
  "gone before auths = filter (\<lambda>i. \<not> has_key auths i) (List.map fst before)"

lemma gone_ids:
  assumes "manager_inv t m" and "i \<in> set (gone (mg_auths m) auths)"
  shows "plain_id i" and "map_of auths i = None"
proof -
  from assms(2) have "i \<in> fst ` set (mg_auths m)" by (simp add: gone_def)
  then obtain a where "map_of (mg_auths m) i = Some a" using map_of_eq_None_iff [of "mg_auths m" i] by blast
  with in_step_get(2,3) assms(1) show "plain_id i" unfolding manager_inv_def plain_id_def by metis
  from assms(2) show "map_of auths i = None" by (simp add: gone_def has_key_def split: option.splits)
qed

lemma bumped_epochs:
  assumes "distinct ids" and "\<And>j. unat (get_or 0 (epochs0 :: (string, u64) gomap) j) < 2 ^ 64 - 1"
    and "epochs = fold (\<lambda>i e. AList.update i (get_or 0 e i + 1) e) ids epochs0"
  shows "get_or 0 epochs i = (if i \<in> set ids then get_or 0 epochs0 i + 1 else get_or 0 epochs0 i)"
    and "get_or 0 epochs0 i \<le> get_or 0 epochs i"
proof -
  show e: "get_or 0 epochs i = (if i \<in> set ids then get_or 0 epochs0 i + 1 else get_or 0 epochs0 i)"
    unfolding assms(3) using fold_bump_get [OF assms(1)] .
  have "get_or 0 epochs0 i \<le> get_or 0 epochs0 i + 1"
    using assms(2) [of i] by (simp add: word_le_nat_alt unat_word_ariths)
  then show "get_or 0 epochs0 i \<le> get_or 0 epochs i" by (simp add: e)
qed

text \<open>The rebuilt scheduler is in step with the credentials that were loaded.\<close>

lemma rebuild_in_step:
  assumes "sched_reach later s1" and "bounded_epochs s1 epochs" and "wf_map auths"
    and "\<And>i a. map_of auths i = Some a \<Longrightarrow> auth_ID a = i \<and> i \<noteq> [] \<and> trim_space i = i
      \<and> auth_RegistrationEpoch a = get_or 0 epochs i \<and> up_to_date s1 a"
  shows "in_step auths epochs (rebuild registry s1 (List.map snd auths) later)"
proof -
  define s2 where "s2 = s1\<lparr>as_providers := [], as_authProviders := [], as_mixedCursors := [], as_mixedWeightedStates := []\<rparr>"
  have r2: "sched_reach later s2"
    using sched_reach.rebuilt [OF assms(1) order.refl, of registry "[]"] by (simp add: rebuild_def s2_def)
  have e: "up_to_date s2 a = up_to_date s1 a" for a by (simp add: up_to_date_def isStaleScheduledAuth_def s2_def)
  have "in_step [] epochs s2"
    using assms(2) by (simp add: in_step_def sound_auths_def bounded_epochs_def mirrors_def scheduled_def s2_def)
  moreover have "distinct (List.map fst auths)" using assms(3) by (simp add: wf_map_def)
  moreover have "auth_ID a = i \<and> i \<noteq> [] \<and> trim_space i = i \<and> auth_RegistrationEpoch a = get_or 0 epochs i
      \<and> up_to_date s2 a" if "(i, a) \<in> set auths" for i a
    using assms(4) [of i a] that assms(3) by (simp add: wf_map_def e)
  ultimately have "in_step (fold (\<lambda>(i, a). AList.update i a) auths []) epochs
      (rebuild registry s1 (List.map snd auths) later)"
    unfolding rebuild_def s2_def [symmetric] by (rule rebuilt_in_step [OF _ r2 order.refl])
  moreover have "map_of (fold (\<lambda>(i, a). AList.update i a) auths []) = map_of auths"
    using map_of_fold_update [of auths "[]"] assms(3) by (simp add: wf_map_def fun_eq_iff split: option.split)
  ultimately show ?thesis using in_step_cong by metis
qed

lemma load_inv:
  assumes "manager_inv t m" and "t \<le> later" and "room m" and "length items < 2 ^ 61"
    and "list_all (\<lambda>a. auth_room a \<and> (auth_ID a = [] \<or> plain_id (auth_ID a))) items"
  shows "manager_inv later (Load m items later)"
proof -
  from assms(1) have r: "sched_reach t (mg_scheduler m)"
    and s: "in_step (mg_auths m) (mg_authEpochs m) (mg_scheduler m)" and wf: "wf_map (mg_auths m)"
    by (simp_all add: manager_inv_def)
  obtain auths epochs0 where f: "fold load_auth items ([], mg_authEpochs m) = (auths, epochs0)" by force
  note l = load_result [OF assms(3,4,5) f]
  define ids where "ids = gone (mg_auths m) auths"
  define epochs where "epochs = fold (\<lambda>i e. AList.update i (get_or 0 e i + 1) e) ids epochs0"
  have d: "distinct ids" using wf by (simp add: ids_def gone_def wf_map_def)
  note ids = gone_ids [OF assms(1), of _ auths, folded ids_def] and ep = bumped_epochs [OF d l(3) epochs_def]
  have "get_or 0 (mg_authEpochs m) i \<le> get_or 0 epochs i" for i using l(2) ep(2) by (rule order_trans)
  then have "bounded_epochs (mg_scheduler m) epochs"
    using s by (auto simp: in_step_def bounded_epochs_def intro: order_trans)
  define s1 where "s1 = fold (\<lambda>i s. RecordRemovalTombstone s i (get_or 0 epochs i) later) ids (mg_scheduler m)"
  have t: "sched_reach later s1" "bounded_epochs s1 epochs"
    "\<forall>j. j \<notin> set ids \<longrightarrow> map_of (as_authGenerations s1) j = map_of (as_authGenerations (mg_scheduler m)) j"
    using fold_tombstones [OF r assms(2) \<open>bounded_epochs (mg_scheduler m) epochs\<close>, of ids] ids(1)
    unfolding s1_def by blast+
  have "auth_ID a = i \<and> i \<noteq> [] \<and> trim_space i = i \<and> auth_RegistrationEpoch a = get_or 0 epochs i \<and> up_to_date s1 a"
    if a: "map_of auths i = Some a" for i a
  proof -
    have i: "i \<notin> set ids" using ids(2) a by force
    have "up_to_date (mg_scheduler m) a" by (rule up_to_date_epoch) (use s l(4) [OF a] in \<open>auto simp: in_step_def\<close>)
    with t(3) l(4) [OF a] i show ?thesis by (simp add: ep(1) up_to_date_def isStaleScheduledAuth_def)
  qed
  from rebuild_in_step [OF t(1,2) l(1) this]
  have "in_step auths epochs (rebuild (registry_view_of (mg_registry m)) s1 (List.map snd auths) later)" .
  moreover note sched_reach.rebuilt [OF t(1) order.refl, of "registry_view_of (mg_registry m)" "List.map snd auths"]
  moreover have "Load m items later = (rebuild_aliases False (m\<lparr>mg_auths := auths, mg_authEpochs := epochs\<rparr>))
      \<lparr>mg_scheduler := rebuild (registry_view_of (mg_registry m)) s1 (List.map snd auths) later\<rparr>"
    by (simp add: Load_def f Let_def gone_def [symmetric] ids_def [symmetric] epochs_def [symmetric] s1_def [symmetric])
       (simp add: rebuild_aliases_def)
  ultimately show ?thesis using l(1) by (simp add: manager_inv_def)
qed

section \<open>Every reachable manager\<close>

lemma kept_inv:
  assumes "manager_inv t m" and "kept (mg_scheduler m) s" and "sched_reach t' s"
  shows "manager_inv t' (m\<lparr>mg_scheduler := s\<rparr>)"
proof -
  have "in_step (mg_auths m) (mg_authEpochs m) s" using kept_in_step [OF _ assms(2)] assms(1) by (simp add: manager_inv_def)
  with assms(1,3) show ?thesis by (simp add: manager_inv_def)
qed

lemma reach_inv: "manager_reach unmarshal jb policy t m \<Longrightarrow> manager_inv t m"
proof (induction rule: manager_reach.induct)
  case (created t selector registry router cfg)
  from sched_reach.created [OF this, of selector] show ?case
    by (simp add: manager_inv_def new_manager_def in_step_def sound_auths_def bounded_epochs_def
        mirrors_def scheduled_def newAuthScheduler_def wf_map_def)
next
  case (strategy t m selector)
  have k: "kept (mg_scheduler m) (setSelector (mg_scheduler m) selector)"
    by (simp add: kept_def setSelector_def lists_of_def listed_def fun_eq_iff)
  show ?case by (rule kept_inv [OF strategy.IH k]) (use strategy sched_reach.selector in \<open>simp add: manager_inv_def\<close>)
next
  case (single t m now1 now2 now3 provider model req chosen s r)
  then have r: "sched_reach t (mg_scheduler m)" by (simp add: manager_inv_def)
  have "kept (mg_scheduler m) s"
    using single_kept [OF sched_reach_inv [OF r]] single.hyps sched_reach_listed [OF r] by blast
  from kept_inv [OF single.IH this sched_reach.single [OF r single.hyps(2-5)]] show ?case .
next
  case (mixed t m now1 now2 now3 providers model req chosen s r')
  then have r: "sched_reach t (mg_scheduler m)" by (simp add: manager_inv_def)
  have "kept (mg_scheduler m) s"
    using mixed_kept [OF sched_reach_inv [OF r]] mixed.hyps sched_reach_listed [OF r] by blast
  from kept_inv [OF mixed.IH this sched_reach.mixed [OF r mixed.hyps(2-5)]] show ?case .
qed (simp_all add: register_inv update_inv remove_inv_manager mark_inv neutral_inv refresh_inv reconcile_inv
    reset_inv load_inv refresh_request_inv prepare_inv)

end
