(* ===== verification/MixedCarry.thy ===== *)
theory MixedCarry
  imports Delivery
begin

text \<open>
  Snapshots under picks across providers: a property of every snapshot of a credential that the scheduler
  may return for a model (\<open>carries\<close>, theory \<open>Delivery\<close>) is kept by such a pick and holds of what it returns.
\<close>

definition bears :: "string \<Rightarrow> time \<Rightarrow> string \<Rightarrow> string \<Rightarrow> (Auth \<Rightarrow> bool) \<Rightarrow> modelScheduler \<Rightarrow> bool" where
  "bears k now i key P m \<longleftrightarrow> shard_inv k now m
     \<and> (k = key \<longrightarrow> (\<forall>e. map_of (mo_entries m) i = Some e \<longrightarrow> P (sa_auth e)))"

definition all_bear :: "string \<Rightarrow> time \<Rightarrow> string \<Rightarrow> string \<Rightarrow> (Auth \<Rightarrow> bool) \<Rightarrow> modelScheduler option list \<Rightarrow> bool" where
  "all_bear k now i key P shards \<longleftrightarrow> (\<forall>m. Some m \<in> set shards \<longrightarrow> bears k now i key P m)"

definition yields :: "string \<Rightarrow> string \<Rightarrow> string \<Rightarrow> (Auth \<Rightarrow> bool) \<Rightarrow> Auth \<Rightarrow> bool" where
  "yields k i key P a \<longleftrightarrow> (k = key \<longrightarrow> auth_ID a = i \<longrightarrow> P a)"

lemma bears_entry:
  assumes "bears k now i key P m" and "map_of (mo_entries m) j = Some e"
  shows "yields k i key P (sa_auth e)"
  using assms by (auto simp: bears_def yields_def shard_inv_def entry_id_def)

lemma at_priority_bears:
  assumes "bears k now i key P m" and "suits strategy predicate"
    and "pickReadyAtPriorityLocked m False p strategy predicate = (m', picked)"
  shows "bears k now i key P m' \<and> (\<forall>e. picked = Some e \<longrightarrow> yields k i key P (sa_auth e))"
proof -
  have "bears k now i key P m'"
    using assms(1) pickReadyAtPriority_frame [OF assms(3,2)] by (simp add: bears_def shard_inv_def)
  moreover have "yields k i key P (sa_auth e)" if e: "picked = Some e" for e
  proof -
    obtain bucket where b: "map_of (mo_readyByPriority m) p = Some bucket"
      using assms(3) e by (auto simp: pickReadyAtPriorityLocked_def split: option.splits)
    obtain view' where "pick_from_view m strategy predicate (rk_all bucket) = (view', Some e)"
      using assms(3) e b by (auto simp: pickReadyAtPriorityLocked_def split: prod.splits)
    moreover have "indexed m" using assms(1) by (simp add: bears_def shard_inv_def)
    ultimately show ?thesis
      using pick_from_view_spec [OF _ assms(2)] bucket_entries(1) [OF _ b] bears_entry [OF assms(1)] by blast
  qed
  ultimately show ?thesis by blast
qed

lemma put_bears:
  assumes "carries s i key P" and "bears k now i key P m"
  shows "carries (put_shard s pk m) i key P"
  using assms by (intro put_carries) (auto simp: bears_def shard_inv_def)

lemma carries_frame [simp]:
  "carries (s\<lparr>as_mixedCursors := c\<rparr>) i key P = carries s i key P"
  "carries (s\<lparr>as_mixedWeightedStates := w\<rparr>) i key P = carries s i key P"
  by (simp_all add: carries_def)

lemma ensure_bears:
  assumes "sched_inv t s" and "wf_lists s" and "carries s i key P" and "t \<le> now" and "ensure_shard s pk key0 now = (s', sh)"
  shows "carries s' i key P \<and> (\<forall>m. sh = Some m \<longrightarrow> bears (canonicalModelKey key0) now i key P m)"
  using ensure_carries [OF assms(1-3,5)] ensure_shard_inv [OF assms(1,4,5)] by (auto simp: bears_def)

lemma ensure_lists:
  "ensure_shard s pk key now = (s', sh) \<Longrightarrow> wf_lists s \<Longrightarrow> wf_lists s'"
  by (auto simp: ensure_shard_def ensureModelLocked_def Let_def wf_lists_alt split: option.splits if_splits)

lemma candidate_carries:
  assumes "sched_inv t s" and "wf_lists s" and "carries s i key P" and "t \<le> now"
    and "candidate_shards s pks key0 predicate now best = (s', shards, b)"
  shows "carries s' i key P \<and> wf_lists s' \<and> all_bear (canonicalModelKey key0) now i key P shards"
  using assms
proof (induction pks arbitrary: s t best shards b)
  case (Cons pk pks)
  obtain s1 sh where e: "ensure_shard s pk key0 now = (s1, sh)" by force
  obtain best' shards' b' where c: "candidate_shards s1 pks key0 predicate now best' = (s', shards', b')"
    and sh: "shards = sh # shards'"
    using Cons.prems(5) e by (auto simp: Let_def split: prod.splits)
  have "sched_inv now s1" using ensure_shard_inv [OF Cons.prems(1,4) e] by blast
  from Cons.IH [OF this ensure_lists [OF e Cons.prems(2)] _ order_refl c] ensure_bears [OF Cons.prems(1-4) e]
  show ?case by (auto simp: sh all_bear_def)
qed (simp add: all_bear_def)

lemma first_carries:
  assumes "first_pick s cs best strategy predicate = (s', r)" and "carries s i key P" and "suits strategy predicate"
    and "all_bear k now i key P (List.map snd cs)"
  shows "carries s' i key P \<and> (\<forall>a pk. r = Some (a, pk) \<longrightarrow> yields k i key P a)"
  using assms
proof (induction s cs best strategy predicate rule: first_pick.induct)
  case (3 s pk shard cs best strategy predicate)
  obtain m' picked where p: "pickReadyAtPriorityLocked shard False best strategy predicate = (m', picked)" by force
  have "bears k now i key P shard" using "3.prems"(4) by (simp add: all_bear_def)
  note b = at_priority_bears [OF this "3.prems"(3) p]
  have put: "carries (put_shard s pk m') i key P" using put_bears "3.prems"(2) b by blast
  show ?case
  proof (cases picked)
    case None
    with 3 p put show ?thesis by (simp add: all_bear_def)
  next
    case (Some e)
    with "3.prems"(1) p put b show ?thesis by auto
  qed
qed (auto simp: all_bear_def)

lemma mixed_loop_carries:
  assumes "mixed_loop s normalized shards weights segs start slot best predicate cursor offsets = (s', r)"
    and "carries s i key P" and "all_bear k now i key P shards" and "length shards = length normalized" and "normalized \<noteq> []"
  shows "carries s' i key P \<and> (\<forall>a pk. r = Some (a, pk) \<longrightarrow> yields k i key P a)"
  using assms(1,2)
proof (induction offsets arbitrary: s slot)
  case (Cons offset offsets)
  define j where "j = (start + offset) mod length normalized"
  have j: "j < length shards" using assms(4,5) by (simp add: j_def)
  define slot' where "slot' = (if j \<noteq> start then fst (segs ! j) else slot)"
  show ?case
  proof (cases "weights ! j = 0 \<or> shards ! j = None")
    case True
    then have "\<exists>sl. mixed_loop s normalized shards weights segs start sl best predicate cursor offsets = (s', r)"
    proof
      assume "weights ! j = 0"
      with Cons.prems(1) show ?thesis by (auto simp: Let_def j_def [symmetric])
    next
      assume "shards ! j = None"
      with Cons.prems(1) show ?thesis by (cases "weights ! j = 0") (auto simp: Let_def j_def [symmetric])
    qed
    with Cons.IH Cons.prems(2) show ?thesis by blast
  next
    case False
    then obtain m where m: "shards ! j = Some m" by auto
    then have "bears k now i key P m" using j assms(3) by (metis nth_mem all_bear_def)
    moreover obtain m' picked
      where p: "pickReadyAtPriorityLocked m False best schedulerStrategyRoundRobin predicate = (m', picked)" by force
    ultimately have b: "bears k now i key P m'" "\<forall>e. picked = Some e \<longrightarrow> yields k i key P (sa_auth e)"
      using at_priority_bears [of k now i key P m schedulerStrategyRoundRobin] by (simp_all add: suits_def)
    have put: "carries (put_shard s (normalized ! j) m') i key P" using put_bears Cons.prems(2) b(1) by blast
    show ?thesis
    proof (cases picked)
      case None
      then have "mixed_loop (put_shard s (normalized ! j) m') normalized shards weights segs start slot' best predicate
          cursor offsets = (s', r)"
        using Cons.prems(1) False m p by (simp add: Let_def j_def [symmetric] slot'_def)
      with Cons.IH put show ?thesis by blast
    next
      case (Some e)
      then have "s' = (put_shard s (normalized ! j) m')\<lparr>as_mixedCursors :=
          AList.update cursor (int slot' + 1) (as_mixedCursors s)\<rparr>" "r = Some (sa_auth e, normalized ! j)"
        using Cons.prems(1) False m p by (simp_all add: Let_def j_def [symmetric] slot'_def)
      with put b Some show ?thesis by auto
    qed
  qed
qed simp

lemma rotating_carries:
  assumes "pick_rotating_mixed s normalized shards best cursor predicate = (s', r)"
    and "carries s i key P" and "all_bear k now i key P shards" and "length shards = length normalized" and "normalized \<noteq> []"
  shows "carries s' i key P \<and> (\<forall>a pk. r = Some (a, pk) \<longrightarrow> yields k i key P a)"
  using assms(1,2) mixed_loop_carries [OF _ assms(2-5)]
  by (auto simp: pick_rotating_mixed_def Let_def split: if_splits option.splits)

lemma weighted_carries:
  assumes "pick_weighted_mixed s shards best cursor predicate = (s', r)"
    and "carries s i key P" and "all_bear k now i key P shards"
  shows "carries s' i key P \<and> (\<forall>a pk. r = Some (a, pk) \<longrightarrow> yields k i key P a)"
proof -
  define entries where "entries = mixed_entries shards best"
  define st where "st = prepare (get_or empty_smooth (as_mixedWeightedStates s) cursor)
    (scheduledWeightVectorMatching predicate entries)"
  obtain c picked where p: "smooth_pick entry_id entry_weight predicate entries (sw_current st) = (c, picked)" by force
  have r: "r = map_option (\<lambda>e. (sa_auth e, sm_providerKey (sa_meta e))) picked" and c: "carries s' i key P"
    using assms(1,2) p by (auto simp: pick_weighted_mixed_def Let_def pickSmoothWeightedScheduled_def
        entries_def [symmetric] st_def [symmetric])
  have "yields k i key P (sa_auth e)" if e: "picked = Some e" for e
  proof -
    have "e \<in> set entries" using smooth_pick_mem [OF p] e by (auto simp: admitted_def)
    then obtain m bucket where m: "Some m \<in> set shards" and b: "map_of (mo_readyByPriority m) best = Some bucket"
      and v: "e \<in> set (view_entries m (rk_all bucket))"
      unfolding entries_def mixed_entries_def by (auto split: option.splits) metis
    have bm: "bears k now i key P m" using m assms(3) by (simp add: all_bear_def)
    then have "indexed m" by (simp add: bears_def shard_inv_def)
    from bucket_entries(1) [OF this b] v bears_entry [OF bm] show ?thesis by blast
  qed
  with c r show ?thesis by auto
qed

lemma gather_carries:
  "sched_inv t s \<Longrightarrow> wf_lists s \<Longrightarrow> carries s i key P \<Longrightarrow> t \<le> now \<Longrightarrow>
   gather_errors s pks model predicate now su me ae = (s', x) \<Longrightarrow> carries s' i key P"
proof (induction pks arbitrary: s t su me ae)
  case (Cons pk pks)
  obtain s1 sh where e: "ensure_shard s pk (canonicalModelKey model) now = (s1, sh)" by force
  obtain su' me' ae' where g: "gather_errors s1 pks model predicate now su' me' ae' = (s', x)"
    using Cons.prems(5) e by (auto simp: Let_def split: option.splits prod.splits)
  have "sched_inv now s1" using ensure_shard_inv [OF Cons.prems(1,4) e] by blast
  from Cons.IH [OF this ensure_lists [OF e Cons.prems(2)] _ order_refl g] ensure_bears [OF Cons.prems(1-4) e]
  show ?case by blast
qed simp

lemma unavailable_carries:
  assumes "sched_inv t s" and "wf_lists s" and "t \<le> now"
    and "or_unavailable (s, x) normalized model predicate now = (s', r)"
    and "carries s i key P \<and> (\<forall>a pk. x = Some (a, pk) \<longrightarrow> yields k i key P a)"
  shows "carries s' i key P \<and> (\<forall>a pk. r = Inr (a, pk) \<longrightarrow> yields k i key P a)"
proof (cases x)
  case None
  obtain s2 y where g: "gather_errors s normalized model predicate now no_candidates None None = (s2, y)"
    by (metis surj_pair)
  with assms(4) None have "s' = s2" "\<exists>err. r = Inl err"
    by (auto simp: or_unavailable_def mixedUnavailableErrorLocked_def split: prod.splits)
  with gather_carries [OF assms(1,2) _ assms(3) g] assms(5) show ?thesis by auto
next
  case (Some ap)
  with assms(4,5) show ?thesis by (auto simp: or_unavailable_def)
qed

lemma in_shard_carries:
  assumes inv: "sched_inv t s" "wf_lists s" "carries s i key P" and time: "t \<le> now1" "now1 \<le> now2"
    and su: "suits st predicate"
    and p: "pick_in_shard s pk key0 model pw st predicate prov now1 now2 now3 = (s', r)"
  shows "carries s' i key P \<and> (\<forall>a. r = Inr a \<longrightarrow> yields (canonicalModelKey key0) i key P a)"
proof -
  obtain s1 sh where e: "ensure_shard s pk key0 now1 = (s1, sh)" by force
  note eb = ensure_bears [OF inv time(1) e]
  show ?thesis
  proof (cases sh)
    case None
    with p e eb show ?thesis by (auto simp: pick_in_shard_def)
  next
    case (Some m)
    let ?k = "canonicalModelKey key0"
    obtain m' picked where q: "pickReadyLocked m pw st predicate now2 = (m', picked)" by force
    have m: "bears ?k now1 i key P m" "shard_inv ?k now1 m" "0 \<le> now2"
      using eb ensure_shard_inv [OF inv(1) time(1) e] Some time(2) by (auto simp: sched_inv_def)
    have b: "bears ?k now2 i key P m'"
      using shard_inv_pick [OF m(2) time(2) m(3) su q] promote_entries(1) [OF m(2), of now2] m(1)
      by (auto simp: bears_def)
    have "yields ?k i key P (sa_auth en)" if "picked = Some en" for en
      using pickReadyLocked_sound [OF m(2) time(2) m(3) su] q that bears_entry [OF b] by blast
    with put_bears [OF _ b] eb show ?thesis using p e Some q by (auto simp: pick_in_shard_def split: option.splits)
  qed
qed

lemma across_carries:
  assumes inv: "sched_inv t s" "wf_lists s" "carries s i key P" and time: "t \<le> now" and ne: "normalized \<noteq> []"
    and su: "suits strategy predicate"
    and c: "candidate_shards s normalized key0 predicate now None = (s1, shards, best)"
    and x: "across_pick s1 normalized shards best strategy cursor predicate = (s2, r)"
  shows "carries s2 i key P \<and> (\<forall>a pk. r = Some (a, pk) \<longrightarrow> yields (canonicalModelKey key0) i key P a)"
proof -
  note k = candidate_carries [OF inv time c]
  then have c1: "carries s1 i key P" and ab: "all_bear (canonicalModelKey key0) now i key P shards" by auto
  have len: "length shards = length normalized" using candidate_length [OF c] .
  then have "all_bear (canonicalModelKey key0) now i key P (List.map snd (zip normalized shards))" using ab by simp
  with x c1 first_carries [OF _ c1 su this] weighted_carries [OF _ c1 ab] rotating_carries [OF _ c1 ab len ne]
  show ?thesis by (auto simp: across_pick_def split: option.splits if_splits)
qed

lemma mixed_carries:
  assumes inv: "sched_inv t s" "wf_lists s" "carries s i key P" and l: "listed s" and time: "t \<le> now1" "now1 \<le> now2" "now2 \<le> now3"
    and pick: "pickMixedWithStrategy s providers model req strategy0 now1 now2 now3 = (s', r)"
  shows "carries s' i key P \<and> (\<forall>a pk. r = Inr (a, pk) \<longrightarrow>
    yields (canonicalModelKey (canonicalModelKey model)) i key P a)"
proof (cases rule: mixed_cases [of providers])
  case none
  with pick inv show ?thesis by (auto simp: pickMixedWithStrategy_def)
next
  case (one pk)
  obtain s1 r1 where p: "pickSingleWithStrategy s pk model req strategy0 now1 now2 now3 = (s1, r1)" by force
  have "carries s1 i key P \<and> (\<forall>a. r1 = Inr a \<longrightarrow> yields (canonicalModelKey (canonicalModelKey model)) i key P a)"
    using in_shard_carries [OF inv time(1,2) predicate_suits] p unfolding pickSingleWithStrategy_def Let_def by blast
  with pick one p show ?thesis by (auto simp: pickMixedWithStrategy_def split: sum.splits)
next
  case (more p q ps)
  show ?thesis
  proof (cases "rq_pinnedAuthID req = []")
    case False
    obtain s1 r1 where p: "pick_in_shard s (get_or [] (as_authProviders s) (rq_pinnedAuthID req))
        (canonicalModelKey model) model False (strategy_for s strategy0)
        (request_predicate req (strategy_for s strategy0)) ''mixed'' now1 now2 now3 = (s1, r1)" by force
    with in_shard_carries [OF inv time(1,2) predicate_suits p] pickMixed_pinned [OF more False refl p] pick inv(3)
    show ?thesis by (auto split: sum.splits if_splits)
  next
    case True
    obtain s1 shards best where c: "candidate_shards s (p # q # ps) (canonicalModelKey model)
        (request_predicate req (strategy_for s strategy0)) now1 None = (s1, shards, best)" by (metis prod_cases3)
    obtain s2 x where x: "across_pick s1 (p # q # ps) shards best (strategy_for s strategy0)
        (join_keys (p # q # ps) @ '':'' @ canonicalModelKey model) (request_predicate req (strategy_for s strategy0))
        = (s2, x)" by force
    note k = across_carries [OF inv time(1) list.distinct(2) predicate_suits c x]
    have "sched_inv now1 s2" using across_sound [OF inv(1) time(1) list.distinct(2) refl c x] by blast
    moreover have "wf_lists s2"
      using kept_wf [OF across_kept [OF inv(1) time(1) l list.distinct(2) c x]] inv(2) by simp
    moreover have "now1 \<le> now3" using time by linarith
    moreover have "or_unavailable (s2, x) (p # q # ps) model (request_predicate req (strategy_for s strategy0)) now3 = (s', r)"
      using trans [OF pickMixed_across [OF more True c, unfolded x, symmetric] pick] .
    ultimately show ?thesis using k unavailable_carries by blast
  qed
qed

end
