(* ===== verification/ManagerPromises.thy ===== *)
theory ManagerPromises
  imports ManagerInv MixedCarry
begin

text \<open>
  What the manager promises, end to end: the scheduler lists exactly the credentials that may be
  scheduled, and a credential that failed rests until its deadline whatever is picked meanwhile.
\<close>

section \<open>The scheduler and the manager\<close>


section \<open>A cooled credential rests\<close>

text \<open>Any number of picks, for one provider or across several, by the clock.\<close>

inductive picks :: "time \<Rightarrow> authScheduler \<Rightarrow> time \<Rightarrow> authScheduler \<Rightarrow> bool" where
  none: "picks t s t s"
| another: "picks t s t' s' \<Longrightarrow> t' \<le> now1 \<Longrightarrow> now1 \<le> now2 \<Longrightarrow> now2 \<le> now3 \<Longrightarrow>
    pickSingleWithStrategy s' provider model req chosen now1 now2 now3 = (s'', r) \<Longrightarrow> picks t s now3 s''"
| across: "picks t s t' s' \<Longrightarrow> t' \<le> now1 \<Longrightarrow> now1 \<le> now2 \<Longrightarrow> now2 \<le> now3 \<Longrightarrow>
    pickMixedWithStrategy s' providers model req chosen now1 now2 now3 = (s'', r') \<Longrightarrow> picks t s now3 s''"

lemma reach_mixed_carries:
  assumes "sched_reach t s" and "carries s i key P" and "t \<le> now1" and "now1 \<le> now2" and "now2 \<le> now3"
    and "pickMixedWithStrategy s providers model req chosen now1 now2 now3 = (s', r)"
  shows "carries s' i key P \<and> (\<forall>a pk. r = Inr (a, pk) \<longrightarrow>
    yields (canonicalModelKey (canonicalModelKey model)) i key P a)"
  by (rule mixed_carries [OF sched_reach_inv [OF assms(1)] sched_reach_wf [OF assms(1)] assms(2)
      sched_reach_listed [OF assms(1)] assms(3-6)])

lemma picks_carry:
  assumes "picks t s t' s'" and "sched_reach t s" and "carries s i key P"
  shows "sched_reach t' s' \<and> carries s' i key P"
  using assms
proof (induction rule: picks.induct)
  case (across t s t' s' now1 now2 now3 providers model req chosen s'' r')
  then have r: "sched_reach t' s'" and c: "carries s' i key P" by simp_all
  from reach_mixed_carries [OF r c across.hyps(2-5)] sched_reach.mixed [OF r across.hyps(2-5)] show ?case by simp
next
  case (another t s t' s' now1 now2 now3 provider model req chosen s'' r)
  then have r: "sched_reach t' s'" and c: "carries s' i key P" by simp_all
  from single_carries(1) [OF sched_reach_inv [OF r] sched_reach_wf [OF r] c another.hyps(2,3,5)]
    sched_reach.single [OF r another.hyps(2-5)]
  show ?case by simp
qed simp

text \<open>A snapshot that rests for the model \<open>k\<close> from \<open>now\<close> until \<open>until\<close>.\<close>

definition rests :: "time \<Rightarrow> time \<Rightarrow> string \<Rightarrow> Auth \<Rightarrow> bool" where
  "rests now until k a \<longleftrightarrow> (\<forall>t. now \<le> t \<and> t < until \<longrightarrow> is_blocked (isAuthBlockedForModel a k t))"

lemma rests_single:
  assumes "sched_reach t s" and "carries s i k (rests now until k)" and "t \<le> now1" and "now1 \<le> now2" and "now \<le> now2"
    and "now2 < until" and "pickSingleWithStrategy s provider model req chosen now1 now2 now3 = (s', Inr b)"
    and "canonicalModelKey (canonicalModelKey model) = k"
  shows "auth_ID b \<noteq> i"
proof
  assume b: "auth_ID b = i"
  from single_carries(2) [OF sched_reach_inv [OF assms(1)] sched_reach_wf [OF assms(1)] assms(2-4,7) refl b assms(8)]
  have "is_blocked (isAuthBlockedForModel b k now2)" using assms(5,6) by (simp add: rests_def)
  moreover have "servable req k now2 b"
    using single_sound [OF sched_reach_inv [OF assms(1)] assms(3,4,7)] assms(8) by simp
  ultimately show False by (simp add: servable_def)
qed

lemma rests_mixed:
  assumes "sched_reach t s" and "carries s i k (rests now until k)" and "t \<le> now1" and "now1 \<le> now2" and "now2 \<le> now3"
    and "now \<le> now1" and "now2 < until"
    and "pickMixedWithStrategy s providers model req chosen now1 now2 now3 = (s', Inr (b, pk))"
    and "canonicalModelKey (canonicalModelKey model) = k"
  shows "auth_ID b \<noteq> i"
proof
  assume b: "auth_ID b = i"
  from reach_mixed_carries [OF assms(1-5,8)] b assms(9)
  have "is_blocked (isAuthBlockedForModel b k tm)" if "now \<le> tm" "tm < until" for tm
    using that by (simp add: yields_def rests_def)
  moreover have "servable req k now1 b \<or> servable req k now2 b"
    using mixed_sound [OF sched_reach_inv [OF assms(1)] assms(3-5,8)] assms(9) by simp
  ultimately show False using assms(4,6,7) by (auto simp: servable_def)
qed

lemma mark_scheduler:
  assumes "rs_AuthID result \<noteq> []" and "r = policy result" and "rs_AuthID r \<noteq> []"
    and "map_of (mg_auths m) (rs_AuthID r) = Some a"
  shows "mg_scheduler (MarkResult unmarshal jb policy m result headers now later) =
    upsertAuthResultLocked (registry_view_of (mg_registry m)) (mg_scheduler m)
      (mark_auth (mg_config m) jb (selection_key unmarshal m) headers r now a)
      (result_targets (result_model (selection_key unmarshal m) r a) r) (rs_CredentialScope r) later"
  using assms by (simp add: MarkResult_def Let_def)

text \<open>
  C1: A credential that failed is left alone, end to end: if a request through a credential fails in a
  way that counts, in any reachable state of the manager, then there is a time ahead such that, however
  many picks follow and whichever credentials they return, no pick for the model, for one provider or
  across several, returns this credential before that time.
\<close>

theorem cooled_credential_rests:
  assumes "manager_reach unmarshal jb policy t m" and "t \<le> later" and "room m"
    and "policy result = r" and "rs_AuthID result \<noteq> []" and "rs_AuthID r = i"
    and "map_of (mg_auths m) i = Some a"
    and "\<not> rs_Success r" and "\<not> shouldSkipCredentialCooldown jb (rs_Error r)"
    and "\<not> effective_disable (mg_config m) r a" and "0 \<le> cf_transientErrorCooldownSeconds (mg_config m)" and "0 \<le> now"
    and "result_model (selection_key unmarshal m) r a = k" and "k \<noteq> []" and "canonicalModelKey k = k"
    and "canonicalModelKey (canonicalModelKey model) = k"
  shows "\<exists>until > now. \<forall>t' s' now1 now2 now3 req chosen s''.
    picks later (mg_scheduler (MarkResult unmarshal jb policy m result headers now later)) t' s' \<and>
    t' \<le> now1 \<and> now \<le> now1 \<and> now1 \<le> now2 \<and> now2 \<le> now3 \<and> now2 < until \<longrightarrow>
    (\<forall>provider b. pickSingleWithStrategy s' provider model req chosen now1 now2 now3 = (s'', Inr b) \<longrightarrow> auth_ID b \<noteq> i) \<and>
    (\<forall>providers b pk. pickMixedWithStrategy s' providers model req chosen now1 now2 now3 = (s'', Inr (b, pk)) \<longrightarrow>
       auth_ID b \<noteq> i)"
proof -
  define c where "c = mark_auth (mg_config m) jb (selection_key unmarshal m) headers r now a"
  obtain until where u: "now < until" and blocked: "\<And>t. now \<le> t \<Longrightarrow> t < until \<Longrightarrow> is_blocked (isAuthBlockedForModel c k t)"
    using failure_cools_down [OF assms(8-15), of headers] assms(15) unfolding c_def by blast
  let ?P = "rests now until k"
  note inv = reach_inv [OF assms(1)]
  then have r: "sched_reach t (mg_scheduler m)"
    and s: "in_step (mg_auths m) (mg_authEpochs m) (mg_scheduler m)" by (simp_all add: manager_inv_def)
  note g = in_step_get [OF s assms(7)]
  have id: "auth_ID c = i" using g(1) by (simp add: c_def)
  have "up_to_date (mg_scheduler m) c"
    by (rule up_to_date_next [OF g(5)]) (use room_bounds(1) [OF room_auth [OF assms(3,7)]] in \<open>simp_all add: c_def\<close>)
  then have fresh: "\<not> isStaleScheduledAuth (mg_scheduler m) (auth_ID c) (auth_RegistrationEpoch c) (auth_Generation c)
      (auth_UpdatedAt c)" by (simp add: up_to_date_def)
  let ?targets = "result_targets k r"
  have cover: "rs_CredentialScope r \<or> ?targets = [] \<or> k \<in> canonicalModelKey ` set ?targets"
    using assms(14,15) by (auto simp: result_targets_def Let_def image_iff)
  let ?s = "mg_scheduler (MarkResult unmarshal jb policy m result headers now later)"
  have sch: "?s = upsertAuthResultLocked (registry_view_of (mg_registry m)) (mg_scheduler m) c ?targets
      (rs_CredentialScope r) later"
    using mark_scheduler [OF assms(5), of r policy m a] assms(4,6,7,13) in_step_get(2) [OF s assms(7)]
    by (simp add: c_def)
  have "carries ?s i k ?P"
    unfolding sch using result_carries [OF sched_reach_listed [OF r] sched_reach_inv [OF r] _ _ fresh cover, of ?P]
      g(2,3) blocked by (simp add: id rests_def)
  moreover have "sched_reach later ?s" unfolding sch using r assms(2) by (rule sched_reach.result)
  ultimately have carry: "sched_reach t' s' \<and> carries s' i k ?P" if "picks later ?s t' s'" for t' s'
    using picks_carry [OF that] by blast
  show ?thesis
    by (rule exI [of _ until], intro conjI allI impI)
      (use u carry rests_single [OF _ _ _ _ _ _ _ assms(16)] rests_mixed [OF _ _ _ _ _ _ _ _ assms(16)] in fastforce)+
qed

section \<open>Examples\<close>

definition empty_manager :: Manager where
  "empty_manager = new_manager RoundRobinSelector new_registry (router_for no_config []) plain_config"

definition one_credential :: Manager where
  "one_credential = fst (Register empty_manager ''x'' False (new_auth ''a'' ''codex'') 10 20)"

lemma one_reach: "manager_reach (\<lambda>_. None) no_bodies (\<lambda>r. r) 20 one_credential"
proof -
  have "manager_reach (\<lambda>_. None) no_bodies (\<lambda>r. r) 0 empty_manager"
    unfolding empty_manager_def by (rule manager_reach.created) simp
  moreover have "room empty_manager" by (simp add: room_def empty_manager_def new_manager_def)
  moreover have "auth_room (new_auth ''a'' ''codex'')" by (simp add: auth_room_def new_auth_def)
  moreover have "plain_id (auth_ID (new_auth ''a'' ''codex''))" "plain_id ''x''" by code_simp+
  ultimately show ?thesis unfolding one_credential_def
    by (intro manager_reach.registered [where t = 0]) simp_all
qed

definition one_auth :: Auth where
  "one_auth = the (map_of (mg_auths one_credential) ''a'')"

lemma one_get: "map_of (mg_auths one_credential) ''a'' = Some one_auth"
  unfolding one_auth_def by code_simp


theorem cooled_credential_rests_witness:
  "case snd (pickSingleWithStrategy (mg_scheduler (MarkResult (\<lambda>_. None) no_bodies (\<lambda>r. r) one_credential
       (failure_of 403 False) [] 1000 1000)) ''codex'' ''m'' any_request None 1000 1000 1000) of
     Inr b \<Rightarrow> auth_ID b \<noteq> ''a'' | Inl _ \<Rightarrow> True"
proof -
  have "List.map (\<lambda>(i, a). auth_Generation a) (mg_auths one_credential) = [1]"
    "List.map snd (mg_authEpochs one_credential) = [1]" by code_simp+
  then have room: "room one_credential" unfolding room_def by (auto dest!: map_of_SomeD)
  have h: "rs_AuthID (failure_of 403 False) \<noteq> []" "rs_AuthID (failure_of 403 False) = ''a''"
    "\<not> rs_Success (failure_of 403 False)"
    "\<not> shouldSkipCredentialCooldown no_bodies (rs_Error (failure_of 403 False))"
    "\<not> effective_disable (mg_config one_credential) (failure_of 403 False) one_auth"
    "0 \<le> cf_transientErrorCooldownSeconds (mg_config one_credential)"
    "result_model (selection_key (\<lambda>_. None) one_credential) (failure_of 403 False) one_auth = ''m''"
    "canonicalModelKey ''m'' = ''m''" "canonicalModelKey (canonicalModelKey ''m'') = ''m''"
    unfolding one_auth_def by code_simp+
  obtain s r where p: "pickSingleWithStrategy (mg_scheduler (MarkResult (\<lambda>_. None) no_bodies (\<lambda>r. r) one_credential
       (failure_of 403 False) [] 1000 1000)) ''codex'' ''m'' any_request None 1000 1000 1000 = (s, r)" by force
  from cooled_credential_rests [OF one_reach _ room refl h(1,2) one_get h(3-6) _ h(7) _ h(8,9), of 1000 1000 "[]"]
  have "auth_ID b \<noteq> ''a''" if "r = Inr b" for b
    using p that picks.none by fastforce
  then show ?thesis unfolding p by (simp split: sum.split)
qed

end
