(* ===== verification/RequestRules.thy ===== *)
theory RequestRules
  imports Routing GoErrors
begin

text \<open>
  The operator's rules for upstream errors (\<open>sdk/cliproxy/auth/conductor_request_scoped_errors.go\<close>):
  which rules apply to a credential, the rule an error matches, and what it makes of the result.
  Parameters: \<open>decode\<close> gives the rules a metadata value stands for, empty where it stands for none
  (\<open>encoding/json\<close>), \<open>regex\<close> whether a pattern compiles and matches (\<open>regexp\<close>).
\<close>

section \<open>The rules of a credential\<close>

type_synonym rule_decoder = "any_value \<Rightarrow> RequestScopedErrorRule list"

definition metadata_rules :: "rule_decoder \<Rightarrow> Auth \<Rightarrow> RequestScopedErrorRule list" where
  "metadata_rules decode auth =
     (case (case map_of (auth_Metadata auth) ''request_scoped_errors'' of
              Some raw \<Rightarrow> Some raw
            | None \<Rightarrow> map_of (auth_Metadata auth) ''request-scoped-errors'') of
        None \<Rightarrow> []
      | Some ANil \<Rightarrow> []
      | Some raw \<Rightarrow> decode raw)"

definition entry_rules :: "key_entry list \<Rightarrow> int \<Rightarrow> RequestScopedErrorRule list" where
  "entry_rules entries index =
     (if 0 \<le> index \<and> index < int (length entries) then ke_RequestScopedErrors (entries ! nat index) else [])"

definition rule_index :: "Auth \<Rightarrow> int" where
  "rule_index auth =
     (case map_of (auth_Attributes auth) ''config_index'' of
        None \<Rightarrow> -1
      | Some idx \<Rightarrow> (case parse_int (trim_space idx) of Some n \<Rightarrow> (if 0 \<le> n then n else -1) | None \<Rightarrow> -1))"

definition compat_name_of :: "Auth \<Rightarrow> string \<Rightarrow> string" where
  "compat_name_of auth provider =
     (let name = get_or [] (auth_Attributes auth) ''compat_name''
      in if name \<noteq> [] then name
         else if has_prefix provider ''openai-compatible-'' then trim_prefix provider ''openai-compatible-''
         else if has_prefix provider ''openai-compatibility:'' then trim_prefix provider ''openai-compatibility:''
         else [])"

definition provider_rules :: "Config \<Rightarrow> string \<Rightarrow> int \<Rightarrow> RequestScopedErrorRule list" where
  "provider_rules cfg provider index =
     (if provider = ''claude'' then entry_rules (cf_ClaudeKey cfg) index
      else if provider = ''codex'' then entry_rules (cf_CodexKey cfg) index
      else if provider = ''xai'' then entry_rules (cf_XAIKey cfg) index
      else if provider = ''meta'' then entry_rules (cf_MetaKey cfg) index
      else if provider = ''gemini'' then entry_rules (cf_GeminiKey cfg) index
      else if provider \<in> set [''interactions'', ''gemini-interactions''] then entry_rules (cf_InteractionsKey cfg) index
      else [])"

definition extractRequestScopedErrorRules :: "rule_decoder \<Rightarrow> Config \<Rightarrow> Auth \<Rightarrow> RequestScopedErrorRule list" where
  "extractRequestScopedErrorRules decode cfg auth =
     (let own = metadata_rules decode auth;
          provider = to_lower (trim_space (auth_Provider auth))
      in if own \<noteq> [] then own
         else if AuthKind auth = ''oauth'' then get_or [] (cf_OAuthRequestScopedErrors cfg) provider
         else
           let providerKey = get_or [] (auth_Attributes auth) ''provider_key'';
               compatName = compat_name_of auth provider;
               compat = (if compatName \<noteq> [] \<or> providerKey \<noteq> [] \<or> provider = ''openai-compatibility''
                   \<or> has_prefix provider ''openai-compatibility:'' \<or> has_prefix provider ''openai-compatible''
                 then resolveOpenAICompatConfigForAuth cfg auth providerKey compatName else None)
           in case compat of
                Some entry \<Rightarrow> oc_RequestScopedErrors entry
              | None \<Rightarrow> provider_rules cfg provider (rule_index auth))"

section \<open>The rule an error matches\<close>

definition known_actions :: "string list" where
  "known_actions = [''stop'', ''stop-and-cooldown'', ''continue'', ''continue-and-cooldown'']"

definition rule_matches :: "(string \<Rightarrow> string \<Rightarrow> bool) \<Rightarrow> int \<Rightarrow> string \<Rightarrow> RequestScopedErrorRule \<Rightarrow> bool" where
  "rule_matches regex statusCode body rule =
     (if rl_Status rule \<le> 0 \<or> rl_Status rule \<noteq> statusCode then False
      else if rl_Match rule = [] \<and> rl_MatchRegexr rule = [] then False
      else list_ex (\<lambda>substr. substr \<noteq> [] \<and> str_contains body substr) (rl_Match rule)
           \<or> list_ex (\<lambda>pattern. pattern \<noteq> [] \<and> regex pattern body) (rl_MatchRegexr rule))"

fun match_rules :: "(string \<Rightarrow> string \<Rightarrow> bool) \<Rightarrow> int \<Rightarrow> string \<Rightarrow> RequestScopedErrorRule list \<Rightarrow> string option" where
  "match_rules regex statusCode body [] = None"
| "match_rules regex statusCode body (rule # rules) =
     (let action = to_lower (trim_space (rl_Action rule))
      in if rule_matches regex statusCode body rule \<and> action \<in> set known_actions then Some action
         else match_rules regex statusCode body rules)"

definition matchRequestScopedErrorAction ::
  "rule_decoder \<Rightarrow> (string \<Rightarrow> string \<Rightarrow> bool) \<Rightarrow> Config \<Rightarrow> Auth \<Rightarrow> go_error \<Rightarrow> string option"
where
  "matchRequestScopedErrorAction decode regex cfg auth err =
     match_rules regex (statusCodeFromError err) (extractErrorBody err) (extractRequestScopedErrorRules decode cfg auth)"

definition applyRequestScopedActionToResult :: "string option \<Rightarrow> AuthError \<Rightarrow> AuthError" where
  "applyRequestScopedActionToResult action err =
     (case action of
        None \<Rightarrow> err
      | Some a \<Rightarrow>
          if a \<in> set [''stop'', ''continue''] then err\<lparr>er_Code := ErrorCodeRequestScoped\<rparr>
          else if a \<in> set [''stop-and-cooldown'', ''continue-and-cooldown'']
            then err\<lparr>er_Code := ErrorCodeForceCooldown\<rparr>
          else err)"

definition isRequestScopedStop :: "string option \<Rightarrow> bool" where
  "isRequestScopedStop action = (action \<in> set [Some ''stop'', Some ''stop-and-cooldown''])"

section \<open>The operator decides\<close>

lemma match_rules_known: "match_rules regex statusCode body rules = Some action \<Longrightarrow> action \<in> set known_actions"
  by (induction rules) (auto simp: Let_def split: if_splits)


definition rule_400 :: RequestScopedErrorRule where
  "rule_400 = \<lparr>rl_Status = 400, rl_Match = [''overloaded''], rl_MatchRegexr = [], rl_Action = '' Continue-And-Cooldown''\<rparr>"

definition ruled_auth :: Auth where
  "ruled_auth = (new_auth ''a'' ''codex'')\<lparr>auth_Metadata := [(''request_scoped_errors'', AArray [])]\<rparr>"

definition busy_error :: go_error where
  "busy_error = value_error \<lparr>er_Code = [], er_Message = ''model overloaded'', er_Retryable = False, er_HTTPStatus = 400\<rparr>"


text \<open>
  The rules of a configured credential are looked up by position alone, while its models are those of
  the entry that holds its key: after the entries have moved, the two are different entries.
\<close>

definition moved_config :: Config where
  "moved_config = no_config\<lparr>cf_CodexKey :=
     [\<lparr>ke_APIKey = ''other'', ke_BaseURL = [], ke_Prefix = [], ke_ProxyURL = [], ke_Models = [],
       ke_RequestScopedErrors = [rule_400]\<rparr>,
      \<lparr>ke_APIKey = ''mine'', ke_BaseURL = [], ke_Prefix = [], ke_ProxyURL = [], ke_Models = [],
       ke_RequestScopedErrors = []\<rparr>]\<rparr>"

definition moved_auth :: Auth where
  "moved_auth = (new_auth ''a'' ''codex'')\<lparr>auth_Attributes :=
     [(''api_key'', ''mine''), (''config_index'', ''0''), (''source_backend'', ''config'')]\<rparr>"

text \<open>
  The rules of a credential may belong to another one: the models of a configured credential are those
  of the entry that holds its key, wherever it stands, but its error rules are those at the position it
  was registered with.
\<close>

theorem rules_of_moved_entry:
  "map_option ke_APIKey (resolveCodexAPIKeyConfig moved_config moved_auth) = Some ''mine''
   \<and> map_option ke_RequestScopedErrors (resolveCodexAPIKeyConfig moved_config moved_auth) = Some []
   \<and> extractRequestScopedErrorRules (\<lambda>_. []) moved_config moved_auth = [rule_400]"
  by code_simp

end
