(* ===== verification/Retry.thy ===== *)
theory Retry
  imports Manager GoErrors
begin

text \<open>
  Whether a failed round of attempts is followed by another, and after what wait
  (\<open>sdk/cliproxy/auth/conductor_selection.go\<close>, \<open>SetRetryConfig\<close> in \<open>conductor_lifecycle.go\<close>,
  \<open>RequestRetryOverride\<close> in \<open>types.go\<close>), with Home disabled. A request runs in rounds; a credential takes
  part in the rounds up to its retry limit. The clock readings are arguments, in the code's order; the
  random part of a wait is the value drawn by \<open>rand.N\<close>, below its bound.
\<close>

section \<open>Limits\<close>

record retry_settings =
  rt_requestRetry :: int
  rt_maxRetryCredentials :: int
  rt_maxRetryInterval :: duration

text \<open>The settings are kept in 32 bits.\<close>

definition to_int32 :: "int \<Rightarrow> int" where
  "to_int32 n = sint (word_of_int n :: 32 word)"

definition SetRetryConfig :: "int \<Rightarrow> duration \<Rightarrow> int \<Rightarrow> retry_settings" where
  "SetRetryConfig retry maxRetryInterval maxRetryCredentials =
     \<lparr>rt_requestRetry = to_int32 (if retry < 0 then 0 else retry),
      rt_maxRetryCredentials = to_int32 (if maxRetryCredentials < 0 then 0 else maxRetryCredentials),
      rt_maxRetryInterval = (if maxRetryInterval < 0 then 0 else maxRetryInterval)\<rparr>"

text \<open>
  \<open>int(f)\<close> truncates; outside the range of \<open>int64\<close> Go leaves the value to the implementation, and on
  amd64 it is the least \<open>int64\<close>.
\<close>

definition truncate_float :: "gofloat \<Rightarrow> int" where
  "truncate_float f =
     (case f of
        Finite q \<Rightarrow> (let n = (if q < 0 then \<lceil>q\<rceil> else \<lfloor>q\<rfloor>) in if min_int64 \<le> n \<and> n \<le> max_int64 then n else min_int64)
      | _ \<Rightarrow> min_int64)"

fun parseIntAny :: "any_value \<Rightarrow> int option" where
  "parseIntAny (ASigned n) = Some n"
| "parseIntAny (AFloat64 f) = Some (truncate_float f)"
| "parseIntAny (ANumber s) = parse_int s"
| "parseIntAny (AString s) = (if trim_space s = [] then None else parse_int (trim_space s))"
| "parseIntAny _ = None"

definition retry_value :: "Auth \<Rightarrow> string \<Rightarrow> int option" where
  "retry_value auth key = (case map_of (auth_Metadata auth) key of Some v \<Rightarrow> parseIntAny v | None \<Rightarrow> None)"

definition RequestRetryOverride :: "Auth \<Rightarrow> int option" where
  "RequestRetryOverride auth =
     (case (case retry_value auth ''request_retry'' of Some n \<Rightarrow> Some n | None \<Rightarrow> retry_value auth ''request-retry'') of
        Some n \<Rightarrow> if n < 0 then None else Some n
      | None \<Rightarrow> None)"

definition effectiveRequestRetryLimit :: "Auth \<Rightarrow> int \<Rightarrow> int" where
  "effectiveRequestRetryLimit auth defaultRetry =
     (case RequestRetryOverride auth of
        Some override \<Rightarrow> override
      | None \<Rightarrow> if defaultRetry < 0 then 0 else defaultRetry)"

definition all_auths :: "Manager \<Rightarrow> Auth list" where
  "all_auths m = List.map snd (mg_auths m)"

definition requestRetryRoundExclusions :: "Manager \<Rightarrow> int \<Rightarrow> int \<Rightarrow> string list" where
  "requestRetryRoundExclusions m retryRound defaultRequestRetry =
     (if retryRound \<le> 0 then []
      else List.map auth_ID (filter (\<lambda>auth. trim_space (auth_ID auth) \<noteq> []
             \<and> effectiveRequestRetryLimit auth defaultRequestRetry < retryRound) (all_auths m)))"

section \<open>Which errors start another round\<close>

definition isCredentialRetryRoundStatus :: "int \<Rightarrow> bool" where
  "isCredentialRetryRoundStatus status = (status \<in> set [403, 408, 429, 500, 502, 503, 504])"

definition isRequestRetryRoundError :: "go_error \<Rightarrow> bool" where
  "isRequestRetryRoundError err =
     (isCredentialRetryRoundStatus (statusCodeFromError err) \<or> isTransientTransportError err)"

definition credentialRetryRoundStateEligible :: "AuthError option \<Rightarrow> bool \<Rightarrow> bool" where
  "credentialRetryRoundStateEligible lastErr quotaExceeded =
     (case lastErr of
        None \<Rightarrow> quotaExceeded
      | Some _ \<Rightarrow> isCredentialRetryRoundStatus (statusCodeFromResult lastErr))"

text \<open>
  The loop over the states of the model: None if one of them rules the credential out, otherwise
  whether one of them blocks.
\<close>

fun retry_states_loop :: "string \<Rightarrow> time \<Rightarrow> (string, ModelState) gomap \<Rightarrow> bool \<Rightarrow> bool option" where
  "retry_states_loop modelKey now [] matchedBlocked = Some matchedBlocked"
| "retry_states_loop modelKey now ((stateModel, state) # states) matchedBlocked =
     (if canonicalModelKey stateModel \<noteq> modelKey then retry_states_loop modelKey now states matchedBlocked
      else if ms_Status state = StatusDisabled then None
      else case availabilityBlock (ms_Unavailable state) (qs_Exceeded (ms_Quota state))
             (ms_NextRetryAfter state) (qs_NextRecoverAt (ms_Quota state)) now of
        (stateBlocked, _, stateNext) \<Rightarrow>
          if \<not> stateBlocked then retry_states_loop modelKey now states matchedBlocked
          else if stateNext = zero_time
               \<or> \<not> credentialRetryRoundStateEligible (ms_LastError state) (qs_Exceeded (ms_Quota state)) then None
          else retry_states_loop modelKey now states True)"

definition retryRoundAvailabilityForAuth :: "Auth \<Rightarrow> string \<Rightarrow> time \<Rightarrow> bool \<times> time" where
  "retryRoundAvailabilityForAuth auth model now =
     (case isAuthBlockedForModel auth model now of
        (blocked, reason, next) \<Rightarrow>
          if \<not> blocked then (True, zero_time)
          else if next = zero_time \<or> reason = blockReasonDisabled then (False, zero_time)
          else if qs_Exceeded (auth_Quota auth) \<and> qs_Reason (auth_Quota auth) = ''credential_quota''
                  \<and> qs_NextRecoverAt (auth_Quota auth) > now
            then (credentialRetryRoundStateEligible (auth_LastError auth) True, next)
          else
            let modelKey = canonicalModelKey model;
                by_credential = (if \<not> credentialRetryRoundStateEligible (auth_LastError auth) (qs_Exceeded (auth_Quota auth))
                  then (False, zero_time) else (True, next))
            in if modelKey \<noteq> [] \<and> auth_ModelStates auth \<noteq> [] then
                 (case retry_states_loop modelKey now (auth_ModelStates auth) False of
                    None \<Rightarrow> (False, zero_time)
                  | Some True \<Rightarrow> (True, next)
                  | Some False \<Rightarrow> by_credential)
               else by_credential)"

section \<open>Which credentials may serve another round\<close>

definition authSupportsRouteModel :: "alias_decoder \<Rightarrow> Manager \<Rightarrow> Auth \<Rightarrow> string \<Rightarrow> bool" where
  "authSupportsRouteModel unmarshal m auth routeModel =
     (let routeKey = canonicalModelKey routeModel
      in if routeKey = [] then True
         else if ClientSupportsModel (mg_registry m) (auth_ID auth) routeKey then True
         else let selectionKey = selection_key unmarshal m auth routeModel
           in selectionKey \<noteq> [] \<and> selectionKey \<noteq> routeKey
              \<and> ClientSupportsModel (mg_registry m) (auth_ID auth) selectionKey)"

definition provider_key_set :: "string list \<Rightarrow> string list" where
  "provider_key_set providers = filter (\<lambda>k. k \<noteq> []) (List.map (\<lambda>p. trim_space (to_lower p)) providers)"

text \<open>A request as the retry decision sees it.\<close>

record retry_request =
  rr_providers :: "string list"
  rr_model :: string
  rr_eligibility :: authSelectionEligibility
  rr_pinnedAuthID :: string

definition check_model :: "alias_decoder \<Rightarrow> Manager \<Rightarrow> Auth \<Rightarrow> string \<Rightarrow> string" where
  "check_model unmarshal m auth model =
     (if trim_space model \<noteq> [] then selectionModelForAuth unmarshal (rt_oauthModelAlias (mg_router m)) auth model
      else model)"

text \<open>The filter that both loops share, up to the retry limit.\<close>

definition retry_candidate :: "alias_decoder \<Rightarrow> Manager \<Rightarrow> retry_request \<Rightarrow> int \<Rightarrow> int \<Rightarrow> Auth \<Rightarrow> bool" where
  "retry_candidate unmarshal m rq attempt defaultRequestRetry auth =
     (if auth_Disabled auth \<or> auth_Status auth = StatusDisabled then False
      else if rr_pinnedAuthID rq \<noteq> [] \<and> auth_ID auth \<noteq> rr_pinnedAuthID rq then False
      else if \<not> allows (rr_eligibility rq) auth then False
      else if executorKeyFromAuth auth \<notin> set (provider_key_set (rr_providers rq)) then False
      else if rr_model rq \<noteq> [] \<and> \<not> authSupportsRouteModel unmarshal m auth (rr_model rq) then False
      else attempt < effectiveRequestRetryLimit auth defaultRequestRetry)"

definition retryAllowed :: "alias_decoder \<Rightarrow> Manager \<Rightarrow> int \<Rightarrow> retry_request \<Rightarrow> int \<Rightarrow> time \<Rightarrow> bool" where
  "retryAllowed unmarshal m attempt rq defaultRequestRetry now =
     (if attempt < 0 \<or> rr_providers rq = [] then False
      else if provider_key_set (rr_providers rq) = [] then False
      else list_ex (\<lambda>auth. retry_candidate unmarshal m rq attempt defaultRequestRetry auth
             \<and> fst (retryRoundAvailabilityForAuth auth (check_model unmarshal m auth (rr_model rq)) now)) (all_auths m))"

text \<open>The wait for one credential: None if it is ready at once.\<close>

definition wait_for :: "Manager \<Rightarrow> int \<Rightarrow> string list \<Rightarrow> Auth \<Rightarrow> time \<Rightarrow> time \<Rightarrow> duration option" where
  "wait_for m status attempted auth next now =
     (if auth_ID auth \<notin> set attempted \<or> cooldownDisabledForAuth m auth \<or> status \<noteq> 429 then
        (if next = zero_time then None else Some (next - now))
      else if next = zero_time then Some minQuotaCooldownFloor
      else Some (if next - now < minQuotaCooldownFloor then minQuotaCooldownFloor else next - now))"

fun closest_wait_loop ::
  "alias_decoder \<Rightarrow> Manager \<Rightarrow> retry_request \<Rightarrow> int \<Rightarrow> int \<Rightarrow> int \<Rightarrow> string list \<Rightarrow> time \<Rightarrow> Auth list
   \<Rightarrow> duration option \<Rightarrow> duration option"
where
  "closest_wait_loop unmarshal m rq attempt defaultRequestRetry status attempted now [] minWait = minWait"
| "closest_wait_loop unmarshal m rq attempt defaultRequestRetry status attempted now (auth # auths) minWait =
     (if \<not> retry_candidate unmarshal m rq attempt defaultRequestRetry auth
      then closest_wait_loop unmarshal m rq attempt defaultRequestRetry status attempted now auths minWait
      else case retryRoundAvailabilityForAuth auth (check_model unmarshal m auth (rr_model rq)) now of
        (retryEligible, next) \<Rightarrow>
          if \<not> retryEligible
          then closest_wait_loop unmarshal m rq attempt defaultRequestRetry status attempted now auths minWait
          else case wait_for m status attempted auth next now of
            None \<Rightarrow> Some 0
          | Some wait \<Rightarrow>
              closest_wait_loop unmarshal m rq attempt defaultRequestRetry status attempted now auths
                (if wait < 0 then minWait
                 else case minWait of
                   None \<Rightarrow> Some wait
                 | Some least \<Rightarrow> if wait < least then Some wait else minWait))"

definition closestCooldownWaitWithAttempted ::
  "alias_decoder \<Rightarrow> Manager \<Rightarrow> retry_request \<Rightarrow> int \<Rightarrow> int \<Rightarrow> int \<Rightarrow> string list \<Rightarrow> time \<Rightarrow> duration option"
where
  "closestCooldownWaitWithAttempted unmarshal m rq attempt defaultRequestRetry status attempted now =
     (if rr_providers rq = [] then None
      else closest_wait_loop unmarshal m rq attempt defaultRequestRetry status attempted now (all_auths m) None)"

section \<open>The decision\<close>

definition within_limit :: "duration \<Rightarrow> duration \<Rightarrow> bool" where
  "within_limit maxWait wait = (\<not> (wait > 0 \<and> (maxWait \<le> 0 \<or> wait > maxWait)))"

text \<open>\<open>shouldRetryAfterErrorWithAttempted\<close>: None for no further round, otherwise the wait before it.\<close>

definition shouldRetryAfterErrorWithAttempted ::
  "alias_decoder \<Rightarrow> json_bodies \<Rightarrow> Manager \<Rightarrow> go_error \<Rightarrow> int \<Rightarrow> retry_request \<Rightarrow> duration \<Rightarrow> int \<Rightarrow> string list
   \<Rightarrow> time \<Rightarrow> time \<Rightarrow> duration option"
where
  "shouldRetryAfterErrorWithAttempted unmarshal jb m err attempt rq maxWait defaultRequestRetry attempted now1 now2 =
     (let status = statusCodeFromError err
      in if status = 200 then None
         else if isRequestInvalidError_any jb err \<or> isRequestStopError err then None
         else if \<not> isRequestRetryRoundError err
                 \<or> \<not> retryAllowed unmarshal m attempt rq defaultRequestRetry now1 then None
         else case closestCooldownWaitWithAttempted unmarshal m rq attempt defaultRequestRetry status attempted now2 of
           Some wait \<Rightarrow> if within_limit maxWait wait then Some wait else None
         | None \<Rightarrow>
             (case retryAfterFromError err of
                Some retryAfter \<Rightarrow>
                  if retryAfter < 0 \<or> \<not> within_limit maxWait retryAfter then None else Some retryAfter
              | None \<Rightarrow> Some 0))"

section \<open>The wait\<close>

definition cooldownWaitJitterCap :: duration where "cooldownWaitJitterCap = 2 * second_ns"

definition jitter_range :: "duration \<Rightarrow> duration \<Rightarrow> duration" where
  "jitter_range wait maxWait =
     (let range1 = go_div wait 4;
          range2 = (if range1 > cooldownWaitJitterCap then cooldownWaitJitterCap else range1)
      in if maxWait > 0 \<and> range2 > maxWait - wait then maxWait - wait else range2)"

text \<open>\<open>draw\<close> is the value of \<open>rand.N\<close>, reduced to its bound.\<close>

definition jitteredCooldownWait :: "duration \<Rightarrow> duration \<Rightarrow> nat \<Rightarrow> duration" where
  "jitteredCooldownWait wait maxWait draw =
     (if wait \<le> 0 then wait
      else if jitter_range wait maxWait \<le> 0 then wait
      else wait + int draw mod jitter_range wait maxWait)"

section \<open>Providers with credentials\<close>

fun normalize_providers_loop :: "string list \<Rightarrow> string list \<Rightarrow> string list" where
  "normalize_providers_loop seen [] = []"
| "normalize_providers_loop seen (provider # providers) =
     (let p = trim_space (to_lower provider)
      in if p = [] \<or> p \<in> set seen then normalize_providers_loop seen providers
         else p # normalize_providers_loop (p # seen) providers)"

definition normalizeProviders :: "string list \<Rightarrow> string list" where
  "normalizeProviders providers = normalize_providers_loop [] providers"

definition enabled_providers :: "Manager \<Rightarrow> string list" where
  "enabled_providers m = List.map (\<lambda>auth. to_lower (trim_space (auth_Provider auth)))
     (filter (\<lambda>auth. \<not> (auth_Disabled auth \<or> auth_Status auth = StatusDisabled)) (all_auths m))"

definition AvailableProviders :: "Manager \<Rightarrow> string list" where
  "AvailableProviders m = sort (remdups (filter (\<lambda>p. p \<noteq> []) (enabled_providers m)))"

definition HasProviderAuth :: "Manager \<Rightarrow> string \<Rightarrow> bool" where
  "HasProviderAuth m provider0 =
     (let provider = to_lower (trim_space provider0) in provider \<noteq> [] \<and> provider \<in> set (enabled_providers m))"

section \<open>Waits\<close>

lemma jitter_range_bounds:
  assumes "0 < wait"
  shows "jitter_range wait maxWait \<le> wait div 4" and "jitter_range wait maxWait \<le> cooldownWaitJitterCap"
    and "0 < maxWait \<Longrightarrow> jitter_range wait maxWait \<le> maxWait - wait"
  using assms by (auto simp: jitter_range_def Let_def)

lemma jitter_bounds:
  assumes "0 < wait"
  shows "wait \<le> jitteredCooldownWait wait maxWait draw"
    and "jitteredCooldownWait wait maxWait draw \<le> wait + wait div 4"
    and "jitteredCooldownWait wait maxWait draw \<le> wait + cooldownWaitJitterCap"
    and "wait \<le> maxWait \<Longrightarrow> jitteredCooldownWait wait maxWait draw \<le> maxWait"
proof -
  let ?r = "jitter_range wait maxWait" and ?j = "jitteredCooldownWait wait maxWait draw"
  have cap: "0 \<le> cooldownWaitJitterCap" by (simp add: cooldownWaitJitterCap_def)
  have j: "?j = wait \<or> (wait \<le> ?j \<and> ?j < wait + ?r)"
    using assms pos_mod_bound [of ?r "int draw"] pos_mod_sign [of ?r "int draw"]
    by (auto simp: jitteredCooldownWait_def)
  show "wait \<le> ?j" "?j \<le> wait + wait div 4" "?j \<le> wait + cooldownWaitJitterCap"
    using j jitter_range_bounds(1,2) [OF assms, of maxWait] cap assms by linarith+
  show "?j \<le> maxWait" if "wait \<le> maxWait"
    using j jitter_range_bounds(3) [OF assms, of maxWait] assms that by linarith
qed

lemma until_future:
  assumes "isAuthBlockedForModel auth model now = (blocked, reason, next)" and "blocked" and "0 \<le> now"
  shows "next = zero_time \<or> now < next"
  using blocked_until_future [of auth model now] assms by (auto simp: block_sel)

lemma eligible_next:
  assumes "retryRoundAvailabilityForAuth auth model now = (True, next)" and "0 \<le> now"
  shows "next = zero_time \<or> now < next"
proof -
  obtain blocked reason until where b: "isAuthBlockedForModel auth model now = (blocked, reason, until)"
    using prod_cases3 by blast
  show ?thesis using assms(1) until_future [OF b _ assms(2)] b
    by (auto simp: retryRoundAvailabilityForAuth_def Let_def split: if_splits option.splits bool.splits)
qed

lemma ready_is_eligible:
  "\<not> is_blocked (isAuthBlockedForModel auth model now) \<Longrightarrow> retryRoundAvailabilityForAuth auth model now = (True, zero_time)"
  by (auto simp: retryRoundAvailabilityForAuth_def block_sel split: prod.splits)

section \<open>The wait is the least one\<close>

text \<open>The credentials another round may use, and what each of them would have it wait.\<close>

definition may_serve :: "alias_decoder \<Rightarrow> Manager \<Rightarrow> retry_request \<Rightarrow> int \<Rightarrow> int \<Rightarrow> time \<Rightarrow> Auth \<Rightarrow> bool" where
  "may_serve unmarshal m rq attempt defaultRequestRetry now auth \<longleftrightarrow>
     retry_candidate unmarshal m rq attempt defaultRequestRetry auth
     \<and> fst (retryRoundAvailabilityForAuth auth (check_model unmarshal m auth (rr_model rq)) now)"

definition own_wait :: "alias_decoder \<Rightarrow> Manager \<Rightarrow> retry_request \<Rightarrow> int \<Rightarrow> string list \<Rightarrow> time \<Rightarrow> Auth \<Rightarrow> duration" where
  "own_wait unmarshal m rq status attempted now auth =
     (case wait_for m status attempted auth
        (snd (retryRoundAvailabilityForAuth auth (check_model unmarshal m auth (rr_model rq)) now)) now of
        None \<Rightarrow> 0 | Some w \<Rightarrow> w)"

lemma floor_pos: "0 < minQuotaCooldownFloor" by (simp add: minQuotaCooldownFloor_def)

lemma own_wait_nonneg:
  assumes "may_serve unmarshal m rq attempt d now auth" and "0 \<le> now"
  shows "0 \<le> own_wait unmarshal m rq status attempted now auth"
proof -
  let ?r = "retryRoundAvailabilityForAuth auth (check_model unmarshal m auth (rr_model rq)) now"
  have "?r = (True, snd ?r)" using assms(1) by (simp add: may_serve_def prod_eq_iff)
  from eligible_next [OF this assms(2)] floor_pos show ?thesis
    by (auto simp: own_wait_def wait_for_def)
qed

definition min_wait :: "duration option \<Rightarrow> duration option \<Rightarrow> duration option" where
  "min_wait a b = (case a of None \<Rightarrow> b | Some x \<Rightarrow> (case b of None \<Rightarrow> a | Some y \<Rightarrow> if y < x then b else a))"

lemma Min_insert_min: "finite T \<Longrightarrow> Min (insert (min a b) T) = Min (insert a (insert b (T :: int set)))"
  by (cases "T = {}") (simp_all add: min.assoc)

lemma closest_loop_exact:
  assumes "0 \<le> now" and "\<forall>w. minWait = Some w \<longrightarrow> 0 \<le> w"
  shows "let S = own_wait unmarshal m rq status attempted now `
          {a \<in> set auths. may_serve unmarshal m rq attempt d now a} \<union> set_option minWait
    in (S = {} \<longrightarrow> closest_wait_loop unmarshal m rq attempt d status attempted now auths minWait = None)
      \<and> (S \<noteq> {} \<longrightarrow> closest_wait_loop unmarshal m rq attempt d status attempted now auths minWait = Some (Min S))"
  using assms(2)
proof (induction auths arbitrary: minWait)
  case Nil
  then show ?case by (cases minWait) auto
next
  case (Cons auth auths)
  let ?w = "own_wait unmarshal m rq status attempted now"
  let ?ok = "may_serve unmarshal m rq attempt d now"
  let ?loop = "closest_wait_loop unmarshal m rq attempt d status attempted now"
  let ?S = "\<lambda>xs y. ?w ` {a \<in> set xs. ?ok a} \<union> set_option y"
  show ?case
  proof (cases "?ok auth")
    case False
    then have l: "?loop (auth # auths) minWait = ?loop auths minWait"
      by (auto simp: may_serve_def split: prod.splits)
    have "{a \<in> set (auth # auths). ?ok a} = {a \<in> set auths. ?ok a}" using False by auto
    with Cons.IH [OF Cons.prems] l show ?thesis by simp
  next
    case True
    have nonneg: "0 \<le> ?w auth" by (rule own_wait_nonneg [OF True assms(1)])
    have S: "?S (auth # auths) minWait = insert (?w auth) (?S auths minWait)" using True by auto
    have fin: "finite (?S auths minWait)" by (cases minWait) auto
    have all: "\<forall>x \<in> ?S auths minWait. 0 \<le> x"
      using own_wait_nonneg [OF _ assms(1)] Cons.prems by (cases minWait) auto
    let ?r = "retryRoundAvailabilityForAuth auth (check_model unmarshal m auth (rr_model rq)) now"
    have cand: "retry_candidate unmarshal m rq attempt d auth" and r: "?r = (True, snd ?r)"
      using True by (simp_all add: may_serve_def prod_eq_iff)
    show ?thesis
    proof (cases "wait_for m status attempted auth (snd ?r) now")
      case None
      then have w: "?w auth = 0" by (simp add: own_wait_def)
      have "?loop (auth # auths) minWait = Some 0" using cand r None by (cases ?r) simp
      moreover have "Min (?S (auth # auths) minWait) = 0"
        unfolding S w by (rule Min_eqI) (use fin all in auto)
      ultimately show ?thesis unfolding Let_def S by simp
    next
      case (Some wait)
      then have w: "?w auth = wait" by (simp add: own_wait_def)
      define nx where "nx = (case minWait of None \<Rightarrow> Some wait
        | Some least \<Rightarrow> if wait < least then Some wait else minWait)"
      have l: "?loop (auth # auths) minWait = ?loop auths nx"
        using cand r Some nonneg w by (cases ?r) (simp add: nx_def)
      have prem: "\<forall>x. nx = Some x \<longrightarrow> 0 \<le> x"
        using Cons.prems nonneg w by (auto simp: nx_def split: option.splits if_splits)
      have ne: "?S auths nx \<noteq> {}" by (auto simp: nx_def split: option.splits)
      let ?T = "?w ` {a \<in> set auths. ?ok a}"
      have T: "?S auths (Some x) = insert x ?T" for x by simp
      have "Min (?S auths nx) = Min (insert wait (?S auths minWait))"
      proof (cases minWait)
        case None
        then show ?thesis by (simp add: nx_def)
      next
        case least: (Some least)
        then have "nx = Some (min wait least)" by (simp add: nx_def min_def)
        then show ?thesis using Min_insert_min [of ?T wait least] by (simp add: least)
      qed
      moreover have "?loop auths nx = Some (Min (?S auths nx))"
        using Cons.IH [OF prem] ne unfolding Let_def by blast
      ultimately show ?thesis unfolding Let_def S w l by simp
    qed
  qed
qed

text \<open>
  The wait before another round is exactly the least one: a round is worth waiting for if some
  credential may serve it, and the wait is the shortest that one of them needs. A credential that is
  ready makes it zero.
\<close>

theorem closest_wait_exact:
  assumes "0 \<le> now" and "rr_providers rq \<noteq> []"
  shows "closestCooldownWaitWithAttempted unmarshal m rq attempt d status attempted now =
    (let waits = own_wait unmarshal m rq status attempted now `
           {a \<in> set (all_auths m). may_serve unmarshal m rq attempt d now a}
     in if waits = {} then None else Some (Min waits))"
  using closest_loop_exact [OF assms(1), of None unmarshal m rq status attempted "all_auths m" attempt d] assms(2)
  by (simp add: closestCooldownWaitWithAttempted_def Let_def)

section \<open>The decision is sound\<close>

lemma retry_some:
  assumes "shouldRetryAfterErrorWithAttempted unmarshal jb m err attempt rq maxWait d attempted now1 now2 = Some wait"
  shows "isRequestRetryRoundError err" and "\<not> isRequestInvalidError_any jb err" and "\<not> isRequestStopError err"
    and "retryAllowed unmarshal m attempt rq d now1" and "within_limit maxWait wait"
    and "wait < 0 \<Longrightarrow> closestCooldownWaitWithAttempted unmarshal m rq attempt d (statusCodeFromError err) attempted now2 = Some wait"
  using assms by (auto simp: shouldRetryAfterErrorWithAttempted_def Let_def within_limit_def split: if_splits option.splits)

lemma closest_attained:
  assumes "closestCooldownWaitWithAttempted unmarshal m rq attempt d status attempted now = Some wait" and "0 \<le> now"
  obtains a where "a \<in> set (all_auths m)" and "may_serve unmarshal m rq attempt d now a"
    and "wait = own_wait unmarshal m rq status attempted now a"
proof -
  let ?waits = "own_wait unmarshal m rq status attempted now `
    {a \<in> set (all_auths m). may_serve unmarshal m rq attempt d now a}"
  have "rr_providers rq \<noteq> []" using assms(1) by (auto simp: closestCooldownWaitWithAttempted_def)
  from closest_loop_exact [OF assms(2), of None unmarshal m rq status attempted "all_auths m" attempt d] assms(1) this
  have w: "wait = Min ?waits" and ne: "?waits \<noteq> {}"
    by (auto simp: closestCooldownWaitWithAttempted_def Let_def split: if_splits)
  from ne have "Min ?waits \<in> ?waits" by (intro Min_in) simp_all
  then have "wait \<in> ?waits" by (simp only: w)
  then show ?thesis using that by blast
qed

lemma closest_nonneg:
  assumes "closestCooldownWaitWithAttempted unmarshal m rq attempt d status attempted now = Some wait" and "0 \<le> now"
  shows "0 \<le> wait"
  using closest_attained [OF assms] own_wait_nonneg [OF _ assms(2)] by metis

text \<open>
  C23: No retry sleeps longer than it may: a round that follows a failed one starts at once, or after a
  wait that, with the random delay added to it, is at most the configured maximum; without a positive
  maximum it never waits.
\<close>

theorem retry_wait_bounded:
  assumes "shouldRetryAfterErrorWithAttempted unmarshal jb m err attempt rq maxWait d attempted now1 now2 = Some wait"
    and "0 \<le> now2"
  shows "0 \<le> jitteredCooldownWait wait maxWait draw \<and> jitteredCooldownWait wait maxWait draw \<le> max 0 maxWait"
proof -
  have nonneg: "0 \<le> wait" using retry_some(6) [OF assms(1)] closest_nonneg [OF _ assms(2)] by fastforce
  show ?thesis
  proof (cases "wait = 0")
    case False
    then have "0 < wait" "wait \<le> maxWait" using nonneg retry_some(5) [OF assms(1)] by (auto simp: within_limit_def)
    then show ?thesis using jitter_bounds(1,4) [of wait maxWait draw] by simp
  qed (simp add: jitteredCooldownWait_def)
qed

text \<open>
  C24: A rate limit is never answered by hammering: if the request was turned away with status 429 and
  every credential that may serve another round has just been tried with its cooldowns enabled, the next
  round waits for at least ten seconds.
\<close>

theorem rate_limited_round_rests:
  assumes "closestCooldownWaitWithAttempted unmarshal m rq attempt d 429 attempted now = Some wait" and "0 \<le> now"
    and "list_all (\<lambda>a. may_serve unmarshal m rq attempt d now a \<longrightarrow>
      auth_ID a \<in> set attempted \<and> \<not> cooldownDisabledForAuth m a) (all_auths m)"
  shows "10 * second_ns \<le> wait"
proof -
  obtain a where a: "a \<in> set (all_auths m)" "may_serve unmarshal m rq attempt d now a"
    "wait = own_wait unmarshal m rq 429 attempted now a"
    using closest_attained [OF assms(1,2)] by blast
  with assms(3) have "auth_ID a \<in> set attempted" "\<not> cooldownDisabledForAuth m a" by (auto simp: list_all_iff)
  with a(3) show ?thesis by (auto simp: own_wait_def wait_for_def minQuotaCooldownFloor_def split: if_splits)
qed

text \<open>A round that is allowed has a credential that takes part in it.\<close>

lemma retry_allowed_credential:
  assumes "retryAllowed unmarshal m attempt rq d now"
  obtains a where "a \<in> set (all_auths m)" and "may_serve unmarshal m rq attempt d now a"
    and "attempt < effectiveRequestRetryLimit a d"
  using assms by (auto simp: retryAllowed_def may_serve_def retry_candidate_def list_ex_iff split: if_splits)

text \<open>
  Another round is only started for a credential that takes part in it: when a retry is allowed after
  a round, some credential that may serve is not among those the next round leaves out.
\<close>

theorem retry_round_not_empty:
  assumes "retryAllowed unmarshal m attempt rq d now" and "distinct (List.map auth_ID (all_auths m))"
  shows "\<exists>a \<in> set (all_auths m). may_serve unmarshal m rq attempt d now a
    \<and> auth_ID a \<notin> set (requestRetryRoundExclusions m (attempt + 1) d)"
proof -
  obtain a where a: "a \<in> set (all_auths m)" "may_serve unmarshal m rq attempt d now a"
    "attempt < effectiveRequestRetryLimit a d" using retry_allowed_credential [OF assms(1)] by blast
  have "b = a" if "b \<in> set (all_auths m)" "auth_ID b = auth_ID a" for b
    using assms(2) a(1) that by (auto simp: distinct_map inj_on_def)
  with a(3) have "auth_ID a \<notin> set (requestRetryRoundExclusions m (attempt + 1) d)"
    by (auto simp: requestRetryRoundExclusions_def image_iff)
  with a(1,2) show ?thesis by blast
qed

text \<open>The number of rounds is bounded by the largest limit.\<close>

definition retry_bound :: "Manager \<Rightarrow> int \<Rightarrow> int" where
  "retry_bound m d = Max (insert 0 (set (List.map (\<lambda>a. effectiveRequestRetryLimit a d) (all_auths m))))"

lemma retry_within_bound:
  assumes "shouldRetryAfterErrorWithAttempted unmarshal jb m err attempt rq maxWait d attempted now1 now2 = Some wait"
  shows "attempt < retry_bound m d"
proof -
  obtain a where "a \<in> set (all_auths m)" "attempt < effectiveRequestRetryLimit a d"
    using retry_allowed_credential [OF retry_some(4) [OF assms]] by blast
  moreover from this(1) have "effectiveRequestRetryLimit a d \<le> retry_bound m d" by (simp add: retry_bound_def)
  ultimately show ?thesis by simp
qed

text \<open>The settings wrap around at 32 bits, after they have been checked not to be negative.\<close>

theorem retry_config_wraps:
  "rt_requestRetry (SetRetryConfig (2 ^ 31) maxRetryInterval maxRetryCredentials) < 0
   \<and> effectiveRequestRetryLimit (new_auth i p) (rt_requestRetry (SetRetryConfig (2 ^ 31) maxRetryInterval maxRetryCredentials)) = 0"
  by (simp add: SetRetryConfig_def to_int32_def effectiveRequestRetryLimit_def RequestRetryOverride_def retry_value_def
      new_auth_def)

section \<open>Examples\<close>

definition rate_limited :: AuthError where
  "rate_limited = \<lparr>er_Code = [], er_Message = ''slow down'', er_Retryable = True, er_HTTPStatus = 429\<rparr>"

text \<open>A credential at its limit for another 20 seconds, with three retries of its own.\<close>

definition resting_auth :: Auth where
  "resting_auth = (new_auth ''a'' ''codex'')\<lparr>auth_Metadata := [(''request_retry'', ASigned 3)], auth_Unavailable := True,
     auth_Quota := no_quota\<lparr>qs_Exceeded := True, qs_NextRecoverAt := 20 * second_ns\<rparr>,
     auth_LastError := Some rate_limited\<rparr>"

definition resting_manager :: Manager where
  "resting_manager = \<lparr>mg_auths = [(''a'', resting_auth)], mg_authEpochs = [], mg_scheduler = newAuthScheduler RoundRobinSelector,
     mg_registry = new_registry, mg_router = router_for no_config [], mg_config = plain_config\<rparr>"

definition any_retry :: retry_request where
  "any_retry = \<lparr>rr_providers = [''codex''], rr_model = [],
     rr_eligibility = \<lparr>el_requiredKind = [], el_credentialPolicy = [], el_disallowFreeAuth = False\<rparr>, rr_pinnedAuthID = []\<rparr>"

theorem closest_wait_exact_witness:
  "closestCooldownWaitWithAttempted (\<lambda>_. None) resting_manager any_retry 0 1 429 [] 0 = Some (20 * second_ns)"
proof -
  have "{a \<in> set (all_auths resting_manager). may_serve (\<lambda>_. None) resting_manager any_retry 0 1 0 a} = {resting_auth}"
  proof -
    have "all_auths resting_manager = [resting_auth]" by (simp add: all_auths_def resting_manager_def)
    moreover have "may_serve (\<lambda>_. None) resting_manager any_retry 0 1 0 resting_auth" by code_simp
    ultimately show ?thesis by auto
  qed
  moreover have "own_wait (\<lambda>_. None) resting_manager any_retry 429 [] 0 resting_auth = 20 * second_ns" by code_simp
  ultimately show ?thesis
    using closest_wait_exact [of 0 any_retry "\<lambda>_. None" resting_manager 0 1 429 "[]"] by (simp add: Let_def any_retry_def)
qed

theorem retry_wait_bounded_witness:
  "jitteredCooldownWait (20 * second_ns) (21 * second_ns) 12345 \<le> 21 * second_ns"
proof -
  have "shouldRetryAfterErrorWithAttempted (\<lambda>_. None) no_bodies resting_manager (value_error rate_limited) 0 any_retry
      (21 * second_ns) 1 [] 0 0 = Some (20 * second_ns)"
    by code_simp
  from retry_wait_bounded [OF this, of 12345] show ?thesis by simp
qed

theorem rate_limited_round_rests_witness:
  "case closestCooldownWaitWithAttempted (\<lambda>_. None) resting_manager any_retry 0 1 429 [''a''] (19 * second_ns) of
     Some wait \<Rightarrow> 10 * second_ns \<le> wait | None \<Rightarrow> False"
proof -
  have c: "closestCooldownWaitWithAttempted (\<lambda>_. None) resting_manager any_retry 0 1 429 [''a''] (19 * second_ns)
      = Some (10 * second_ns)"
    by code_simp
  have "all_auths resting_manager = [resting_auth]" by (simp add: all_auths_def resting_manager_def)
  moreover have "auth_ID resting_auth \<in> set [''a''] \<and> \<not> cooldownDisabledForAuth resting_manager resting_auth" by code_simp
  ultimately have "10 * second_ns \<le> (10 * second_ns :: int)"
    using rate_limited_round_rests [OF c] by simp
  with c show ?thesis by simp
qed

theorem retry_round_not_empty_witness:
  "''a'' \<notin> set (requestRetryRoundExclusions resting_manager 3 0)"
proof -
  have r: "retryAllowed (\<lambda>_. None) resting_manager 2 any_retry 0 0" by code_simp
  have a: "all_auths resting_manager = [resting_auth]" by (simp add: all_auths_def resting_manager_def)
  from retry_round_not_empty [OF r] show ?thesis by (auto simp: a resting_auth_def new_auth_def)
qed

end
