(* ===== verification/Candidates.thy ===== *)
theory Candidates
  imports Retry
begin

text \<open>
  The choice of a credential by the manager (\<open>sdk/cliproxy/auth/conductor_selection.go\<close>,
  \<open>RegisterExecutor\<close> and \<open>UnregisterExecutor\<close> in \<open>conductor_lifecycle.go\<close>): by the scheduler, or, when the
  model of a candidate is routed to another name, by a scan of the credentials and the configured selector.
  Home, plugin schedulers and session affinity are not in use, so the selector is one of the three built-in
  ones. The readings of the clock are the values of \<open>clock\<close> from 0 on. The index of a credential is
  assigned when it is registered and not modelled; an executor is known by its key.
\<close>

section \<open>State\<close>

datatype selector_state =
    RoundRobinState round_robin_state
  | WeightedState weighted_selector_state
  | FillFirstState

fun kind_of :: "selector_state \<Rightarrow> selector_kind" where
  "kind_of (RoundRobinState s) = RoundRobinSelector"
| "kind_of (WeightedState s) = WeightedSelector"
| "kind_of FillFirstState = FillFirstSelector"

record Conductor =
  cd_manager :: Manager
  cd_selector :: selector_state
  cd_executors :: "string list"

definition snapshotAuths :: "Manager \<Rightarrow> Auth list" where
  "snapshotAuths m = all_auths m"

definition syncScheduler :: "Manager \<Rightarrow> time \<Rightarrow> Manager" where
  "syncScheduler m now =
     m\<lparr>mg_scheduler := rebuild (registry_view_of (mg_registry m)) (mg_scheduler m) (snapshotAuths m) now\<rparr>"

text \<open>A selector other than the present one; setting the present one again changes nothing.\<close>

definition SetSelector :: "Conductor \<Rightarrow> selector_state \<Rightarrow> time \<Rightarrow> Conductor" where
  "SetSelector c selector now =
     (let m = cd_manager c;
          m1 = m\<lparr>mg_scheduler := setSelector (mg_scheduler m) (kind_of selector)\<rparr>
      in c\<lparr>cd_selector := selector, cd_manager := syncScheduler m1 now\<rparr>)"

definition GetByID :: "Manager \<Rightarrow> string \<Rightarrow> Auth option" where
  "GetByID m authID = (if authID = [] then None else map_of (mg_auths m) authID)"

section \<open>Executors\<close>

definition RegisterExecutor :: "Conductor \<Rightarrow> string \<Rightarrow> Conductor" where
  "RegisterExecutor c identifier =
     (let provider = trim_space identifier
      in if provider = [] then c
         else if provider \<in> set (cd_executors c) then c
         else c\<lparr>cd_executors := cd_executors c @ [provider]\<rparr>)"

definition UnregisterExecutor :: "Conductor \<Rightarrow> string \<Rightarrow> Conductor" where
  "UnregisterExecutor c provider0 =
     (let provider = to_lower (trim_space provider0)
      in if provider = [] then c else c\<lparr>cd_executors := filter (\<lambda>k. k \<noteq> provider) (cd_executors c)\<rparr>)"

definition Executor :: "Conductor \<Rightarrow> string \<Rightarrow> bool" where
  "Executor c provider0 =
     (let provider = trim_space provider0
      in if provider = [] then False
         else if provider \<in> set (cd_executors c) then True
         else to_lower provider \<noteq> provider \<and> to_lower provider \<in> set (cd_executors c))"

section \<open>Why no credential was chosen\<close>

datatype pick_failure =
    FromScheduler sched_error
  | FromSelector pick_error
  | ExecutorNotFound
  | InvalidAuthKind
  | NoEligibleAuth
  | InvalidCredentialPolicy

definition no_auth_available :: pick_failure where
  "no_auth_available = FromScheduler (SchedNotFound None)"

fun shouldRetrySchedulerPick :: "sched_error \<Rightarrow> bool" where
  "shouldRetrySchedulerPick SchedProviderNotFound = False"
| "shouldRetrySchedulerPick (SchedNotFound cause) = True"
| "shouldRetrySchedulerPick (SchedCooldown model provider resetIn cause) = True"
| "shouldRetrySchedulerPick (SchedTerminal cause) = True"
| "shouldRetrySchedulerPick (SchedUnavailable retryAfter cause) = True"

definition latestUnauthorizedCandidateError :: "Auth list \<Rightarrow> dated_error" where
  "latestUnauthorizedCandidateError auths =
     fold (\<lambda>candidate latest.
         if \<not> hasUnauthorizedAuthFailure candidate then latest
         else later_error latest (map_option (\<lambda>e. (CauseError e, auth_UpdatedAt candidate, auth_ID candidate))
                (auth_LastError candidate))) auths None"

definition latestCandidateErrorForModel :: "Auth list \<Rightarrow> (Auth \<Rightarrow> string) \<Rightarrow> err_cause option" where
  "latestCandidateErrorForModel auths selectionModelFunc =
     (let (modelErr, authErr) = fold (\<lambda>candidate (modelErr, authErr).
              (later_error modelErr (model_error candidate (selectionModelFunc candidate)),
               later_error authErr (auth_error candidate))) auths (None, None)
      in if modelErr \<noteq> None then cause_of modelErr else cause_of authErr)"

text \<open>
  One pass over the candidates, each judged for the model it would be asked for: the available ones by
  priority, the numbers that cool down and that are unauthorized, and the earliest retry.
\<close>

fun route_loop ::
  "(Auth \<Rightarrow> string) \<Rightarrow> time \<Rightarrow> Auth list \<Rightarrow> (int, Auth list) gomap \<Rightarrow> nat \<Rightarrow> nat \<Rightarrow> time
   \<Rightarrow> (int, Auth list) gomap \<times> nat \<times> nat \<times> time"
where
  "route_loop modelOf now [] available cooldowns unauthorized earliest = (available, cooldowns, unauthorized, earliest)"
| "route_loop modelOf now (candidate # auths) available cooldowns unauthorized earliest =
     (case isAuthBlockedForModel candidate (modelOf candidate) now of
        (blocked, reason, next) \<Rightarrow>
          if \<not> blocked then
            let priority = authPriority candidate
            in route_loop modelOf now auths
                 (AList.update priority (get_or [] available priority @ [candidate]) available)
                 cooldowns unauthorized earliest
          else
            route_loop modelOf now auths available
              (if reason = blockReasonCooldown then cooldowns + 1 else cooldowns)
              (if hasUnauthorizedAuthFailure candidate then unauthorized + 1 else unauthorized)
              (if reason \<noteq> blockReasonDisabled \<and> next > now \<and> (earliest = zero_time \<or> next < earliest)
               then next else earliest))"

definition selection_model :: "alias_decoder \<Rightarrow> Manager \<Rightarrow> string \<Rightarrow> Auth \<Rightarrow> string" where
  "selection_model unmarshal m routeModel auth =
     selectionModelForAuth unmarshal (rt_oauthModelAlias (mg_router m)) auth routeModel"

definition availableAuthsForRouteModelWithPriorityMode ::
  "(Auth \<Rightarrow> string) \<Rightarrow> Auth list \<Rightarrow> string \<Rightarrow> string \<Rightarrow> time \<Rightarrow> bool \<Rightarrow> pick_failure + Auth list"
where
  "availableAuthsForRouteModelWithPriorityMode modelOf auths provider routeModel now allPriorities =
     (if auths = [] then Inl (FromSelector AuthNotFound)
      else case route_loop modelOf now auths [] 0 0 zero_time of
        (available, cooldowns, unauthorized, earliest) \<Rightarrow>
          if available = [] then
            let lastCandidateErr = latestCandidateErrorForModel auths modelOf
            in if cooldowns = length auths \<and> earliest \<noteq> zero_time then
                 let resetIn = earliest - now
                 in Inl (FromScheduler (SchedCooldown routeModel (if provider = ''mixed'' then [] else provider)
                      (if resetIn < 0 then 0 else resetIn) lastCandidateErr))
               else if unauthorized = length auths then
                 let terminalCause = cause_of (latestUnauthorizedCandidateError auths)
                 in Inl (FromScheduler (SchedTerminal (if terminalCause = None then lastCandidateErr else terminalCause)))
               else Inl (FromScheduler (SchedUnavailable (if earliest > now then Some (earliest - now) else None)
                      lastCandidateErr))
          else Inr (availableAuthsFromPriorityBuckets available allPriorities))"

definition availableAuthsForRouteModel ::
  "(Auth \<Rightarrow> string) \<Rightarrow> Auth list \<Rightarrow> string \<Rightarrow> string \<Rightarrow> time \<Rightarrow> pick_failure + Auth list"
where
  "availableAuthsForRouteModel modelOf auths provider routeModel now =
     availableAuthsForRouteModelWithPriorityMode modelOf auths provider routeModel now False"

section \<open>The selector's choice\<close>

definition Selector_Pick ::
  "selector_state \<Rightarrow> pick_context \<Rightarrow> string \<Rightarrow> string \<Rightarrow> time \<Rightarrow> Auth list \<Rightarrow> selector_state \<times> (pick_error + Auth)"
where
  "Selector_Pick selector ctx provider model now auths =
     (case selector of
        RoundRobinState s \<Rightarrow> map_prod RoundRobinState (\<lambda>r. r) (RoundRobin_Pick s ctx provider model now auths)
      | WeightedState s \<Rightarrow> map_prod WeightedState (\<lambda>r. r) (WeightedRoundRobin_Pick s ctx provider model now auths)
      | FillFirstState \<Rightarrow> (FillFirstState, FillFirst_Pick ctx provider model now auths))"

text \<open>The context of a built-in selector: the candidates are available already, and its model argument is empty.\<close>

definition selectorContextForAvailableAuths :: "selector_state \<Rightarrow> bool \<Rightarrow> string \<Rightarrow> pick_context" where
  "selectorContextForAvailableAuths selector downstreamWebsocket routeModel =
     \<lparr>cx_prevalidated = True, cx_downstreamWebsocket = downstreamWebsocket,
      cx_routeModel = (if kind_of selector = WeightedSelector \<and> trim_space routeModel \<noteq> [] then routeModel else [])\<rparr>"

fun restoreModelCooldownErrorModel :: "pick_error \<Rightarrow> string \<Rightarrow> pick_error" where
  "restoreModelCooldownErrorModel (ModelCooldown model provider resetIn) requestedModel =
     (if requestedModel = [] \<or> model \<noteq> [] then ModelCooldown model provider resetIn
      else newModelCooldownError requestedModel provider resetIn)"
| "restoreModelCooldownErrorModel err requestedModel = err"

definition select_from ::
  "alias_decoder \<Rightarrow> Conductor \<Rightarrow> Auth list \<Rightarrow> string \<Rightarrow> string \<Rightarrow> bool \<Rightarrow> (nat \<Rightarrow> time) \<Rightarrow> Conductor \<times> (pick_failure + Auth)"
where
  "select_from unmarshal c candidates provider model downstreamWebsocket clock =
     (if candidates = [] then (c, Inl no_auth_available)
      else case availableAuthsForRouteModel (selection_model unmarshal (cd_manager c) model) candidates provider model (clock 0) of
        Inl err \<Rightarrow> (c, Inl err)
      | Inr selectorAuths \<Rightarrow>
          (case Selector_Pick (cd_selector c)
                  (selectorContextForAvailableAuths (cd_selector c) downstreamWebsocket model)
                  provider [] (clock 1) selectorAuths of
             (selector, Inl err) \<Rightarrow>
               (c\<lparr>cd_selector := selector\<rparr>, Inl (FromSelector (restoreModelCooldownErrorModel err model)))
           | (selector, Inr selected) \<Rightarrow> (c\<lparr>cd_selector := selector\<rparr>, Inr selected)))"

section \<open>The scan of the credentials\<close>

definition match_key :: "string \<Rightarrow> string" where
  "match_key model =
     (let modelKey = trim_space model
      in if modelKey = [] then []
         else let parsed = ParseSuffix modelKey
           in if sr_ModelName parsed \<noteq> [] then trim_space (sr_ModelName parsed) else modelKey)"

definition mixed_candidate :: "alias_decoder \<Rightarrow> Conductor \<Rightarrow> string list \<Rightarrow> string \<Rightarrow> pick_request \<Rightarrow> Auth \<Rightarrow> bool" where
  "mixed_candidate unmarshal c providerSet model rq candidate =
     (if auth_Disabled candidate then False
      else if rq_pinnedAuthID rq \<noteq> [] \<and> auth_ID candidate \<noteq> rq_pinnedAuthID rq then False
      else if \<not> allows (rq_eligibility rq) candidate then False
      else let providerKey = executorKeyFromAuth candidate
        in if providerKey = [] then False
           else if providerKey \<notin> set providerSet then False
           else if auth_ID candidate \<in> set (rq_tried rq) then False
           else if providerKey \<notin> set (cd_executors c) then False
           else \<not> (match_key model \<noteq> [] \<and> \<not> authSupportsRouteModel unmarshal (cd_manager c) candidate model))"

definition pickNextMixedLegacy ::
  "alias_decoder \<Rightarrow> Conductor \<Rightarrow> string list \<Rightarrow> string \<Rightarrow> pick_request \<Rightarrow> (nat \<Rightarrow> time)
   \<Rightarrow> Conductor \<times> (pick_failure + Auth \<times> string)"
where
  "pickNextMixedLegacy unmarshal c providers model rq clock =
     (let providerSet = provider_key_set providers
      in if providerSet = [] then (c, Inl (FromScheduler SchedProviderNotFound))
         else case select_from unmarshal c
                     (filter (mixed_candidate unmarshal c providerSet model rq) (all_auths (cd_manager c)))
                     ''mixed'' model (rq_downstreamWebsocket rq) clock of
           (c1, Inl err) \<Rightarrow> (c1, Inl err)
         | (c1, Inr selected) \<Rightarrow>
             let providerKey = executorKeyFromAuth selected
             in (c1, if Executor c1 providerKey then Inr (selected, providerKey) else Inl ExecutorNotFound))"

definition single_candidate :: "alias_decoder \<Rightarrow> Conductor \<Rightarrow> string \<Rightarrow> string \<Rightarrow> pick_request \<Rightarrow> Auth \<Rightarrow> bool" where
  "single_candidate unmarshal c provider model rq candidate =
     (if executorKeyFromAuth candidate \<noteq> provider \<or> auth_Disabled candidate then False
      else if rq_pinnedAuthID rq \<noteq> [] \<and> auth_ID candidate \<noteq> rq_pinnedAuthID rq then False
      else if \<not> allows (rq_eligibility rq) candidate then False
      else if auth_ID candidate \<in> set (rq_tried rq) then False
      else \<not> (match_key model \<noteq> [] \<and> \<not> authSupportsRouteModel unmarshal (cd_manager c) candidate model))"

definition pickNextLegacy ::
  "alias_decoder \<Rightarrow> Conductor \<Rightarrow> string \<Rightarrow> string \<Rightarrow> pick_request \<Rightarrow> (nat \<Rightarrow> time) \<Rightarrow> Conductor \<times> (pick_failure + Auth)"
where
  "pickNextLegacy unmarshal c provider model rq clock =
     (if provider \<notin> set (cd_executors c) then (c, Inl ExecutorNotFound)
      else select_from unmarshal c
             (filter (single_candidate unmarshal c provider model rq) (all_auths (cd_manager c)))
             provider model (rq_downstreamWebsocket rq) clock)"

section \<open>The choice\<close>

definition routeAwareSelectionRequired :: "alias_decoder \<Rightarrow> Manager \<Rightarrow> Auth \<Rightarrow> string \<Rightarrow> bool" where
  "routeAwareSelectionRequired unmarshal m auth routeModel =
     (trim_space routeModel \<noteq> [] \<and> selection_key unmarshal m auth routeModel \<noteq> canonicalModelKey routeModel)"

text \<open>A candidate whose model is routed: then the scheduler, which knows model names only, cannot choose.\<close>

definition needs_scan :: "alias_decoder \<Rightarrow> Manager \<Rightarrow> string list \<Rightarrow> string \<Rightarrow> pick_request \<Rightarrow> bool" where
  "needs_scan unmarshal m providerKeys model rq =
     (trim_space model \<noteq> [] \<and> list_ex (\<lambda>candidate.
        \<not> auth_Disabled candidate \<and> executorKeyFromAuth candidate \<in> set providerKeys
        \<and> allows (rq_eligibility rq) candidate \<and> auth_ID candidate \<notin> set (rq_tried rq)
        \<and> routeAwareSelectionRequired unmarshal m candidate model) (all_auths m))"

text \<open>A pick by the scheduler; if it finds nothing, another one after the scheduler has been rebuilt.\<close>

definition with_rebuild ::
  "(authScheduler \<Rightarrow> (nat \<Rightarrow> time) \<Rightarrow> authScheduler \<times> (sched_error + 'a)) \<Rightarrow> Manager \<Rightarrow> string \<Rightarrow> (nat \<Rightarrow> time)
   \<Rightarrow> Manager \<times> (sched_error + 'a)"
where
  "with_rebuild pick m model clock =
     (case pick (mg_scheduler m) clock of
        (s1, Inr picked) \<Rightarrow> (m\<lparr>mg_scheduler := s1\<rparr>, Inr picked)
      | (s1, Inl err) \<Rightarrow>
          if model \<noteq> [] \<and> shouldRetrySchedulerPick err then
            let m1 = syncScheduler (m\<lparr>mg_scheduler := s1\<rparr>) (clock 3)
            in (case pick (mg_scheduler m1) (\<lambda>n. clock (n + 4)) of (s2, r) \<Rightarrow> (m1\<lparr>mg_scheduler := s2\<rparr>, r))
          else (m\<lparr>mg_scheduler := s1\<rparr>, Inl err))"

fun eligible_loop :: "Conductor \<Rightarrow> string list \<Rightarrow> string list \<Rightarrow> string list" where
  "eligible_loop c [] seen = []"
| "eligible_loop c (provider # ps) seen =
     (let providerKey = trim_space (to_lower provider)
      in if providerKey = [] \<or> providerKey \<in> set seen \<or> \<not> Executor c providerKey then eligible_loop c ps seen
         else providerKey # eligible_loop c ps (providerKey # seen))"

definition pickNextMixed ::
  "alias_decoder \<Rightarrow> Conductor \<Rightarrow> string list \<Rightarrow> string \<Rightarrow> pick_request \<Rightarrow> (nat \<Rightarrow> time)
   \<Rightarrow> Conductor \<times> (pick_failure + Auth \<times> string)"
where
  "pickNextMixed unmarshal c providers model rq clock =
     (let eligibleProviders = eligible_loop c providers []
      in if eligibleProviders = [] then (c, Inl no_auth_available)
         else if needs_scan unmarshal (cd_manager c) eligibleProviders model rq
         then pickNextMixedLegacy unmarshal c providers model rq clock
         else case with_rebuild
                (\<lambda>s clk. pickMixedWithStrategy s eligibleProviders model rq None (clk 0) (clk 1) (clk 2))
                (cd_manager c) model clock of
           (m, Inl err) \<Rightarrow> (c\<lparr>cd_manager := m\<rparr>, Inl (FromScheduler err))
         | (m, Inr (selected, providerKey)) \<Rightarrow>
             (c\<lparr>cd_manager := m\<rparr>,
              if Executor c providerKey then Inr (selected, providerKey) else Inl ExecutorNotFound))"

definition pickNext ::
  "alias_decoder \<Rightarrow> Conductor \<Rightarrow> string \<Rightarrow> string \<Rightarrow> pick_request \<Rightarrow> (nat \<Rightarrow> time) \<Rightarrow> Conductor \<times> (pick_failure + Auth)"
where
  "pickNext unmarshal c provider model rq clock =
     (if needs_scan unmarshal (cd_manager c) [provider] model rq
      then pickNextLegacy unmarshal c provider model rq clock
      else if \<not> Executor c provider then (c, Inl ExecutorNotFound)
      else case with_rebuild
             (\<lambda>s clk. pickSingleWithStrategy s provider model rq None (clk 0) (clk 1) (clk 2))
             (cd_manager c) model clock of
        (m, Inl err) \<Rightarrow> (c\<lparr>cd_manager := m\<rparr>, Inl (FromScheduler err))
      | (m, Inr selected) \<Rightarrow> (c\<lparr>cd_manager := m\<rparr>, Inr selected))"

section \<open>Selection without execution\<close>

definition SelectAuth ::
  "alias_decoder \<Rightarrow> Conductor \<Rightarrow> string \<Rightarrow> string \<Rightarrow> pick_request \<Rightarrow> (nat \<Rightarrow> time) \<Rightarrow> Conductor \<times> (pick_failure + Auth)"
where
  "SelectAuth unmarshal c provider model rq clock =
     pickNextLegacy unmarshal c provider model (rq\<lparr>rq_tried := []\<rparr>) clock"

definition SelectAuthByKind ::
  "alias_decoder \<Rightarrow> Conductor \<Rightarrow> string \<Rightarrow> string \<Rightarrow> string \<Rightarrow> pick_request \<Rightarrow> (nat \<Rightarrow> time)
   \<Rightarrow> Conductor \<times> (pick_failure + Auth)"
where
  "SelectAuthByKind unmarshal c provider model requiredKind0 rq clock =
     (let requiredKind = normalizeAuthKind requiredKind0
      in if requiredKind = [] then (c, Inl InvalidAuthKind)
         else pickNextLegacy unmarshal c provider model
           (rq\<lparr>rq_tried := [], rq_eligibility := (rq_eligibility rq)\<lparr>el_requiredKind := requiredKind\<rparr>\<rparr>) clock)"

definition normalizeCredentialPolicy :: "string \<Rightarrow> string" where
  "normalizeCredentialPolicy policy =
     (if to_lower (trim_space policy) = ''codex_alpha_search_v1'' then ''codex_alpha_search_v1'' else [])"

definition SelectAuthWithCredentialPolicy ::
  "alias_decoder \<Rightarrow> Conductor \<Rightarrow> string \<Rightarrow> string \<Rightarrow> string \<Rightarrow> pick_request \<Rightarrow> (nat \<Rightarrow> time)
   \<Rightarrow> Conductor \<times> (pick_failure + Auth)"
where
  "SelectAuthWithCredentialPolicy unmarshal c provider model policy0 rq clock =
     (let policy = normalizeCredentialPolicy policy0
      in if policy = [] then (c, Inl InvalidCredentialPolicy)
         else case pickNextLegacy unmarshal c provider model
                (rq\<lparr>rq_tried := [], rq_eligibility := (rq_eligibility rq)\<lparr>el_credentialPolicy := policy\<rparr>\<rparr>) clock of
           (c1, Inr selected) \<Rightarrow>
             (c1, if credentialPolicyAllows policy selected then Inr selected else Inl NoEligibleAuth)
         | (c1, Inl err) \<Rightarrow> (c1, Inl err))"


section \<open>What a scan finds\<close>

definition route_ready :: "(Auth \<Rightarrow> string) \<Rightarrow> time \<Rightarrow> Auth list \<Rightarrow> Auth list" where
  "route_ready modelOf now auths = filter (\<lambda>a. \<not> is_blocked (isAuthBlockedForModel a (modelOf a) now)) auths"

lemma route_loop_spec:
  assumes "buckets_of available done"
    and "route_loop modelOf now auths available c u e = (available', c', u', e')"
  shows "buckets_of available' (done @ route_ready modelOf now auths)"
  using assms
proof (induction auths arbitrary: available "done" c u e)
  case Nil
  then show ?case by (simp add: route_ready_def)
next
  case (Cons a auths)
  obtain b r n where blk: "isAuthBlockedForModel a (modelOf a) now = (b, r, n)" by (metis prod_cases3)
  show ?case
  proof (cases b)
    case False
    with Cons.prems blk
    have "route_loop modelOf now auths
        (AList.update (authPriority a) (get_or [] available (authPriority a) @ [a]) available) c u e
        = (available', c', u', e')" by (simp add: Let_def)
    from Cons.IH [OF buckets_of_snoc [OF Cons.prems(1)] this] False blk show ?thesis
      by (simp add: route_ready_def)
  next
    case True
    with Cons.prems(2) blk obtain c2 u2 e2 where
      "route_loop modelOf now auths available c2 u2 e2 = (available', c', u', e')" by auto
    from Cons.IH [OF Cons.prems(1) this] True blk show ?thesis by (simp add: route_ready_def)
  qed
qed

lemma available_exact:
  assumes "auths \<noteq> []"
  shows "route_ready modelOf now auths = [] \<Longrightarrow>
      \<exists>err. availableAuthsForRouteModel modelOf auths provider model now = Inl err"
    and "route_ready modelOf now auths \<noteq> [] \<Longrightarrow>
      availableAuthsForRouteModel modelOf auths provider model now =
        Inr (sort_key auth_ID (top_tier (route_ready modelOf now auths)))"
proof -
  obtain m c u e where l: "route_loop modelOf now auths [] 0 0 zero_time = (m, c, u, e)" by (metis prod_cases4)
  have "buckets_of [] []" by (simp add: buckets_of_def)
  from route_loop_spec [OF this l] have b: "buckets_of m (route_ready modelOf now auths)" by simp
  note d = availableAuthsForRouteModel_def availableAuthsForRouteModelWithPriorityMode_def
  show "\<exists>err. availableAuthsForRouteModel modelOf auths provider model now = Inl err"
    if "route_ready modelOf now auths = []"
    using that buckets_empty [OF b] assms l by (simp add: d Let_def)
  show "availableAuthsForRouteModel modelOf auths provider model now =
      Inr (sort_key auth_ID (top_tier (route_ready modelOf now auths)))" if "route_ready modelOf now auths \<noteq> []"
    using that buckets_empty [OF b] available_top [OF b] assms l by (simp add: d)
qed

lemma top_tier_in: "a \<in> set (top_tier as) \<Longrightarrow> a \<in> set as \<and> (\<forall>b \<in> set as. authPriority b \<le> authPriority a)"
  by (auto simp: top_tier_def)

lemma Selector_Pick_mem:
  assumes "Selector_Pick selector ctx provider model now auths = (selector', Inr a)" and "cx_prevalidated ctx" and "0 \<le> now"
  shows "a \<in> set auths"
proof (cases selector)
  case (RoundRobinState s)
  then have "snd (RoundRobin_Pick s ctx provider model now auths) = Inr a"
    using assms(1) by (cases "RoundRobin_Pick s ctx provider model now auths") (simp add: Selector_Pick_def)
  with selectors_pick_available [OF assms(3), of s ctx provider model auths a] assms(2) top_tier_in [of a auths]
  show ?thesis by (simp add: selectable_def)
next
  case FillFirstState
  then have "FillFirst_Pick ctx provider model now auths = Inr a" using assms(1) by (simp add: Selector_Pick_def)
  with selectors_pick_available [OF assms(3), of _ ctx provider model auths a] assms(2) top_tier_in [of a auths]
  show ?thesis by (simp add: selectable_def)
next
  case (WeightedState s)
  then have "snd (WeightedRoundRobin_Pick s ctx provider model now auths) = Inr a"
    using assms(1) by (cases "WeightedRoundRobin_Pick s ctx provider model now auths") (simp add: Selector_Pick_def)
  then obtain xs cur cur' where x: "getSelectorAvailableAuthsWithPriorityMode ctx (positiveWeightAuths auths) provider
        model now False = Inr xs"
    and p: "pickSmoothWeightedAuth (preferCodexWebsocketAuths ctx provider xs) cur = (cur', Some a)"
    by (auto simp: WeightedRoundRobin_Pick_def Let_def split: sum.splits prod.splits option.splits)
  have "a \<in> set xs" using smooth_pick_mem [OF p [unfolded pickSmoothWeightedAuth_def]] selector_available(1) [OF x assms(3)]
      prefer_subset [of xs ctx provider] by (auto simp: admitted_def)
  with selector_available(1) [OF x assms(3)] assms(2)
  show ?thesis by (auto simp: selectable_def positiveWeightAuths_def top_tier_def)
qed

text \<open>What is selected is a candidate, available for the model it is asked for, and of the highest such priority.\<close>

lemma select_from_sound:
  assumes "select_from unmarshal c cands provider model ws clock = (c', Inr a)" and "0 \<le> clock 1"
  shows "a \<in> set cands \<and> \<not> is_blocked (isAuthBlockedForModel a (selection_model unmarshal (cd_manager c) model a) (clock 0))
    \<and> (\<forall>b \<in> set cands. \<not> is_blocked (isAuthBlockedForModel b (selection_model unmarshal (cd_manager c) model b) (clock 0)) \<longrightarrow>
        authPriority b \<le> authPriority a)"
    and "cd_manager c' = cd_manager c \<and> cd_executors c' = cd_executors c"
proof -
  let ?of = "selection_model unmarshal (cd_manager c) model"
  let ?ready = "route_ready ?of (clock 0) cands"
  have ne: "cands \<noteq> []" using assms(1) by (auto simp: select_from_def)
  then obtain auths where av: "availableAuthsForRouteModel ?of cands provider model (clock 0) = Inr auths"
    using assms(1) by (auto simp: select_from_def split: sum.splits)
  then have r: "?ready \<noteq> []" using available_exact(1) [OF ne, of ?of "clock 0" provider model] by auto
  with av available_exact(2) [OF ne] have auths: "set auths = set (top_tier ?ready)" by (metis Inr_inject set_sort)
  obtain sel where "Selector_Pick (cd_selector c) (selectorContextForAvailableAuths (cd_selector c) ws model) provider []
      (clock 1) auths = (sel, Inr a)"
    using assms(1) ne av by (auto simp: select_from_def split: sum.splits prod.splits)
  from Selector_Pick_mem [OF this _ assms(2)] auths
  have "a \<in> set (top_tier ?ready)" by (simp add: selectorContextForAvailableAuths_def)
  from top_tier_in [OF this]
  show "a \<in> set cands \<and> \<not> is_blocked (isAuthBlockedForModel a (?of a) (clock 0))
    \<and> (\<forall>b \<in> set cands. \<not> is_blocked (isAuthBlockedForModel b (?of b) (clock 0)) \<longrightarrow> authPriority b \<le> authPriority a)"
    by (auto simp: route_ready_def)
  show "cd_manager c' = cd_manager c \<and> cd_executors c' = cd_executors c"
    using assms(1) ne av by (auto simp: select_from_def split: sum.splits prod.splits)
qed

lemma select_from_frame:
  "select_from unmarshal c cands provider model ws clock = (c', r) \<Longrightarrow>
   cd_manager c' = cd_manager c \<and> cd_executors c' = cd_executors c"
  by (auto simp: select_from_def split: sum.splits prod.splits if_splits)

text \<open>
  C11: A scan across providers returns a credential that the manager holds and that is enabled, admitted
  by the request, not tried before, of a requested provider with an executor, and not blocked for the model the
  request is routed to on this credential; no other such credential has a higher priority.
\<close>

theorem scan_pick_sound:
  assumes "pickNextMixedLegacy unmarshal c providers model rq clock = (c', Inr (a, pk))" and "0 \<le> clock 1"
  shows "a \<in> set (all_auths (cd_manager c)) \<and> mixed_candidate unmarshal c (provider_key_set providers) model rq a
    \<and> \<not> is_blocked (isAuthBlockedForModel a (selection_model unmarshal (cd_manager c) model a) (clock 0))
    \<and> (\<forall>b \<in> set (all_auths (cd_manager c)). mixed_candidate unmarshal c (provider_key_set providers) model rq b \<longrightarrow>
        \<not> is_blocked (isAuthBlockedForModel b (selection_model unmarshal (cd_manager c) model b) (clock 0)) \<longrightarrow>
        authPriority b \<le> authPriority a)
    \<and> pk = executorKeyFromAuth a \<and> cd_manager c' = cd_manager c"
proof -
  obtain c1 where s: "select_from unmarshal c
      (filter (mixed_candidate unmarshal c (provider_key_set providers) model rq) (all_auths (cd_manager c)))
      ''mixed'' model (rq_downstreamWebsocket rq) clock = (c1, Inr a)" and c': "c' = c1" "pk = executorKeyFromAuth a"
    using assms(1) by (auto simp: pickNextMixedLegacy_def Let_def split: if_splits sum.splits prod.splits)
  from select_from_sound [OF s assms(2)] c' show ?thesis by auto
qed

lemma scan_all_blocked:
  assumes "select_from unmarshal c cands provider model ws clock = (c', r)" and "cands \<noteq> []"
    and "\<forall>a \<in> set cands. is_blocked (isAuthBlockedForModel a (selection_model unmarshal (cd_manager c) model a) (clock 0))"
  shows "\<exists>err. r = Inl err"
proof -
  have "route_ready (selection_model unmarshal (cd_manager c) model) (clock 0) cands = []"
    using assms(3) by (simp add: route_ready_def filter_empty_conv)
  from available_exact(1) [OF assms(2) this] obtain err
    where "availableAuthsForRouteModel (selection_model unmarshal (cd_manager c) model) cands provider model (clock 0) = Inl err"
    by blast
  with assms(1,2) show ?thesis by (auto simp: select_from_def)
qed

lemma select_finds:
  assumes "a \<in> set cands" and "\<not> is_blocked (isAuthBlockedForModel a (selection_model unmarshal (cd_manager c) model a) (clock 0))"
    and "kind_of (cd_selector c) \<noteq> WeightedSelector" and "0 \<le> clock 1"
  shows "\<exists>c' b. select_from unmarshal c cands provider model ws clock = (c', Inr b)"
proof -
  let ?of = "selection_model unmarshal (cd_manager c) model"
  let ?ctx = "selectorContextForAvailableAuths (cd_selector c) ws model"
  have ne: "cands \<noteq> []" and r: "route_ready ?of (clock 0) cands \<noteq> []"
    using assms(1,2) by (auto simp: route_ready_def filter_empty_conv)
  define xs where "xs = sort_key auth_ID (top_tier (route_ready ?of (clock 0) cands))"
  have av: "availableAuthsForRouteModel ?of cands provider model (clock 0) = Inr xs"
    unfolding xs_def by (rule available_exact(2) [OF ne r])
  have "Max (authPriority ` set (route_ready ?of (clock 0) cands)) \<in> authPriority ` set (route_ready ?of (clock 0) cands)"
    using r by simp
  then have "set xs \<noteq> {}" by (auto simp: xs_def top_tier_def)
  then have "xs \<noteq> []" by simp
  then have "getSelectorAvailableAuthsWithPriorityMode ?ctx xs provider [] (clock 1) False = Inr (highestPriorityAuths xs)"
    by (simp add: getSelectorAvailableAuthsWithPriorityMode_def selectorContextForAvailableAuths_def)
  then have "\<exists>sel b. Selector_Pick (cd_selector c) ?ctx provider [] (clock 1) xs = (sel, Inr b)"
    using assms(3) by (cases "cd_selector c") (auto simp: Selector_Pick_def RoundRobin_Pick_def FillFirst_Pick_def Let_def)
  then show ?thesis using ne av by (auto simp: select_from_def)
qed

text \<open>
  C34: A scan fails only for want of a credential: if some candidate is not blocked and the selector is
  not the weighted one, a credential is found.
\<close>

theorem scan_finds:
  assumes "a \<in> set (all_auths (cd_manager c))" and "mixed_candidate unmarshal c (provider_key_set providers) model rq a"
    and "\<not> is_blocked (isAuthBlockedForModel a (selection_model unmarshal (cd_manager c) model a) (clock 0))"
    and "kind_of (cd_selector c) \<noteq> WeightedSelector" and "0 \<le> clock 1" and "\<forall>k \<in> set (cd_executors c). trim_space k = k"
  shows "\<exists>c' b pk. pickNextMixedLegacy unmarshal c providers model rq clock = (c', Inr (b, pk))"
proof -
  let ?cands = "filter (mixed_candidate unmarshal c (provider_key_set providers) model rq) (all_auths (cd_manager c))"
  have "a \<in> set ?cands" using assms(1,2) by simp
  then obtain c1 b where s: "select_from unmarshal c ?cands ''mixed'' model (rq_downstreamWebsocket rq) clock = (c1, Inr b)"
    using select_finds [OF _ assms(3-5)] by blast
  have "mixed_candidate unmarshal c (provider_key_set providers) model rq b"
    using select_from_sound(1) [OF s assms(5)] by simp
  then have "Executor c1 (executorKeyFromAuth b)"
    using select_from_sound(2) [OF s assms(5)] assms(6) by (auto simp: mixed_candidate_def Executor_def Let_def split: if_splits)
  moreover have "provider_key_set providers \<noteq> []" using assms(2) by (auto simp: mixed_candidate_def Let_def split: if_splits)
  ultimately show ?thesis using s by (auto simp: pickNextMixedLegacy_def Let_def)
qed

text \<open>
  C36: Weights hide credentials from a scan: it keeps the highest priority that has a credential
  available and only then drops those whose weight is not positive, so if all of this priority have
  such weights the weighted selector finds no candidate, whatever lower priorities could serve. The scheduler,
  which drops them first, picks one of those, and the documentation says that such weights exclude the
  credential.
\<close>

theorem zero_weights_hide_lower_priorities:
  assumes "cd_selector c = WeightedState s" and "provider_key_set providers \<noteq> []"
    and "cands = filter (mixed_candidate unmarshal c (provider_key_set providers) model rq) (all_auths (cd_manager c))"
    and "ready = route_ready (selection_model unmarshal (cd_manager c) model) (clock 0) cands" and "ready \<noteq> []"
    and "\<forall>a \<in> set (top_tier ready). authWeight a \<le> 0"
  shows "snd (pickNextMixedLegacy unmarshal c providers model rq clock) = Inl (FromSelector AuthNotFound)"
proof -
  have ne: "cands \<noteq> []" using assms(4,5) by (auto simp: route_ready_def)
  have "availableAuthsForRouteModel (selection_model unmarshal (cd_manager c) model) cands ''mixed'' model (clock 0)
      = Inr (sort_key auth_ID (top_tier ready))"
    using available_exact(2) [OF ne] assms(4,5) by simp
  moreover have "positiveWeightAuths (sort_key auth_ID (top_tier ready)) = []"
    using assms(6) by (auto simp: positiveWeightAuths_def filter_empty_conv)
  ultimately show ?thesis using ne assms(1,2)
    by (simp add: pickNextMixedLegacy_def assms(3) [symmetric] select_from_def Selector_Pick_def WeightedRoundRobin_Pick_def
        getSelectorAvailableAuthsWithPriorityMode_def getAvailableAuthsWithPriorityMode_def)
qed

text \<open>An executor whose identifier has upper-case letters stays registered: it is stored as it is and removed in lower case.\<close>

theorem executor_stays_registered:
  assumes "to_lower (trim_space identifier) \<noteq> trim_space identifier" and "trim_space identifier \<noteq> []"
    and "to_lower (to_lower x) = to_lower x" and "x = trim_space other"
  shows "trim_space identifier \<in> set (cd_executors (UnregisterExecutor (RegisterExecutor c identifier) other))"
  using assms by (auto simp: UnregisterExecutor_def RegisterExecutor_def Let_def)

section \<open>Examples\<close>

definition tier :: "string \<Rightarrow> string \<Rightarrow> string \<Rightarrow> Auth" where
  "tier i priority weight = (new_auth i ''codex'')\<lparr>auth_Attributes := [(''priority'', priority), (''weight'', weight)]\<rparr>"

definition two_tiers :: "selector_state \<Rightarrow> Conductor" where
  "two_tiers selector = \<lparr>cd_manager = resting_manager\<lparr>mg_auths := [(''a'', tier ''a'' ''1'' ''0''),
       (''b'', tier ''b'' ''0'' ''1'')], mg_scheduler := newAuthScheduler (kind_of selector)\<rparr>,
     cd_selector = selector, cd_executors = [''codex'']\<rparr>"

definition no_rotation :: selector_state where
  "no_rotation = WeightedState \<lparr>wr_states = [], wr_maxKeys = 0\<rparr>"

definition two_tiers_synced :: Conductor where
  "two_tiers_synced = (two_tiers no_rotation)\<lparr>cd_manager := syncScheduler (cd_manager (two_tiers no_rotation)) 5\<rparr>"

lemma two_tiers_auths: "all_auths (cd_manager (two_tiers selector)) = [tier ''a'' ''1'' ''0'', tier ''b'' ''0'' ''1'']"
  by (simp add: two_tiers_def all_auths_def)

theorem scan_pick_sound_witness:
  "snd (pickNextMixedLegacy (\<lambda>_. None) (two_tiers FillFirstState) [''codex''] [] any_request (\<lambda>_. 10))
     = Inr (tier ''a'' ''1'' ''0'', ''codex'')
   \<and> authPriority (tier ''b'' ''0'' ''1'') \<le> authPriority (tier ''a'' ''1'' ''0'')"
proof -
  let ?r = "pickNextMixedLegacy (\<lambda>_. None) (two_tiers FillFirstState) [''codex''] [] any_request (\<lambda>_. 10)"
  have v: "snd ?r = Inr (tier ''a'' ''1'' ''0'', ''codex'')" by code_simp
  then have r: "?r = (fst ?r, Inr (tier ''a'' ''1'' ''0'', ''codex''))" by (metis prod.collapse)
  have b: "mixed_candidate (\<lambda>_. None) (two_tiers FillFirstState) (provider_key_set [''codex'']) [] any_request
        (tier ''b'' ''0'' ''1'')"
    "\<not> is_blocked (isAuthBlockedForModel (tier ''b'' ''0'' ''1'')
        (selection_model (\<lambda>_. None) (cd_manager (two_tiers FillFirstState)) [] (tier ''b'' ''0'' ''1'')) 10)"
    by code_simp+
  from scan_pick_sound [OF r] b v show ?thesis by (simp add: two_tiers_auths)
qed

theorem scan_finds_witness:
  "\<exists>c' b pk. pickNextMixedLegacy (\<lambda>_. None) (two_tiers FillFirstState) [''codex''] [] any_request (\<lambda>_. 10) = (c', Inr (b, pk))"
proof (rule scan_finds)
  show "tier ''b'' ''0'' ''1'' \<in> set (all_auths (cd_manager (two_tiers FillFirstState)))" by (simp add: two_tiers_auths)
  show "mixed_candidate (\<lambda>_. None) (two_tiers FillFirstState) (provider_key_set [''codex'']) [] any_request
        (tier ''b'' ''0'' ''1'')"
    "\<not> is_blocked (isAuthBlockedForModel (tier ''b'' ''0'' ''1'')
        (selection_model (\<lambda>_. None) (cd_manager (two_tiers FillFirstState)) [] (tier ''b'' ''0'' ''1'')) 10)"
    by code_simp+
  show "kind_of (cd_selector (two_tiers FillFirstState)) \<noteq> WeightedSelector"
    "\<forall>k \<in> set (cd_executors (two_tiers FillFirstState)). trim_space k = k" "(0 :: int) \<le> 10"
    by (simp add: two_tiers_def) (code_simp, simp)
qed

theorem zero_weights_hide_lower_priorities_witness:
  "snd (pickNextMixedLegacy (\<lambda>_. None) (two_tiers no_rotation) [''codex''] [] any_request (\<lambda>_. 10)) = Inl (FromSelector AuthNotFound)
   \<and> snd (pickNextMixed (\<lambda>_. None) two_tiers_synced [''codex''] [] any_request (\<lambda>_. 10))
     = Inr (tier ''b'' ''0'' ''1'', ''codex'')"
proof
  show "snd (pickNextMixed (\<lambda>_. None) two_tiers_synced [''codex''] [] any_request (\<lambda>_. 10))
     = Inr (tier ''b'' ''0'' ''1'', ''codex'')" by code_simp
  let ?ready = "[tier ''a'' ''1'' ''0'', tier ''b'' ''0'' ''1'']"
  have c: "filter (mixed_candidate (\<lambda>_. None) (two_tiers no_rotation) (provider_key_set [''codex'']) [] any_request)
      (all_auths (cd_manager (two_tiers no_rotation))) = ?ready"
    "route_ready (selection_model (\<lambda>_. None) (cd_manager (two_tiers no_rotation)) []) 10 ?ready = ?ready"
    by code_simp+
  have t: "top_tier ?ready = [tier ''a'' ''1'' ''0'']" "authWeight (tier ''a'' ''1'' ''0'') \<le> 0"
    "provider_key_set [''codex''] \<noteq> []" by code_simp+
  show "snd (pickNextMixedLegacy (\<lambda>_. None) (two_tiers no_rotation) [''codex''] [] any_request (\<lambda>_. 10))
      = Inl (FromSelector AuthNotFound)"
    using zero_weights_hide_lower_priorities [of "two_tiers no_rotation" _ "[''codex'']" ?ready "\<lambda>_. None" "[]" any_request
        ?ready "\<lambda>_. 10"] c t by (simp add: two_tiers_def no_rotation_def)
qed

end
