(* ===== verification/Execution.thy ===== *)
theory Execution
  imports Candidates RequestRules Refreshing
begin

text \<open>
  The execution of a request (\<open>Execute\<close>, \<open>ExecuteCount\<close>, \<open>executeMixedOnce\<close> and \<open>executeCountMixedOnce\<close> in
  \<open>sdk/cliproxy/auth/conductor_execution.go\<close>; the pairs differ in a few places and share one definition with
  the flag \<open>counting\<close>, which is set when tokens are counted). A request runs in rounds; a round picks one credential after another and tries the
  upstream models of each.

  What the outside answers is an \<open>environment\<close>, every answer indexed by the tick of the run: the clock, the
  state of the request's context, the executors, interceptors and the text of errors. A call that reaches the
  upstream marks its error. Home is disabled and so is the fallback on Antigravity credits. Of the request only
  what the manager reads is modelled; bodies, headers and session identifiers belong to the executor.
\<close>

section \<open>The request and its surroundings\<close>

record exec_request =
  xr_Model :: string
  xr_Metadata :: "(string, any_value) gomap"
  xr_Alt :: string
  xr_requiredKind :: string
  xr_credentialPolicy :: string
  xr_downstreamWebsocket :: bool

record 'r environment =
  en_unmarshal :: alias_decoder
  en_bodies :: json_bodies
  en_decode :: rule_decoder
  en_regex :: "string \<Rightarrow> string \<Rightarrow> bool"
  en_expiry :: expiry_reader
  en_shouldRefresh :: "Auth \<Rightarrow> time \<Rightarrow> bool"
  en_policy :: "result \<Rightarrow> result"
  en_summary :: "string \<Rightarrow> string"
  en_cooldownText :: "string \<Rightarrow> string \<Rightarrow> duration \<Rightarrow> err_cause option \<Rightarrow> string"
  en_clock :: "nat \<Rightarrow> time"
  en_contextErr :: "nat \<Rightarrow> go_error option"
  en_waitErr :: "nat \<Rightarrow> go_error option"
  en_call :: "nat \<Rightarrow> Auth \<Rightarrow> string \<Rightarrow> go_error + 'r"
  en_reached :: "nat \<Rightarrow> bool"
  en_headers :: "nat \<Rightarrow> (string \<times> string list) list"
  en_refresh :: "nat \<Rightarrow> refresh_answer"
  en_preparer :: "nat \<Rightarrow> string \<Rightarrow> preparer option"
  en_intercept :: "nat \<Rightarrow> Auth \<Rightarrow> string \<Rightarrow> go_error option"
  en_rewrite :: "string \<Rightarrow> 'r \<Rightarrow> 'r"

text \<open>How a request ends; a panic is the dereference of a nil pointer.\<close>

datatype 'r outcome = Response 'r | Failure go_error | Panicked

definition metadata_text :: "(string, any_value) gomap \<Rightarrow> string \<Rightarrow> string" where
  "metadata_text meta key =
     (case map_of meta key of
        Some (AString s) \<Rightarrow> trim_space s
      | Some (ABytes s) \<Rightarrow> trim_space s
      | _ \<Rightarrow> [])"

definition authSelectionModelFromOptions :: "exec_request \<Rightarrow> string" where
  "authSelectionModelFromOptions req =
     (let model = metadata_text (xr_Metadata req) ''auth_selection_model''
      in if model \<noteq> [] then model else trim_space (xr_Model req))"

definition executionModelForAuthSelection :: "exec_request \<Rightarrow> string option" where
  "executionModelForAuthSelection req =
     (let model = trim_space (xr_Model req)
      in if model = [] then None
         else if authSelectionModelFromOptions req = model then None
         else Some model)"

definition pick_request_of :: "exec_request \<Rightarrow> string list \<Rightarrow> pick_request" where
  "pick_request_of req tried =
     request_of (xr_requiredKind req) (xr_credentialPolicy req) (xr_downstreamWebsocket req) (xr_Metadata req) tried"

section \<open>Errors\<close>

definition plain_error :: "string \<Rightarrow> string \<Rightarrow> int \<Rightarrow> AuthError" where
  "plain_error code message status =
     \<lparr>er_Code = code, er_Message = message, er_Retryable = False, er_HTTPStatus = status\<rparr>"

fun cause_error :: "err_cause \<Rightarrow> go_error" where
  "cause_error (CauseError e) = value_error e"
| "cause_error (CauseMessage message) = errors_New message"

definition cooldown_error :: "'r environment \<Rightarrow> string \<Rightarrow> string \<Rightarrow> duration \<Rightarrow> err_cause option \<Rightarrow> go_error" where
  "cooldown_error env model provider resetIn cause =
     GoError ((plain_face (en_cooldownText env model provider resetIn cause))\<lparr>fc_status := Some 429\<rparr>)
       (case cause of None \<Rightarrow> [] | Some c \<Rightarrow> [cause_error c])"

definition unavailable_error :: "'r environment \<Rightarrow> duration option \<Rightarrow> err_cause option \<Rightarrow> go_error" where
  "unavailable_error env retryAfter cause =
     (let base = plain_error ''auth_unavailable'' ''no auth available'' 0
      in WithCause (en_summary env)
           (if retryAfter \<noteq> None then base\<lparr>er_HTTPStatus := 503, er_Retryable := True\<rparr> else base)
           (map_option cause_error cause))"

fun pick_error_value :: "'r environment \<Rightarrow> pick_failure \<Rightarrow> go_error" where
  "pick_error_value env (FromScheduler (SchedNotFound cause)) =
     WithCause (en_summary env) (plain_error ''auth_not_found'' ''no auth available'' 0) (map_option cause_error cause)"
| "pick_error_value env (FromScheduler SchedProviderNotFound) =
     value_error (plain_error ''provider_not_found'' ''no provider supplied'' 0)"
| "pick_error_value env (FromScheduler (SchedCooldown model provider resetIn cause)) =
     cooldown_error env model provider resetIn cause"
| "pick_error_value env (FromScheduler (SchedTerminal cause)) =
     WithCause (en_summary env) (plain_error ''auth_unavailable'' ''no auth available'' 503) (map_option cause_error cause)"
| "pick_error_value env (FromScheduler (SchedUnavailable retryAfter cause)) = unavailable_error env retryAfter cause"
| "pick_error_value env (FromSelector AuthNotFound) = value_error (plain_error ''auth_not_found'' ''no auth candidates'' 0)"
| "pick_error_value env (FromSelector (ModelCooldown model provider resetIn)) =
     cooldown_error env model provider resetIn None"
| "pick_error_value env (FromSelector (AuthUnavailable retryAfter)) = unavailable_error env retryAfter None"
| "pick_error_value env (FromSelector NoPositiveWeight) =
     value_error (plain_error ''auth_unavailable'' ''no auth available with positive weight'' 0)"
| "pick_error_value env ExecutorNotFound = value_error (plain_error ''executor_not_found'' ''executor not registered'' 0)"
| "pick_error_value env InvalidAuthKind = value_error (plain_error ''invalid_auth_kind'' ''required auth kind is invalid'' 400)"
| "pick_error_value env NoEligibleAuth = value_error (plain_error ''auth_not_found'' ''selector returned no eligible auth'' 0)"
| "pick_error_value env InvalidCredentialPolicy =
     value_error (plain_error ''invalid_credential_policy'' ''credential policy is invalid'' 400)"

definition claudeOAuthRequestCancellation :: "go_error option \<Rightarrow> Auth option \<Rightarrow> go_error option \<Rightarrow> go_error option" where
  "claudeOAuthRequestCancellation contextErr auth err =
     (case auth of
        None \<Rightarrow> None
      | Some a \<Rightarrow>
          if \<not> equal_fold (trim_space (auth_Provider a)) ''claude''
             \<or> \<not> equal_fold (trim_space (get_or [] (auth_Attributes a) ''auth_kind'')) ''oauth'' then None
          else if (case contextErr of Some e \<Rightarrow> errors_Is ContextCanceled e | None \<Rightarrow> False) then contextErr
          else if (case err of Some e \<Rightarrow> errors_Is ContextCanceled e | None \<Rightarrow> False) then err
          else None)"

definition isCountTokensEndpointNotFoundError :: "json_bodies \<Rightarrow> go_error \<Rightarrow> string \<Rightarrow> bool" where
  "isCountTokensEndpointNotFoundError jb err requestedModel =
     (statusCodeFromError err = 404
      \<and> \<not> isExplicitModelNotFoundError_any jb (sr_ModelName (ParseSuffix requestedModel)) err)"

definition isResponsesCompactRequest :: "exec_request \<Rightarrow> bool" where
  "isResponsesCompactRequest req = (xr_Alt req = ''responses/compact'')"

definition isResponsesCompactRequestFaultError :: "json_bodies \<Rightarrow> exec_request \<Rightarrow> go_error \<Rightarrow> bool" where
  "isResponsesCompactRequestFaultError jb req err =
     (if \<not> isResponsesCompactRequest req then False
      else if isCredentialScopedError err \<or> isCloudflareChallengeError_any err \<or> isInvalidGrantError_any err then False
      else if error_request_fault jb err then True
      else statusCodeFromError err \<in> set [400, 404, 405, 409, 413, 422, 501])"

definition isResponsesCompactAvailabilityNeutralError ::
  "exec_request \<Rightarrow> go_error \<Rightarrow> AuthError option \<Rightarrow> bool"
where
  "isResponsesCompactAvailabilityNeutralError req err resultErr =
     (if \<not> isResponsesCompactRequest req then False
      else if (case resultErr of Some e \<Rightarrow> er_Code e = ErrorCodeForceCooldown | None \<Rightarrow> False) then False
      else if isCredentialScopedError err \<or> isCloudflareChallengeError_any err \<or> isInvalidGrantError_any err then False
      else if (case resultErr of Some e \<Rightarrow> isCloudflareChallengeResultError e \<or> isInvalidGrantResultError e
               | None \<Rightarrow> False) then False
      else let status = (if statusCodeFromError err = 0 \<and> resultErr \<noteq> None then statusCodeFromResult resultErr
                         else statusCodeFromError err)
        in status \<notin> set [401, 402, 403, 429])"

section \<open>The state of a run\<close>

text \<open>
  The manager and what a round keeps: the credentials it tried and those it attempted, the last error and
  the last one from upstream, and the credentials announced to the caller. \<open>st_calls\<close> is the record of the
  calls made, by credential and model, which the code does not keep.
\<close>

record run_state =
  st_cond :: Conductor
  st_tick :: nat
  st_tried :: "string list"
  st_attempted :: "string list"
  st_lastErr :: "go_error option"
  st_upstreamErr :: "go_error option"
  st_published :: "string list"
  st_calls :: "(string \<times> string) list"

abbreviation st_manager :: "run_state \<Rightarrow> Manager" where
  "st_manager st \<equiv> cd_manager (st_cond st)"

definition with_manager :: "run_state \<Rightarrow> Manager \<Rightarrow> run_state" where
  "with_manager st m = st\<lparr>st_cond := (st_cond st)\<lparr>cd_manager := m\<rparr>\<rparr>"

definition mark :: "'r environment \<Rightarrow> run_state \<Rightarrow> result \<Rightarrow> nat \<Rightarrow> run_state" where
  "mark env st r k =
     with_manager st (MarkResult (en_unmarshal env) (en_bodies env) (en_policy env) (st_manager st) r
       (en_headers env (st_tick st)) (en_clock env (st_tick st + k)) (en_clock env (st_tick st + Suc k)))"

text \<open>A call of an executor, its error marked if the request reached the upstream.\<close>

definition call_executor :: "'r environment \<Rightarrow> nat \<Rightarrow> Auth \<Rightarrow> string \<Rightarrow> run_state \<Rightarrow> run_state \<times> (go_error + 'r)" where
  "call_executor env n auth model st =
     (let st1 = st\<lparr>st_calls := st_calls st @ [(auth_ID auth, model)]\<rparr>
      in case en_call env n auth model of
           Inr resp \<Rightarrow> (st1, Inr resp)
         | Inl e \<Rightarrow>
             let err = markUpstreamExecutionAttemptFromContext (en_reached env n) e
             in (if hasUpstreamExecutionAttempt err then st1\<lparr>st_upstreamErr := Some err\<rparr> else st1, Inl err))"

definition rewriteForceMappedResponse :: "'r environment \<Rightarrow> OAuthModelAliasResult \<Rightarrow> 'r \<Rightarrow> 'r" where
  "rewriteForceMappedResponse env aliasResult resp =
     (if \<not> ar_ForceMapping aliasResult \<or> trim_space (ar_OriginalAlias aliasResult) = [] then resp
      else en_rewrite env (ar_OriginalAlias aliasResult) resp)"

section \<open>One model of one credential\<close>

text \<open>What the parts of an attempt share: the credential's provider and routes, fixed when it was picked.\<close>

record attempt =
  at_provider :: string
  at_routeModel :: string
  at_pooled :: bool
  at_alias :: OAuthModelAliasResult

text \<open>The end of the request, or the error with which the next model or the next credential is tried.\<close>

datatype 'r verdict = Finish "'r outcome" | NextModel go_error | NextCredential go_error

definition error_result ::
  "'r environment \<Rightarrow> bool \<Rightarrow> exec_request \<Rightarrow> attempt \<Rightarrow> Auth \<Rightarrow> string \<Rightarrow> string \<Rightarrow> go_error \<Rightarrow> string option \<Rightarrow> result \<times> bool"
where
  "error_result env counting req att auth execModel resultModel err action =
     (let resultErr = applyRequestScopedActionToResult action (resultErrorFromError (en_bodies env) err);
          neutral = (if counting
              then isCountTokensEndpointNotFoundError (en_bodies env) err execModel \<and> er_Code resultErr \<noteq> ErrorCodeForceCooldown
              else isResponsesCompactAvailabilityNeutralError req err (Some resultErr));
          scoped = (isCredentialScopedError err \<and> \<not> (counting \<and> neutral))
      in (\<lparr>rs_AuthID = auth_ID auth, rs_Provider = at_provider att, rs_Model = resultModel,
           rs_RouteModel = at_routeModel att, rs_Success = False, rs_RetryAfter = retryAfterFromError err,
           rs_CredentialScope = scoped, rs_Error = Some resultErr, rs_SkipQuotaObservation = counting\<rparr>, neutral))"

definition after_error ::
  "'r environment \<Rightarrow> bool \<Rightarrow> exec_request \<Rightarrow> go_error \<Rightarrow> string option \<Rightarrow> bool \<Rightarrow> 'r verdict"
where
  "after_error env counting req err action scoped =
     (if action \<noteq> None then
        (if isRequestScopedStop action then Finish (Failure (wrapRequestStopError err))
         else if scoped then NextCredential err else NextModel err)
      else if (\<not> counting \<and> isResponsesCompactRequestFaultError (en_bodies env) req err)
              \<or> isRequestInvalidError_any (en_bodies env) err then Finish (Failure err)
      else if scoped then NextCredential err else NextModel err)"

definition rule_action :: "'r environment \<Rightarrow> run_state \<Rightarrow> Auth \<Rightarrow> go_error \<Rightarrow> string option" where
  "rule_action env st auth err =
     matchRequestScopedErrorAction (en_decode env) (en_regex env) (rt_config (mg_router (st_manager st))) auth err"

definition record_error ::
  "'r environment \<Rightarrow> bool \<Rightarrow> exec_request \<Rightarrow> attempt \<Rightarrow> Auth \<Rightarrow> string \<Rightarrow> string \<Rightarrow> go_error \<Rightarrow> run_state
   \<Rightarrow> run_state \<times> 'r verdict"
where
  "record_error env counting req att auth execModel resultModel err st =
     (let action = rule_action env st auth err;
          (r, neutral) = error_result env counting req att auth execModel resultModel err action;
          st1 = (if neutral
                 then with_manager st (recordAvailabilityNeutralResult (st_manager st) r (en_clock env (st_tick st + 2)))
                 else mark env st r 2)
      in (st1, after_error env counting req err action (rs_CredentialScope r)))"

definition record_success :: "'r environment \<Rightarrow> bool \<Rightarrow> attempt \<Rightarrow> Auth \<Rightarrow> string \<Rightarrow> run_state \<Rightarrow> run_state" where
  "record_success env counting att auth resultModel st =
     mark env st \<lparr>rs_AuthID = auth_ID auth, rs_Provider = at_provider att, rs_Model = resultModel,
         rs_RouteModel = at_routeModel att, rs_Success = True, rs_RetryAfter = None, rs_CredentialScope = False,
         rs_Error = None, rs_SkipQuotaObservation = counting\<rparr> 2"

text \<open>After an unauthorized call: a refresh, once per credential, and a second call. None: the context has ended.\<close>

definition refresh_and_retry ::
  "'r environment \<Rightarrow> Auth \<Rightarrow> bool \<Rightarrow> string \<Rightarrow> go_error \<Rightarrow> run_state
   \<Rightarrow> run_state \<times> Auth \<times> bool \<times> (go_error + 'r)"
where
  "refresh_and_retry env auth refreshed execModel err st =
     (case tryRefreshAfterUnauthorized (en_unmarshal env) (en_expiry env) (en_shouldRefresh env)
             (cd_executors (st_cond st)) (st_manager st) False auth err refreshed (en_refresh env (st_tick st))
             (en_clock env (st_tick st)) (en_clock env (st_tick st + 1)) of
        (m, None) \<Rightarrow> (with_manager st m, auth, refreshed, Inl err)
      | (m, Some auth') \<Rightarrow>
          (case call_executor env (Suc (st_tick st)) auth' execModel (with_manager st m) of
             (st1, answer) \<Rightarrow> (st1, auth', True, answer)))"

definition conclude ::
  "'r environment \<Rightarrow> bool \<Rightarrow> exec_request \<Rightarrow> attempt \<Rightarrow> Auth \<Rightarrow> string \<Rightarrow> string \<Rightarrow> string \<Rightarrow> run_state \<Rightarrow> go_error + 'r
   \<Rightarrow> run_state \<times> 'r verdict"
where
  "conclude env counting req att auth upstreamModel execModel resultModel st answer =
     (case claudeOAuthRequestCancellation (en_contextErr env (Suc (st_tick st))) (Some auth)
             (case answer of Inl err \<Rightarrow> Some err | Inr _ \<Rightarrow> None) of
        Some cancelled \<Rightarrow> (st, Finish (Failure cancelled))
      | None \<Rightarrow>
          (case answer of
             Inl err \<Rightarrow> record_error env counting req att auth execModel resultModel err st
           | Inr resp \<Rightarrow>
               (record_success env counting att auth resultModel st,
                Finish (Response (rewriteForceMappedResponse env
                  (resolveAttemptAliasResult (mg_router (st_manager st)) auth (at_routeModel att) upstreamModel (at_alias att))
                  resp)))))"

definition try_model ::
  "'r environment \<Rightarrow> bool \<Rightarrow> exec_request \<Rightarrow> attempt \<Rightarrow> Auth \<Rightarrow> bool \<Rightarrow> string \<Rightarrow> run_state
   \<Rightarrow> run_state \<times> Auth \<times> bool \<times> 'r verdict"
where
  "try_model env counting req att auth refreshed upstreamModel st =
     (let resultModel = stateModelForExecution (en_unmarshal env) (mg_router (st_manager st)) auth (at_routeModel att)
            upstreamModel (at_pooled att);
          execModel = (case executionModelForAuthSelection req of Some model \<Rightarrow> model | None \<Rightarrow> upstreamModel)
      in case en_intercept env (st_tick st) auth execModel of
           Some err \<Rightarrow> (st, auth, refreshed, Finish (Failure err))
         | None \<Rightarrow>
             (case call_executor env (st_tick st) auth execModel st of
                (st1, Inr resp) \<Rightarrow>
                  (case conclude env counting req att auth upstreamModel execModel resultModel st1 (Inr resp) of
                     (st2, v) \<Rightarrow> (st2, auth, refreshed, v))
              | (st1, Inl err) \<Rightarrow>
                  (case en_contextErr env (st_tick st) of
                     Some ended \<Rightarrow> (st1, auth, refreshed, Finish (Failure ended))
                   | None \<Rightarrow>
                       (case refresh_and_retry env auth refreshed execModel err st1 of
                          (st2, auth', refreshed', answer) \<Rightarrow>
                            (case (if refreshed' \<and> \<not> refreshed \<and> isl answer then en_contextErr env (Suc (st_tick st)) else None) of
                               Some ended \<Rightarrow> (st2, auth', refreshed', Finish (Failure ended))
                             | None \<Rightarrow>
                                 (case conclude env counting req att auth' upstreamModel execModel resultModel st2 answer of
                                    (st3, v) \<Rightarrow> (st3, auth', refreshed', v)))))))"

section \<open>The models of one credential\<close>

text \<open>The models in turn; the error of the last one if the loop runs to its end.\<close>

definition forward :: "nat \<Rightarrow> run_state \<Rightarrow> run_state" where
  "forward n st = st\<lparr>st_tick := st_tick st + n\<rparr>"

fun models_loop ::
  "'r environment \<Rightarrow> bool \<Rightarrow> exec_request \<Rightarrow> attempt \<Rightarrow> Auth \<Rightarrow> bool \<Rightarrow> string list \<Rightarrow> go_error option \<Rightarrow> run_state
   \<Rightarrow> run_state \<times> Auth \<times> ('r outcome + go_error option)"
where
  "models_loop env counting req att auth refreshed [] authErr st = (st, auth, Inr authErr)"
| "models_loop env counting req att auth refreshed (model # models) authErr st =
     (case try_model env counting req att auth refreshed model st of
        (st1, auth', refreshed', Finish result) \<Rightarrow> (forward 8 st1, auth', Inl result)
      | (st1, auth', refreshed', NextModel err) \<Rightarrow>
          models_loop env counting req att auth' refreshed' models (Some err) (forward 8 st1)
      | (st1, auth', refreshed', NextCredential err) \<Rightarrow> (forward 8 st1, auth', Inr (Some err)))"

text \<open>What the round makes of that error: the end of the request, or the next credential.\<close>

definition after_models ::
  "'r environment \<Rightarrow> bool \<Rightarrow> exec_request \<Rightarrow> Auth \<Rightarrow> go_error option \<Rightarrow> run_state \<Rightarrow> run_state \<times> 'r outcome option"
where
  "after_models env counting req auth authErr st =
     (case authErr of
        None \<Rightarrow> (st, None)
      | Some err \<Rightarrow>
          let action = rule_action env st auth err
          in if action \<noteq> None then
               (if isRequestScopedStop action then (st, Some (Failure (wrapRequestStopError err)))
                else (st\<lparr>st_lastErr := Some err\<rparr>, None))
             else if (\<not> counting \<and> isResponsesCompactRequestFaultError (en_bodies env) req err)
                     \<or> isRequestInvalidError_any (en_bodies env) err then (st, Some (Failure err))
             else (st\<lparr>st_lastErr := Some err\<rparr>, None))"

section \<open>One round\<close>

text \<open>The preparation of the credential, and its failure: a result for the credential, and the next one.\<close>

definition prepare_auth ::
  "'r environment \<Rightarrow> string \<Rightarrow> Auth \<Rightarrow> run_state \<Rightarrow> run_state \<times> Auth option \<times> go_error option"
where
  "prepare_auth env provider auth st =
     (case en_preparer env (st_tick st) provider of
        None \<Rightarrow> (st, Some auth, None)
      | Some prep \<Rightarrow>
          (case PrepareRequestAuth (en_expiry env) prep (st_manager st) False auth
                  (en_clock env (st_tick st + 8)) (en_clock env (st_tick st + 9)) of
             (m, prepared) \<Rightarrow> (with_manager st m, prepared)))"

definition preparation_failed ::
  "'r environment \<Rightarrow> bool \<Rightarrow> string \<Rightarrow> string \<Rightarrow> Auth option \<Rightarrow> go_error \<Rightarrow> run_state \<Rightarrow> run_state \<times> 'r outcome option"
where
  "preparation_failed env counting provider routeModel prepared err st =
     (case claudeOAuthRequestCancellation (en_contextErr env (st_tick st)) prepared (Some err) of
        Some cancelled \<Rightarrow> (st, Some (Failure cancelled))
      | None \<Rightarrow>
          (case prepared of
             None \<Rightarrow> (st, Some Panicked)
           | Some auth \<Rightarrow>
               let key = selection_key (en_unmarshal env) (st_manager st) auth routeModel;
                   stateModel = (if key = [] then canonicalModelKey routeModel else key);
                   st1 = mark env st \<lparr>rs_AuthID = auth_ID auth, rs_Provider = provider, rs_Model = stateModel,
                       rs_RouteModel = routeModel, rs_Success = False, rs_RetryAfter = None, rs_CredentialScope = False,
                       rs_Error = Some (resultErrorFromError (en_bodies env) err), rs_SkipQuotaObservation = counting\<rparr> 10
               in (st1\<lparr>st_lastErr := Some err\<rparr>, None)))"

text \<open>One credential: None if the round goes on.\<close>

definition try_credential ::
  "'r environment \<Rightarrow> bool \<Rightarrow> exec_request \<Rightarrow> string \<Rightarrow> Auth \<Rightarrow> string \<Rightarrow> run_state \<Rightarrow> run_state \<times> 'r outcome option"
where
  "try_credential env counting req routeModel auth provider st0 =
     (let st = st0\<lparr>st_tried := auth_ID auth # st_tried st0,
            st_published := (if trim_space (auth_ID auth) = [] then st_published st0
                             else List.insert (trim_space (auth_ID auth)) (st_published st0))\<rparr>;
          (router, models, pooled, aliasResult) = preparedExecutionModelsWithAlias (en_unmarshal env)
            (mg_router (st_manager st)) auth routeModel (en_clock env (st_tick st + 7));
          st1 = with_manager st ((st_manager st)\<lparr>mg_router := router\<rparr>)
      in if models = [] then (forward 16 st1, None)
         else
           let st2 = st1\<lparr>st_attempted := List.insert (auth_ID auth) (st_attempted st1)\<rparr>
           in case prepare_auth env provider auth st2 of
                (st3, prepared, Some err) \<Rightarrow>
                  map_prod (forward 16) (\<lambda>r. r) (preparation_failed env counting provider routeModel prepared err st3)
              | (st3, None, None) \<Rightarrow> (forward 16 st3, Some Panicked)
              | (st3, Some auth', None) \<Rightarrow>
                  (case models_loop env counting req
                          \<lparr>at_provider = provider, at_routeModel = routeModel, at_pooled = pooled, at_alias = aliasResult\<rparr>
                          auth' False models None (forward 16 st3) of
                     (st4, auth'', Inl result) \<Rightarrow> (st4, Some result)
                   | (st4, auth'', Inr authErr) \<Rightarrow> after_models env counting req auth'' authErr st4))"

definition no_more_credentials :: "run_state \<Rightarrow> go_error \<Rightarrow> 'r outcome" where
  "no_more_credentials st err =
     Failure (case st_lastErr st of
        Some lastErr \<Rightarrow> preferredExecutionAttemptError lastErr (st_upstreamErr st)
      | None \<Rightarrow> err)"

text \<open>The loop over the credentials, with fuel.\<close>

fun credentials_loop ::
  "nat \<Rightarrow> 'r environment \<Rightarrow> bool \<Rightarrow> exec_request \<Rightarrow> string list \<Rightarrow> int \<Rightarrow> run_state \<Rightarrow> (run_state \<times> 'r outcome) option"
where
  "credentials_loop 0 env counting req providers maxRetryCredentials st = None"
| "credentials_loop (Suc fuel) env counting req providers maxRetryCredentials st =
     (if maxRetryCredentials > 0 \<and> int (length (st_attempted st)) \<ge> maxRetryCredentials
      then Some (st, no_more_credentials st (pick_error_value env no_auth_available))
      else
        let routeModel = authSelectionModelFromOptions req
        in case pickNextMixed (en_unmarshal env) (st_cond st) providers routeModel (pick_request_of req (st_tried st))
                  (\<lambda>n. en_clock env (st_tick st + n)) of
             (c, Inl failure) \<Rightarrow>
               Some (forward 8 (st\<lparr>st_cond := c\<rparr>), no_more_credentials st (pick_error_value env failure))
           | (c, Inr (auth, provider)) \<Rightarrow>
               (case try_credential env counting req routeModel auth provider (st\<lparr>st_cond := c\<rparr>) of
                  (st1, Some result) \<Rightarrow> Some (st1, result)
                | (st1, None) \<Rightarrow> credentials_loop fuel env counting req providers maxRetryCredentials st1))"

definition start_round :: "run_state \<Rightarrow> int \<Rightarrow> int \<Rightarrow> run_state" where
  "start_round st retryRound defaultRequestRetry =
     st\<lparr>st_tried := requestRetryRoundExclusions (st_manager st) retryRound defaultRequestRetry,
        st_attempted := [], st_lastErr := None, st_upstreamErr := None, st_published := []\<rparr>"

definition mixed_once ::
  "nat \<Rightarrow> 'r environment \<Rightarrow> bool \<Rightarrow> exec_request \<Rightarrow> string list \<Rightarrow> int \<Rightarrow> int \<Rightarrow> int \<Rightarrow> run_state
   \<Rightarrow> (run_state \<times> 'r outcome) option"
where
  "mixed_once fuel env counting req providers maxRetryCredentials retryRound defaultRequestRetry st =
     (if providers = [] then Some (st, Failure (pick_error_value env (FromScheduler SchedProviderNotFound)))
      else credentials_loop fuel env counting req providers maxRetryCredentials
             (start_round st retryRound defaultRequestRetry))"

definition executeMixedOnce ::
  "nat \<Rightarrow> 'r environment \<Rightarrow> exec_request \<Rightarrow> string list \<Rightarrow> int \<Rightarrow> int \<Rightarrow> int \<Rightarrow> run_state \<Rightarrow> (run_state \<times> 'r outcome) option"
where
  "executeMixedOnce fuel env req providers maxRetryCredentials retryRound defaultRequestRetry st =
     mixed_once fuel env False req providers maxRetryCredentials retryRound defaultRequestRetry st"

definition executeCountMixedOnce ::
  "nat \<Rightarrow> 'r environment \<Rightarrow> exec_request \<Rightarrow> string list \<Rightarrow> int \<Rightarrow> int \<Rightarrow> int \<Rightarrow> run_state \<Rightarrow> (run_state \<times> 'r outcome) option"
where
  "executeCountMixedOnce fuel env req providers maxRetryCredentials retryRound defaultRequestRetry st =
     mixed_once fuel env True req providers maxRetryCredentials retryRound defaultRequestRetry st"

section \<open>The rounds of a request\<close>

definition waitForCooldown :: "'r environment \<Rightarrow> nat \<Rightarrow> duration \<Rightarrow> go_error option" where
  "waitForCooldown env n wait = (if wait \<le> 0 then None else en_waitErr env n)"

definition retry_request_of :: "exec_request \<Rightarrow> string list \<Rightarrow> retry_request" where
  "retry_request_of req providers =
     (let rq = pick_request_of req []
      in \<lparr>rr_providers = providers, rr_model = authSelectionModelFromOptions req,
          rr_eligibility = rq_eligibility rq, rr_pinnedAuthID = rq_pinnedAuthID rq\<rparr>)"

definition last_error :: "'r environment \<Rightarrow> go_error \<Rightarrow> go_error option \<Rightarrow> run_state \<Rightarrow> go_error" where
  "last_error env err preferred st =
     (case en_contextErr env (st_tick st) of
        Some ended \<Rightarrow> ended
      | None \<Rightarrow> unwrapExecutionBoundaryError (preferredExecutionAttemptError err preferred))"

fun rounds_loop ::
  "nat \<Rightarrow> nat \<Rightarrow> 'r environment \<Rightarrow> bool \<Rightarrow> exec_request \<Rightarrow> string list \<Rightarrow> retry_settings \<Rightarrow> int \<Rightarrow> go_error option
   \<Rightarrow> run_state \<Rightarrow> (run_state \<times> 'r outcome) option"
where
  "rounds_loop 0 fuel env counting req providers settings round_no preferred st = None"
| "rounds_loop (Suc rounds) fuel env counting req providers settings round_no preferred st =
     (case mixed_once fuel env counting req providers (rt_maxRetryCredentials settings) round_no
             (rt_requestRetry settings) st of
        None \<Rightarrow> None
      | Some (st1, Response resp) \<Rightarrow> Some (st1, Response resp)
      | Some (st1, Panicked) \<Rightarrow> Some (st1, Panicked)
      | Some (st1, Failure err) \<Rightarrow>
          if isRequestTerminatedError err \<or> isRequestStopError err
          then Some (st1, Failure (unwrapExecutionBoundaryError err))
          else
            let preferred' = (if hasUpstreamExecutionAttempt err then Some err else preferred);
                st2 = forward 3 st1
            in case shouldRetryAfterErrorWithAttempted (en_unmarshal env) (en_bodies env) (st_manager st1) err round_no
                      (retry_request_of req providers) (rt_maxRetryInterval settings) (rt_requestRetry settings)
                      (st_published st1) (en_clock env (st_tick st1)) (en_clock env (st_tick st1 + 1)) of
                 None \<Rightarrow> Some (st2, Failure (last_error env err preferred' st2))
               | Some wait \<Rightarrow>
                   (case waitForCooldown env (st_tick st1) wait of
                      Some ended \<Rightarrow> Some (st2, Failure ended)
                    | None \<Rightarrow>
                        rounds_loop rounds fuel env counting req providers settings (round_no + 1) preferred' st2))"

definition execute_rounds ::
  "nat \<Rightarrow> nat \<Rightarrow> 'r environment \<Rightarrow> bool \<Rightarrow> exec_request \<Rightarrow> string list \<Rightarrow> retry_settings \<Rightarrow> run_state
   \<Rightarrow> (run_state \<times> 'r outcome) option"
where
  "execute_rounds rounds fuel env counting req providers settings st =
     (let normalized = normalizeProviders providers
      in if normalized = [] then Some (st, Failure (pick_error_value env (FromScheduler SchedProviderNotFound)))
         else rounds_loop rounds fuel env counting req normalized settings 0 None st)"

definition Execute ::
  "nat \<Rightarrow> nat \<Rightarrow> 'r environment \<Rightarrow> exec_request \<Rightarrow> string list \<Rightarrow> retry_settings \<Rightarrow> run_state \<Rightarrow> (run_state \<times> 'r outcome) option"
where
  "Execute rounds fuel env req providers settings st = execute_rounds rounds fuel env False req providers settings st"

definition ExecuteCount ::
  "nat \<Rightarrow> nat \<Rightarrow> 'r environment \<Rightarrow> exec_request \<Rightarrow> string list \<Rightarrow> retry_settings \<Rightarrow> run_state \<Rightarrow> (run_state \<times> 'r outcome) option"
where
  "ExecuteCount rounds fuel env req providers settings st = execute_rounds rounds fuel env True req providers settings st"

end
