(* ===== verification/Rounds.thy ===== *)
theory Rounds
  imports Execution MixedCarry ManagerInv
begin

text \<open>
  What a round of a request does whatever the executors answer: it ends, it works on no
  credential the manager did not hold when it began, and it keeps to the configured number of credentials.
\<close>

section \<open>The credentials a scheduler lists\<close>

definition lists_within :: "string set \<Rightarrow> authScheduler \<Rightarrow> bool" where
  "lists_within K s \<longleftrightarrow> (\<forall>pk au i. lists_of s pk = Some au \<longrightarrow> map_of au i \<noteq> None \<longrightarrow> i \<in> K)"

lemma within_kept: "kept s s' \<Longrightarrow> lists_within K s' = lists_within K s"
  by (simp add: kept_def lists_within_def)

lemma lists_within_alt:
  "lists_within K s \<longleftrightarrow> (\<forall>pk p i. map_of (as_providers s) pk = Some p \<longrightarrow> map_of (ps_auths p) i \<noteq> None \<longrightarrow> i \<in> K)"
  by (auto simp: lists_within_def lists_of_def)

lemma within_record [simp]: "lists_within K (record_generation s i e g u) = lists_within K s"
  by (simp add: lists_within_alt record_generation_def)

lemma within_drop: "lists_within K s \<Longrightarrow> lists_within K (drop_from_provider s pk i)"
  by (auto simp: lists_within_alt drop_from_provider_def provider_removeAuthLocked_def Let_def delete_conv'
      split: option.split if_splits)

lemma within_remove: "lists_within K s \<Longrightarrow> lists_within K (removeAuthFromProvidersLocked s i)"
  using within_drop [of K s] by (simp add: removeAuthFromProvidersLocked_def Let_def lists_within_alt)

lemma within_leave: "lists_within K s \<Longrightarrow> lists_within K (leave_previous s i pk)"
  by (simp add: leave_previous_def Let_def within_drop)

lemma within_install:
  "lists_within K s \<Longrightarrow> auth_ID (sm_auth meta) \<in> K \<Longrightarrow> lists_within K (install s i pk meta tg sc now)"
  by (auto simp: lists_within_alt install_def ensureProviderLocked_def split: option.split if_splits)

lemma within_lifecycle:
  "lists_within K s \<Longrightarrow> auth_ID a \<in> K \<Longrightarrow> lists_within K (upsertAuthLifecycleLocked registry s a now)"
  by (simp add: upsertAuthLifecycleLocked_def Let_def within_remove within_install within_leave)

lemma within_result:
  assumes "lists_within K s" and "auth_ID a \<in> K" and "sched_inv t s"
  shows "lists_within K (upsertAuthResultLocked registry s a targets scoped now)"
proof -
  have "lists_within K (s\<lparr>as_providers := AList.update pk (upsertAuthForModelsLocked p meta tg sc now) (as_providers s)\<rparr>)"
    if p: "map_of (as_providers s) pk = Some p" and m: "map_of (ps_auths p) i = Some meta" for pk p i meta tg sc
  proof -
    have "(i, meta) \<in> set (ps_auths p)" using m by (rule map_of_SomeD)
    then have "auth_ID (sm_auth meta) = i" using assms(3) p by (auto simp: sched_inv_def provider_inv_def)
    with assms(1) p m show ?thesis by (auto simp: lists_within_alt split: if_splits)
  qed
  with assms show ?thesis
    by (auto simp: upsertAuthResultLocked_def Let_def within_remove within_install within_leave split: option.split)
qed

lemma within_fold:
  "lists_within K s \<Longrightarrow> \<forall>a \<in> set auths. auth_ID a \<in> K \<Longrightarrow>
   lists_within K (fold (\<lambda>a s. upsertAuthLifecycleLocked registry s a now) auths s)"
  by (induction auths arbitrary: s) (simp_all add: within_lifecycle)

lemma within_rebuild: "\<forall>a \<in> set auths. auth_ID a \<in> K \<Longrightarrow> lists_within K (rebuild registry s auths now)"
  unfolding rebuild_def by (rule within_fold) (simp_all add: lists_within_alt)

text \<open>What is not listed is not picked.\<close>

lemma unlisted_carries:
  assumes "sched_reach t s" and "lists_within K s" and "i \<notin> K"
  shows "carries s i key (\<lambda>_. False)"
proof -
  have none: "map_of (ps_auths p) i = None" if "map_of (as_providers s) pk = Some p" for pk p
    using assms(2,3) that unfolding lists_within_alt by blast
  have "shards_listed p" if "map_of (as_providers s) pk = Some p" for pk p
    using sched_reach_listed [OF assms(1)] that by (simp add: listed_def)
  then have "map_of (mo_entries m) i = None"
    if "map_of (as_providers s) pk = Some p" "map_of (ps_modelShards p) key = Some m" for pk p m
    using that none unfolding shards_listed_def by blast
  with none show ?thesis by (simp add: carries_def)
qed

lemma mixed_within:
  assumes "sched_reach t s" and "lists_within K s" and "t \<le> now1" "now1 \<le> now2" "now2 \<le> now3"
    and "pickMixedWithStrategy s providers model req strategy0 now1 now2 now3 = (s', r)"
  shows "sched_reach now3 s' \<and> lists_within K s' \<and>
    (\<forall>a pk. r = Inr (a, pk) \<longrightarrow> auth_ID a \<in> K \<and> auth_ID a \<notin> set (rq_tried req))"
proof -
  note inv = sched_reach_inv [OF assms(1)] sched_reach_wf [OF assms(1)] and l = sched_reach_listed [OF assms(1)]
  have "auth_ID a \<in> K" if "r = Inr (a, pk)" for a pk
    using mixed_carries [OF inv unlisted_carries [OF assms(1,2), of "auth_ID a"
        "canonicalModelKey (canonicalModelKey model)"] l assms(3-6)] that by (auto simp: yields_def)
  moreover have "auth_ID a \<notin> set (rq_tried req)" if "r = Inr (a, pk)" for a pk
    using mixed_sound [OF inv(1) assms(3-6)] that
    by (auto simp: servable_def eligible_def)
  moreover have "kept s s'" using mixed_kept [OF inv(1) assms(3-5) l assms(6)] .
  ultimately show ?thesis using sched_reach.mixed [OF assms(1,3-6)] within_kept assms(2) by blast
qed


section \<open>The credentials a manager holds\<close>

text \<open>Every record and every snapshot is of a credential in \<open>K\<close>; \<open>t\<close> is the scheduler's latest reading of the clock.\<close>

definition holds_only :: "string set \<Rightarrow> time \<Rightarrow> Manager \<Rightarrow> bool" where
  "holds_only K t m \<longleftrightarrow> sched_reach t (mg_scheduler m) \<and> lists_within K (mg_scheduler m)
     \<and> (\<forall>x \<in> set (mg_auths m). auth_ID (snd x) \<in> K)"

lemma holds_get: "holds_only K t m \<Longrightarrow> map_of (mg_auths m) i = Some a \<Longrightarrow> auth_ID a \<in> K"
  by (force simp: holds_only_def dest: map_of_SomeD)

lemma holds_mono: "holds_only K t m \<Longrightarrow> t \<le> t' \<Longrightarrow> holds_only K t' m"
  using sched_reach_mono by (auto simp: holds_only_def)

lemma holds_frame [simp]:
  "holds_only K t (m\<lparr>mg_router := router\<rparr>) = holds_only K t m"
  "holds_only K t (m\<lparr>mg_authEpochs := e\<rparr>) = holds_only K t m"
  "holds_only K t (project_registry unmarshal m i a now) = holds_only K t m"
  "holds_only K t (rebuild_aliases deferred m) = holds_only K t m"
  "holds_only K t (raise_epoch m i a) = holds_only K t m"
  by (simp_all add: holds_only_def raise_epoch_def)

lemma holds_store: "holds_only K t m \<Longrightarrow> auth_ID b \<in> K \<Longrightarrow> holds_only K t (m\<lparr>mg_auths := AList.update i b (mg_auths m)\<rparr>)"
  by (auto simp: holds_only_def dest: set_update)

lemma holds_upsert: "holds_only K t m \<Longrightarrow> auth_ID b \<in> K \<Longrightarrow> t \<le> later \<Longrightarrow> holds_only K later (upsertAuth m b later)"
  by (auto simp: holds_only_def upsertAuth_def intro: within_lifecycle sched_reach.lifecycle)

lemma holds_sync: "holds_only K t m \<Longrightarrow> t \<le> now \<Longrightarrow> holds_only K now (syncScheduler m now)"
  using within_rebuild [of "all_auths m" K "registry_view_of (mg_registry m)" "mg_scheduler m" now]
  by (auto simp: holds_only_def syncScheduler_def snapshotAuths_def all_auths_def intro: sched_reach.rebuilt)

lemma holds_mark:
  assumes "holds_only K t m" and "t \<le> later"
  shows "holds_only K later (MarkResult unmarshal jb policy m r headers now later)"
proof (cases "rs_AuthID r = [] \<or> rs_AuthID (policy r) = [] \<or> map_of (mg_auths m) (rs_AuthID (policy r)) = None")
  case True
  then show ?thesis using holds_mono [OF assms] by (auto simp: MarkResult_def Let_def)
next
  case False
  then obtain a where a: "map_of (mg_auths m) (rs_AuthID (policy r)) = Some a" by blast
  define b where "b = mark_auth (mg_config m) jb (selection_key unmarshal m) headers (policy r) now a"
  have b: "auth_ID b \<in> K" using holds_get [OF assms(1) a] by (simp add: b_def)
  have "sched_inv t (mg_scheduler m)" using assms(1) sched_reach_inv by (auto simp: holds_only_def)
  then have "holds_only K later (m\<lparr>mg_auths := AList.update (rs_AuthID (policy r)) b (mg_auths m), mg_scheduler :=
      upsertAuthResultLocked (registry_view_of (mg_registry m)) (mg_scheduler m) b tg sc later\<rparr>)" for tg sc
    using holds_store [OF assms(1) b] assms b
    by (auto simp: holds_only_def intro: within_result sched_reach.result)
  with False a show ?thesis by (simp add: MarkResult_def Let_def b_def)
qed

lemma holds_neutral: "holds_only K t m \<Longrightarrow> holds_only K t (recordAvailabilityNeutralResult m r now)"
  by (auto simp: recordAvailabilityNeutralResult_def Let_def split: option.split intro!: holds_store dest: holds_get)

section \<open>Refreshes and preparations\<close>

lemma holds_core:
  assumes "holds_only K t m" and "auth_ID a \<in> K" and "t \<le> later"
  shows "holds_only K later (fst (update_core m deferred existing a now later))"
proof -
  define m0 where "m0 = raise_epoch m (auth_ID a) existing"
  have m0: "holds_only K t m0" using assms(1) by (simp add: m0_def)
  have up: "holds_only K later (upsertAuth (rebuild_aliases deferred
      (m0\<lparr>mg_authEpochs := e, mg_auths := AList.update i b (mg_auths m0)\<rparr>)) b later)" if "auth_ID b \<in> K" for i e b
  proof -
    have "holds_only K t (m0\<lparr>mg_authEpochs := e, mg_auths := AList.update i b (mg_auths m0)\<rparr>)"
      using m0 that by (auto simp: holds_only_def dest: set_update)
    then show ?thesis by (intro holds_upsert [OF _ that assms(3)]) simp
  qed
  have id: "auth_ID (settle_states m now (recover_update existing now b\<lparr>auth_UpdatedAt := now\<rparr>)) = auth_ID b" for b
    by (simp add: identity_settle)
  show ?thesis
  proof (cases "auth_RegistrationEpoch a \<noteq> 0 \<and> auth_RegistrationEpoch a < get_or 0 (mg_authEpochs m0) (auth_ID a)")
    case True
    show ?thesis unfolding update_core_def Let_def m0_def [symmetric] if_P [OF True] by (simp add: holds_mono [OF m0 assms(3)])
  next
    case False
    show ?thesis unfolding update_core_def Let_def m0_def [symmetric] if_not_P [OF False] fst_conv
      by (rule up) (simp add: id assms(2))
  qed
qed

lemma holds_merged:
  assumes "holds_only K t m" and "t \<le> later" and "\<And>x u. auth_ID (merge base x u) = auth_ID x"
  shows "holds_only K later (fst (update_merged merge m deferred base a now later))"
proof -
  note h = holds_mono [OF assms(1,2)]
  have "holds_only K later (fst (update_core m deferred x (normalized (merge base x u)) now later))"
    if "map_of (mg_auths m) i = Some x" for i x u
    using holds_core [OF assms(1) _ assms(2)] holds_get [OF assms(1) that] assms(3) by simp
  with h show ?thesis by (auto simp: update_merged_def split: option.split)
qed

lemma holds_refresh:
  assumes "holds_only K t m" and "t \<le> later"
  shows "holds_only K later (fst (tryRefreshAfterUnauthorized unmarshal expiry should executors m deferred auth err tried answer now later))"
proof -
  note h = holds_mono [OF assms]
  have failed: "holds_only K later (upsertAuth (m\<lparr>mg_auths := AList.update i (refresh_failed e now a) (mg_auths m)\<rparr>)
      (refresh_failed e now a) later)" if "map_of (mg_auths m) i = Some a" for i e a
    using holds_upsert [OF holds_store [OF assms(1)] _ assms(2)] holds_get [OF assms(1) that]
    by (simp add: refresh_failed_def Let_def)
  have "holds_only K later (fst (UpdateRefreshedAuth expiry m deferred a u now later))" for a u
    unfolding UpdateRefreshedAuth_def by (rule holds_merged [OF assms]) simp
  then have "holds_only K later m1" if "UpdateRefreshedAuth expiry m deferred a u now later = (m1, r)" for a u m1 r
    using that by (metis fst_conv)
  with h failed show ?thesis
    by (auto simp: tryRefreshAfterUnauthorized_def refreshAuthForRequest_def Let_def
        split: sum.split prod.split update_result.split option.split)
qed

lemma holds_prepare:
  assumes "holds_only K t m" and "t \<le> later"
  shows "holds_only K later (fst (PrepareRequestAuth expiry prep m deferred auth now later))"
proof -
  have "holds_only K later (fst (UpdatePreparedAuth expiry m deferred a u now later))" for a u
    unfolding UpdatePreparedAuth_def by (rule holds_merged [OF assms]) simp
  then have "holds_only K later m1" if "UpdatePreparedAuth expiry m deferred a u now later = (m1, r)" for a u m1 r
    using that by (metis fst_conv)
  with holds_mono [OF assms] show ?thesis
    by (auto simp: PrepareRequestAuth_def Let_def split: sum.split prod.split option.split update_result.split)
qed


section \<open>Picks\<close>

lemma holds_rebuild_pick:
  assumes "holds_only K t m" and "mono clock" and "t \<le> clock (0::nat)"
    and "with_rebuild (\<lambda>s clk. pickMixedWithStrategy s providers model rq None (clk 0) (clk 1) (clk 2)) m model0 clock = (m', r)"
  shows "holds_only K (clock 6) m' \<and> (\<forall>a pk. r = Inr (a, pk) \<longrightarrow> auth_ID a \<in> K \<and> auth_ID a \<notin> set (rq_tried rq))"
proof -
  have le: "clock i \<le> clock j" if "i \<le> j" for i j using assms(2) that by (rule monoD)
  note h = assms(1) [unfolded holds_only_def]
  obtain s1 r1 where p: "pickMixedWithStrategy (mg_scheduler m) providers model rq None (clock 0) (clock 1) (clock 2) = (s1, r1)"
    by force
  have 1: "sched_reach (clock 2) s1" "lists_within K s1"
    "\<forall>a pk. r1 = Inr (a, pk) \<longrightarrow> auth_ID a \<in> K \<and> auth_ID a \<notin> set (rq_tried rq)"
    using mixed_within [OF _ _ assms(3) le le p] h by auto
  then have m1: "holds_only K (clock 2) (m\<lparr>mg_scheduler := s1\<rparr>)" using h by (simp add: holds_only_def)
  show ?thesis
  proof (cases "\<exists>err. r1 = Inl err \<and> model0 \<noteq> [] \<and> shouldRetrySchedulerPick err")
    case False
    with assms(4) p 1(3) holds_mono [OF m1 le, of 6] show ?thesis by (auto simp: with_rebuild_def split: sum.splits if_splits)
  next
    case True
    define m2 where "m2 = syncScheduler (m\<lparr>mg_scheduler := s1\<rparr>) (clock 3)"
    have m2: "holds_only K (clock 3) m2" unfolding m2_def by (rule holds_sync [OF m1 le]) simp
    from m2 have m2': "sched_reach (clock 3) (mg_scheduler m2)" "lists_within K (mg_scheduler m2)" by (simp_all add: holds_only_def)
    obtain s2 r2 where q: "pickMixedWithStrategy (mg_scheduler m2) providers model rq None (clock 4) (clock 5) (clock 6) = (s2, r2)"
      by force
    have "holds_only K (clock 6) (m2\<lparr>mg_scheduler := s2\<rparr>)"
      "\<forall>a pk. r2 = Inr (a, pk) \<longrightarrow> auth_ID a \<in> K \<and> auth_ID a \<notin> set (rq_tried rq)"
      using mixed_within [OF m2' le le le q] m2 by (auto simp: holds_only_def)
    moreover have "m' = m2\<lparr>mg_scheduler := s2\<rparr>" "r = r2"
      using assms(4) p q True by (auto simp: with_rebuild_def Let_def m2_def)
    ultimately show ?thesis by simp
  qed
qed

lemma holds_pick:
  assumes "holds_only K t (cd_manager c)" and "mono clock" and "t \<le> clock (0::nat)"
    and "pickNextMixed unmarshal c providers model rq clock = (c', r)"
  shows "holds_only K (clock 6) (cd_manager c') \<and>
    (\<forall>a pk. r = Inr (a, pk) \<longrightarrow> auth_ID a \<in> K \<and> auth_ID a \<notin> set (rq_tried rq))"
proof -
  have le: "clock 0 \<le> clock j" for j using assms(2) by (simp add: monoD)
  have "0 \<le> t" using sched_reach_inv assms(1) by (auto simp: holds_only_def sched_inv_def)
  then have pos: "0 \<le> clock 1" using assms(3) le [of 1] by linarith
  have later: "holds_only K (clock 6) (cd_manager c)"
    by (rule holds_mono [OF assms(1)]) (use assms(3) le [of 6] in linarith)
  define eligible where "eligible = eligible_loop c providers []"
  let ?scan = "needs_scan unmarshal (cd_manager c) eligible model rq"
  consider "eligible = []" | "eligible \<noteq> []" "?scan" | "eligible \<noteq> []" "\<not> ?scan" by blast
  then show ?thesis
  proof cases
    case 1
    with assms(4) later show ?thesis by (auto simp: pickNextMixed_def eligible_def [symmetric])
  next
    case 2
    then have l: "pickNextMixedLegacy unmarshal c providers model rq clock = (c', r)"
      using assms(4) by (simp add: pickNextMixed_def eligible_def [symmetric])
    let ?cands = "filter (mixed_candidate unmarshal c (provider_key_set providers) model rq) (all_auths (cd_manager c))"
    obtain c1 x where s: "select_from unmarshal c ?cands ''mixed'' model (rq_downstreamWebsocket rq) clock = (c1, x)" by force
    have "auth_ID a \<in> K \<and> auth_ID a \<notin> set (rq_tried rq)" if "x = Inr a" for a
      using select_from_sound(1) [OF s [unfolded that] pos] assms(1)
      by (auto simp: mixed_candidate_def Let_def holds_only_def all_auths_def split: if_splits)
    moreover have "cd_manager c1 = cd_manager c" using select_from_frame [OF s] by simp
    ultimately show ?thesis using l s later
      by (auto simp: pickNextMixedLegacy_def Let_def split: if_splits sum.splits)
  next
    case 3
    obtain m x where w: "with_rebuild (\<lambda>s clk. pickMixedWithStrategy s eligible model rq None (clk 0) (clk 1) (clk 2))
        (cd_manager c) model clock = (m, x)" by force
    from holds_rebuild_pick [OF assms(1-3) w] 3 assms(4) w show ?thesis
      by (auto simp: pickNextMixed_def eligible_def [symmetric] split: sum.splits if_splits)
  qed
qed

section \<open>What stays true of every record\<close>

definition all_hold :: "(Auth \<Rightarrow> bool) \<Rightarrow> Manager \<Rightarrow> bool" where
  "all_hold Q m \<longleftrightarrow> (\<forall>x \<in> set (mg_auths m). Q (snd x))"

text \<open>
  The clock does not go back; \<open>Q\<close> is a condition on the metadata of a credential, which the refreshes and the
  preparations of this run keep.
\<close>

definition steady :: "(Auth \<Rightarrow> bool) \<Rightarrow> 'r environment \<Rightarrow> bool" where
  "steady Q env \<longleftrightarrow> mono (en_clock env) \<and> (\<forall>a b. auth_Metadata a = auth_Metadata b \<longrightarrow> Q a = Q b)
     \<and> (\<forall>m executors auth err tried k now later. all_hold Q m \<longrightarrow>
          all_hold Q (fst (tryRefreshAfterUnauthorized (en_unmarshal env) (en_expiry env) (en_shouldRefresh env) executors m False
            auth err tried (en_refresh env k) now later)))
     \<and> (\<forall>m k provider prep auth now later. en_preparer env k provider = Some prep \<longrightarrow> all_hold Q m \<longrightarrow>
          all_hold Q (fst (PrepareRequestAuth (en_expiry env) prep m False auth now later)))"

lemma steady_mono: "steady Q env \<Longrightarrow> mono (en_clock env)"
  and steady_metadata: "steady Q env \<Longrightarrow> auth_Metadata a = auth_Metadata b \<Longrightarrow> Q a = Q b"
  and steady_refresh: "steady Q env \<Longrightarrow> all_hold Q m \<Longrightarrow>
    all_hold Q (fst (tryRefreshAfterUnauthorized (en_unmarshal env) (en_expiry env) (en_shouldRefresh env) executors m False
      auth err tried (en_refresh env k) now later))"
  and steady_prepare: "steady Q env \<Longrightarrow> en_preparer env k provider = Some prep \<Longrightarrow> all_hold Q m \<Longrightarrow>
    all_hold Q (fst (PrepareRequestAuth (en_expiry env) prep m False auth now later))"
  unfolding steady_def by blast+

lemma steady_any: "mono (en_clock env) \<Longrightarrow> steady (\<lambda>_. True) env"
  by (simp add: steady_def all_hold_def)

lemma metadata_aggregated [simp]:
  "auth_Metadata (updateAggregatedAvailability now a) = auth_Metadata a"
  "auth_Metadata (count_result r now a) = auth_Metadata a" "auth_Metadata (note_auth jb r a) = auth_Metadata a"
  "auth_Metadata (propagate_auth now next a) = auth_Metadata a"
  "auth_Metadata (auth_failure_by_status cfg st ra now d a) = auth_Metadata a"
  by (simp_all add: updateAggregatedAvailability_def clearAggregatedAvailability_def count_result_def note_auth_def
      propagate_auth_def auth_failure_by_status_def Let_def split: option.split prod.split)

lemma metadata_failure [simp]:
  "auth_Metadata (applyAuthFailureState cfg jb e ra now d a) = auth_Metadata a"
  by (simp add: applyAuthFailureState_def Let_def split: option.split prod.split)

lemma metadata_mark [simp]: "auth_Metadata (mark_auth cfg jb sk h r now a) = auth_Metadata a"
proof -
  have "auth_Metadata (fail_model cfg jb r now d k b) = auth_Metadata b" for d k b
    by (simp add: fail_model_def Let_def split: prod.split)
  then have "auth_Metadata (apply_result cfg jb r now k b) = auth_Metadata b" for k b
    by (simp add: apply_result_def succeed_model_def clearAuthStateOnSuccess_def Let_def split: prod.split)
  then show ?thesis by (simp add: mark_auth_def observe_result_def Let_def)
qed

lemma all_hold_get: "all_hold Q m \<Longrightarrow> map_of (mg_auths m) i = Some a \<Longrightarrow> Q a"
  by (force simp: all_hold_def dest: map_of_SomeD)

lemma all_hold_store: "all_hold Q m \<Longrightarrow> Q b \<Longrightarrow> mg_auths m' = AList.update i b (mg_auths m) \<Longrightarrow> all_hold Q m'"
  by (auto simp: all_hold_def dest: set_update)

lemma all_hold_mark:
  assumes "steady Q env" and "all_hold Q m"
  shows "all_hold Q (MarkResult unmarshal jb policy m r headers now later)"
proof -
  have "Q (mark_auth cfg jb sk headers (policy r) now a)" if "map_of (mg_auths m) i = Some a" for cfg sk a i
    using steady_metadata [OF assms(1), of "mark_auth cfg jb sk headers (policy r) now a" a] all_hold_get [OF assms(2) that] by simp
  then show ?thesis using assms(2) by (auto simp: MarkResult_def Let_def split: option.split intro!: all_hold_store [OF assms(2)])
qed

lemma all_hold_neutral:
  assumes "steady Q env" and "all_hold Q m"
  shows "all_hold Q (recordAvailabilityNeutralResult m r now)"
proof -
  have "Q ((count_result r now a)\<lparr>auth_Generation := g, auth_UpdatedAt := now\<rparr>)" if "map_of (mg_auths m) i = Some a" for a i g
    using steady_metadata [OF assms(1), of "(count_result r now a)\<lparr>auth_Generation := g, auth_UpdatedAt := now\<rparr>" a]
      all_hold_get [OF assms(2) that] by simp
  then show ?thesis using assms(2)
    by (auto simp: recordAvailabilityNeutralResult_def Let_def split: option.split intro!: all_hold_store [OF assms(2)])
qed

lemma rebuild_auths: "with_rebuild pick m k clock = (m', x) \<Longrightarrow> mg_auths m' = mg_auths m"
  by (auto simp: with_rebuild_def syncScheduler_def Let_def split: prod.splits sum.splits if_splits)

lemma pick_auths:
  assumes "pickNextMixed unmarshal c providers model rq clock = (c', r)"
  shows "mg_auths (cd_manager c') = mg_auths (cd_manager c)"
proof -
  have "mg_auths (cd_manager c') = mg_auths (cd_manager c)"
    if "pickNextMixedLegacy unmarshal c providers model rq clock = (c', r)"
  proof -
    obtain c1 x where "select_from unmarshal c
        (filter (mixed_candidate unmarshal c (provider_key_set providers) model rq) (all_auths (cd_manager c)))
        ''mixed'' model (rq_downstreamWebsocket rq) clock = (c1, x)" by force
    with that select_from_frame [OF this] show ?thesis
      by (auto simp: pickNextMixedLegacy_def Let_def split: if_splits sum.splits)
  qed
  then show ?thesis using assms rebuild_auths
    by (auto simp: pickNextMixed_def Let_def split: if_splits prod.splits sum.splits)
qed

section \<open>One credential\<close>

definition tends :: "string set \<Rightarrow> (Auth \<Rightarrow> bool) \<Rightarrow> 'r environment \<Rightarrow> nat \<Rightarrow> run_state \<Rightarrow> bool" where
  "tends K Q env n st \<longleftrightarrow> holds_only K (en_clock env (st_tick st + n)) (st_manager st) \<and> all_hold Q (st_manager st)"

text \<open>What an attempt leaves as it is.\<close>

definition same_round :: "run_state \<Rightarrow> run_state \<Rightarrow> bool" where
  "same_round st st' \<longleftrightarrow> st_tried st' = st_tried st \<and> st_attempted st' = st_attempted st
     \<and> st_published st' = st_published st"

definition attempt_ok :: "string set \<Rightarrow> (Auth \<Rightarrow> bool) \<Rightarrow> 'r environment \<Rightarrow> nat \<Rightarrow> run_state \<Rightarrow> run_state \<Rightarrow> bool" where
  "attempt_ok K Q env n st st' \<longleftrightarrow> tends K Q env n st' \<and> same_round st st' \<and> st_tick st' = st_tick st"

lemma tends_mono: "steady Q env \<Longrightarrow> tends K Q env n st \<Longrightarrow> n \<le> n' \<Longrightarrow> tends K Q env n' st"
  using holds_mono [of K "en_clock env (st_tick st + n)" _ "en_clock env (st_tick st + n')"]
    monoD [OF steady_mono, of Q env "st_tick st + n" "st_tick st + n'"] by (simp add: tends_def)

lemma tends_forward: "tends K Q env n st \<Longrightarrow> steady Q env \<Longrightarrow> n \<le> k \<Longrightarrow> tends K Q env 0 (forward k st)"
  using tends_mono [of Q env K n st k] by (simp add: tends_def forward_def)

lemma same_round_refl [simp]: "same_round st st" by (simp add: same_round_def)
lemma same_round_trans: "same_round a b \<Longrightarrow> same_round b c \<Longrightarrow> same_round a c" by (simp add: same_round_def)
lemma same_round_forward [simp]: "same_round a (forward k b) = same_round a b" by (simp add: same_round_def forward_def)

lemma mark_ok:
  assumes "steady Q env" and "tends K Q env n st" and "n \<le> Suc k"
  shows "attempt_ok K Q env (Suc k) st (mark env st r k)"
proof -
  have "en_clock env (st_tick st + n) \<le> en_clock env (st_tick st + Suc k)" using steady_mono [OF assms(1)] assms(3) by (simp add: monoD)
  from holds_mark [OF conjunct1 [OF assms(2) [unfolded tends_def]] this] show ?thesis
    using assms(2) all_hold_mark [OF assms(1)] by (simp add: attempt_ok_def mark_def with_manager_def tends_def same_round_def)
qed


lemma attempt_mono: "steady Q env \<Longrightarrow> attempt_ok K Q env n st st' \<Longrightarrow> n \<le> n' \<Longrightarrow> attempt_ok K Q env n' st st'"
  by (auto simp: attempt_ok_def intro: tends_mono)

lemma attempt_trans: "attempt_ok K Q env n a b \<Longrightarrow> attempt_ok K Q env n' b c \<Longrightarrow> attempt_ok K Q env n' a c"
  by (simp add: attempt_ok_def same_round_def)

lemma attempt_tends: "attempt_ok K Q env n a b \<Longrightarrow> tends K Q env n b" by (simp add: attempt_ok_def)

lemma call_ok: "tends K Q env n st \<Longrightarrow> call_executor env k auth model st = (st', r) \<Longrightarrow> attempt_ok K Q env n st st'"
  by (auto simp: call_executor_def attempt_ok_def tends_def same_round_def Let_def split: sum.splits if_splits)

lemma record_error_ok:
  assumes "steady Q env" and "tends K Q env 1 st" and "record_error env counting req att auth execModel resultModel err st = (st', v)"
  shows "attempt_ok K Q env 3 st st'"
proof -
  have "attempt_ok K Q env 1 st (with_manager st (recordAvailabilityNeutralResult (st_manager st) r now))" for r now
    using assms(2) holds_neutral all_hold_neutral [OF assms(1)]
    by (simp add: attempt_ok_def tends_def with_manager_def same_round_def)
  then have "attempt_ok K Q env 3 st (with_manager st (recordAvailabilityNeutralResult (st_manager st) r now))" for r now
    by (rule attempt_mono [OF assms(1)]) simp
  moreover have "attempt_ok K Q env 3 st (mark env st r 2)" for r
    using mark_ok [OF assms(1,2), of 2] by (simp add: numeral_3_eq_3 numeral_2_eq_2)
  ultimately show ?thesis using assms(3) by (auto simp: record_error_def Let_def split: prod.splits if_splits)
qed

lemma conclude_ok:
  assumes "steady Q env" and "tends K Q env 1 st"
    and "conclude env counting req att auth upstreamModel execModel resultModel st answer = (st', v)"
  shows "attempt_ok K Q env 3 st st'"
proof -
  have "attempt_ok K Q env 1 st st" using assms(2) by (simp add: attempt_ok_def)
  then have "attempt_ok K Q env 3 st st" by (rule attempt_mono [OF assms(1)]) simp
  moreover have "attempt_ok K Q env 3 st (record_success env counting att auth resultModel st)"
    unfolding record_success_def using mark_ok [OF assms(1,2), of 2] by (simp add: numeral_3_eq_3 numeral_2_eq_2)
  ultimately show ?thesis
    using assms(3) record_error_ok [OF assms(1,2)] by (auto simp: conclude_def split: option.splits sum.splits)
qed

lemma retry_ok:
  assumes "steady Q env" and "tends K Q env 0 st"
    and "refresh_and_retry env auth refreshed execModel err st = (st', auth', refreshed', r)"
  shows "attempt_ok K Q env 1 st st'"
proof -
  obtain m x where t: "tryRefreshAfterUnauthorized (en_unmarshal env) (en_expiry env) (en_shouldRefresh env)
      (cd_executors (st_cond st)) (st_manager st) False auth err refreshed (en_refresh env (st_tick st))
      (en_clock env (st_tick st)) (en_clock env (st_tick st + 1)) = (m, x)" by force
  have "en_clock env (st_tick st + 0) \<le> en_clock env (st_tick st + 1)" using steady_mono [OF assms(1)] by (simp add: monoD)
  from holds_refresh [OF conjunct1 [OF assms(2) [unfolded tends_def]] this] t
  have "holds_only K (en_clock env (st_tick st + 1)) m" by (metis fst_conv)
  moreover have "all_hold Q m" using steady_refresh [OF assms(1)] assms(2) t unfolding tends_def by (metis fst_conv)
  ultimately have m: "attempt_ok K Q env 1 st (with_manager st m)"
    by (simp add: attempt_ok_def tends_def with_manager_def same_round_def)
  with assms(3) t show ?thesis
    using attempt_trans [OF m call_ok [OF attempt_tends [OF m]]]
    by (auto simp: refresh_and_retry_def split: option.splits prod.splits)
qed

lemma try_model_ok:
  assumes "steady Q env" and "tends K Q env 0 st"
    and "try_model env counting req att auth refreshed upstreamModel st = (st', auth', refreshed', v)"
  shows "attempt_ok K Q env 3 st st'"
proof -
  have up: "attempt_ok K Q env 3 a b" if "attempt_ok K Q env n a b" "n \<le> 3" for n a b
    using attempt_mono [OF assms(1) that(1,2)] .
  have fin: "attempt_ok K Q env 3 a c" if "attempt_ok K Q env n a b" "n \<le> 1"
      "conclude env counting req att x upstreamModel y z b r = (c, v)" for n a b c x y z r
    by (rule attempt_trans [OF that(1) conclude_ok [OF assms(1) tends_mono [OF assms(1) attempt_tends [OF that(1)] that(2)] that(3)]])
  have self: "attempt_ok K Q env 0 st st" using assms(2) by (simp add: attempt_ok_def)
  show ?thesis
  proof (cases "en_intercept env (st_tick st) auth
      (case executionModelForAuthSelection req of Some model \<Rightarrow> model | None \<Rightarrow> upstreamModel)")
    case (Some err)
    with assms(3) up [OF self] show ?thesis by (auto simp: try_model_def Let_def)
  next
    case None
    obtain st1 r where c: "call_executor env (st_tick st) auth
        (case executionModelForAuthSelection req of Some model \<Rightarrow> model | None \<Rightarrow> upstreamModel) st = (st1, r)" by force
    note c1 = call_ok [OF assms(2) c]
    have t1: "st_tick st1 = st_tick st" using c1 by (simp add: attempt_ok_def)
    have retry: "attempt_ok K Q env 1 st st2" if "refresh_and_retry env auth refreshed m e st1 = (st2, a, b, x)" for m e st2 a b x
      using attempt_trans [OF c1 retry_ok [OF assms(1) attempt_tends [OF c1] that]] .
    show ?thesis
      using assms(3) None c up [OF c1] up [OF retry] fin [OF c1] fin [OF retry]
      by (auto simp: try_model_def Let_def split: sum.splits option.splits prod.splits)
  qed
qed


lemma models_ok:
  assumes "steady Q env" and "tends K Q env 0 st"
    and "models_loop env counting req att auth refreshed models authErr st = (st', auth', r)"
  shows "tends K Q env 0 st' \<and> same_round st st'"
  using assms(2,3)
proof (induction models arbitrary: auth refreshed authErr st)
  case (Cons model models)
  obtain st1 a b v where t: "try_model env counting req att auth refreshed model st = (st1, a, b, v)" by (metis prod_cases4)
  note k = try_model_ok [OF assms(1) Cons.prems(1) t]
  have f: "tends K Q env 0 (forward 8 st1)" by (rule tends_forward [OF attempt_tends [OF k] assms(1)]) simp
  have "same_round st st1" using k by (simp add: attempt_ok_def)
  with Cons.prems(2) t f Cons.IH [OF f] show ?case by (cases v) (auto simp: same_round_def forward_def)
qed simp

lemma after_models_ok:
  "after_models env counting req auth authErr st = (st', r) \<Longrightarrow> st_cond st' = st_cond st \<and> st_tick st' = st_tick st \<and> same_round st st'"
  by (auto simp: after_models_def same_round_def Let_def split: option.splits if_splits)

lemma prepare_ok:
  assumes "steady Q env" and "tends K Q env 8 st" and "prepare_auth env provider auth st = (st', r)"
  shows "attempt_ok K Q env 9 st st'"
proof -
  have le: "en_clock env (st_tick st + 8) \<le> en_clock env (st_tick st + 9)" using steady_mono [OF assms(1)] by (simp add: monoD)
  note h = conjunct1 [OF assms(2) [unfolded tends_def]] and q = conjunct2 [OF assms(2) [unfolded tends_def]]
  show ?thesis
  proof (cases "en_preparer env (st_tick st) provider")
    case None
    with holds_mono [OF h le] q assms(3) show ?thesis
      by (auto simp: prepare_auth_def attempt_ok_def tends_def same_round_def)
  next
    case (Some prep)
    obtain m p where p: "PrepareRequestAuth (en_expiry env) prep (st_manager st) False auth
        (en_clock env (st_tick st + 8)) (en_clock env (st_tick st + 9)) = (m, p)" by (metis surj_pair)
    with holds_prepare [OF h le] have "holds_only K (en_clock env (st_tick st + 9)) m" by (metis fst_conv)
    moreover have "all_hold Q m" using steady_prepare [OF assms(1) Some q] p by (metis fst_conv)
    ultimately show ?thesis using Some p assms(3)
      by (auto simp: prepare_auth_def attempt_ok_def tends_def with_manager_def same_round_def)
  qed
qed

lemma preparation_failed_ok:
  assumes "steady Q env" and "tends K Q env 9 st"
    and "preparation_failed env counting provider routeModel prepared err st = (st', r)"
  shows "attempt_ok K Q env 11 st st'"
proof -
  have m: "attempt_ok K Q env 11 st (mark env st x 10)" for x using mark_ok [OF assms(1,2), of 10 x] by simp
  then have "attempt_ok K Q env 11 st ((mark env st x 10)\<lparr>st_lastErr := e\<rparr>)" for x e
    using m [of x] by (simp add: attempt_ok_def tends_def same_round_def)
  moreover have "attempt_ok K Q env 11 st st" using tends_mono [OF assms(1,2), of 11] by (simp add: attempt_ok_def)
  ultimately show ?thesis using assms(3) by (auto simp: preparation_failed_def Let_def split: option.splits)
qed

lemma try_credential_ok:
  assumes "steady Q env" and "tends K Q env 6 st"
    and "try_credential env counting req routeModel auth provider st = (st', r)"
  shows "tends K Q env 0 st' \<and> st_tried st' = auth_ID auth # st_tried st
    \<and> st_attempted st' \<in> {st_attempted st, List.insert (auth_ID auth) (st_attempted st)}"
proof -
  obtain router models pooled al where m: "preparedExecutionModelsWithAlias (en_unmarshal env)
      (mg_router (st_manager st)) auth routeModel (en_clock env (st_tick st + 7)) = (router, models, pooled, al)"
    by (metis prod_cases4)
  define st0 where "st0 = st\<lparr>st_tried := auth_ID auth # st_tried st,
    st_published := (if trim_space (auth_ID auth) = [] then st_published st
      else List.insert (trim_space (auth_ID auth)) (st_published st))\<rparr>"
  define st1 where "st1 = with_manager st0 ((st_manager st0)\<lparr>mg_router := router\<rparr>)"
  define st2 where "st2 = st1\<lparr>st_attempted := List.insert (auth_ID auth) (st_attempted st1)\<rparr>"
  have 8: "tends K Q env 8 st" using tends_mono [OF assms(1,2)] by simp
  have st2: "tends K Q env 8 st2" and st1: "tends K Q env 8 st1"
    using 8 by (simp_all add: tends_def all_hold_def st0_def st1_def st2_def with_manager_def)
  note f = tends_forward [OF _ assms(1), of K _ _ 16]
  obtain st3 prepared err where p: "prepare_auth env provider auth st2 = (st3, prepared, err)" by (metis prod_cases3)
  note 3 = prepare_ok [OF assms(1) st2 p]
  have t3: "tends K Q env 9 st3" "same_round st2 st3" using 3 by (simp_all add: attempt_ok_def)
  have eq: "try_credential env counting req routeModel auth provider st = (if models = [] then (forward 16 st1, None)
      else case (st3, prepared, err) of
        (st3, prepared, Some err) \<Rightarrow> map_prod (forward 16) (\<lambda>r. r) (preparation_failed env counting provider routeModel prepared err st3)
      | (st3, None, None) \<Rightarrow> (forward 16 st3, Some Panicked)
      | (st3, Some auth', None) \<Rightarrow>
          (case models_loop env counting req \<lparr>at_provider = provider, at_routeModel = routeModel, at_pooled = pooled, at_alias = al\<rparr>
                  auth' False models None (forward 16 st3) of
             (st4, auth'', Inl result) \<Rightarrow> (st4, Some result)
           | (st4, auth'', Inr authErr) \<Rightarrow> after_models env counting req auth'' authErr st4))"
    using m p unfolding try_credential_def Let_def st0_def [symmetric] by (simp add: st1_def st2_def st0_def)
  have fin: ?thesis if "tends K Q env 0 st'" "same_round st2 st'"
    using that by (simp add: same_round_def st2_def st1_def st0_def with_manager_def)
  consider "models = []" | "models \<noteq> []" "err = None" "prepared = None"
    | e where "models \<noteq> []" "err = Some e" | a where "models \<noteq> []" "err = None" "prepared = Some a"
    by (metis option.exhaust)
  then show ?thesis
  proof cases
    case 1
    with assms(3) eq have "st' = forward 16 st1" by simp
    with f [OF st1] show ?thesis by (simp add: forward_def st1_def st0_def with_manager_def)
  next
    case 2
    with assms(3) eq have "st' = forward 16 st3" by simp
    with f [OF t3(1)] t3(2) show ?thesis by (intro fin) simp_all
  next
    case 3
    obtain st4 x where q: "preparation_failed env counting provider routeModel prepared e st3 = (st4, x)" by force
    note k = preparation_failed_ok [OF assms(1) t3(1) q]
    have "st' = forward 16 st4" using assms(3) eq 3 q by (auto split: option.splits)
    with k f [OF attempt_tends [OF k]] same_round_trans [OF t3(2)] show ?thesis by (intro fin) (simp_all add: attempt_ok_def)
  next
    case 4
    obtain st4 b x where l: "models_loop env counting req \<lparr>at_provider = provider, at_routeModel = routeModel,
        at_pooled = pooled, at_alias = al\<rparr> a False models None (forward 16 st3) = (st4, b, x)" by (metis prod_cases3)
    from models_ok [OF assms(1) f [OF t3(1)] l] have 5: "tends K Q env 0 st4" "same_round st2 st4"
      using same_round_trans [OF t3(2), of st4] by (simp_all add: same_round_def forward_def)
    from assms(3) eq 4 l have "st' = st4 \<or> (\<exists>e r. after_models env counting req b e st4 = (st', r))"
      by (auto split: sum.splits)
    then have "tends K Q env 0 st' \<and> same_round st4 st'" using 5(1) after_models_ok by (fastforce simp: tends_def)
    with 5(2) same_round_trans show ?thesis by (intro fin) blast+
  qed
qed

section \<open>A round\<close>

text \<open>
  What a round comes to: it attempted no more credentials than configured, each once, all of them
  held when it began and none that the round excludes; the manager still holds no others.
\<close>

definition round_done :: "string set \<Rightarrow> (Auth \<Rightarrow> bool) \<Rightarrow> string set \<Rightarrow> int \<Rightarrow> 'r environment \<Rightarrow> run_state \<Rightarrow> bool" where
  "round_done K Q X limit env st \<longleftrightarrow> tends K Q env 0 st \<and> distinct (st_attempted st)
     \<and> set (st_attempted st) \<subseteq> K - X \<and> (limit > 0 \<longrightarrow> int (length (st_attempted st)) \<le> limit)"

lemma credentials_loop_ends:
  assumes "steady Q env" and "finite K"
  shows "round_done K Q X limit env st \<Longrightarrow> tends K Q env 0 st \<Longrightarrow> X \<subseteq> set (st_tried st)
    \<Longrightarrow> set (st_attempted st) \<subseteq> set (st_tried st) \<Longrightarrow> card (K - set (st_tried st)) < fuel
    \<Longrightarrow> \<exists>st' r. credentials_loop fuel env counting req providers limit st = Some (st', r) \<and> round_done K Q X limit env st'"
proof (induction fuel arbitrary: st)
  case (Suc fuel)
  show ?case
  proof (cases "limit > 0 \<and> int (length (st_attempted st)) \<ge> limit")
    case True
    with Suc.prems(1) show ?thesis by simp
  next
    case False
    define clock where "clock = (\<lambda>n. en_clock env (st_tick st + n))"
    obtain c x where p: "pickNextMixed (en_unmarshal env) (st_cond st) providers (authSelectionModelFromOptions req)
        (pick_request_of req (st_tried st)) clock = (c, x)" by force
    have "mono clock" using steady_mono [OF assms(1)] by (simp add: clock_def mono_def)
    moreover have "holds_only K (clock 0) (cd_manager (st_cond st))" using Suc.prems(2) by (simp add: tends_def clock_def)
    ultimately have h: "holds_only K (clock 6) (cd_manager c)"
      and new: "\<And>a pk. x = Inr (a, pk) \<Longrightarrow> auth_ID a \<in> K \<and> auth_ID a \<notin> set (st_tried st)"
      using holds_pick [OF _ _ order_refl p] by (auto simp: pick_request_of_def request_of_def)
    have t: "tends K Q env 6 (st\<lparr>st_cond := c\<rparr>)"
      using h pick_auths [OF p] Suc.prems(2) by (simp add: tends_def clock_def all_hold_def)
    show ?thesis
    proof (cases x)
      case (Inl failure)
      then show ?thesis using False p tends_forward [OF t assms(1), of 8] Suc.prems(1)
        by (auto simp: clock_def round_done_def forward_def)
    next
      case (Inr ap)
      obtain a pk where ap: "ap = (a, pk)" by force
      obtain st1 r where c: "try_credential env counting req (authSelectionModelFromOptions req) a pk (st\<lparr>st_cond := c\<rparr>) = (st1, r)"
        by force
      note k = try_credential_ok [OF assms(1) t c]
      have a: "auth_ID a \<in> K" "auth_ID a \<notin> set (st_tried st)" using new Inr ap by simp_all
      have "auth_ID a \<notin> set (st_attempted st)" using a(2) Suc.prems(4) by blast
      then have k: "tends K Q env 0 st1" "st_tried st1 = auth_ID a # st_tried st"
        "st_attempted st1 = st_attempted st \<or> st_attempted st1 = auth_ID a # st_attempted st" using k by auto
      have done1: "round_done K Q X limit env st1"
        using k(3) \<open>auth_ID a \<notin> set (st_attempted st)\<close> a Suc.prems(1,3) False k(1)
        unfolding round_done_def by (elim disjE) auto
      show ?thesis
      proof (cases r)
        case (Some result)
        then show ?thesis using False p Inr ap c done1 by (auto simp: clock_def)
      next
        case None
        have "K - set (st_tried st1) \<subset> K - set (st_tried st)" using k a by auto
        then have "card (K - set (st_tried st1)) < card (K - set (st_tried st))" by (intro psubset_card_mono) (simp_all add: assms(2))
        then have "card (K - set (st_tried st1)) < fuel" using Suc.prems(5) by linarith
        moreover have "X \<subseteq> set (st_tried st1)" "set (st_attempted st1) \<subseteq> set (st_tried st1)"
          using k(2,3) Suc.prems(3,4) by auto
        ultimately obtain st' r'
          where "credentials_loop fuel env counting req providers limit st1 = Some (st', r')" "round_done K Q X limit env st'"
          using Suc.IH [OF done1 k(1)] by blast
        then show ?thesis using False p Inr ap c None by (auto simp: clock_def)
      qed
    qed
  qed
qed simp

lemma mixed_once_ends:
  assumes "steady Q env" and "finite K" and "tends K Q env 0 st" and "card K < fuel"
  shows "\<exists>st' r. mixed_once fuel env counting req providers limit round_no d st = Some (st', r)
    \<and> (providers \<noteq> [] \<longrightarrow> round_done K Q (set (requestRetryRoundExclusions (st_manager st) round_no d)) limit env st')"
proof (cases "providers = []")
  case False
  let ?st = "start_round st round_no d"
  let ?X = "set (requestRetryRoundExclusions (st_manager st) round_no d)"
  have t: "tends K Q env 0 ?st" using assms(3) by (simp add: tends_def all_hold_def start_round_def)
  have "round_done K Q ?X limit env ?st"
    using t by (simp add: round_done_def start_round_def)
  moreover have "card (K - set (st_tried ?st)) \<le> card K" using assms(2) by (simp add: card_mono)
  ultimately show ?thesis
    using credentials_loop_ends [OF assms(1,2), of ?X limit ?st fuel counting req providers] t assms(4) False
    by (simp add: mixed_once_def start_round_def)
qed (simp add: mixed_once_def)

end
