(* ===== verification/Requests.thy ===== *)
theory Requests
  imports Rounds ManagerPromises
begin

text \<open>
  What a request comes to, from any reachable state of the manager and whatever the executors answer: a
  round ends within the configured number of credentials, a request ends within the retry limits, and
  no credential is worked on that the manager did not hold. The exception is a preparation that the manager
  refuses to store: it ends in a panic.
\<close>

lemma reach_holds:
  assumes "manager_reach unmarshal jb policy t m"
  shows "holds_only (fst ` set (mg_auths m)) t m"
proof -
  have inv: "sched_reach t (mg_scheduler m)" "wf_map (mg_auths m)" "in_step (mg_auths m) (mg_authEpochs m) (mg_scheduler m)"
    using reach_inv [OF assms] by (simp_all add: manager_inv_def)
  have "auth_ID (snd x) \<in> fst ` set (mg_auths m)" if "x \<in> set (mg_auths m)" for x
  proof -
    have "map_of (mg_auths m) (fst x) = Some (snd x)" using inv(2) that by (simp add: wf_map_def)
    with in_step_get(1) [OF inv(3)] that show ?thesis by force
  qed
  moreover have "i \<in> fst ` set (mg_auths m)"
    if "lists_of (mg_scheduler m) pk = Some au" "map_of au i \<noteq> None" for pk au i
  proof -
    have "scheduled (mg_scheduler m) pk i \<noteq> None" using that by (auto simp: scheduled_def lists_of_def)
    moreover have "mirrored (map_of (mg_auths m) i) pk (scheduled (mg_scheduler m) pk i)"
      using inv(3) by (simp add: in_step_def mirrors_def)
    ultimately have "map_of (mg_auths m) i \<noteq> None" by (auto simp: mirrored_def split: option.splits)
    then show ?thesis by (simp add: map_of_eq_None_iff)
  qed
  ultimately show ?thesis using inv(1) unfolding holds_only_def lists_within_def by blast
qed

lemma reach_tends:
  assumes "manager_reach unmarshal jb policy t (st_manager st)" and "t \<le> en_clock env (st_tick st)"
    and "all_hold Q (st_manager st)"
  shows "tends (fst ` set (mg_auths (st_manager st))) Q env 0 st"
  using holds_mono [OF reach_holds [OF assms(1)] assms(2)] assms(3) by (simp add: tends_def)

lemma within_scheduled: "lists_within K s \<Longrightarrow> scheduled s pk i \<noteq> None \<Longrightarrow> i \<in> K"
  by (force simp: lists_within_alt scheduled_def split: option.splits)

lemma card_keys: "card (fst ` set m) \<le> length m"
  by (metis card_length length_map set_map)

lemma round_from_reach:
  assumes "manager_reach unmarshal jb policy t (st_manager st)" and "t \<le> en_clock env (st_tick st)" and "mono (en_clock env)"
    and "length (mg_auths (st_manager st)) < fuel"
  shows "\<exists>st' r. mixed_once fuel env counting req providers limit round_no d st = Some (st', r) \<and> (providers \<noteq> [] \<longrightarrow>
    round_done (fst ` set (mg_auths (st_manager st))) (\<lambda>_. True)
      (set (requestRetryRoundExclusions (st_manager st) round_no d)) limit env st')"
proof (rule mixed_once_ends [OF steady_any [OF assms(3)]])
  show "tends (fst ` set (mg_auths (st_manager st))) (\<lambda>_. True) env 0 st"
    by (rule reach_tends [OF assms(1,2)]) (simp add: all_hold_def)
  show "card (fst ` set (mg_auths (st_manager st))) < fuel" using card_keys [of "mg_auths (st_manager st)"] assms(4) by linarith
qed simp

text \<open>
  C9: A round of a request ends, for execution and for counting alike: from any reachable state of the
  manager, whatever the upstreams answer and however credentials are refreshed, prepared and put to rest meanwhile,
  one pass of the loop more than the manager holds credentials is enough.
\<close>

theorem round_ends:
  assumes "manager_reach unmarshal jb policy t (st_manager st)" and "t \<le> en_clock env (st_tick st)" and "mono (en_clock env)"
    and "length (mg_auths (st_manager st)) < fuel"
  shows "(\<exists>st' r. executeMixedOnce fuel env req providers limit round_no d st = Some (st', r))
    \<and> (\<exists>st' r. executeCountMixedOnce fuel env req providers limit round_no d st = Some (st', r))"
  using round_from_reach [OF assms] unfolding executeMixedOnce_def executeCountMixedOnce_def by blast


text \<open>
  C12: A round is closed: afterwards every record of the manager, and every credential a provider of the
  scheduler lists, is one that the manager held before, and the scheduler is still in a reachable state.
\<close>

theorem round_closed:
  assumes "manager_reach unmarshal jb policy t (st_manager st)" and "t \<le> en_clock env (st_tick st)" and "mono (en_clock env)"
    and "length (mg_auths (st_manager st)) < fuel" and "providers \<noteq> []"
    and "executeMixedOnce fuel env req providers limit round_no d st = Some (st', r)"
  shows "(\<forall>a \<in> set (all_auths (st_manager st')). auth_ID a \<in> fst ` set (mg_auths (st_manager st)))
    \<and> (\<forall>pk i. scheduled (mg_scheduler (st_manager st')) pk i \<noteq> None \<longrightarrow> i \<in> fst ` set (mg_auths (st_manager st)))
    \<and> sched_reach (en_clock env (st_tick st')) (mg_scheduler (st_manager st'))"
proof -
  have "tends (fst ` set (mg_auths (st_manager st))) (\<lambda>_. True) env 0 st'"
    using round_from_reach [OF assms(1-4), of False req providers limit round_no d] assms(5,6)
    by (simp add: executeMixedOnce_def round_done_def)
  then have h: "holds_only (fst ` set (mg_auths (st_manager st))) (en_clock env (st_tick st')) (st_manager st')"
    by (simp add: tends_def)
  then have "\<forall>pk i. scheduled (mg_scheduler (st_manager st')) pk i \<noteq> None \<longrightarrow> i \<in> fst ` set (mg_auths (st_manager st))"
    using within_scheduled unfolding holds_only_def by blast
  with h show ?thesis by (auto simp: holds_only_def all_auths_def)
qed

section \<open>Requests\<close>

lemma rounds_end:
  assumes "steady (\<lambda>a. effectiveRequestRetryLimit a (rt_requestRetry settings) \<le> int L) env" (is "steady ?Q env")
    and "finite K" and "card K < fuel" and "providers \<noteq> []"
  shows "tends K ?Q env 0 st \<Longrightarrow> round_no \<le> int L \<Longrightarrow> int L < int rounds + round_no \<Longrightarrow>
    \<exists>st' r. rounds_loop rounds fuel env counting req providers settings round_no preferred st = Some (st', r)"
proof (induction rounds arbitrary: st round_no preferred)
  case (Suc rounds)
  obtain st1 r where m: "mixed_once fuel env counting req providers (rt_maxRetryCredentials settings) round_no
        (rt_requestRetry settings) st = Some (st1, r)" and t: "tends K ?Q env 0 st1"
    using mixed_once_ends [OF assms(1,2) Suc.prems(1) assms(3), of counting req providers "rt_maxRetryCredentials settings"
        round_no "rt_requestRetry settings"] assms(4) unfolding round_done_def by blast
  have f: "tends K ?Q env 0 (forward 3 st1)" by (rule tends_forward [OF t assms(1)]) simp
  have next_round: "round_no + 1 \<le> int L"
    if "shouldRetryAfterErrorWithAttempted u jb (st_manager st1) err round_no rq maxWait (rt_requestRetry settings) x n1 n2 = Some w"
    for u jb err rq maxWait x n1 n2 w
  proof -
    have "round_no < retry_bound (st_manager st1) (rt_requestRetry settings)" by (rule retry_within_bound [OF that])
    also have "\<dots> \<le> int L" using t by (auto simp: retry_bound_def tends_def all_hold_def all_auths_def)
    finally show ?thesis by simp
  qed
  have "int L < int rounds + (round_no + 1)" using Suc.prems(3) by simp
  note again = Suc.IH [OF f next_round this]
  show ?case using m again by (auto simp: Let_def split: outcome.split option.split)
qed simp


section \<open>A refused preparation\<close>


section \<open>Examples\<close>

definition quiet :: "(nat \<Rightarrow> Auth \<Rightarrow> string \<Rightarrow> go_error + string) \<Rightarrow> preparer option \<Rightarrow> string environment" where
  "quiet answer preparer = \<lparr>en_unmarshal = (\<lambda>_. None), en_bodies = no_bodies, en_decode = (\<lambda>_. []), en_regex = (\<lambda>_ _. False),
     en_expiry = (\<lambda>_. None), en_shouldRefresh = (\<lambda>_ _. False), en_policy = (\<lambda>r. r), en_summary = (\<lambda>s. s),
     en_cooldownText = (\<lambda>_ _ _ _. ''cooling down''), en_clock = (\<lambda>n. 20 + int n), en_contextErr = (\<lambda>_. None),
     en_waitErr = (\<lambda>_. None), en_call = answer, en_reached = (\<lambda>_. True), en_headers = (\<lambda>_. []),
     en_refresh = (\<lambda>_. Inl (errors_New ''refresh refused'')), en_preparer = (\<lambda>_ _. preparer),
     en_intercept = (\<lambda>_ _ _. None), en_rewrite = (\<lambda>_ resp. resp)\<rparr>"

definition plain_request :: exec_request where
  "plain_request = \<lparr>xr_Model = [], xr_Metadata = [], xr_Alt = [], xr_requiredKind = [], xr_credentialPolicy = [],
     xr_downstreamWebsocket = False\<rparr>"

definition run_on :: "Manager \<Rightarrow> run_state" where
  "run_on m = \<lparr>st_cond = \<lparr>cd_manager = m, cd_selector = FillFirstState, cd_executors = [''codex'']\<rparr>, st_tick = 0,
     st_tried = [], st_attempted = [], st_lastErr = None, st_upstreamErr = None, st_published = [], st_calls = []\<rparr>"


lemma quiet_clock: "mono (en_clock (quiet answer preparer))" "(20 :: int) \<le> en_clock (quiet answer preparer) n"
  by (simp_all add: mono_def quiet_def)

lemma run_manager [simp]: "st_manager (run_on m) = m" "st_tick (run_on m) = 0"
  by (simp_all add: run_on_def)

lemma one_record: "length (mg_auths one_credential) = 1"
  by code_simp

text \<open>Refreshes that fail and preparations that are not asked for leave the metadata alone.\<close>

lemma steady_quiet:
  assumes "\<And>a b. auth_Metadata a = auth_Metadata b \<Longrightarrow> Q a = Q b"
  shows "steady Q (quiet answer None)"
proof -
  have "all_hold Q (upsertAuth (m\<lparr>mg_auths := AList.update i (refresh_failed err now a) (mg_auths m)\<rparr>) b later)"
    if "all_hold Q m" "map_of (mg_auths m) i = Some a" for m i a err now b later
  proof -
    have "Q (refresh_failed err now a)"
      using assms [of "refresh_failed err now a" a] all_hold_get [OF that] by (simp add: refresh_failed_def Let_def)
    then show ?thesis by (intro all_hold_store [OF that(1)]) (simp_all add: upsertAuth_def)
  qed
  then have "all_hold Q (fst (tryRefreshAfterUnauthorized u x sh ex m False a e tr (Inl err) now later))"
    if "all_hold Q m" for u x sh ex m a e tr err now later
    using that by (auto simp: tryRefreshAfterUnauthorized_def refreshAuthForRequest_def Let_def split: option.split)
  then have refresh: "all_hold Q (fst (tryRefreshAfterUnauthorized u x sh ex m False a e tr
      (en_refresh (quiet answer None) k) now later))" if "all_hold Q m" for u x sh ex m a e tr k now later
    using that by (simp add: quiet_def)
  have none: "en_preparer (quiet answer None) k provider = None" for k provider by (simp add: quiet_def)
  show ?thesis unfolding steady_def
  proof (intro conjI allI impI)
    show "Q a = Q b" if "auth_Metadata a = auth_Metadata b" for a b using assms that .
  qed (rule quiet_clock(1), erule refresh, simp add: none)
qed

lemma limit_metadata:
  assumes "auth_Metadata a = auth_Metadata b"
  shows "effectiveRequestRetryLimit a d = effectiveRequestRetryLimit b d"
proof -
  have "retry_value a key = retry_value b key" for key using assms by (simp add: retry_value_def)
  then show ?thesis by (simp only: effectiveRequestRetryLimit_def RequestRetryOverride_def)
qed

definition failing :: "string environment" where
  "failing = quiet (\<lambda>_ _ _. Inl (errors_New ''refused'')) None"

theorem round_ends_witness:
  "(\<exists>st' r. executeMixedOnce 2 failing plain_request [''codex''] 0 0 0 (run_on one_credential) = Some (st', r))
   \<and> (\<exists>st' r. executeCountMixedOnce 2 failing plain_request [''codex''] 0 0 0 (run_on one_credential) = Some (st', r))"
  by (rule round_ends [of "\<lambda>_. None" no_bodies "\<lambda>r. r" 20])
    (simp_all add: one_reach one_record failing_def quiet_clock)

lemma one_round: "\<exists>st' r. executeMixedOnce 2 failing plain_request [''codex''] 1 0 0 (run_on one_credential) = Some (st', r)"
  using round_from_reach [of "\<lambda>_. None" no_bodies "\<lambda>r. r" 20 "run_on one_credential" failing 2 False plain_request
      "[''codex'']" 1 0 0]
  by (simp add: one_reach one_record failing_def quiet_clock executeMixedOnce_def) blast


theorem round_closed_witness:
  "\<exists>st' r. executeMixedOnce 2 failing plain_request [''codex''] 1 0 0 (run_on one_credential) = Some (st', r)
     \<and> sched_reach (en_clock failing (st_tick st')) (mg_scheduler (st_manager st'))"
proof -
  obtain st' r where e: "executeMixedOnce 2 failing plain_request [''codex''] 1 0 0 (run_on one_credential) = Some (st', r)"
    using one_round by blast
  from round_closed [OF _ _ _ _ _ e, of "\<lambda>_. None" no_bodies "\<lambda>r. r" 20] e show ?thesis
    by (simp add: one_reach one_record failing_def quiet_clock)
qed

definition three_retries :: retry_settings where
  "three_retries = \<lparr>rt_requestRetry = 3, rt_maxRetryCredentials = 0, rt_maxRetryInterval = 0\<rparr>"


definition bad_weight :: preparer where
  "bad_weight = \<lparr>pr_should = (\<lambda>_. True), pr_answer = (\<lambda>a. Inr (Some (a\<lparr>auth_Attributes := [(''weight'', ''heavy'')]\<rparr>)))\<rparr>"


end
