(* ===== verification/Spec2Isabelle.thy ===== *)
theory Spec2Isabelle
  imports Prelude Weights ModelInfo Thinking RecentRequests Credentials Availability Rotation Selectors Shard Scheduler Dispatch ErrorClass Cooldown QuotaSignals Results CooldownStore Registry RegistryCounts RegistryListing Aliases Routing Delivery Manager Lockstep
  ManagerInv MixedCarry ManagerPromises GoErrors RequestRules Merge Refreshing Retry
  Candidates Execution Rounds Requests
begin

text \<open>
  A verification development for the Go proxy under \<open>src/cliproxyapi\<close>: the part of it that decides which
  upstream credential serves a request, what a failure costs a credential, and when a request is tried again.

  \<^bold>\<open>The program.\<close> The proxy holds many credentials (\<open>Auth\<close>) for several providers. A request names a model;
  the manager (\<open>sdk/cliproxy/auth/conductor*.go\<close>) asks the scheduler (\<open>scheduler.go\<close>) or a selector
  (\<open>selector.go\<close>) for a credential, translates the model name for it (\<open>conductor_models.go\<close>,
  \<open>oauth_model_alias.go\<close>), lets an executor call the provider, and records the outcome
  (\<open>conductor_cooldown.go\<close>): a failure cools the credential down for the model or altogether. The outcome goes
  to the scheduler, which keeps per model the credentials that are ready, and to the model registry
  (\<open>internal/registry/model_registry.go\<close>), which counts the clients per model and answers which models are
  available. Credentials are registered, updated, removed, refreshed and loaded while requests run; the registry
  changes under the scheduler; cooldowns survive a restart (\<open>cooldown_state.go\<close>).

  \<^bold>\<open>Theories and code.\<close> Definitions have the names of the Go functions, types and fields; a name of a few
  words in lower case is a part of a function that has been given a name.
  \<^item> \<open>Prelude\<close>: Go maps as association lists, time, strings, numbers; \<open>ModelInfo\<close>: the records of a model.
  \<^item> \<open>Weights\<close> (\<open>internal/credentialweight\<close>, smooth weighted rotation of \<open>selector.go\<close>) and \<open>Rotation\<close>
    (round robin): each rotation and its fairness is proved once in a locale that the selectors and the scheduler
    interpret.
  \<^item> \<open>Thinking\<close> (\<open>internal/thinking\<close>): suffixes of model names, levels and budgets, validation.
  \<^item> \<open>Credentials\<close>, \<open>RecentRequests\<close> (\<open>types.go\<close>, \<open>classification.go\<close>): the record of a credential and its readers.
  \<^item> \<open>Availability\<close>, \<open>Selectors\<close> (\<open>selector.go\<close>): whether a credential is blocked; the selectors.
  \<^item> \<open>Shard\<close>, \<open>Scheduler\<close>, \<open>Dispatch\<close>, \<open>Delivery\<close>, \<open>MixedCarry\<close> (\<open>scheduler.go\<close>): the shard of one model with
    its ready buckets and blocked queue; the scheduler over providers; picks and their reachable states; how a
    snapshot of a credential gets into the shards and what later picks keep of it.
  \<^item> \<open>ErrorClass\<close>, \<open>GoErrors\<close>, \<open>RequestRules\<close> (\<open>conductor_cooldown.go\<close>, \<open>errors.go\<close>, \<open>internal/clienterror\<close>,
    \<open>conductor_request_scoped_errors.go\<close>): the classification of failures, error values as trees, the rules an
    operator sets for errors.
  \<^item> \<open>Cooldown\<close>, \<open>QuotaSignals\<close>, \<open>Results\<close>, \<open>CooldownStore\<close> (\<open>conductor_cooldown.go\<close>, \<open>quota_signals.go\<close>,
    \<open>cooldown_state.go\<close>, \<open>cooldown_view.go\<close>): what a result does to a credential; records, restoration, views.
  \<^item> \<open>Registry\<close>, \<open>RegistryCounts\<close>, \<open>RegistryListing\<close> (\<open>model_registry.go\<close>): registration, reference counts,
    suspensions, the cached listing, projections of cooldowns with their epochs.
  \<^item> \<open>Aliases\<close>, \<open>Routing\<close> (\<open>oauth_model_alias.go\<close>, \<open>conductor_models.go\<close>): from the requested model to the
    upstream models.
  \<^item> \<open>Manager\<close>, \<open>Merge\<close>, \<open>Refreshing\<close>, \<open>Retry\<close> (\<open>conductor_lifecycle.go\<close>, \<open>conductor_selection.go\<close>,
    \<open>conductor_refresh.go\<close>, \<open>metadata_merge.go\<close>): registration, update, removal, results, quota resets,
    reconciliation with the registry, three-way merge of refreshed credentials, retry rounds.
  \<^item> \<open>Lockstep\<close>, \<open>ManagerInv\<close>, \<open>ManagerPromises\<close>: the manager and its scheduler stay in step, and what follows
    from it end to end.
  \<^item> \<open>Candidates\<close> (\<open>conductor_selection.go\<close>): the choice of a credential by the scheduler, or by a scan of the
    credentials and the configured selector where a model is routed to another name; the table of executors.
  \<^item> \<open>Execution\<close> (\<open>conductor_execution.go\<close>): \<open>Execute\<close> and \<open>ExecuteCount\<close>, in rounds over credentials and their
    models. What the outside answers (clock, context, executors, interceptors) is an \<open>environment\<close>; a panic of the
    code is an outcome. \<open>Rounds\<close>, \<open>Requests\<close>: they end, and what they do to the manager meanwhile. The loops take
    fuel, which the theorems bound: one pass more than there are credentials, one round more than the greatest
    retry limit.

  \<^bold>\<open>What is shown.\<close> Shards and scheduler: an invariant of all reachable states (indexes exact, entries timely),
  equivalence of the incremental pick with a reference evaluated from scratch, soundness and completeness of
  picks, fairness of each strategy, exactness of the errors. Results: a failure that counts blocks the credential
  until a time ahead and never shortens a running cooldown, a success unblocks, quota backoff is bounded. Registry:
  reference counts exact, the cache answers as a fresh build, late projections are refused. Manager: its scheduler
  refines its map of credentials in every reachable state, and a credential that failed is not picked before its
  time. Merges, refreshes, rules and retries: exact merges, a refresh never ends a rest, waits bounded. Execution: a round and a request end,
  a round keeps to its credentials and their number, a scan finds a credential where there is one.

  \<^bold>\<open>Modelling decisions.\<close> An operation is a function on explicit state; concurrency is the order of these
  steps, as the code's locks make them atomic. Every clock reading is an argument, in the code's order. Times are
  unbounded integers of nanoseconds (a \<open>time.Time\<close> does not overflow for dates in use; durations are added only
  to times of the clock). Counters that may wrap are 64-bit words; where an invariant needs room the theorem
  states it (\<open>room\<close>: registration epochs and generations below \<open>2 ^ 62\<close>; a load of fewer than \<open>2 ^ 61\<close>
  items). Go maps are association lists: results that would depend on their order are shown not to, or take the
  list as one possible order. Strings are lists of 8-bit characters, with ASCII case mapping and white space. A nil
  pointer is \<open>None\<close> where the code tells it apart. Errors are values.

  \<^bold>\<open>Parameters.\<close> Code that is not in the repository, or is a library of its own, is an argument: JSON bodies
  (\<open>json_bodies\<close>), the decoding of aliases, rules and expiry dates (\<open>alias_decoder\<close>, \<open>rule_decoder\<close>,
  \<open>expiry_reader\<close>), regular expressions, the result policy of plugins, random draws and fresh identifiers, the
  answers of executors.

  \<^bold>\<open>Not modelled.\<close> The executors, translators, HTTP handlers, stores, login flows, file watcher, terminal UI,
  web socket relay and plugin host move bytes between the proxy and outside services, or read configuration: the
  decisions modelled here use them only through the answers named above. Home mode (a remote scheduler reached over
  Redis: \<open>conductor_home*.go\<close>, \<open>internal/home\<close>), session affinity (\<open>SessionAffinitySelector\<close>,
  \<open>session_cache.go\<close>), plugin schedulers, streaming execution
  (\<open>conductor_stream.go\<close>) and the loop that schedules refreshes (\<open>auto_refresh_loop.go\<close>) are
  alternatives to the modelled selection and execution that need a model of their own. Logging, metrics and hooks have no effect
  on the modelled state.
\<close>

end
